(* ===== verification/Prelude.thy ===== *)
theory Prelude
  imports Main "HOL-Library.AList" "HOL-Library.Multiset"
begin

text \<open>
  What every component shares.
  \<^item> Go strings are byte lists; the helpers below are the \<^verbatim>\<open>strings\<close> and \<^verbatim>\<open>strconv\<close>
    functions the code calls (HasPrefix, HasSuffix, TrimSpace, Split, Contains, Itoa, Atoi).
    Trimming is over ASCII white space.
  \<^item> A Go map that is ranged over is an association list with distinct keys whose order is the
    order one run of the random iteration happens to visit; updates go through
    \<open>AList.update\<close>/\<open>AList.delete\<close>, so a repeated key overwrites as in Go.
  \<^item> \<open>wrap64\<close> is the two's complement wrap-around of a 64-bit \<^verbatim>\<open>int\<close>/\<^verbatim>\<open>time.Duration\<close>.
  \<^item> Times are nanoseconds since Go's zero \<^verbatim>\<open>time.Time\<close>, so 0 is the zero time.
\<close>

named_theorems farm_defs "definitions of one-line accessors that proofs unfold together"
named_theorems keys_simps "facts on the keys of association lists"

type_synonym time = int
type_synonym duration = int

subsection \<open>Durations\<close>

definition wrap64 :: "int \<Rightarrow> int" where
  "wrap64 x = signed_take_bit 63 x"

definition second_ns :: duration where "second_ns = 1000000000"
definition minute_ns :: duration where "minute_ns = 60000000000"
definition hour_ns :: duration where "hour_ns = 3600000000000"

text \<open>\<^verbatim>\<open>time.Duration(n) * unit\<close>: a wrapping 64-bit product.\<close>

definition dur_mul :: "int \<Rightarrow> duration \<Rightarrow> duration" where
  "dur_mul n u = wrap64 (n * u)"

text \<open>Go's integer division truncates towards zero.\<close>

definition go_div :: "int \<Rightarrow> int \<Rightarrow> int" where
  "go_div a b = sgn a * sgn b * (\<bar>a\<bar> div \<bar>b\<bar>)"

lemma go_div_nonneg: "0 \<le> a \<Longrightarrow> 0 < b \<Longrightarrow> go_div a b = a div b"
  by (simp add: go_div_def sgn_if)

lemma wrap64_id: "- (2 ^ 63) \<le> x \<Longrightarrow> x < 2 ^ 63 \<Longrightarrow> wrap64 x = x"
  by (simp add: wrap64_def signed_take_bit_int_eq_self)

lemma wrap64_range: "- (2 ^ 63) \<le> wrap64 x \<and> wrap64 x < 2 ^ 63"
  unfolding wrap64_def
  using signed_take_bit_int_greater_eq_minus_exp [of 63 x] signed_take_bit_int_less_exp [of 63 x]
  by simp

lemma wrap64_mod: "wrap64 x = (x + 2 ^ 63) mod 2 ^ 64 - 2 ^ 63"
  by (simp add: wrap64_def signed_take_bit_eq_take_bit_shift take_bit_eq_mod)

lemma dur_mul_minutes:
  "0 \<le> n \<Longrightarrow> n \<le> 153722867 \<Longrightarrow> dur_mul n minute_ns = n * minute_ns"
  by (simp add: dur_mul_def minute_ns_def wrap64_id)

subsection \<open>Strings\<close>

definition has_prefix :: "string \<Rightarrow> string \<Rightarrow> bool" where
  "has_prefix s p \<longleftrightarrow> take (length p) s = p"

definition has_suffix :: "string \<Rightarrow> string \<Rightarrow> bool" where
  "has_suffix s p \<longleftrightarrow> has_prefix (rev s) (rev p)"

definition trim_prefix :: "string \<Rightarrow> string \<Rightarrow> string" where
  "trim_prefix s p = (if has_prefix s p then drop (length p) s else s)"

definition trim_suffix :: "string \<Rightarrow> string \<Rightarrow> string" where
  "trim_suffix s p = (if has_suffix s p then take (length s - length p) s else s)"

definition is_space :: "char \<Rightarrow> bool" where
  "is_space c \<longleftrightarrow> c \<in> set [CHR '' '', CHR 0x09, CHR 0x0A, CHR 0x0B, CHR 0x0C, CHR 0x0D]"

definition trim_space :: "string \<Rightarrow> string" where
  "trim_space s = rev (dropWhile is_space (rev (dropWhile is_space s)))"

text \<open>\<^verbatim>\<open>strings.TrimRight(s, "/")\<close>: every trailing slash goes.\<close>

definition trim_right_slash :: "string \<Rightarrow> string" where
  "trim_right_slash s = rev (dropWhile (\<lambda>c. c = CHR ''/'') (rev s))"

fun split_on :: "char \<Rightarrow> string \<Rightarrow> string list" where
  "split_on c [] = [[]]"
| "split_on c (x # xs) =
     (if x = c then [] # split_on c xs
      else case split_on c xs of [] \<Rightarrow> [[x]] | w # ws \<Rightarrow> (x # w) # ws)"

fun str_fields :: "string \<Rightarrow> string list" where
  "str_fields [] = []"
| "str_fields (c # cs) =
     (if is_space c then str_fields cs
      else case cs of
        [] \<Rightarrow> [[c]]
      | d # ds \<Rightarrow>
          if is_space d then [c] # str_fields cs
          else (case str_fields cs of [] \<Rightarrow> [[c]] | w # ws \<Rightarrow> (c # w) # ws))"

fun contains_str :: "string \<Rightarrow> string \<Rightarrow> bool" where
  "contains_str [] p = (p = [])"
| "contains_str (x # xs) p = (has_prefix (x # xs) p \<or> contains_str xs p)"

lemma has_prefix_append [simp]: "has_prefix (p @ s) p"
  by (simp add: has_prefix_def)

lemma has_prefix_iff: "has_prefix s p \<longleftrightarrow> (\<exists>t. s = p @ t)"
proof
  assume "has_prefix s p"
  then have "s = p @ drop (length p) s"
    by (metis append_take_drop_id has_prefix_def)
  then show "\<exists>t. s = p @ t" ..
qed (auto simp: has_prefix_def)

lemma has_suffix_append [simp]: "has_suffix (s @ p) p"
  by (simp add: has_suffix_def)

lemma trim_prefix_append [simp]: "trim_prefix (p @ s) p = s"
  by (simp add: trim_prefix_def)

lemma trim_suffix_append [simp]: "trim_suffix (s @ p) p = s"
  by (simp add: trim_suffix_def)

lemma trim_space_id:
  assumes "s \<noteq> []" and "\<not> is_space (hd s)" and "\<not> is_space (last s)"
  shows "trim_space s = s"
proof -
  have "dropWhile is_space s = s"
    using assms(1,2) by (cases s) simp_all
  moreover have "dropWhile is_space (rev s) = rev s"
    using assms(1,3) by (cases s rule: rev_cases) simp_all
  ultimately show ?thesis by (simp add: trim_space_def)
qed

subsection \<open>Decimal numbers\<close>

definition digit_char :: "nat \<Rightarrow> char" where
  "digit_char d = char_of (48 + d)"

definition digit_val :: "char \<Rightarrow> nat option" where
  "digit_val c = (let n = (of_char c :: nat) in if 48 \<le> n \<and> n \<le> 57 then Some (n - 48) else None)"

fun itoa_nat :: "nat \<Rightarrow> string" where
  "itoa_nat n = (if n < 10 then [digit_char n] else itoa_nat (n div 10) @ [digit_char (n mod 10)])"

declare itoa_nat.simps [simp del]

definition itoa :: "int \<Rightarrow> string" where
  "itoa i = (if i < 0 then CHR ''-'' # itoa_nat (nat (- i)) else itoa_nat (nat i))"

fun digits_val :: "nat \<Rightarrow> string \<Rightarrow> nat option" where
  "digits_val acc [] = Some acc"
| "digits_val acc (c # cs) =
     (case digit_val c of None \<Rightarrow> None | Some d \<Rightarrow> digits_val (10 * acc + d) cs)"

text \<open>\<^verbatim>\<open>strconv.Atoi\<close>: an optional sign, at least one digit, and a value that fits in 64 bits.\<close>

definition atoi :: "string \<Rightarrow> int option" where
  "atoi s =
     (let neg = (s \<noteq> [] \<and> hd s = CHR ''-'');
          body = (if s \<noteq> [] \<and> (hd s = CHR ''-'' \<or> hd s = CHR ''+'') then tl s else s)
      in if body = [] then None
         else case digits_val 0 body of
             None \<Rightarrow> None
           | Some n \<Rightarrow>
               (let v = (if neg then - int n else int n)
                in if - (2 ^ 63) \<le> v \<and> v < 2 ^ 63 then Some v else None))"

lemma digit_val_char [simp]: "d < 10 \<Longrightarrow> digit_val (digit_char d) = Some d"
  by (simp add: digit_val_def digit_char_def Let_def of_char_of)

lemma itoa_nat_nonempty [simp]: "itoa_nat n \<noteq> []"
  by (subst itoa_nat.simps) simp

lemma digit_char_numerals [simp]:
  "digit_char 0 = CHR ''0''" "digit_char (Suc 0) = CHR ''1''" "digit_char 2 = CHR ''2''"
  "digit_char 3 = CHR ''3''" "digit_char 4 = CHR ''4''" "digit_char 5 = CHR ''5''"
  "digit_char 6 = CHR ''6''" "digit_char 7 = CHR ''7''" "digit_char 8 = CHR ''8''"
  "digit_char 9 = CHR ''9''"
  by (simp_all add: digit_char_def char_of_def bit_iff_odd)

lemma digits_val_append:
  "digits_val a (xs @ ys) =
     (case digits_val a xs of None \<Rightarrow> None | Some b \<Rightarrow> digits_val b ys)"
  by (induction a xs rule: digits_val.induct) (auto split: option.splits)

lemma digits_val_itoa: "digits_val 0 (itoa_nat n) = Some n"
proof (induction n rule: itoa_nat.induct)
  case (1 n)
  show ?case
  proof (cases "n < 10")
    case True
    then show ?thesis by (simp add: itoa_nat.simps [of n])
  next
    case False
    with 1 show ?thesis by (simp add: itoa_nat.simps [of n] digits_val_append)
  qed
qed

lemma itoa_nat_inj [simp]: "itoa_nat m = itoa_nat n \<longleftrightarrow> m = n"
  by (metis digits_val_itoa option.inject)

lemma itoa_nat_digits: "c \<in> set (itoa_nat n) \<Longrightarrow> c \<in> digit_char ` {..<10}"
proof (induction n rule: itoa_nat.induct)
  case (1 n)
  show ?case
  proof (cases "n < 10")
    case True
    with 1 show ?thesis by (simp add: itoa_nat.simps [of n])
  next
    case False
    with 1 show ?thesis by (auto simp: itoa_nat.simps [of n])
  qed
qed

lemma digit_char_props:
  "d < 10 \<Longrightarrow> \<not> is_space (digit_char d) \<and> digit_char d \<noteq> CHR ''-'' \<and> digit_char d \<noteq> CHR ''+''"
proof -
  assume "d < 10"
  then have "d \<in> {0, 1, 2, 3, 4, 5, 6, 7, 8, 9}" by auto
  then show ?thesis by (auto simp: is_space_def digit_char_def char_of_def)
qed

lemma itoa_nat_hd:
  "\<not> is_space (hd (itoa_nat n)) \<and> hd (itoa_nat n) \<noteq> CHR ''-'' \<and> hd (itoa_nat n) \<noteq> CHR ''+''"
  using itoa_nat_digits [OF hd_in_set [OF itoa_nat_nonempty], of n]
  by (elim imageE) (simp add: digit_char_props)

lemma itoa_nat_last: "\<not> is_space (last (itoa_nat n))"
  using itoa_nat_digits [OF last_in_set [OF itoa_nat_nonempty], of n]
  by (elim imageE) (simp add: digit_char_props)

lemma itoa_nonempty [simp]: "itoa i \<noteq> []"
  by (simp add: itoa_def)

lemma atoi_itoa: "- (2 ^ 63) \<le> i \<Longrightarrow> i < 2 ^ 63 \<Longrightarrow> atoi (itoa i) = Some i"
  using itoa_nat_hd by (auto simp: atoi_def itoa_def Let_def digits_val_itoa)

lemma itoa_inj: "- (2 ^ 63) \<le> i \<Longrightarrow> i < 2 ^ 63 \<Longrightarrow> - (2 ^ 63) \<le> j \<Longrightarrow> j < 2 ^ 63 \<Longrightarrow>
    itoa i = itoa j \<longleftrightarrow> i = j"
  by (metis atoi_itoa option.inject)

lemma trim_space_itoa_newline: "trim_space (itoa i @ [CHR 0x0A]) = itoa i"
proof -
  have h: "\<not> is_space (hd (itoa i))"
    using itoa_nat_hd by (auto simp: itoa_def is_space_def)
  have l: "\<not> is_space (last (itoa i))"
    using itoa_nat_last by (simp add: itoa_def)
  have "dropWhile is_space (itoa i @ [CHR 0x0A]) = itoa i @ [CHR 0x0A]"
    using h by (cases "itoa i") simp_all
  moreover have "dropWhile is_space (rev (itoa i)) = rev (itoa i)"
    using l by (cases "itoa i" rule: rev_cases) simp_all
  ultimately show ?thesis
    by (simp add: trim_space_def is_space_def)
qed

subsection \<open>Go maps as association lists\<close>

definition keys_of :: "('k \<times> 'v) list \<Rightarrow> 'k list" where
  "keys_of m = map fst m"

text \<open>A write through a pointer held in the map: the entry of one key changes in place.\<close>

definition upd_entry :: "'k \<Rightarrow> ('v \<Rightarrow> 'v) \<Rightarrow> ('k \<times> 'v) list \<Rightarrow> ('k \<times> 'v) list" where
  "upd_entry k f m = map (\<lambda>(k', v). if k' = k then (k', f v) else (k', v)) m"

lemma keys_upd_entry [simp]: "map fst (upd_entry k f m) = map fst m"
  by (induction m) (auto simp: upd_entry_def)

lemma length_upd_entry [simp]: "length (upd_entry k f m) = length m"
  by (simp add: upd_entry_def)

lemma map_of_upd_entry:
  "map_of (upd_entry k f m) = (\<lambda>k'. if k' = k then map_option f (map_of m k) else map_of m k')"
  by (induction m) (auto simp: upd_entry_def fun_eq_iff)

lemma upd_entry_absent: "k \<notin> fst ` set m \<Longrightarrow> upd_entry k f m = m"
  by (induction m) (auto simp: upd_entry_def)

lemma set_upd_entry:
  "(k', v') \<in> set (upd_entry k f m) \<longleftrightarrow>
     (if k' = k then (\<exists>v. (k, v) \<in> set m \<and> v' = f v) else (k', v') \<in> set m)"
  by (force simp: upd_entry_def split: if_splits)

lemma set_alist_update:
  "distinct (map fst m) \<Longrightarrow>
   (k', v') \<in> set (AList.update k v m) \<longleftrightarrow> (if k' = k then v' = v else (k', v') \<in> set m)"
  by (induction m) (auto simp: image_iff)

lemma set_alist_delete:
  "(k', v') \<in> set (AList.delete k m) \<longleftrightarrow> k' \<noteq> k \<and> (k', v') \<in> set m"
  by (auto simp: AList.delete_eq)

lemma keys_delete: "map fst (AList.delete k m) = filter (\<lambda>x. x \<noteq> k) (map fst m)"
  by (induction m) (auto simp: AList.delete_eq)

lemma length_alist_update_fresh:
  "k \<notin> fst ` set m \<Longrightarrow> AList.update k v m = m @ [(k, v)]"
  by (induction m) auto

lemma map_of_set_iff:
  "distinct (map fst m) \<Longrightarrow> map_of m k = Some v \<longleftrightarrow> (k, v) \<in> set m"
  by (rule map_of_eq_Some_iff)

lemmas alist_simps = map_of_upd_entry update_conv' delete_conv' set_upd_entry
  set_alist_update set_alist_delete distinct_update distinct_delete

text \<open>The first element of a range loop that satisfies a test, as \<^verbatim>\<open>for ... if ... return\<close> finds it.\<close>

lemma find_SomeD: "List.find P xs = Some x \<Longrightarrow> x \<in> set xs \<and> P x"
  by (auto simp: find_Some_iff)

lemma find_NoneD: "List.find P xs = None \<Longrightarrow> x \<in> set xs \<Longrightarrow> \<not> P x"
  by (auto simp: find_None_iff)

lemma length_filter_upd_le:
  "length (filter P (map f xs)) = length (filter (P \<circ> f) xs)"
  by (simp add: filter_map)

end
