(* ===== verification/DeviceState.thy ===== *)
theory DeviceState
  imports Prelude
begin

text \<open>
  \<^verbatim>\<open>internal/pool/state.go\<close>: the lifecycle states of a pool instance, their names, the table of
  allowed transitions and the JSON form. The Go type is an \<^verbatim>\<open>int\<close> with seven named values; the
  datatype has exactly these, in the order of the \<^verbatim>\<open>iota\<close> block.
\<close>

datatype device_state =
    StateCreating | StateBooting | StateWarm | StateAllocated | StateResetting
  | StateDestroying | StateError

text \<open>The integer behind a state, which orders the states as Go compares them.\<close>

fun state_index :: "device_state \<Rightarrow> nat" where
  "state_index StateCreating = 0"
| "state_index StateBooting = 1"
| "state_index StateWarm = 2"
| "state_index StateAllocated = 3"
| "state_index StateResetting = 4"
| "state_index StateDestroying = 5"
| "state_index StateError = 6"

lemma state_index_inj: "state_index a = state_index b \<Longrightarrow> a = b"
  by (cases a; cases b) simp_all

instantiation device_state :: linorder
begin

definition less_eq_device_state :: "device_state \<Rightarrow> device_state \<Rightarrow> bool" where
  "less_eq_device_state a b \<longleftrightarrow> state_index a \<le> state_index b"

definition less_device_state :: "device_state \<Rightarrow> device_state \<Rightarrow> bool" where
  "less_device_state a b \<longleftrightarrow> state_index a < state_index b"

instance
  by standard
    (auto simp: less_eq_device_state_def less_device_state_def dest: state_index_inj)

end

definition all_states :: "device_state list" where
  "all_states = [StateCreating, StateBooting, StateWarm, StateAllocated, StateResetting,
     StateDestroying, StateError]"

lemma set_all_states: "set all_states = UNIV"
  using device_state.exhaust by (auto simp: all_states_def)

fun state_name :: "device_state \<Rightarrow> string" where
  "state_name StateCreating = ''creating''"
| "state_name StateBooting = ''booting''"
| "state_name StateWarm = ''warm''"
| "state_name StateAllocated = ''allocated''"
| "state_name StateResetting = ''resetting''"
| "state_name StateDestroying = ''destroying''"
| "state_name StateError = ''error''"

fun valid_transitions :: "device_state \<Rightarrow> device_state list" where
  "valid_transitions StateCreating = [StateBooting, StateWarm, StateError, StateDestroying]"
| "valid_transitions StateBooting = [StateWarm, StateError, StateDestroying]"
| "valid_transitions StateWarm = [StateAllocated, StateDestroying, StateError]"
| "valid_transitions StateAllocated = [StateResetting, StateDestroying, StateError]"
| "valid_transitions StateResetting = [StateWarm, StateError, StateDestroying]"
| "valid_transitions StateError = [StateDestroying, StateBooting, StateResetting, StateWarm]"
| "valid_transitions StateDestroying = []"

definition can_transition_to :: "device_state \<Rightarrow> device_state \<Rightarrow> bool" where
  "can_transition_to s target = list_ex (\<lambda>a. a = target) (valid_transitions s)"

definition marshal_state :: "device_state \<Rightarrow> string" where
  "marshal_state s = CHR 0x22 # state_name s @ [CHR 0x22]"

text \<open>The quote stripping of \<^verbatim>\<open>UnmarshalJSON\<close>, shared with the session states.\<close>

definition strip_quotes :: "string \<Rightarrow> string" where
  "strip_quotes d =
     (if 2 \<le> length d \<and> hd d = CHR 0x22 then take (length d - 2) (tl d) else d)"

definition unmarshal_state :: "string \<Rightarrow> device_state option" where
  "unmarshal_state d = List.find (\<lambda>s. state_name s = strip_quotes d) all_states"

subsection \<open>Lemmas\<close>

lemma can_transition_simps [simp]:
  "can_transition_to StateCreating t \<longleftrightarrow> t \<in> {StateBooting, StateWarm, StateError, StateDestroying}"
  "can_transition_to StateBooting t \<longleftrightarrow> t \<in> {StateWarm, StateError, StateDestroying}"
  "can_transition_to StateWarm t \<longleftrightarrow> t \<in> {StateAllocated, StateDestroying, StateError}"
  "can_transition_to StateAllocated t \<longleftrightarrow> t \<in> {StateResetting, StateDestroying, StateError}"
  "can_transition_to StateResetting t \<longleftrightarrow> t \<in> {StateWarm, StateError, StateDestroying}"
  "can_transition_to StateError t \<longleftrightarrow> t \<in> {StateDestroying, StateBooting, StateResetting, StateWarm}"
  "\<not> can_transition_to StateDestroying t"
  by (auto simp: can_transition_to_def)

lemma state_name_inj [simp]: "state_name a = state_name b \<longleftrightarrow> a = b"
  by (cases a; cases b) simp_all

lemma strip_quotes_quoted [simp]: "strip_quotes (CHR 0x22 # s @ [CHR 0x22]) = s"
  by (simp add: strip_quotes_def)

lemma only_warm_or_error_reaches: "can_transition_to s StateAllocated \<Longrightarrow> s = StateWarm"
  by (cases s) simp_all

lemma unmarshal_marshal: "unmarshal_state (marshal_state s) = Some s"
  unfolding unmarshal_state_def marshal_state_def strip_quotes_quoted
  by (cases s) (simp_all add: all_states_def)

lemma unmarshal_name: "unmarshal_state d = Some s \<Longrightarrow> state_name s = strip_quotes d"
  by (auto simp: unmarshal_state_def dest: find_SomeD)

text \<open>The JSON form of a state decodes to that state, and decoding accepts nothing but the
  name of the state it returns (quoted or bare).\<close>

theorem state_json_roundtrip:
  "unmarshal_state (marshal_state s) = Some s \<and>
   (unmarshal_state d = Some t \<longleftrightarrow> strip_quotes d = state_name t)"
proof -
  have "unmarshal_state d = Some t" if "strip_quotes d = state_name t"
    using that by (cases t) (simp_all add: unmarshal_state_def all_states_def)
  then show ?thesis using unmarshal_marshal unmarshal_name by fastforce
qed

inductive lifecycle :: "device_state \<Rightarrow> device_state \<Rightarrow> bool" where
  stay: "lifecycle s s"
| move: "lifecycle s t \<Longrightarrow> can_transition_to t u \<Longrightarrow> lifecycle s u"

inductive_simps lifecycle_destroying: "lifecycle s StateDestroying"

lemma lifecycle_trans: "lifecycle t u \<Longrightarrow> lifecycle s t \<Longrightarrow> lifecycle s u"
  by (induction rule: lifecycle.induct) (auto intro: lifecycle.intros)

lemma lifecycle_step: "can_transition_to s t \<Longrightarrow> lifecycle s t"
  by (rule lifecycle.move [OF lifecycle.stay])

lemma lifecycle_from_destroying: "lifecycle s t \<Longrightarrow> s = StateDestroying \<Longrightarrow> t = StateDestroying"
  by (induction rule: lifecycle.induct) auto

lemma lifecycle_not_to_creating: "lifecycle s t \<Longrightarrow> t = StateCreating \<Longrightarrow> s = StateCreating"
proof (induction rule: lifecycle.induct)
  case (move s t u)
  then show ?case by (cases t) auto
qed simp

text \<open>Shape of the lifecycle. Destroying is final; from every other state a shutdown is one
  step away; an instance becomes Allocated only out of Warm; and every state but Destroying can
  be brought back to Warm.\<close>

theorem lifecycle_shape:
  "(lifecycle StateDestroying t \<longleftrightarrow> t = StateDestroying) \<and>
   (can_transition_to s StateDestroying \<longleftrightarrow> s \<noteq> StateDestroying) \<and>
   (can_transition_to s StateAllocated \<longleftrightarrow> s = StateWarm) \<and>
   (lifecycle s StateWarm \<longleftrightarrow> s \<noteq> StateDestroying)"
proof -
  have 1: "lifecycle StateDestroying t \<longleftrightarrow> t = StateDestroying"
    using lifecycle_from_destroying lifecycle.stay by blast
  have 2: "lifecycle StateAllocated StateWarm"
    by (rule lifecycle.move [OF lifecycle_step, of _ StateResetting]) simp_all
  have 3: "lifecycle s StateWarm \<longleftrightarrow> s \<noteq> StateDestroying"
  proof (cases "s = StateDestroying")
    case True
    then show ?thesis using lifecycle_from_destroying by blast
  next
    case False
    then show ?thesis using 2 lifecycle.stay by (cases s) (auto intro: lifecycle_step)
  qed
  show ?thesis using 1 3 by (cases s) auto
qed

end
