(* ===== verification/Adb.thy ===== *)
theory Adb
  imports Prelude "HOL-Library.State_Monad"
begin

text \<open>
  \<^verbatim>\<open>internal/android/adb.go\<close> and the part of \<^verbatim>\<open>exec.go\<close> it sits on. A command line is a list of
  strings; the outside world is a runner: given the commands run so far and the next one it says
  what that one prints, or fails. Nothing is assumed of a runner, so a theorem for all runners
  covers every behaviour of the tools. Operations are in the state monad over the history of
  commands, which records what was executed and in which order. The text of an error is not kept:
  \<open>None\<close> is \<^verbatim>\<open>err != nil\<close>.
\<close>

type_synonym cmd = "string list"
type_synonym 'a io = "(cmd list, 'a) state"

datatype signal_result = SigOk | SigDone | SigErr

record adb_client =
  adb_path :: string
  emulator_path :: string
  run_oracle :: "cmd list \<Rightarrow> cmd \<Rightarrow> string option"
  start_oracle :: "cmd list \<Rightarrow> cmd \<Rightarrow> nat option"
  signal_oracle :: "cmd list \<Rightarrow> nat \<Rightarrow> string \<Rightarrow> signal_result"
  boot_polls :: "int \<Rightarrow> nat"

text \<open>\<open>boot_polls timeout\<close> is how often a wait of that length gets to poll the device.
  \<^verbatim>\<open>CommandRunner.Run\<close> waits for the output; \<^verbatim>\<open>CommandRunner.Start\<close> leaves a process behind and
  returns its pid.\<close>

definition run_cmd :: "adb_client \<Rightarrow> cmd \<Rightarrow> string option io" where
  "run_cmd c cmd = State (\<lambda>h. (run_oracle c h cmd, h @ [cmd]))"

definition start_cmd :: "adb_client \<Rightarrow> cmd \<Rightarrow> nat option io" where
  "start_cmd c cmd = State (\<lambda>h. (start_oracle c h cmd, h @ [cmd]))"

text \<open>Signals to a process are kept in the history too. \<open>SigDone\<close> is the error \<^verbatim>\<open>isProcessDone\<close>
  recognises (already finished, or not permitted); for the wait of at most ten seconds \<open>SigOk\<close> means
  that the process ended in time.\<close>

definition signal_proc :: "adb_client \<Rightarrow> nat \<Rightarrow> string \<Rightarrow> signal_result io" where
  "signal_proc c pid sig = State (\<lambda>h. (signal_oracle c h pid sig, h @ [[''kill'', sig, itoa_nat pid]]))"

lemma run_signal_proc [simp]:
  "run_state (signal_proc c pid sig) h =
     (signal_oracle c h pid sig, h @ [[''kill'', sig, itoa_nat pid]])"
  by (simp add: signal_proc_def)

lemma run_run_cmd [simp]: "run_state (run_cmd c cmd) h = (run_oracle c h cmd, h @ [cmd])"
  by (simp add: run_cmd_def)

lemma run_start_cmd [simp]: "run_state (start_cmd c cmd) h = (start_oracle c h cmd, h @ [cmd])"
  by (simp add: start_cmd_def)

definition nl :: char where "nl = CHR 0x0A"

subsection \<open>adb devices\<close>

fun device_line :: "string \<Rightarrow> (string \<times> string) option" where
  "device_line l = (case str_fields (trim_space l) of s # st # _ \<Rightarrow> Some (s, st) | _ \<Rightarrow> None)"

definition parse_devices :: "string \<Rightarrow> (string \<times> string) list" where
  "parse_devices out =
     List.map_filter device_line (tl (split_on nl (trim_space out)))"

definition adb_devices :: "adb_client \<Rightarrow> (string \<times> string) list option io" where
  "adb_devices c = do {
     out \<leftarrow> run_cmd c [adb_path c, ''devices''];
     State_Monad.return (map_option parse_devices out) }"

subsection \<open>Commands on one device\<close>

definition on_dev :: "adb_client \<Rightarrow> string \<Rightarrow> string list \<Rightarrow> cmd" where
  "on_dev c serial args = adb_path c # ''-s'' # serial # args"

definition adb_wait_for_device :: "adb_client \<Rightarrow> string \<Rightarrow> bool io" where
  "adb_wait_for_device c serial = do {
     out \<leftarrow> run_cmd c (on_dev c serial [''wait-for-device'']);
     State_Monad.return (out \<noteq> None) }"

definition adb_get_prop :: "adb_client \<Rightarrow> string \<Rightarrow> string \<Rightarrow> string option io" where
  "adb_get_prop c serial prop = do {
     out \<leftarrow> run_cmd c (on_dev c serial [''shell'', ''getprop'', prop]);
     State_Monad.return (map_option trim_space out) }"

text \<open>\<^verbatim>\<open>WaitForBoot\<close>: one poll per second until the deadline. \<open>polls\<close> is how many times the loop
  finds the deadline not yet passed and the context not cancelled; both exits are errors.\<close>

fun adb_wait_for_boot :: "adb_client \<Rightarrow> string \<Rightarrow> nat \<Rightarrow> bool io" where
  "adb_wait_for_boot c serial 0 = State_Monad.return False"
| "adb_wait_for_boot c serial (Suc polls) = do {
     p \<leftarrow> adb_get_prop c serial ''sys.boot_completed'';
     if map_option trim_space p = Some ''1'' then State_Monad.return True
     else adb_wait_for_boot c serial polls }"

definition adb_shell :: "adb_client \<Rightarrow> string \<Rightarrow> string \<Rightarrow> string option io" where
  "adb_shell c serial command = do {
     out \<leftarrow> run_cmd c (on_dev c serial [''shell'', command]);
     State_Monad.return (map_option trim_space out) }"

definition adb_install :: "adb_client \<Rightarrow> string \<Rightarrow> string \<Rightarrow> bool \<Rightarrow> bool io" where
  "adb_install c serial apk grant_perms = do {
     out \<leftarrow> run_cmd c (on_dev c serial ([''install''] @ (if grant_perms then [''-g''] else []) @ [apk]));
     State_Monad.return (out \<noteq> None) }"

definition adb_uninstall :: "adb_client \<Rightarrow> string \<Rightarrow> string \<Rightarrow> bool io" where
  "adb_uninstall c serial pkg = do {
     out \<leftarrow> run_cmd c (on_dev c serial [''uninstall'', pkg]);
     State_Monad.return (out \<noteq> None) }"

definition adb_forward :: "adb_client \<Rightarrow> string \<Rightarrow> int \<Rightarrow> int \<Rightarrow> bool io" where
  "adb_forward c serial local remote = do {
     out \<leftarrow> run_cmd c (on_dev c serial [''forward'', ''tcp:'' @ itoa local, ''tcp:'' @ itoa remote]);
     State_Monad.return (out \<noteq> None) }"

definition adb_forward_remove_all :: "adb_client \<Rightarrow> string \<Rightarrow> unit io" where
  "adb_forward_remove_all c serial = do {
     out \<leftarrow> run_cmd c (on_dev c serial [''forward'', ''--remove-all'']);
     State_Monad.return () }"

definition adb_push :: "adb_client \<Rightarrow> string \<Rightarrow> string \<Rightarrow> string \<Rightarrow> bool io" where
  "adb_push c serial local remote = do {
     out \<leftarrow> run_cmd c (on_dev c serial [''push'', local, remote]);
     State_Monad.return (out \<noteq> None) }"

definition adb_pull :: "adb_client \<Rightarrow> string \<Rightarrow> string \<Rightarrow> string \<Rightarrow> bool io" where
  "adb_pull c serial remote local = do {
     out \<leftarrow> run_cmd c (on_dev c serial [''pull'', remote, local]);
     State_Monad.return (out \<noteq> None) }"

definition adb_screencap :: "adb_client \<Rightarrow> string \<Rightarrow> string option io" where
  "adb_screencap c serial = run_cmd c (on_dev c serial [''exec-out'', ''screencap'', ''-p''])"

definition adb_emu_command :: "adb_client \<Rightarrow> string \<Rightarrow> string \<Rightarrow> string option io" where
  "adb_emu_command c serial command = do {
     out \<leftarrow> run_cmd c (on_dev c serial [''emu'', command]);
     State_Monad.return (map_option trim_space out) }"

definition package_line :: "string \<Rightarrow> string option" where
  "package_line l =
     (if has_prefix (trim_space l) ''package:'' then Some (trim_prefix (trim_space l) ''package:'')
      else None)"

definition adb_list_third_party :: "adb_client \<Rightarrow> string \<Rightarrow> string list option io" where
  "adb_list_third_party c serial = do {
     out \<leftarrow> adb_shell c serial ''pm list packages -3'';
     State_Monad.return (map_option (\<lambda>txt. List.map_filter package_line (split_on nl txt)) out) }"

fun uninstall_all :: "adb_client \<Rightarrow> string \<Rightarrow> string list \<Rightarrow> unit io" where
  "uninstall_all c serial [] = State_Monad.return ()"
| "uninstall_all c serial (p # ps) = do { ok \<leftarrow> adb_uninstall c serial p; uninstall_all c serial ps }"

lemmas adb_defs = adb_devices_def adb_wait_for_device_def adb_get_prop_def adb_shell_def
  adb_install_def adb_uninstall_def adb_forward_def adb_forward_remove_all_def adb_push_def
  adb_pull_def adb_screencap_def adb_emu_command_def adb_list_third_party_def

subsection \<open>Which device a computation talks to\<close>

text \<open>\<open>issues P m\<close>: whatever the world answers, \<open>m\<close> only appends commands with \<open>P\<close> to the
  history. \<open>only_dev c serial\<close> is the instance for the commands that name one device.\<close>

definition issues :: "(cmd \<Rightarrow> bool) \<Rightarrow> 'a io \<Rightarrow> bool" where
  "issues P m \<longleftrightarrow> (\<forall>h. \<exists>cs. snd (run_state m h) = h @ cs \<and> list_all P cs)"

definition for_dev :: "adb_client \<Rightarrow> string \<Rightarrow> cmd \<Rightarrow> bool" where
  "for_dev c serial cmd \<longleftrightarrow> take 3 cmd = [adb_path c, ''-s'', serial]"

abbreviation only_dev :: "adb_client \<Rightarrow> string \<Rightarrow> 'a io \<Rightarrow> bool" where
  "only_dev c serial \<equiv> issues (for_dev c serial)"

named_theorems issues_intros "rules that show which commands a computation issues"

lemma issuesD: "issues P m \<Longrightarrow> run_state m h = (x, h') \<Longrightarrow> \<exists>cs. h' = h @ cs \<and> list_all P cs"
  unfolding issues_def by (metis snd_conv)

lemma issues_return [issues_intros]: "issues P (State_Monad.return x)"
  by (simp add: issues_def)

lemma issues_bind [issues_intros]:
  assumes "issues P m" and "\<And>x. issues P (f x)"
  shows "issues P (State_Monad.bind m f)"
  unfolding issues_def
proof
  fix h
  obtain x h1 where m: "run_state m h = (x, h1)" by (cases "run_state m h") auto
  from issuesD [OF assms(1) m] obtain cs where cs: "h1 = h @ cs" "list_all P cs" by blast
  obtain ds where ds: "snd (run_state (f x) h1) = h1 @ ds" "list_all P ds"
    using assms(2) unfolding issues_def by blast
  have "snd (run_state (State_Monad.bind m f) h) = h @ (cs @ ds)"
    using m cs(1) ds(1) by simp
  with cs(2) ds(2)
  show "\<exists>cs. snd (run_state (State_Monad.bind m f) h) = h @ cs \<and> list_all P cs"
    by (intro exI [of _ "cs @ ds"]) auto
qed

lemma issues_mono: "issues P m \<Longrightarrow> (\<And>cmd. P cmd \<Longrightarrow> Q cmd) \<Longrightarrow> issues Q m"
  unfolding issues_def by (metis list.pred_mono_strong)

lemma issues_run_cmd: "P cmd \<Longrightarrow> issues P (run_cmd c cmd)"
  by (simp add: issues_def)

lemma issues_start_cmd: "P cmd \<Longrightarrow> issues P (start_cmd c cmd)"
  by (simp add: issues_def)

lemma issues_signal_proc: "P [''kill'', sig, itoa_nat pid] \<Longrightarrow> issues P (signal_proc c pid sig)"
  by (simp add: issues_def)

lemma only_dev_run [issues_intros]: "only_dev c serial (run_cmd c (on_dev c serial args))"
  by (rule issues_run_cmd) (simp add: for_dev_def on_dev_def)

lemma issues_if [issues_intros]:
  "(b \<Longrightarrow> issues P m) \<Longrightarrow> (\<not> b \<Longrightarrow> issues P m') \<Longrightarrow> issues P (if b then m else m')"
  by simp

lemma issues_option [issues_intros]:
  "(x = None \<Longrightarrow> issues P m) \<Longrightarrow> (\<And>y. x = Some y \<Longrightarrow> issues P (f y)) \<Longrightarrow>
   issues P (case x of None \<Rightarrow> m | Some y \<Rightarrow> f y)"
  by (cases x) simp_all

lemma only_dev_adb [issues_intros]:
  "only_dev c s (adb_wait_for_device c s)" "only_dev c s (adb_get_prop c s p)"
  "only_dev c s (adb_shell c s command)" "only_dev c s (adb_install c s apk g)"
  "only_dev c s (adb_uninstall c s pkg)" "only_dev c s (adb_forward c s l r)"
  "only_dev c s (adb_forward_remove_all c s)" "only_dev c s (adb_push c s lp rp)"
  "only_dev c s (adb_pull c s rp lp)" "only_dev c s (adb_screencap c s)"
  "only_dev c s (adb_emu_command c s command)"
  unfolding adb_defs by (intro issues_intros)+

lemma only_dev_list_third_party [issues_intros]: "only_dev c s (adb_list_third_party c s)"
  unfolding adb_list_third_party_def by (intro issues_intros)

lemma only_dev_uninstall_all [issues_intros]: "only_dev c s (uninstall_all c s ps)"
  by (induction c s ps rule: uninstall_all.induct) (auto intro: issues_intros)

lemma only_dev_wait_for_boot [issues_intros]: "only_dev c s (adb_wait_for_boot c s n)"
  by (induction c s n rule: adb_wait_for_boot.induct) (auto intro: issues_intros)

end
