(* ===== verification/Ports.thy ===== *)
theory Ports
  imports Prelude
begin

text \<open>
  \<^verbatim>\<open>internal/android/port.go\<close>: the allocator of console/ADB port pairs. \<open>in_use\<close> lists the
  console ports whose map entry is present (the code only ever stores \<^verbatim>\<open>true\<close>). The theory also
  holds the interface \<open>resource_pool\<close>: what a client of any allocator relies on (a granted
  resource was free, releasing frees exactly it), with the lemma that no run of operations
  grants one resource twice.
\<close>

subsection \<open>The interface of an allocator\<close>

locale resource_pool =
  fixes grant :: "'s \<Rightarrow> ('r \<times> 's) option"
    and give_back :: "'r \<Rightarrow> 's \<Rightarrow> 's"
    and held :: "'s \<Rightarrow> 'r set"
    and inv :: "'s \<Rightarrow> bool"
  assumes grant_fresh: "inv s \<Longrightarrow> grant s = Some (r, s') \<Longrightarrow> r \<notin> held s"
    and grant_held: "inv s \<Longrightarrow> grant s = Some (r, s') \<Longrightarrow> held s' = insert r (held s)"
    and grant_inv: "inv s \<Longrightarrow> grant s = Some (r, s') \<Longrightarrow> inv s'"
    and give_back_held: "inv s \<Longrightarrow> held (give_back r s) = held s - {r}"
    and give_back_inv: "inv s \<Longrightarrow> inv (give_back r s)"
begin

text \<open>A client keeps a ledger of what it was granted and has not returned.\<close>

inductive ledger :: "'s \<Rightarrow> 'r list \<Rightarrow> bool" where
  start: "inv s \<Longrightarrow> held s = {} \<Longrightarrow> ledger s []"
| take: "ledger s rs \<Longrightarrow> grant s = Some (r, s') \<Longrightarrow> ledger s' (r # rs)"
| put: "ledger s rs \<Longrightarrow> r \<in> set rs \<Longrightarrow> ledger (give_back r s) (removeAll r rs)"

lemma ledger_exact: "ledger s rs \<Longrightarrow> inv s \<and> held s = set rs \<and> distinct rs"
proof (induction rule: ledger.induct)
  case (take s rs r s')
  then show ?case using grant_fresh grant_held grant_inv by fastforce
next
  case (put s rs r)
  then show ?case by (simp add: give_back_held give_back_inv distinct_removeAll)
qed simp

lemma never_granted_twice: "ledger s rs \<Longrightarrow> grant s = Some (r, s') \<Longrightarrow> r \<notin> set rs"
  using ledger_exact grant_fresh by blast

end

subsection \<open>The port allocator\<close>

record port_pair =
  console :: int
  adb_port :: int

record port_allocator =
  min_port :: int
  max_port :: int
  in_use :: "int list"

datatype port_error = NoPorts int int nat int

definition new_port_allocator :: "int \<Rightarrow> int \<Rightarrow> port_allocator" where
  "new_port_allocator lo hi =
     \<lparr>min_port = (if lo mod 2 \<noteq> 0 then lo + 1 else lo), max_port = hi, in_use = []\<rparr>"

text \<open>The loop \<^verbatim>\<open>for port := min; port < max; port += 2\<close> up to its first free port.\<close>

function scan_ports :: "int list \<Rightarrow> int \<Rightarrow> int \<Rightarrow> int option" where
  "scan_ports used hi port =
     (if port < hi then (if port \<notin> set used then Some port else scan_ports used hi (port + 2))
      else None)"
  by pat_completeness auto
termination
  by (relation "measure (\<lambda>(used, hi, port). nat (hi - port))") auto

declare scan_ports.simps [simp del]

definition port_capacity :: "port_allocator \<Rightarrow> int" where
  "port_capacity pa = go_div (max_port pa - min_port pa) 2"

definition in_use_count :: "port_allocator \<Rightarrow> nat" where
  "in_use_count pa = length (in_use pa)"

definition port_allocate :: "port_allocator \<Rightarrow> (port_error + port_pair) \<times> port_allocator" where
  "port_allocate pa =
     (case scan_ports (in_use pa) (max_port pa) (min_port pa) of
        Some port \<Rightarrow> (Inr \<lparr>console = port, adb_port = port + 1\<rparr>, pa\<lparr>in_use := port # in_use pa\<rparr>)
      | None \<Rightarrow> (Inl (NoPorts (min_port pa) (max_port pa) (length (in_use pa))
                     (go_div (max_port pa - min_port pa) 2)), pa))"

definition port_release :: "port_pair \<Rightarrow> port_allocator \<Rightarrow> port_allocator" where
  "port_release pp pa = pa\<lparr>in_use := removeAll (console pp) (in_use pa)\<rparr>"

subsection \<open>What the scan finds\<close>

lemma scan_ports_Some:
  "scan_ports used hi p = Some c \<Longrightarrow>
   c \<notin> set used \<and> p \<le> c \<and> c < hi \<and> even (c - p) \<and>
   (\<forall>q. p \<le> q \<and> q < c \<and> even (q - p) \<longrightarrow> q \<in> set used)"
proof (induction used hi p rule: scan_ports.induct)
  case (1 used hi p)
  show ?case
  proof (cases "p < hi \<and> p \<in> set used")
    case True
    with 1 have IH: "c \<notin> set used \<and> p + 2 \<le> c \<and> c < hi \<and> even (c - (p + 2)) \<and>
      (\<forall>q. p + 2 \<le> q \<and> q < c \<and> even (q - (p + 2)) \<longrightarrow> q \<in> set used)"
      by (simp add: scan_ports.simps [of used hi p])
    have "q \<in> set used" if "p \<le> q" "q < c" "even (q - p)" for q
    proof (cases "q = p")
      case True
      with \<open>p < hi \<and> p \<in> set used\<close> show ?thesis by simp
    next
      case False
      with that have "p + 2 \<le> q" by presburger
      with IH that show ?thesis by auto
    qed
    with IH show ?thesis by auto
  next
    case False
    with 1 show ?thesis by (auto simp: scan_ports.simps [of used hi p] split: if_splits)
  qed
qed

lemma scan_ports_None:
  "scan_ports used hi p = None \<Longrightarrow> p \<le> q \<Longrightarrow> q < hi \<Longrightarrow> even (q - p) \<Longrightarrow> q \<in> set used"
proof (induction used hi p rule: scan_ports.induct)
  case (1 used hi p)
  from 1 have p: "p < hi" by simp
  with 1 have "p \<in> set used" "scan_ports used hi (p + 2) = None"
    by (simp_all add: scan_ports.simps [of used hi p] split: if_splits)
  moreover have "p + 2 \<le> q" if "q \<noteq> p" using that 1 by presburger
  ultimately show ?case using 1 p by (cases "q = p") auto
qed

definition port_slots :: "port_allocator \<Rightarrow> int set" where
  "port_slots pa = {p. min_port pa \<le> p \<and> p < max_port pa \<and> even (p - min_port pa)}"

definition ports_ok :: "port_allocator \<Rightarrow> bool" where
  "ports_ok pa \<longleftrightarrow> even (min_port pa) \<and> distinct (in_use pa) \<and> set (in_use pa) \<subseteq> port_slots pa"

lemma ports_ok_new: "ports_ok (new_port_allocator lo hi)"
  by (simp add: ports_ok_def new_port_allocator_def) presburger

lemma port_slots_update [simp]: "port_slots (pa\<lparr>in_use := xs\<rparr>) = port_slots pa"
  by (simp add: port_slots_def)

lemma ports_ok_allocate: "ports_ok pa \<Longrightarrow> ports_ok (snd (port_allocate pa))"
  by (auto simp: ports_ok_def port_allocate_def port_slots_def split: option.split
      dest: scan_ports_Some)

lemma ports_ok_release: "ports_ok pa \<Longrightarrow> ports_ok (port_release pp pa)"
  by (auto simp: ports_ok_def port_release_def distinct_removeAll)

lemma port_allocate_Inr:
  assumes "port_allocate pa = (Inr pp, pa')"
  shows "console pp \<in> port_slots pa" "console pp \<notin> set (in_use pa)"
    "adb_port pp = console pp + 1" "in_use pa' = console pp # in_use pa"
    "min_port pa' = min_port pa" "max_port pa' = max_port pa"
  using assms scan_ports_Some [of "in_use pa" "max_port pa" "min_port pa"]
  by (auto simp: port_allocate_def port_slots_def split: option.splits)

text \<open>The allocator seen through the interface: its resources are the console ports.\<close>

definition grant_port :: "port_allocator \<Rightarrow> (int \<times> port_allocator) option" where
  "grant_port pa = (case port_allocate pa of (Inr pp, pa') \<Rightarrow> Some (console pp, pa') | _ \<Rightarrow> None)"

definition give_back_port :: "int \<Rightarrow> port_allocator \<Rightarrow> port_allocator" where
  "give_back_port c = port_release \<lparr>console = c, adb_port = c + 1\<rparr>"

lemma grant_port_Some:
  "grant_port pa = Some (c, pa') \<longleftrightarrow>
     (\<exists>pp. port_allocate pa = (Inr pp, pa') \<and> console pp = c)"
  by (auto simp: grant_port_def split: prod.splits sum.splits)

interpretation ports: resource_pool grant_port give_back_port "\<lambda>pa. set (in_use pa)" ports_ok
proof unfold_locales
  fix s r s'
  assume ok: "ports_ok s" and "grant_port s = Some (r, s')"
  then obtain pp where pp: "port_allocate s = (Inr pp, s')" "console pp = r"
    by (auto simp: grant_port_Some)
  from port_allocate_Inr [OF pp(1)] pp(2)
  show "r \<notin> set (in_use s)" and "set (in_use s') = insert r (set (in_use s))" by auto
  from ports_ok_allocate [OF ok] pp(1) show "ports_ok s'" by simp
qed (simp_all add: give_back_port_def ports_ok_release, simp add: port_release_def)

subsection \<open>Counting\<close>

lemma port_slots_image:
  "port_slots pa =
     (\<lambda>k. min_port pa + 2 * int k) ` {..<nat ((max_port pa - min_port pa + 1) div 2)}"
proof
  show "port_slots pa \<subseteq>
      (\<lambda>k. min_port pa + 2 * int k) ` {..<nat ((max_port pa - min_port pa + 1) div 2)}"
  proof
    fix p assume "p \<in> port_slots pa"
    then have p: "min_port pa \<le> p" "p < max_port pa" "even (p - min_port pa)"
      by (simp_all add: port_slots_def)
    then obtain j where j: "p - min_port pa = 2 * j" by (elim evenE)
    with p have "0 \<le> j" "j < (max_port pa - min_port pa + 1) div 2" by linarith+
    with j show "p \<in> (\<lambda>k. min_port pa + 2 * int k) `
        {..<nat ((max_port pa - min_port pa + 1) div 2)}"
      by (intro image_eqI [of _ _ "nat j"]) auto
  qed
qed (auto simp: port_slots_def)

lemma card_port_slots: "card (port_slots pa) = nat ((max_port pa - min_port pa + 1) div 2)"
  unfolding port_slots_image by (subst card_image) (auto intro: inj_onI)

lemma finite_port_slots [simp]: "finite (port_slots pa)"
  unfolding port_slots_image by simp

lemma port_allocate_succeeds:
  assumes "ports_ok pa" and "length (in_use pa) < card (port_slots pa)"
  shows "\<exists>pp pa'. port_allocate pa = (Inr pp, pa')"
proof (cases "scan_ports (in_use pa) (max_port pa) (min_port pa)")
  case None
  then have "port_slots pa \<subseteq> set (in_use pa)"
    by (auto simp: port_slots_def intro: scan_ports_None)
  then have "card (port_slots pa) \<le> length (in_use pa)"
    by (meson card_length card_mono finite_set le_trans)
  with assms(2) show ?thesis by simp
qed (auto simp: port_allocate_def)

text \<open>A successful allocation hands out the lowest free pair of the range: an even console
  port inside it that no one holds, with the ADB port right above it; the allocator then holds
  exactly one more port. It fails only when every even port of the range is taken.\<close>

theorem port_allocate_correct:
  assumes "ports_ok pa"
  shows "case port_allocate pa of
      (Inr pp, pa') \<Rightarrow>
        even (console pp) \<and> min_port pa \<le> console pp \<and> console pp < max_port pa \<and>
        console pp \<notin> set (in_use pa) \<and> adb_port pp = console pp + 1 \<and>
        (\<forall>q \<in> port_slots pa. q < console pp \<longrightarrow> q \<in> set (in_use pa)) \<and>
        in_use_count pa' = in_use_count pa + 1 \<and> ports_ok pa'
    | (Inl e, pa') \<Rightarrow> pa' = pa \<and> set (in_use pa) = port_slots pa"
proof (cases "scan_ports (in_use pa) (max_port pa) (min_port pa)")
  case None
  then have "port_slots pa \<subseteq> set (in_use pa)"
    by (auto simp: port_slots_def intro: scan_ports_None)
  with None assms show ?thesis by (auto simp: port_allocate_def ports_ok_def)
next
  case (Some c)
  have "ports_ok (snd (port_allocate pa))" by (rule ports_ok_allocate [OF assms])
  moreover have "even c" using scan_ports_Some [OF Some] assms
    by (auto simp: ports_ok_def)
  ultimately show ?thesis using scan_ports_Some [OF Some] Some
    by (auto simp: port_allocate_def port_slots_def in_use_count_def)
qed

theorem port_allocate_correct_witness:
  "ports_ok (new_port_allocator 5553 5560) \<and>
   console (projr (fst (port_allocate (new_port_allocator 5553 5560)))) = 5554"
proof -
  have "ports_ok (new_port_allocator 5553 5560)" by (rule ports_ok_new)
  with port_allocate_correct [of "new_port_allocator 5553 5560"] show ?thesis
    by (simp add: port_allocate_def new_port_allocator_def scan_ports.simps)
qed

text \<open>Over any run of allocations and releases from a fresh allocator, no console port is
  granted while somebody still holds it, and releasing returns exactly the released port.\<close>

theorem ports_never_shared:
  assumes "ports.ledger pa held" and "port_allocate pa = (Inr pp, pa')"
  shows "console pp \<notin> set held \<and> distinct held \<and> set (in_use pa') = insert (console pp) (set held)"
proof -
  have "grant_port pa = Some (console pp, pa')" using assms(2) by (auto simp: grant_port_Some)
  then show ?thesis
    using ports.never_granted_twice [OF assms(1)] ports.ledger_exact [OF assms(1)]
      port_allocate_Inr(4) [OF assms(2)] by simp
qed

theorem ports_never_shared_witness:
  "ports.ledger (new_port_allocator 5554 5560) [] \<and> (5554::int) \<notin> set []"
proof -
  let ?pa = "new_port_allocator 5554 5560"
  have l: "ports.ledger ?pa []"
    by (rule ports.ledger.start [OF ports_ok_new]) (simp add: new_port_allocator_def)
  have "port_allocate ?pa = (Inr \<lparr>console = 5554, adb_port = 5555\<rparr>, ?pa\<lparr>in_use := [5554]\<rparr>)"
    by (simp add: port_allocate_def new_port_allocator_def scan_ports.simps)
  with ports_never_shared [OF l this] l show ?thesis by simp
qed

text \<open>The advertised capacity is a promise: while fewer than \<open>Capacity()\<close> pairs are in use
  an allocation succeeds, and no more than one pair beyond it ever fits.\<close>

theorem port_capacity_guaranteed:
  assumes "ports_ok pa" and "int (in_use_count pa) < port_capacity pa"
  shows "(\<exists>pp pa'. port_allocate pa = (Inr pp, pa')) \<and>
    int (card (port_slots pa)) \<le> port_capacity pa + 1"
proof -
  let ?d = "max_port pa - min_port pa"
  have "0 < ?d"
    using assms(2) by (auto simp: port_capacity_def go_div_def sgn_if in_use_count_def split: if_splits)
  then have cap: "port_capacity pa = ?d div 2" by (simp add: port_capacity_def go_div_nonneg)
  have card: "int (card (port_slots pa)) = (?d + 1) div 2"
    using \<open>0 < ?d\<close> by (simp add: card_port_slots)
  have "?d div 2 \<le> (?d + 1) div 2" "(?d + 1) div 2 \<le> ?d div 2 + 1" by linarith+
  with assms cap card port_allocate_succeeds [OF assms(1)] show ?thesis
    by (simp add: in_use_count_def)
qed

theorem port_capacity_guaranteed_witness:
  "port_capacity (new_port_allocator 5554 5560) = 3 \<and>
   (\<exists>pp pa'. port_allocate (new_port_allocator 5554 5560) = (Inr pp, pa'))"
proof -
  have "port_capacity (new_port_allocator 5554 5560) = 3"
    by (simp add: port_capacity_def new_port_allocator_def go_div_def)
  with port_capacity_guaranteed [OF ports_ok_new, of 5554 5560] show ?thesis
    by (simp add: in_use_count_def new_port_allocator_def)
qed

text \<open>The range is not exclusive at its top: with an odd upper bound the ADB port of the last
  pair is the bound itself.\<close>

lemma adb_port_reaches_max:
  "\<exists>pp. fst (port_allocate (new_port_allocator 5554 5555)) = Inr pp \<and> adb_port pp = 5555"
  by (simp add: port_allocate_def new_port_allocator_def scan_ports.simps)

end
