(* ===== verification/Paths.thy ===== *)
theory Paths
  imports Prelude
begin

text \<open>
  The functions of Go's \<^verbatim>\<open>path/filepath\<close> (slash-separated systems) that the code calls: Clean,
  Join, Base, Dir and Ext, over byte strings. A path is cleaned component by component with a
  stack, as the library documents it.
\<close>

definition join_with :: "string \<Rightarrow> string list \<Rightarrow> string" where
  "join_with sep ws =
     (case ws of [] \<Rightarrow> [] | w # rest \<Rightarrow> foldl (\<lambda>acc x. acc @ sep @ x) w rest)"

definition slash :: char where "slash = CHR ''/''"

fun clean_push :: "bool \<Rightarrow> string list \<Rightarrow> string \<Rightarrow> string list" where
  "clean_push rooted st w =
     (if w = [] \<or> w = ''.'' then st
      else if w = ''..'' then
        (case st of
           t # ts \<Rightarrow> if t = ''..'' then w # st else ts
         | [] \<Rightarrow> if rooted then [] else [w])
      else w # st)"

definition clean_comps :: "bool \<Rightarrow> string list \<Rightarrow> string list" where
  "clean_comps rooted ws = rev (foldl (clean_push rooted) [] ws)"

definition path_clean :: "string \<Rightarrow> string" where
  "path_clean p =
     (let rooted = has_prefix p [slash];
          body = join_with [slash] (clean_comps rooted (split_on slash p))
      in if rooted then slash # body else if body = [] then ''.'' else body)"

definition path_join :: "string list \<Rightarrow> string" where
  "path_join ws =
     (case dropWhile (\<lambda>w. w = []) ws of [] \<Rightarrow> [] | us \<Rightarrow> path_clean (join_with [slash] us))"

definition strip_slashes :: "string \<Rightarrow> string" where
  "strip_slashes p = rev (dropWhile (\<lambda>c. c = slash) (rev p))"

definition path_base :: "string \<Rightarrow> string" where
  "path_base p =
     (if p = [] then ''.''
      else let q = strip_slashes p; b = rev (takeWhile (\<lambda>c. c \<noteq> slash) (rev q))
           in if b = [] then [slash] else b)"

definition path_dir :: "string \<Rightarrow> string" where
  "path_dir p = path_clean (rev (dropWhile (\<lambda>c. c \<noteq> slash) (rev p)))"

definition path_ext :: "string \<Rightarrow> string" where
  "path_ext p =
     (let b = takeWhile (\<lambda>c. c \<noteq> slash) (rev p); e = takeWhile (\<lambda>c. c \<noteq> CHR ''.'') b
      in if CHR ''.'' \<in> set b then CHR ''.'' # rev e else [])"

subsection \<open>Lemmas\<close>

lemma split_on_ne [simp]: "split_on c s \<noteq> []"
  by (induction c s rule: split_on.induct) (auto split: list.splits)

lemma split_on_none: "c \<notin> set s \<Longrightarrow> split_on c s = [s]"
  by (induction c s rule: split_on.induct) auto

lemma split_on_append_sep: "split_on c (s @ c # t) = split_on c s @ split_on c t"
  by (induction s) (auto split: list.split)

lemma split_on_append: "c \<notin> set s \<Longrightarrow> split_on c (s @ c # t) = s # split_on c t"
  by (induction s) auto

lemma join_with_Cons [simp]:
  "join_with sep [] = []" "join_with sep [w] = w"
  "join_with sep (w # v # ws) = w @ sep @ join_with sep (v # ws)"
proof -
  have fold: "foldl (\<lambda>acc x. acc @ sep @ x) (a @ b) xs = a @ foldl (\<lambda>acc x. acc @ sep @ x) b xs"
    for a b xs by (induction xs arbitrary: b) simp_all
  show "join_with sep (w # v # ws) = w @ sep @ join_with sep (v # ws)"
    using fold [of "w @ sep" v ws] by (simp add: join_with_def)
qed (simp_all add: join_with_def)

text \<open>A component that is an ordinary name: not empty, no dots that navigate, no slash.\<close>

definition plain_name :: "string \<Rightarrow> bool" where
  "plain_name w \<longleftrightarrow> w \<noteq> [] \<and> w \<noteq> ''.'' \<and> w \<noteq> ''..'' \<and> slash \<notin> set w"

lemma clean_push_plain [simp]: "plain_name w \<Longrightarrow> clean_push r st w = w # st"
  by (simp add: plain_name_def)

lemma clean_comps_plain: "list_all plain_name ws \<Longrightarrow> clean_comps r ws = ws"
proof -
  have "foldl (clean_push r) st ws = rev ws @ st" if "list_all plain_name ws" for st
    using that by (induction ws arbitrary: st) (simp_all del: clean_push.simps)
  then show "list_all plain_name ws \<Longrightarrow> clean_comps r ws = ws" by (simp add: clean_comps_def)
qed

lemma split_on_join:
  "ws \<noteq> [] \<Longrightarrow> list_all (\<lambda>w. c \<notin> set w) ws \<Longrightarrow> split_on c (join_with [c] ws) = ws"
proof (induction ws rule: induct_list012)
  case (3 w v ws)
  then show ?case by (simp add: split_on_append)
qed (simp_all add: split_on_none)

lemma clean_comps_Nil_first [simp]: "clean_comps r ([] # ws) = clean_comps r ws"
  by (simp add: clean_comps_def)

text \<open>A rooted path written component by component.\<close>

definition abs_path :: "string list \<Rightarrow> string" where
  "abs_path ws = slash # join_with [slash] ws"

lemma path_join_abs:
  assumes "ws \<noteq> []" "list_all plain_name ws" "list_all plain_name vs"
  shows "path_join (abs_path ws # vs) = abs_path (ws @ vs)"
proof -
  have cat: "join_with [slash] (abs_path ws # vs) = abs_path (ws @ vs)"
  proof (cases vs)
    case (Cons v vs')
    have "join_with [slash] (us @ v # vs') = join_with [slash] us @ slash # join_with [slash] (v # vs')"
      if "us \<noteq> []" for us
      using that by (induction us rule: induct_list012) simp_all
    with Cons assms(1) show ?thesis by (simp add: abs_path_def)
  qed (simp add: abs_path_def)
  have "list_all (\<lambda>w. slash \<notin> set w) (ws @ vs)"
    using assms by (auto simp: plain_name_def list_all_iff)
  with assms(1) have "split_on slash (join_with [slash] (ws @ vs)) = ws @ vs"
    by (intro split_on_join) simp_all
  then have sp: "split_on slash (abs_path (ws @ vs)) = [] # ws @ vs"
    by (simp add: abs_path_def)
  have "path_clean (abs_path (ws @ vs)) = abs_path (ws @ vs)"
    using assms clean_comps_plain [of "ws @ vs" True] unfolding path_clean_def sp
    by (simp add: has_prefix_def abs_path_def)
  with cat show ?thesis by (simp add: path_join_def abs_path_def)
qed

lemma path_base_plain: "plain_name w \<Longrightarrow> path_base w = w"
proof -
  assume w: "plain_name w"
  then have ne: "w \<noteq> []" and no: "slash \<notin> set w" by (simp_all add: plain_name_def)
  have dw: "dropWhile (\<lambda>c. c = slash) (rev w) = rev w"
    using ne no by (cases w rule: rev_cases) auto
  have tw: "takeWhile (\<lambda>c. c \<noteq> slash) (rev w) = rev w"
    by (subst takeWhile_eq_all_conv) (use no in auto)
  show "path_base w = w"
    unfolding path_base_def strip_slashes_def Let_def using ne
    by (simp only: dw tw rev_rev_ident if_False)
qed

lemma path_base_fixed_no_slash:
  assumes "path_base w = w"
  shows "w = [slash] \<or> slash \<notin> set w"
proof -
  define b where "b = rev (takeWhile (\<lambda>c. c \<noteq> slash) (rev (strip_slashes w)))"
  have "slash \<notin> set b"
    unfolding b_def by (auto dest: set_takeWhileD)
  moreover have "path_base w = (if w = [] then ''.'' else if b = [] then [slash] else b)"
    by (simp add: path_base_def b_def Let_def)
  ultimately show ?thesis using assms by (auto split: if_splits)
qed

end
