(* ===== verification/Config.thy ===== *)
theory Config
  imports Paths
begin

text \<open>
  \<^verbatim>\<open>internal/config/config.go\<close> and \<^verbatim>\<open>defaults.go\<close>: the configuration as nested records with the
  structs' fields, the defaults filled into zero-valued fields, the validation and the resolved
  directories. What the operating system answers (host name, home directory, platform) is the
  record \<open>host_env\<close>. Reading and writing YAML and the viper library are not modelled.
\<close>

record host_env =
  os_hostname :: "string option"
  os_home :: string
  os_darwin :: bool

subsection \<open>The structs\<close>

record sdk_paths =
  sdk_root :: string
  sdk_adb :: string
  sdk_avdmanager :: string
  sdk_sdkmanager :: string
  sdk_emulator :: string
  sdk_java :: string

record mesh_config =
  mesh_id :: string
  mesh_name :: string
  mesh_key :: string

record node_config =
  node_cname :: string
  external_url :: string
  data_dir_field :: string
  log_level :: string
  metrics_port :: int

record warmup_config =
  warmup_profile :: string
  warmup_count :: int

record android_profile =
  prof_device :: string
  prof_system_image :: string
  ram_mb :: int
  heap_mb :: int
  disk_size_mb :: int
  gpu :: string
  prof_snapshot :: bool
  boot_timeout_seconds :: int

record ios_profile =
  ios_runtime :: string
  ios_device_type :: string
  ios_boot_timeout_seconds :: int

record profiles_config =
  android_profiles :: "(string \<times> android_profile) list"
  ios_profiles :: "(string \<times> ios_profile) list"

record pool_config =
  visible_emulators :: bool
  max_concurrent :: int
  session_timeout_minutes :: int
  session_max_minutes :: int
  queue_max_size :: int
  queue_timeout_seconds :: int
  port_range_min :: int
  port_range_max :: int
  artifact_retention_hours :: int
  warmup :: "warmup_config list"
  profiles :: profiles_config

record api_config =
  api_host :: string
  api_port :: int
  grpc_port :: int

record mdns_config =
  mdns_enabled :: bool
  service_type :: string
  mdns_hostname :: bool

record network_config =
  allowed_cidrs :: "string list"
  mdns :: mdns_config

record health_check_config =
  interval_seconds :: int
  unhealthy_threshold :: int

record cleanup_config =
  on_session_end :: string
  orphan_check_interval_secs :: int
  disk_cleanup_threshold_gb :: int
  idle_timeout_minutes :: int

record artifacts_config =
  storage_path :: string
  video_recording :: bool
  screenshot_on_fail :: bool
  logcat_capture :: bool
  network_har_capture :: bool
  retention_days :: int

record webhook_config =
  wh_urls :: "string list"
  wh_events :: "string list"

record license_config =
  lic_key :: string
  validation_endpoint :: string
  grace_period_hours :: int

record config =
  cfg_node :: node_config
  cfg_mesh :: mesh_config
  cfg_sdk :: sdk_paths
  cfg_pool :: pool_config
  cfg_api :: api_config
  cfg_network :: network_config
  cfg_health :: health_check_config
  cfg_cleanup :: cleanup_config
  cfg_artifacts :: artifacts_config
  cfg_webhooks :: "webhook_config list"
  cfg_license :: license_config

subsection \<open>Defaults\<close>

definition recommended_max_emulators :: "host_env \<Rightarrow> int" where
  "recommended_max_emulators h = (if \<not> os_darwin h then 2 else 4)"

text \<open>\<^verbatim>\<open>if x == zero { x = d }\<close>\<close>

definition or_str :: "string \<Rightarrow> string \<Rightarrow> string" where
  "or_str x d = (if x = [] then d else x)"

definition or_int :: "int \<Rightarrow> int \<Rightarrow> int" where
  "or_int x d = (if x = 0 then d else x)"

definition default_node :: "host_env \<Rightarrow> node_config \<Rightarrow> node_config" where
  "default_node h n = n\<lparr>
     node_cname := or_str (node_cname n)
       (case os_hostname h of Some s \<Rightarrow> s | None \<Rightarrow> ''drizz-farm-node''),
     data_dir_field := or_str (data_dir_field n) (path_join [os_home h, ''.drizz-farm'']),
     log_level := or_str (log_level n) ''info'',
     metrics_port := or_int (metrics_port n) 9402\<rparr>"

definition default_api :: "api_config \<Rightarrow> api_config" where
  "default_api a = a\<lparr>
     api_host := or_str (api_host a) ''0.0.0.0'',
     api_port := or_int (api_port a) 9401,
     grpc_port := or_int (grpc_port a) 9400\<rparr>"

definition default_pool :: "host_env \<Rightarrow> pool_config \<Rightarrow> pool_config" where
  "default_pool h p = p\<lparr>
     max_concurrent := or_int (max_concurrent p) (recommended_max_emulators h),
     session_timeout_minutes := or_int (session_timeout_minutes p) 60,
     session_max_minutes := or_int (session_max_minutes p) 180,
     queue_max_size := or_int (queue_max_size p) 20,
     queue_timeout_seconds := or_int (queue_timeout_seconds p) 300,
     port_range_min := or_int (port_range_min p) 5554,
     port_range_max := or_int (port_range_max p) 5700\<rparr>"

definition default_network :: "network_config \<Rightarrow> network_config" where
  "default_network n = n\<lparr>
     allowed_cidrs := (if allowed_cidrs n = []
        then [''192.168.0.0/16'', ''10.0.0.0/8'', ''172.16.0.0/12'', ''127.0.0.0/8'']
        else allowed_cidrs n),
     mdns := (mdns n)\<lparr>
        service_type := or_str (service_type (mdns n)) ''_drizz-farm._tcp'',
        mdns_hostname :=
          (if mdns_enabled (mdns n) \<and> \<not> mdns_hostname (mdns n) then True
           else mdns_hostname (mdns n))\<rparr>\<rparr>"

definition default_health :: "health_check_config \<Rightarrow> health_check_config" where
  "default_health hc = hc\<lparr>
     interval_seconds := or_int (interval_seconds hc) 15,
     unhealthy_threshold := or_int (unhealthy_threshold hc) 3\<rparr>"

definition default_cleanup :: "cleanup_config \<Rightarrow> cleanup_config" where
  "default_cleanup c = c\<lparr>
     on_session_end := or_str (on_session_end c) ''snapshot_restore'',
     orphan_check_interval_secs := or_int (orphan_check_interval_secs c) 60,
     disk_cleanup_threshold_gb := or_int (disk_cleanup_threshold_gb c) 20,
     idle_timeout_minutes := or_int (idle_timeout_minutes c) 5\<rparr>"

definition default_artifacts :: "string \<Rightarrow> artifacts_config \<Rightarrow> artifacts_config" where
  "default_artifacts dir a = a\<lparr>
     storage_path := or_str (storage_path a) (path_join [dir, ''artifacts'']),
     retention_days := or_int (retention_days a) 30\<rparr>"

definition default_license :: "license_config \<Rightarrow> license_config" where
  "default_license l = l\<lparr>
     validation_endpoint := or_str (validation_endpoint l) ''https://license.drizz.ai/v1/validate'',
     grace_period_hours := or_int (grace_period_hours l) 72\<rparr>"

text \<open>The artifacts default reads the data directory after it got its own default.\<close>

definition apply_defaults :: "host_env \<Rightarrow> config \<Rightarrow> config" where
  "apply_defaults h c =
     (let node = default_node h (cfg_node c)
      in c\<lparr>cfg_node := node,
           cfg_api := default_api (cfg_api c),
           cfg_pool := default_pool h (cfg_pool c),
           cfg_network := default_network (cfg_network c),
           cfg_health := default_health (cfg_health c),
           cfg_cleanup := default_cleanup (cfg_cleanup c),
           cfg_artifacts := default_artifacts (data_dir_field node) (cfg_artifacts c),
           cfg_license := default_license (cfg_license c)\<rparr>)"

subsection \<open>Validation and directories\<close>

datatype config_error = BadMaxConcurrent int | BadPort int | BadPortRange int int | NoProfiles

definition validate_config :: "config \<Rightarrow> config_error option" where
  "validate_config c =
     (if max_concurrent (cfg_pool c) < 1 then Some (BadMaxConcurrent (max_concurrent (cfg_pool c)))
      else if api_port (cfg_api c) < 1 \<or> 65535 < api_port (cfg_api c)
        then Some (BadPort (api_port (cfg_api c)))
      else if port_range_max (cfg_pool c) \<le> port_range_min (cfg_pool c)
        then Some (BadPortRange (port_range_min (cfg_pool c)) (port_range_max (cfg_pool c)))
      else if android_profiles (profiles (cfg_pool c)) = [] \<and> ios_profiles (profiles (cfg_pool c)) = []
        then Some NoProfiles
      else None)"

text \<open>\<^verbatim>\<open>Load\<close> after viper has unmarshalled the file.\<close>

definition load_config :: "host_env \<Rightarrow> config \<Rightarrow> config_error + config" where
  "load_config h raw =
     (let c = apply_defaults h raw
      in case validate_config c of Some e \<Rightarrow> Inl e | None \<Rightarrow> Inr c)"

definition data_dir :: "host_env \<Rightarrow> config \<Rightarrow> string" where
  "data_dir h c =
     (if data_dir_field (cfg_node c) \<noteq> [] then data_dir_field (cfg_node c)
      else path_join [os_home h, ''.drizz-farm''])"

definition artifacts_dir :: "host_env \<Rightarrow> config \<Rightarrow> string" where
  "artifacts_dir h c =
     (let sp = storage_path (cfg_artifacts c)
      in if sp \<noteq> [] then
           (if hd sp = CHR ''~'' then path_join [os_home h, tl sp] else sp)
         else path_join [data_dir h c, ''artifacts''])"

subsection \<open>Lemmas\<close>

lemmas default_defs = default_node_def default_api_def default_pool_def default_network_def
  default_health_def default_cleanup_def default_artifacts_def default_license_def

lemma or_str_idem [simp]: "or_str (or_str x d) d = or_str x d"
  by (simp add: or_str_def)

lemma or_int_idem [simp]: "or_int (or_int x d) d = or_int x d"
  by (simp add: or_int_def)

lemma or_str_given [simp]: "x \<noteq> [] \<Longrightarrow> or_str x d = x"
  by (simp add: or_str_def)

lemma or_int_given [simp]: "x \<noteq> 0 \<Longrightarrow> or_int x d = x"
  by (simp add: or_int_def)

lemma or_int_nonzero [simp]: "d \<noteq> 0 \<Longrightarrow> or_int x d \<noteq> 0"
  by (simp add: or_int_def)

text \<open>Filling in defaults twice changes nothing the second time, so re-running it on a
  configuration read back from disk is harmless, whatever the host answers the second time as
  long as it answers the same.\<close>

theorem apply_defaults_idempotent:
  "apply_defaults h (apply_defaults h c) = apply_defaults h c"
  by (simp add: apply_defaults_def default_defs Let_def)

lemma apply_defaults_pool: "cfg_pool (apply_defaults h c) = default_pool h (cfg_pool c)"
  by (simp add: apply_defaults_def Let_def)

lemma default_pool_profiles: "profiles (default_pool h p) = profiles p"
  by (simp add: default_pool_def)

lemma default_pool_max:
  "max_concurrent (default_pool h p) = or_int (max_concurrent p) (recommended_max_emulators h)"
  by (simp add: default_pool_def)

lemma validate_none_iff:
  "validate_config c = None \<longleftrightarrow>
     1 \<le> max_concurrent (cfg_pool c) \<and> api_port (cfg_api c) \<in> {1..65535} \<and>
     port_range_min (cfg_pool c) < port_range_max (cfg_pool c) \<and>
     (android_profiles (profiles (cfg_pool c)) \<noteq> [] \<or> ios_profiles (profiles (cfg_pool c)) \<noteq> [])"
  by (auto simp: validate_config_def split: if_splits)

lemma load_config_cases:
  "load_config h raw =
     (if validate_config (apply_defaults h raw) = None then Inr (apply_defaults h raw)
      else Inl (the (validate_config (apply_defaults h raw))))"
  by (auto simp: load_config_def Let_def split: option.splits)

text \<open>Loading accepts a configuration exactly when the concurrency (the user's, or the
  platform's recommendation of 2 or 4 when the user left it 0) and the API port are in range, the
  resulting port range is not empty and the user defined at least one profile; the result is then
  the configuration with its defaults, whose session timeout and queue size are never zero.\<close>

theorem load_config_correct:
  "((\<exists>c. load_config h raw = Inr c) =
     (1 \<le> or_int (max_concurrent (cfg_pool raw)) (if os_darwin h then 4 else 2) \<and>
      or_int (api_port (cfg_api raw)) 9401 \<in> {1..65535} \<and>
      or_int (port_range_min (cfg_pool raw)) 5554 < or_int (port_range_max (cfg_pool raw)) 5700 \<and>
      \<not> (android_profiles (profiles (cfg_pool raw)) = [] \<and>
          ios_profiles (profiles (cfg_pool raw)) = []))) \<and>
   load_config h raw \<in> {Inr (apply_defaults h raw)} \<union> range Inl \<and>
   session_timeout_minutes (cfg_pool (apply_defaults h raw)) \<noteq> 0 \<and>
   queue_max_size (cfg_pool (apply_defaults h raw)) \<noteq> 0"
proof (intro conjI)
  have api: "api_port (cfg_api (apply_defaults h raw)) = or_int (api_port (cfg_api raw)) 9401"
    by (simp add: apply_defaults_def default_api_def Let_def)
  show "(\<exists>c. load_config h raw = Inr c) =
     (1 \<le> or_int (max_concurrent (cfg_pool raw)) (if os_darwin h then 4 else 2) \<and>
      or_int (api_port (cfg_api raw)) 9401 \<in> {1..65535} \<and>
      or_int (port_range_min (cfg_pool raw)) 5554 < or_int (port_range_max (cfg_pool raw)) 5700 \<and>
      \<not> (android_profiles (profiles (cfg_pool raw)) = [] \<and>
          ios_profiles (profiles (cfg_pool raw)) = []))"
    unfolding load_config_cases
    using validate_none_iff [of "apply_defaults h raw"]
    by (simp add: api apply_defaults_pool default_pool_def recommended_max_emulators_def)
  show "load_config h raw \<in> {Inr (apply_defaults h raw)} \<union> range Inl"
    by (simp add: load_config_cases)
  show "session_timeout_minutes (cfg_pool (apply_defaults h raw)) \<noteq> 0"
    by (simp add: apply_defaults_pool default_pool_def)
  show "queue_max_size (cfg_pool (apply_defaults h raw)) \<noteq> 0"
    by (simp add: apply_defaults_pool default_pool_def)
qed

end
