(* ===== verification/Device.thy ===== *)
theory Device
  imports Adb Ports Config
begin

text \<open>
  The devices: \<^verbatim>\<open>internal/device/device.go\<close> (the Go interface), \<^verbatim>\<open>internal/android/emulator.go\<close>
  (the emulator process), \<^verbatim>\<open>emulator_device.go\<close>, \<^verbatim>\<open>running_device.go\<close>, \<^verbatim>\<open>usb_device.go\<close> and
  \<^verbatim>\<open>usb_scanner.go\<close>. An operation is a computation on the command history (theory Adb); an
  operation that fails answers \<open>False\<close>. The locale \<open>device_contract\<close> states what the pool relies
  on: whatever a device does, it does to its own serial or its own process.
\<close>

datatype device_kind = AndroidEmulator | AndroidUSB | IOSSimulator | IOSUSB

record connection_info =
  ci_host :: string
  ci_kind :: device_kind
  ci_adb_port :: int
  ci_serial :: string
  ci_console_port :: int
  ci_udid :: string

subsection \<open>Emulator processes\<close>

record emulator_process =
  proc_pid :: nat
  proc_avd :: string
  proc_ports :: port_pair
  proc_serial :: string

record boot_options =
  opt_profile :: android_profile
  opt_ports :: port_pair
  from_snapshot :: bool
  snapshot_name :: string
  no_window :: bool
  no_audio :: bool

definition clean_snapshot_name :: string where "clean_snapshot_name = ''drizz_clean''"

definition emulator_serial :: "int \<Rightarrow> string" where
  "emulator_serial port = ''emulator-'' @ itoa port"

definition boot_gpu :: "string \<Rightarrow> bool \<Rightarrow> string" where
  "boot_gpu g headless =
     (let gpu = (if g = [] then ''host'' else g)
      in if headless \<and> (gpu = ''host'' \<or> gpu = ''auto'') then ''swiftshader_indirect'' else gpu)"

definition boot_args :: "string \<Rightarrow> boot_options \<Rightarrow> string list" where
  "boot_args avd opts =
     [''-avd'', avd, ''-port'', itoa (console (opt_ports opts)),
      ''-memory'', itoa (ram_mb (opt_profile opts)), ''-no-boot-anim''] @
     (if 0 < disk_size_mb (opt_profile opts)
      then [''-partition-size'', itoa (disk_size_mb (opt_profile opts))] else []) @
     [''-gpu'', boot_gpu (gpu (opt_profile opts)) (no_window opts)] @
     (if no_window opts then [''-no-window''] else []) @
     (if no_audio opts then [''-no-audio''] else []) @
     (if from_snapshot opts
      then [''-snapshot'',
            (if snapshot_name opts = [] then clean_snapshot_name else snapshot_name opts),
            ''-no-snapshot-save'']
      else []) @
     [''-writable-system'']"

definition emu_boot :: "adb_client \<Rightarrow> string \<Rightarrow> boot_options \<Rightarrow> emulator_process option io" where
  "emu_boot c avd opts = do {
     pid \<leftarrow> start_cmd c (emulator_path c # boot_args avd opts);
     State_Monad.return (map_option (\<lambda>p.
       \<lparr>proc_pid = p, proc_avd = avd, proc_ports = opt_ports opts,
        proc_serial = emulator_serial (console (opt_ports opts))\<rparr>) pid) }"

definition emu_kill :: "adb_client \<Rightarrow> emulator_process option \<Rightarrow> bool io" where
  "emu_kill c proc =
     (case proc of
        None \<Rightarrow> State_Monad.return True
      | Some p \<Rightarrow> do {
          r \<leftarrow> signal_proc c (proc_pid p) ''SIGTERM'';
          if r \<noteq> SigOk then State_Monad.return (r = SigDone)
          else do {
            w \<leftarrow> signal_proc c (proc_pid p) ''wait'';
            if w = SigOk then State_Monad.return True
            else do {
              k \<leftarrow> signal_proc c (proc_pid p) ''SIGKILL'';
              State_Monad.return (k \<noteq> SigErr) }}})"

definition emu_is_running :: "adb_client \<Rightarrow> emulator_process option \<Rightarrow> bool io" where
  "emu_is_running c proc =
     (case proc of
        None \<Rightarrow> State_Monad.return False
      | Some p \<Rightarrow> do { r \<leftarrow> signal_proc c (proc_pid p) ''0''; State_Monad.return (r = SigOk) })"

definition snapshot_save :: "adb_client \<Rightarrow> string \<Rightarrow> string \<Rightarrow> bool io" where
  "snapshot_save c serial name = do {
     out \<leftarrow> adb_emu_command c serial (''avd snapshot save '' @ name);
     State_Monad.return (out \<noteq> None) }"

definition snapshot_load :: "adb_client \<Rightarrow> string \<Rightarrow> string \<Rightarrow> bool io" where
  "snapshot_load c serial name = do {
     out \<leftarrow> adb_emu_command c serial (''avd snapshot load '' @ name);
     State_Monad.return (out \<noteq> None) }"

definition save_clean_snapshot :: "adb_client \<Rightarrow> string \<Rightarrow> duration \<Rightarrow> bool io" where
  "save_clean_snapshot c serial timeout = do {
     online \<leftarrow> adb_wait_for_device c serial;
     if \<not> online then State_Monad.return False
     else do {
       booted \<leftarrow> adb_wait_for_boot c serial
         (boot_polls c (if timeout = 0 then 120 * second_ns else timeout));
       if \<not> booted then State_Monad.return False
       else snapshot_save c serial clean_snapshot_name }}"

subsection \<open>Emulators the pool boots\<close>

record emulator_device =
  emu_avd :: string
  emu_profile :: android_profile
  emu_ports :: port_pair
  emu_serial :: string
  emu_process :: "emulator_process option"
  emu_visible :: bool

definition new_emulator_device :: "string \<Rightarrow> android_profile \<Rightarrow> bool \<Rightarrow> emulator_device" where
  "new_emulator_device avd profile visible =
     \<lparr>emu_avd = avd, emu_profile = profile, emu_ports = \<lparr>console = 0, adb_port = 0\<rparr>,
      emu_serial = [], emu_process = None, emu_visible = visible\<rparr>"

definition emulator_prepare ::
  "adb_client \<Rightarrow> port_allocator \<Rightarrow> emulator_device \<Rightarrow> (bool \<times> emulator_device \<times> port_allocator) io"
where
  "emulator_prepare c pa d =
     (case port_allocate pa of
        (Inl e, pa1) \<Rightarrow> State_Monad.return (False, d, pa1)
      | (Inr pp, pa1) \<Rightarrow>
          (let d1 = d\<lparr>emu_ports := pp, emu_serial := emulator_serial (console pp)\<rparr>;
               opts = \<lparr>opt_profile = emu_profile d, opt_ports = pp, from_snapshot = False,
                       snapshot_name = [], no_window = \<not> emu_visible d, no_audio = True\<rparr>;
               t = dur_mul (boot_timeout_seconds (emu_profile d)) second_ns
           in do {
             proc \<leftarrow> emu_boot c (emu_avd d) opts;
             case proc of
               None \<Rightarrow> State_Monad.return (False, d1, port_release pp pa1)
             | Some p \<Rightarrow> do {
                 saved \<leftarrow> save_clean_snapshot c (emu_serial d1)
                   (if t = 0 then 120 * second_ns else t);
                 State_Monad.return (True, d1\<lparr>emu_process := Some p\<rparr>, pa1) }}))"

definition uninstall_third_party :: "adb_client \<Rightarrow> string \<Rightarrow> unit io" where
  "uninstall_third_party c serial = do {
     pkgs \<leftarrow> adb_list_third_party c serial;
     case pkgs of
       None \<Rightarrow> State_Monad.return ()
     | Some ps \<Rightarrow> uninstall_all c serial ps }"

definition emulator_reset :: "adb_client \<Rightarrow> emulator_device \<Rightarrow> bool io" where
  "emulator_reset c d = do {
     ok \<leftarrow> snapshot_load c (emu_serial d) ''drizz_clean'';
     if ok then State_Monad.return True
     else do { u \<leftarrow> uninstall_third_party c (emu_serial d); State_Monad.return True }}"

definition stop_recorders :: "adb_client \<Rightarrow> string \<Rightarrow> unit io" where
  "stop_recorders c serial = do {
     r1 \<leftarrow> adb_shell c serial ''pkill -f scrcpy'';
     r2 \<leftarrow> adb_shell c serial ''pkill screenrecord'';
     adb_forward_remove_all c serial }"

definition emulator_shutdown ::
  "adb_client \<Rightarrow> port_allocator \<Rightarrow> emulator_device \<Rightarrow> port_allocator io" where
  "emulator_shutdown c pa d = do {
     u \<leftarrow> stop_recorders c (emu_serial d);
     k \<leftarrow> emu_kill c (emu_process d);
     State_Monad.return (if console (emu_ports d) \<noteq> 0 then port_release (emu_ports d) pa else pa) }"

definition emulator_health :: "adb_client \<Rightarrow> emulator_device \<Rightarrow> bool io" where
  "emulator_health c d = do {
     v \<leftarrow> adb_get_prop c (emu_serial d) ''sys.boot_completed'';
     State_Monad.return (v = Some ''1'') }"

definition emulator_connection :: "emulator_device \<Rightarrow> connection_info" where
  "emulator_connection d =
     \<lparr>ci_host = [], ci_kind = AndroidEmulator, ci_adb_port = adb_port (emu_ports d),
      ci_serial = emu_serial d, ci_console_port = console (emu_ports d), ci_udid = []\<rparr>"

subsection \<open>Emulators found running\<close>

record running_device =
  run_serial :: string
  run_name :: string

definition new_running_device :: "string \<Rightarrow> running_device" where
  "new_running_device serial = \<lparr>run_serial = serial, run_name = []\<rparr>"

definition running_display_name :: "running_device \<Rightarrow> string" where
  "running_display_name d = (if run_name d \<noteq> [] then run_name d else run_serial d)"

text \<open>\<^verbatim>\<open>fmt.Sscanf(s, "%d", &port)\<close>: leading blanks and a sign, then the digits up to the first other
  character; a failure leaves \<^verbatim>\<open>port\<close> as it was.\<close>

definition scan_int :: "string \<Rightarrow> int option" where
  "scan_int s =
     (let t = dropWhile is_space s;
          sgn = (if t \<noteq> [] \<and> (hd t = CHR ''-'' \<or> hd t = CHR ''+'') then [hd t] else []);
          ds = takeWhile (\<lambda>ch. digit_val ch \<noteq> None) (drop (length sgn) t)
      in atoi (sgn @ ds))"

definition running_connection :: "running_device \<Rightarrow> connection_info" where
  "running_connection d =
     (let port = (if has_prefix (run_serial d) ''emulator-''
                  then (case scan_int (drop 9 (run_serial d)) of Some n \<Rightarrow> n | None \<Rightarrow> 0) + 1 else 0)
      in \<lparr>ci_host = [], ci_kind = AndroidEmulator, ci_adb_port = port, ci_serial = run_serial d,
          ci_console_port = port - 1, ci_udid = []\<rparr>)"

text \<open>The first property of the list with a non-blank value.\<close>

fun first_prop :: "adb_client \<Rightarrow> string \<Rightarrow> string list \<Rightarrow> string option io" where
  "first_prop c serial [] = State_Monad.return None"
| "first_prop c serial (p # ps) = do {
     v \<leftarrow> adb_get_prop c serial p;
     case v of
       None \<Rightarrow> first_prop c serial ps
     | Some x \<Rightarrow> if trim_space x \<noteq> [] then State_Monad.return (Some (trim_space x))
                 else first_prop c serial ps }"

text \<open>\<^verbatim>\<open>strings.SplitN(line, sep, 2)\<close> with two parts.\<close>

fun cut_at :: "string \<Rightarrow> string \<Rightarrow> (string \<times> string) option" where
  "cut_at sep [] = None"
| "cut_at sep (x # xs) =
     (if has_prefix (x # xs) sep then Some ([], drop (length sep) (x # xs))
      else map_option (\<lambda>(a, b). (x # a, b)) (cut_at sep xs))"

definition avd_name_line :: "string \<Rightarrow> string option" where
  "avd_name_line line =
     (if contains_str line ''avd_name''
      then map_option (\<lambda>(a, b). trim_suffix (trim_space b) '']'') (cut_at '']: ['' line)
      else None)"

fun first_avd_line :: "string list \<Rightarrow> string option" where
  "first_avd_line [] = None"
| "first_avd_line (l # ls) = (case avd_name_line l of Some n \<Rightarrow> Some n | None \<Rightarrow> first_avd_line ls)"

definition running_prepare :: "adb_client \<Rightarrow> running_device \<Rightarrow> (bool \<times> running_device) io" where
  "running_prepare c d = do {
     v \<leftarrow> first_prop c (run_serial d)
       [''ro.kernel.qemu.avd_name'', ''ro.boot.qemu.avd_name'', ''ro.product.model''];
     case v of
       Some n \<Rightarrow> State_Monad.return (True, d\<lparr>run_name := n\<rparr>)
     | None \<Rightarrow> do {
         out \<leftarrow> adb_shell c (run_serial d) ''getprop | grep avd'';
         State_Monad.return (True, d\<lparr>run_name :=
           (case out of
              None \<Rightarrow> run_serial d
            | Some txt \<Rightarrow>
                (if txt = [] then run_serial d
                 else case first_avd_line (split_on nl txt) of
                        Some n \<Rightarrow> n | None \<Rightarrow> run_serial d))\<rparr>) }}"

definition running_reset :: "adb_client \<Rightarrow> running_device \<Rightarrow> bool io" where
  "running_reset c d = do {
     out \<leftarrow> adb_emu_command c (run_serial d) ''avd snapshot load drizz_clean'';
     if out \<noteq> None then State_Monad.return True
     else do { u \<leftarrow> uninstall_third_party c (run_serial d); State_Monad.return True }}"

definition running_shutdown :: "adb_client \<Rightarrow> running_device \<Rightarrow> unit io" where
  "running_shutdown c d = do {
     u \<leftarrow> stop_recorders c (run_serial d);
     k \<leftarrow> adb_emu_command c (run_serial d) ''kill'';
     State_Monad.return () }"

definition running_health :: "adb_client \<Rightarrow> running_device \<Rightarrow> bool io" where
  "running_health c d = do {
     v \<leftarrow> adb_get_prop c (run_serial d) ''sys.boot_completed'';
     State_Monad.return (map_option trim_space v = Some ''1'') }"

subsection \<open>USB phones\<close>

record usb_device =
  usb_serial :: string
  usb_model :: string

definition new_usb_device :: "string \<Rightarrow> usb_device" where
  "new_usb_device serial = \<lparr>usb_serial = serial, usb_model = []\<rparr>"

definition usb_display_name :: "usb_device \<Rightarrow> string" where
  "usb_display_name d =
     (if usb_model d \<noteq> [] then usb_model d @ '' ('' @ usb_serial d @ '')'' else usb_serial d)"

definition usb_prepare :: "adb_client \<Rightarrow> usb_device \<Rightarrow> (bool \<times> usb_device) io" where
  "usb_prepare c d = do {
     online \<leftarrow> adb_wait_for_device c (usb_serial d);
     if \<not> online then State_Monad.return (False, d)
     else do {
       m \<leftarrow> adb_get_prop c (usb_serial d) ''ro.product.model'';
       State_Monad.return (True,
         (case m of None \<Rightarrow> d | Some x \<Rightarrow> if x \<noteq> [] then d\<lparr>usb_model := trim_space x\<rparr> else d)) }}"

definition usb_health :: "adb_client \<Rightarrow> usb_device \<Rightarrow> bool io" where
  "usb_health c d = do {
     out \<leftarrow> adb_shell c (usb_serial d) ''echo ok'';
     State_Monad.return (out \<noteq> None) }"

definition usb_scan :: "adb_client \<Rightarrow> usb_device list option io" where
  "usb_scan c = do {
     devs \<leftarrow> adb_devices c;
     State_Monad.return (map_option (\<lambda>ds. map (\<lambda>(s, st). new_usb_device s)
       (filter (\<lambda>(s, st). \<not> has_prefix s ''emulator-'' \<and> st = ''device'') ds)) devs) }"

subsection \<open>The interface \<^verbatim>\<open>device.Device\<close>\<close>

datatype device = Emulator emulator_device | Running running_device | Usb usb_device

fun device_kind_of :: "device \<Rightarrow> device_kind" where
  "device_kind_of (Emulator d) = AndroidEmulator"
| "device_kind_of (Running d) = AndroidEmulator"
| "device_kind_of (Usb d) = AndroidUSB"

fun device_serial :: "device \<Rightarrow> string" where
  "device_serial (Emulator d) = emu_serial d"
| "device_serial (Running d) = run_serial d"
| "device_serial (Usb d) = usb_serial d"

fun device_display_name :: "device \<Rightarrow> string" where
  "device_display_name (Emulator d) = emu_avd d"
| "device_display_name (Running d) = running_display_name d"
| "device_display_name (Usb d) = usb_display_name d"

fun can_boot :: "device \<Rightarrow> bool" where
  "can_boot (Emulator d) = True" | "can_boot (Running d) = False" | "can_boot (Usb d) = False"

fun can_snapshot :: "device \<Rightarrow> bool" where
  "can_snapshot (Emulator d) = True" | "can_snapshot (Running d) = True" | "can_snapshot (Usb d) = False"

fun can_destroy :: "device \<Rightarrow> bool" where
  "can_destroy (Emulator d) = True" | "can_destroy (Running d) = True" | "can_destroy (Usb d) = False"

fun device_connection :: "device \<Rightarrow> connection_info" where
  "device_connection (Emulator d) = emulator_connection d"
| "device_connection (Running d) = running_connection d"
| "device_connection (Usb d) =
     \<lparr>ci_host = [], ci_kind = AndroidUSB, ci_adb_port = 0, ci_serial = usb_serial d,
      ci_console_port = 0, ci_udid = []\<rparr>"

fun device_prepare ::
  "adb_client \<Rightarrow> port_allocator \<Rightarrow> device \<Rightarrow> (bool \<times> device \<times> port_allocator) io" where
  "device_prepare c pa (Emulator d) = do {
     (ok, d1, pa1) \<leftarrow> emulator_prepare c pa d; State_Monad.return (ok, Emulator d1, pa1) }"
| "device_prepare c pa (Running d) = do {
     (ok, d1) \<leftarrow> running_prepare c d; State_Monad.return (ok, Running d1, pa) }"
| "device_prepare c pa (Usb d) = do {
     (ok, d1) \<leftarrow> usb_prepare c d; State_Monad.return (ok, Usb d1, pa) }"

fun device_reset :: "adb_client \<Rightarrow> device \<Rightarrow> bool io" where
  "device_reset c (Emulator d) = emulator_reset c d"
| "device_reset c (Running d) = running_reset c d"
| "device_reset c (Usb d) = State_Monad.return True"

fun device_shutdown :: "adb_client \<Rightarrow> port_allocator \<Rightarrow> device \<Rightarrow> port_allocator io" where
  "device_shutdown c pa (Emulator d) = emulator_shutdown c pa d"
| "device_shutdown c pa (Running d) = do { u \<leftarrow> running_shutdown c d; State_Monad.return pa }"
| "device_shutdown c pa (Usb d) = State_Monad.return pa"

fun device_health :: "adb_client \<Rightarrow> device \<Rightarrow> bool io" where
  "device_health c (Emulator d) = emulator_health c d"
| "device_health c (Running d) = running_health c d"
| "device_health c (Usb d) = usb_health c d"

subsection \<open>What the pool relies on\<close>

datatype device_op = OpReset | OpHealth | OpShutdown

locale device_contract =
  fixes owns :: "'d \<Rightarrow> cmd \<Rightarrow> bool"
    and reset :: "'d \<Rightarrow> bool io"
    and health :: "'d \<Rightarrow> bool io"
    and shutdown :: "port_allocator \<Rightarrow> 'd \<Rightarrow> port_allocator io"
  assumes reset_owned: "issues (owns d) (reset d)"
    and health_owned: "issues (owns d) (health d)"
    and shutdown_owned: "issues (owns d) (shutdown pa d)"
    and shutdown_ports: "ports_ok pa \<Longrightarrow> ports_ok (fst (run_state (shutdown pa d) h)) \<and>
          set (in_use (fst (run_state (shutdown pa d) h))) \<subseteq> set (in_use pa)"
begin

fun perform :: "device_op \<Rightarrow> 'd \<Rightarrow> port_allocator \<Rightarrow> port_allocator io" where
  "perform OpReset d pa = do { u \<leftarrow> reset d; State_Monad.return pa }"
| "perform OpHealth d pa = do { u \<leftarrow> health d; State_Monad.return pa }"
| "perform OpShutdown d pa = shutdown pa d"

fun perform_all :: "(device_op \<times> 'd) list \<Rightarrow> port_allocator \<Rightarrow> port_allocator io" where
  "perform_all [] pa = State_Monad.return pa"
| "perform_all ((x, d) # ops) pa = do { pa1 \<leftarrow> perform x d pa; perform_all ops pa1 }"

lemma perform_owned: "issues (owns d) (perform x d pa)"
  by (cases x) (auto intro!: issues_intros reset_owned health_owned shutdown_owned)

lemma perform_all_owned:
  "issues (\<lambda>cmd. \<exists>d \<in> snd ` set ops. owns d cmd) (perform_all ops pa)"
proof (induction ops pa rule: perform_all.induct)
  case (2 x d ops pa)
  have "issues (\<lambda>cmd. \<exists>d' \<in> snd ` set ((x, d) # ops). owns d' cmd) (perform x d pa)"
    by (rule issues_mono [OF perform_owned]) auto
  moreover have
    "issues (\<lambda>cmd. \<exists>d' \<in> snd ` set ((x, d) # ops). owns d' cmd) (perform_all ops pa1)" for pa1
    by (rule issues_mono [OF 2]) auto
  ultimately show ?case by (auto intro: issues_bind)
qed (auto intro: issues_intros)

lemma perform_ports:
  "ports_ok pa \<Longrightarrow> ports_ok (fst (run_state (perform x d pa) h)) \<and>
     set (in_use (fst (run_state (perform x d pa) h))) \<subseteq> set (in_use pa)"
  using shutdown_ports by (cases x) (auto split: prod.splits)

lemma perform_all_ports:
  "ports_ok pa \<Longrightarrow> ports_ok (fst (run_state (perform_all ops pa) h)) \<and>
     set (in_use (fst (run_state (perform_all ops pa) h))) \<subseteq> set (in_use pa)"
proof (induction ops pa arbitrary: h rule: perform_all.induct)
  case (2 x d ops pa)
  obtain pa1 h1 where p: "run_state (perform x d pa) h = (pa1, h1)" by fastforce
  with perform_ports [OF 2(2), of x d h] have "ports_ok pa1" "set (in_use pa1) \<subseteq> set (in_use pa)"
    by simp_all
  with 2(1) [of pa1 h1] p show ?case by auto
qed simp

end

definition owns_device :: "adb_client \<Rightarrow> device \<Rightarrow> cmd \<Rightarrow> bool" where
  "owns_device c d cmd \<longleftrightarrow>
     for_dev c (device_serial d) cmd \<or>
     (case d of
        Emulator e \<Rightarrow> (case emu_process e of
            None \<Rightarrow> False
          | Some p \<Rightarrow> cmd \<in> (\<lambda>sig. [''kill'', sig, itoa_nat (proc_pid p)]) ` {''SIGTERM'', ''wait'', ''SIGKILL''})
      | _ \<Rightarrow> False)"

lemma only_dev_owned: "only_dev c (device_serial d) m \<Longrightarrow> issues (owns_device c d) m"
  by (erule issues_mono) (simp add: owns_device_def)

lemma only_dev_device [issues_intros]:
  "only_dev c s (snapshot_save c s n)" "only_dev c s (snapshot_load c s n)"
  "only_dev c s (stop_recorders c s)"
  unfolding snapshot_save_def snapshot_load_def stop_recorders_def by (intro issues_intros)+

lemma only_dev_uninstall_third_party [issues_intros]: "only_dev c s (uninstall_third_party c s)"
  unfolding uninstall_third_party_def by (intro issues_intros)

lemma only_dev_save_clean [issues_intros]: "only_dev c s (save_clean_snapshot c s t)"
  unfolding save_clean_snapshot_def by (intro issues_intros)

lemma only_dev_resets:
  "only_dev c (device_serial d) (device_reset c d)"
  by (cases d) (auto simp: emulator_reset_def running_reset_def intro!: issues_intros)

lemma only_dev_healths:
  "only_dev c (device_serial d) (device_health c d)"
  by (cases d) (auto simp: emulator_health_def running_health_def usb_health_def intro!: issues_intros)

lemma issues_emu_kill:
  assumes "\<And>p sig. proc = Some p \<Longrightarrow> sig \<in> {''SIGTERM'', ''wait'', ''SIGKILL''} \<Longrightarrow>
    P [''kill'', sig, itoa_nat (proc_pid p)]"
  shows "issues P (emu_kill c proc)"
  unfolding emu_kill_def using assms by (auto split: option.split intro!: issues_intros issues_signal_proc)

lemma owned_shutdown: "issues (owns_device c d) (device_shutdown c pa d)"
proof (cases d)
  case (Emulator e)
  have "issues (owns_device c d) (stop_recorders c (emu_serial e))"
    by (rule only_dev_owned) (simp add: Emulator only_dev_device)
  moreover have "issues (owns_device c d) (emu_kill c (emu_process e))"
    by (rule issues_emu_kill) (simp add: owns_device_def Emulator)
  ultimately show ?thesis by (auto simp: Emulator emulator_shutdown_def intro!: issues_intros)
next
  case (Running r)
  have "only_dev c (device_serial d) (device_shutdown c pa d)"
    by (auto simp: Running running_shutdown_def intro!: issues_intros)
  then show ?thesis by (rule only_dev_owned)
qed (simp add: issues_intros)

lemma shutdown_result:
  "fst (run_state (device_shutdown c pa d) h) =
     (case d of
        Emulator e \<Rightarrow> if console (emu_ports e) \<noteq> 0 then port_release (emu_ports e) pa else pa
      | _ \<Rightarrow> pa)"
  by (cases d) (auto simp: emulator_shutdown_def split: prod.splits)

interpretation dev: device_contract "owns_device c" "device_reset c" "device_health c" "device_shutdown c"
  for c
proof unfold_locales
  fix d pa h
  show "issues (owns_device c d) (device_reset c d)"
    by (rule only_dev_owned [OF only_dev_resets])
  show "issues (owns_device c d) (device_health c d)"
    by (rule only_dev_owned [OF only_dev_healths])
  show "issues (owns_device c d) (device_shutdown c pa d)" by (rule owned_shutdown)
  show "ports_ok (fst (run_state (device_shutdown c pa d) h)) \<and>
      set (in_use (fst (run_state (device_shutdown c pa d) h))) \<subseteq> set (in_use pa)"
    if "ports_ok pa"
    using that by (auto simp: shutdown_result ports_ok_release split: device.split)
      (auto simp: port_release_def)
qed

subsection \<open>Properties\<close>

lemma owns_device_serial: "owns_device c d cmd \<Longrightarrow> for_dev c s cmd \<Longrightarrow> s = device_serial d"
  by (auto simp: owns_device_def for_dev_def split: device.splits option.splits)

text \<open>Resetting, probing and shutting down devices in any order and number sends no adb command
  to a device that is not among them, and never loses or double-frees a port of the allocator.\<close>

theorem devices_isolated:
  assumes "ports_ok pa" and "run_state (dev.perform_all c ops pa) h = (pa', h')"
  shows "(\<exists>cs. h' = h @ cs \<and>
      (\<forall>cmd \<in> set cs. \<forall>s. for_dev c s cmd \<longrightarrow> s \<in> device_serial ` snd ` set ops)) \<and>
    ports_ok pa' \<and> set (in_use pa') \<subseteq> set (in_use pa)"
proof -
  from issuesD [OF dev.perform_all_owned assms(2)] obtain cs where
    "h' = h @ cs" "list_all (\<lambda>cmd. \<exists>d \<in> snd ` set ops. owns_device c d cmd) cs" by blast
  moreover have "\<forall>cmd \<in> set cs. \<forall>s. for_dev c s cmd \<longrightarrow> s \<in> device_serial ` snd ` set ops"
  proof (intro ballI allI impI)
    fix cmd s
    assume "cmd \<in> set cs" and f: "for_dev c s cmd"
    with calculation(2) obtain d where d: "d \<in> snd ` set ops" "owns_device c d cmd"
      unfolding list_all_iff by blast
    from owns_device_serial [OF d(2) f] d(1) show "s \<in> device_serial ` snd ` set ops" by blast
  qed
  ultimately show ?thesis using dev.perform_all_ports [OF assms(1), of c ops h] assms(2) by auto
qed

text \<open>A client for concrete runs: every tool answers with an empty line and every signal works.\<close>

definition quiet_client :: adb_client where
  "quiet_client = \<lparr>adb_path = ''adb'', emulator_path = ''emulator'', run_oracle = (\<lambda>h cmd. Some []),
     start_oracle = (\<lambda>h cmd. Some 4711), signal_oracle = (\<lambda>h p s. SigOk), boot_polls = (\<lambda>t. 2)\<rparr>"

theorem devices_isolated_witness:
  "ports_ok (new_port_allocator 5554 5560) \<and>
   (\<exists>cs. snd (run_state (dev.perform_all quiet_client
       [(OpReset, Running (new_running_device ''emulator-5554''))] (new_port_allocator 5554 5560)) [])
     = cs \<and> cs \<noteq> [] \<and>
     (\<forall>cmd \<in> set cs. \<forall>s. for_dev quiet_client s cmd \<longrightarrow> s = ''emulator-5554''))"
proof -
  let ?ops = "[(OpReset, Running (new_running_device ''emulator-5554''))]"
  let ?pa = "new_port_allocator 5554 5560"
  obtain pa' h' where r: "run_state (dev.perform_all quiet_client ?ops ?pa) [] = (pa', h')"
    by fastforce
  from devices_isolated [OF ports_ok_new r] ports_ok_new r
  show ?thesis
    by (auto simp: new_running_device_def running_reset_def adb_emu_command_def quiet_client_def)
qed

text \<open>A phone on USB is the user's: resetting or shutting it down runs no command at all and
  leaves the ports alone, and probing or preparing it only waits for it and reads.\<close>

theorem usb_untouched:
  "run_state (device_reset c (Usb d)) h = (True, h) \<and>
   run_state (device_shutdown c pa (Usb d)) h = (pa, h) \<and>
   issues (\<lambda>cmd. cmd = on_dev c (usb_serial d) [''shell'', ''echo ok'']) (device_health c (Usb d)) \<and>
   issues (\<lambda>cmd. cmd \<in> {on_dev c (usb_serial d) [''wait-for-device''],
              on_dev c (usb_serial d) [''shell'', ''getprop'', ''ro.product.model'']})
     (device_prepare c pa (Usb d))"
proof (intro conjI)
  show "issues (\<lambda>cmd. cmd = on_dev c (usb_serial d) [''shell'', ''echo ok'']) (device_health c (Usb d))"
    by (auto simp: usb_health_def adb_shell_def intro!: issues_intros issues_run_cmd)
  show "issues (\<lambda>cmd. cmd \<in> {on_dev c (usb_serial d) [''wait-for-device''],
              on_dev c (usb_serial d) [''shell'', ''getprop'', ''ro.product.model'']})
     (device_prepare c pa (Usb d))"
    by (auto simp: usb_prepare_def adb_wait_for_device_def adb_get_prop_def split: prod.split
        intro!: issues_intros issues_run_cmd)
qed simp_all

lemma emulator_prepare_cases:
  assumes "run_state (emulator_prepare c pa d) h = ((ok, d', pa'), h')"
  obtains (no_port) e where "port_allocate pa = (Inl e, pa')" "\<not> ok" "d' = d" "h' = h"
  | (no_process) pp pa1 where "port_allocate pa = (Inr pp, pa1)" "\<not> ok" "pa' = port_release pp pa1"
      "emu_process d' = emu_process d"
  | (booted) pp p where "port_allocate pa = (Inr pp, pa')" "ok" "emu_ports d' = pp"
      "emu_serial d' = emulator_serial (console pp)" "emu_process d' = Some p"
      "proc_serial p = emu_serial d'" "emu_avd d' = emu_avd d"
  using assms
  by (auto simp: emulator_prepare_def emu_boot_def Let_def split: prod.splits sum.splits option.splits)

lemma port_release_allocate:
  assumes "port_allocate pa = (Inr pp, pa1)"
  shows "set (in_use (port_release pp pa1)) = set (in_use pa)"
  using port_allocate_Inr [OF assms] by (auto simp: port_release_def)

text \<open>Booting an emulator and shutting it down again is neutral on the ports. A boot that
  succeeds holds one port pair nobody else held, names its serial and its process after it, and a
  later shutdown frees exactly that pair; a boot that fails leaves the allocator with what it had.\<close>

theorem emulator_ports_roundtrip:
  assumes "ports_ok pa" and "0 < min_port pa"
    and "run_state (device_prepare c pa (Emulator d)) h = ((ok, Emulator d', pa'), h')"
  shows "ports_ok pa' \<and>
    (if ok then console (emu_ports d') \<notin> set (in_use pa) \<and>
        set (in_use pa') = insert (console (emu_ports d')) (set (in_use pa)) \<and>
        emu_serial d' = emulator_serial (console (emu_ports d')) \<and>
        map_option proc_serial (emu_process d') = Some (emu_serial d') \<and>
        set (in_use (fst (run_state (device_shutdown c pa' (Emulator d')) h2))) = set (in_use pa)
     else set (in_use pa') = set (in_use pa))"
proof -
  from assms(3) have "run_state (emulator_prepare c pa d) h = ((ok, d', pa'), h')"
    by (auto split: prod.splits)
  then show ?thesis
  proof (cases rule: emulator_prepare_cases)
    case no_port
    with ports_ok_allocate [OF assms(1)] show ?thesis by (simp add: port_allocate_def split: option.splits)
  next
    case no_process
    with ports_ok_allocate [OF assms(1)] port_release_allocate [OF no_process(1)]
    show ?thesis by (simp add: ports_ok_release)
  next
    case booted
    from port_allocate_Inr [OF booted(1)] assms(2) have "console (emu_ports d') \<noteq> 0"
      by (auto simp: booted(3) port_slots_def)
    with booted ports_ok_allocate [OF assms(1)] port_allocate_Inr [OF booted(1)]
      port_release_allocate [OF booted(1)]
    show ?thesis by (simp add: shutdown_result del: device_shutdown.simps)
  qed
qed

definition small_profile :: android_profile where
  "small_profile = \<lparr>prof_device = [], prof_system_image = [], ram_mb = 2048, heap_mb = 0,
     disk_size_mb = 0, gpu = [], prof_snapshot = False, boot_timeout_seconds = 0\<rparr>"

theorem emulator_ports_roundtrip_witness:
  "\<exists>d' pa' h'. run_state (device_prepare quiet_client (new_port_allocator 5554 5560)
       (Emulator (new_emulator_device ''pixel'' small_profile False))) [] = ((True, Emulator d', pa'), h') \<and>
     set (in_use pa') = {console (emu_ports d')} \<and> emu_serial d' = ''emulator-5554''"
proof -
  let ?pa = "new_port_allocator 5554 5560"
  let ?d = "new_emulator_device ''pixel'' small_profile False"
  have al: "port_allocate ?pa = (Inr \<lparr>console = 5554, adb_port = 5555\<rparr>, ?pa\<lparr>in_use := [5554]\<rparr>)"
    by (simp add: port_allocate_def new_port_allocator_def scan_ports.simps)
  obtain d' pa' h' where r: "run_state (device_prepare quiet_client ?pa (Emulator ?d)) [] =
      ((True, Emulator d', pa'), h')" "emu_serial d' = emulator_serial 5554"
    by (fastforce simp: emulator_prepare_def al emu_boot_def quiet_client_def Let_def split: prod.splits)
  have ser: "emulator_serial 5554 = ''emulator-5554''"
    by (simp add: emulator_serial_def itoa_def itoa_nat.simps)
  have "0 < min_port ?pa" by (simp add: new_port_allocator_def)
  from emulator_ports_roundtrip [OF ports_ok_new this r(1)] r
  show ?thesis
    by (intro exI [of _ d'] exI [of _ pa'] exI [of _ h'])
      (simp add: ser new_port_allocator_def del: device_prepare.simps device_shutdown.simps)
qed

end
