(* ===== verification/Instance.thy ===== *)
theory Instance
  imports DeviceState Device
begin

text \<open>
  \<^verbatim>\<open>internal/pool/instance.go\<close>: what the pool keeps of one device. The Go methods mutate the instance
  under its own mutex, so each is one atomic function on the record; \<^verbatim>\<open>time.Now()\<close> is the argument
  \<open>now\<close>.
\<close>

record device_instance =
  inst_id :: string
  inst_node :: string
  display_info :: string
  profile_name :: string
  inst_state :: device_state
  session_id :: string
  created_at :: time
  allocated_at :: "time option"
  last_activity :: time
  last_healthy :: time
  health_fails :: int
  reserved :: bool
  reserved_label :: string
  inst_device :: "device option"

record invalid_transition =
  bad_from :: device_state
  bad_to :: device_state
  bad_instance :: string

definition reserve :: "string \<Rightarrow> device_instance \<Rightarrow> device_instance" where
  "reserve label i = i\<lparr>reserved := True, reserved_label := label\<rparr>"

definition unreserve :: "device_instance \<Rightarrow> device_instance" where
  "unreserve i = i\<lparr>reserved := False, reserved_label := []\<rparr>"

definition transition_to :: "device_state \<Rightarrow> device_instance \<Rightarrow> invalid_transition + device_instance" where
  "transition_to target i =
     (if \<not> can_transition_to (inst_state i) target
      then Inl \<lparr>bad_from = inst_state i, bad_to = target, bad_instance = inst_id i\<rparr>
      else Inr (i\<lparr>inst_state := target\<rparr>))"

text \<open>The instance after an attempt whose error is dropped.\<close>

definition try_transition :: "device_state \<Rightarrow> device_instance \<Rightarrow> device_instance" where
  "try_transition target i = (case transition_to target i of Inl _ \<Rightarrow> i | Inr i' \<Rightarrow> i')"

definition set_session :: "string \<Rightarrow> time \<Rightarrow> device_instance \<Rightarrow> device_instance" where
  "set_session sid now i = i\<lparr>session_id := sid, allocated_at := Some now, last_activity := now\<rparr>"

definition clear_session :: "device_instance \<Rightarrow> device_instance" where
  "clear_session i = i\<lparr>session_id := [], allocated_at := None\<rparr>"

definition touch_activity :: "time \<Rightarrow> device_instance \<Rightarrow> device_instance" where
  "touch_activity now i = i\<lparr>last_activity := now\<rparr>"

definition idle_since :: "time \<Rightarrow> device_instance \<Rightarrow> duration" where
  "idle_since now i =
     (if last_activity i = 0 then now - created_at i else now - last_activity i)"

definition record_health_check :: "bool \<Rightarrow> time \<Rightarrow> device_instance \<Rightarrow> device_instance" where
  "record_health_check healthy now i =
     (if healthy then i\<lparr>health_fails := 0, last_healthy := now\<rparr>
      else i\<lparr>health_fails := health_fails i + 1\<rparr>)"

definition is_healthy :: "device_instance \<Rightarrow> bool" where
  "is_healthy i \<longleftrightarrow> health_fails i = 0"

record instance_snapshot =
  snap_id :: string
  snap_node :: string
  snap_kind :: "device_kind option"
  snap_device_name :: string
  snap_display_info :: string
  snap_profile :: string
  snap_state :: device_state
  snap_serial :: string
  snap_connection :: "connection_info option"
  snap_session :: string
  snap_created :: time
  snap_allocated :: "time option"
  snap_activity :: time
  snap_healthy :: time
  snap_fails :: int
  snap_reserved :: bool
  snap_label :: string

text \<open>Without a device the five device fields stay zero; \<open>None\<close> stands for the empty kind and the
  zero connection.\<close>

definition instance_snapshot_of :: "device_instance \<Rightarrow> instance_snapshot" where
  "instance_snapshot_of i =
     \<lparr>snap_id = inst_id i, snap_node = inst_node i,
      snap_kind = map_option device_kind_of (inst_device i),
      snap_device_name = (case inst_device i of None \<Rightarrow> [] | Some d \<Rightarrow> device_display_name d),
      snap_display_info = (case inst_device i of None \<Rightarrow> [] | Some d \<Rightarrow> display_info i),
      snap_profile = profile_name i, snap_state = inst_state i,
      snap_serial = (case inst_device i of None \<Rightarrow> [] | Some d \<Rightarrow> device_serial d),
      snap_connection = map_option device_connection (inst_device i),
      snap_session = session_id i, snap_created = created_at i, snap_allocated = allocated_at i,
      snap_activity = last_activity i, snap_healthy = last_healthy i, snap_fails = health_fails i,
      snap_reserved = reserved i, snap_label = reserved_label i\<rparr>"

lemmas instance_defs = reserve_def unreserve_def set_session_def clear_session_def
  touch_activity_def record_health_check_def

subsection \<open>What each method leaves alone\<close>

lemma transition_to_Inr:
  "transition_to t i = Inr i' \<longleftrightarrow> can_transition_to (inst_state i) t \<and> i' = i\<lparr>inst_state := t\<rparr>"
  by (auto simp: transition_to_def)

lemma transition_to_Inl:
  "transition_to t i = Inl e \<longleftrightarrow> \<not> can_transition_to (inst_state i) t \<and>
     e = \<lparr>bad_from = inst_state i, bad_to = t, bad_instance = inst_id i\<rparr>"
  by (auto simp: transition_to_def)

lemma try_transition_fields [simp]:
  "inst_id (try_transition t i) = inst_id i" "session_id (try_transition t i) = session_id i"
  "inst_device (try_transition t i) = inst_device i" "reserved (try_transition t i) = reserved i"
  "allocated_at (try_transition t i) = allocated_at i"
  "inst_state (try_transition t i) = (if can_transition_to (inst_state i) t then t else inst_state i)"
  by (simp_all add: try_transition_def transition_to_def split: sum.split)

lemma session_states [simp]:
  "inst_state (set_session sid now i) = inst_state i" "inst_state (clear_session i) = inst_state i"
  "inst_state (touch_activity now i) = inst_state i"
  "inst_state (record_health_check b now i) = inst_state i"
  "inst_state (reserve l i) = inst_state i" "inst_state (unreserve i) = inst_state i"
  by (simp_all add: instance_defs)

lemma kept_ids [simp]:
  "inst_id (set_session sid now i) = inst_id i" "inst_id (clear_session i) = inst_id i"
  "inst_id (touch_activity now i) = inst_id i" "inst_id (record_health_check b now i) = inst_id i"
  "inst_id (reserve l i) = inst_id i" "inst_id (unreserve i) = inst_id i"
  by (simp_all add: instance_defs)

lemma kept_devices [simp]:
  "inst_device (set_session sid now i) = inst_device i" "inst_device (clear_session i) = inst_device i"
  "inst_device (touch_activity now i) = inst_device i"
  "inst_device (record_health_check b now i) = inst_device i"
  "inst_device (reserve l i) = inst_device i" "inst_device (unreserve i) = inst_device i"
  by (simp_all add: instance_defs)

lemma kept_sessions [simp]:
  "session_id (set_session sid now i) = sid" "session_id (clear_session i) = []"
  "session_id (touch_activity now i) = session_id i"
  "session_id (record_health_check b now i) = session_id i"
  "session_id (reserve l i) = session_id i" "session_id (unreserve i) = session_id i"
  by (simp_all add: instance_defs)

lemma kept_reservations [simp]:
  "reserved (set_session sid now i) = reserved i" "reserved (clear_session i) = reserved i"
  "reserved (touch_activity now i) = reserved i"
  "reserved (record_health_check b now i) = reserved i"
  by (simp_all add: instance_defs)

end
