(* ===== verification/Avd.thy ===== *)
theory Avd
  imports Adb Paths Device
begin

text \<open>
  \<^verbatim>\<open>internal/android/avd.go\<close>: the AVDs on disk, their metadata and their names. The file system is
  the record \<open>avd_fs\<close>; \<^verbatim>\<open>avdmanager\<close> runs through the command runner. The random suffix of
  \<^verbatim>\<open>AVDNameWithSuffix\<close> is a function of the random bytes (the time-based fall-back is not modelled).
\<close>

record avd_fs =
  fs_home :: "string option"
  fs_entries :: "string \<Rightarrow> string list option"
  fs_exists :: "string \<Rightarrow> bool"
  fs_lines :: "string \<Rightarrow> string list option"

record avd_info =
  avd_name :: string
  avd_device :: string
  avd_model :: string
  avd_manufacturer :: string
  avd_api :: string
  avd_android :: string
  avd_variant :: string
  avd_arch :: string
  avd_display :: string

definition plain_avd :: "string \<Rightarrow> avd_info" where
  "plain_avd name = \<lparr>avd_name = name, avd_device = [], avd_model = [], avd_manufacturer = [],
     avd_api = [], avd_android = [], avd_variant = [], avd_arch = [], avd_display = []\<rparr>"

subsection \<open>Readable names\<close>

definition lookup_or :: "(string \<times> string) list \<Rightarrow> string \<Rightarrow> string \<Rightarrow> string" where
  "lookup_or m k d = (case map_of m k of Some v \<Rightarrow> v | None \<Rightarrow> d)"

definition api_to_android :: "string \<Rightarrow> string" where
  "api_to_android api = lookup_or
     [(''35'', ''15''), (''34'', ''14''), (''33'', ''13''), (''32'', ''12L''), (''31'', ''12''),
      (''30'', ''11''), (''29'', ''10''), (''28'', ''9''), (''27'', ''8.1''), (''26'', ''8.0''),
      (''25'', ''7.1''), (''24'', ''7.0''), (''23'', ''6.0''), (''22'', ''5.1''), (''21'', ''5.0'')]
     api api"

fun replace_char :: "char \<Rightarrow> char \<Rightarrow> string \<Rightarrow> string" where
  "replace_char a b [] = []"
| "replace_char a b (x # xs) = (if x = a then b else x) # replace_char a b xs"

text \<open>\<^verbatim>\<open>strings.Title\<close> and \<^verbatim>\<open>ReplaceAll(s, "  ", " ")\<close> on ASCII.\<close>

definition ascii_in :: "nat \<Rightarrow> nat \<Rightarrow> char \<Rightarrow> bool" where
  "ascii_in lo hi ch \<longleftrightarrow> lo \<le> (of_char ch :: nat) \<and> (of_char ch :: nat) \<le> hi"

definition is_word_char :: "char \<Rightarrow> bool" where
  "is_word_char ch \<longleftrightarrow>
     ascii_in 48 57 ch \<or> ascii_in 65 90 ch \<or> ascii_in 97 122 ch \<or> ch = CHR ''_''"

definition to_upper :: "char \<Rightarrow> char" where
  "to_upper ch = (if ascii_in 97 122 ch then char_of ((of_char ch :: nat) - 32) else ch)"

fun title_from :: "bool \<Rightarrow> string \<Rightarrow> string" where
  "title_from start [] = []"
| "title_from start (x # xs) = (if start then to_upper x else x) # title_from (\<not> is_word_char x) xs"

fun squeeze_spaces :: "string \<Rightarrow> string" where
  "squeeze_spaces (x # y # xs) =
     (if x = CHR '' '' \<and> y = CHR '' '' then CHR '' '' # squeeze_spaces xs
      else x # squeeze_spaces (y # xs))"
| "squeeze_spaces xs = xs"

definition prettify_device :: "string \<Rightarrow> string" where
  "prettify_device dv = lookup_or
     [(''pixel'', ''Pixel''), (''pixel_2'', ''Pixel 2''), (''pixel_3'', ''Pixel 3''),
      (''pixel_4'', ''Pixel 4''), (''pixel_5'', ''Pixel 5''), (''pixel_6'', ''Pixel 6''),
      (''pixel_7'', ''Pixel 7''), (''pixel_7_pro'', ''Pixel 7 Pro''), (''pixel_8'', ''Pixel 8''),
      (''pixel_8_pro'', ''Pixel 8 Pro''), (''pixel_9'', ''Pixel 9''), (''pixel_fold'', ''Pixel Fold''),
      (''pixel_tablet'', ''Pixel Tablet''), (''Nexus 5X'', ''Nexus 5X''), (''Nexus 6P'', ''Nexus 6P''),
      (''medium_phone'', ''Medium Phone''), (''small_phone'', ''Small Phone''),
      (''medium_tablet'', ''Medium Tablet'')]
     dv (squeeze_spaces (title_from True (replace_char (CHR ''_'') (CHR '' '') dv)))"

definition prettify_variant :: "string \<Rightarrow> string" where
  "prettify_variant v = lookup_or
     [(''google_apis_playstore'', ''Play Store''), (''google_apis'', ''Google APIs''),
      (''default'', ''AOSP''), (''google_atd'', ''ATD'')] v v"

subsection \<open>config.ini\<close>

text \<open>\<^verbatim>\<open>if idx := strings.Index(base, "-"); idx > 0\<close>\<close>

definition api_base :: "string \<Rightarrow> string" where
  "api_base api =
     (let b = takeWhile (\<lambda>ch. ch \<noteq> CHR ''-'') api
      in if b \<noteq> [] then b else api)"

definition read_segment :: "string \<Rightarrow> avd_info \<Rightarrow> avd_info" where
  "read_segment seg i =
     (let i1 = (if has_prefix seg ''android-''
                then (let api = trim_prefix seg ''android-''
                      in i\<lparr>avd_api := api, avd_android := api_to_android (api_base api)\<rparr>)
                else i);
          i2 = (if contains_str seg ''google_apis'' \<or> contains_str seg ''default''
                then i1\<lparr>avd_variant := seg\<rparr> else i1)
      in if contains_str seg ''arm64'' \<or> contains_str seg ''x86'' then i2\<lparr>avd_arch := seg\<rparr> else i2)"

definition read_line :: "string \<Rightarrow> avd_info \<Rightarrow> avd_info" where
  "read_line line i =
     (case cut_at ''='' line of
        None \<Rightarrow> i
      | Some (k, v) \<Rightarrow>
          (let key = trim_space k; val = trim_space v
           in if key = ''hw.device.name'' then i\<lparr>avd_device := val\<rparr>
              else if key = ''hw.device.manufacturer'' then i\<lparr>avd_manufacturer := val\<rparr>
              else if key = ''image.sysdir.1''
                then fold read_segment (split_on slash (trim_suffix val ''/'')) i
              else i))"

text \<open>The separator is a middle dot between blanks, in UTF-8.\<close>

fun join_dots :: "string list \<Rightarrow> string" where
  "join_dots [] = []"
| "join_dots [w] = w"
| "join_dots (w # ws) = w @ [CHR '' '', CHR 0xC2, CHR 0xB7, CHR '' ''] @ join_dots ws"

definition display_parts :: "avd_info \<Rightarrow> string list" where
  "display_parts i =
     (if avd_model i \<noteq> [] then [avd_model i] else []) @
     (if avd_android i \<noteq> [] then [''Android '' @ avd_android i] else []) @
     (if avd_variant i \<noteq> [] then [prettify_variant (avd_variant i)] else []) @
     (if avd_api i \<noteq> [] then [''API '' @ avd_api i] else [])"

definition avd_root :: "avd_fs \<Rightarrow> string" where
  "avd_root fs = path_join [(case fs_home fs of Some h \<Rightarrow> h | None \<Rightarrow> []), ''.android'', ''avd'']"

definition enrich_avd :: "avd_fs \<Rightarrow> avd_info \<Rightarrow> avd_info" where
  "enrich_avd fs i =
     (case fs_lines fs (path_join [(case fs_home fs of Some h \<Rightarrow> h | None \<Rightarrow> []),
                          ''.android'', ''avd'', avd_name i @ ''.avd'', ''config.ini'']) of
        None \<Rightarrow> i\<lparr>avd_display := avd_name i\<rparr>
      | Some ls \<Rightarrow>
          (let i1 = fold read_line ls i; i2 = i1\<lparr>avd_model := prettify_device (avd_device i1)\<rparr>
           in i2\<lparr>avd_display := (if display_parts i2 \<noteq> [] then join_dots (display_parts i2)
                                 else avd_name i2)\<rparr>))"

subsection \<open>The manager\<close>

definition list_entry :: "avd_fs \<Rightarrow> string \<Rightarrow> avd_info option" where
  "list_entry fs name =
     (if \<not> has_suffix name ''.ini'' then None
      else (let avd = trim_suffix name ''.ini''
            in if fs_exists fs (path_join [avd_root fs, avd @ ''.avd''])
               then Some (enrich_avd fs (plain_avd avd)) else None))"

definition avd_list :: "avd_fs \<Rightarrow> avd_info list option" where
  "avd_list fs =
     (case fs_home fs of
        None \<Rightarrow> None
      | Some h \<Rightarrow>
          (case fs_entries fs (avd_root fs) of
             None \<Rightarrow> Some []
           | Some es \<Rightarrow> Some (List.map_filter (list_entry fs) es)))"

definition avd_exists :: "avd_fs \<Rightarrow> string \<Rightarrow> bool option" where
  "avd_exists fs name = map_option (list_ex (\<lambda>a. avd_name a = name)) (avd_list fs)"

text \<open>\<open>images\<close> are the paths that \<^verbatim>\<open>ListInstalledSystemImages\<close> gives, in the order of the tool.\<close>

definition avd_create ::
  "adb_client \<Rightarrow> string \<Rightarrow> string list option \<Rightarrow> string \<Rightarrow> android_profile \<Rightarrow> bool io" where
  "avd_create c avdmanager images name profile =
     (case (if prof_system_image profile \<noteq> [] then Some (prof_system_image profile)
            else case images of Some (p # _) \<Rightarrow> Some p | _ \<Rightarrow> None) of
        None \<Rightarrow> State_Monad.return False
      | Some img \<Rightarrow> do {
          out \<leftarrow> run_cmd c [avdmanager, ''create'', ''avd'', ''--name'', name, ''--package'', img,
            ''--device'', (if prof_device profile = [] then ''pixel'' else prof_device profile)];
          State_Monad.return (out \<noteq> None) })"

definition avd_delete :: "adb_client \<Rightarrow> string \<Rightarrow> string \<Rightarrow> bool io" where
  "avd_delete c avdmanager name = do {
     out \<leftarrow> run_cmd c [avdmanager, ''delete'', ''avd'', ''--name'', name];
     State_Monad.return (out \<noteq> None) }"

subsection \<open>Names\<close>

definition avd_file_name :: "string \<Rightarrow> int \<Rightarrow> string" where
  "avd_file_name profile index = ''drizz_'' @ profile @ ''_'' @ itoa index"

definition suffix_alphabet :: string where
  "suffix_alphabet = ''abcdefghijklmnopqrstuvwxyz0123456789''"

definition rand_suffix :: "nat list \<Rightarrow> string" where
  "rand_suffix bytes = map (\<lambda>v. suffix_alphabet ! (v mod length suffix_alphabet)) bytes"

definition avd_name_with_suffix :: "string \<Rightarrow> int \<Rightarrow> nat list \<Rightarrow> string" where
  "avd_name_with_suffix profile index bytes =
     ''drizz_'' @ profile @ ''_'' @ itoa index @ ''_'' @ rand_suffix bytes"

text \<open>\<^verbatim>\<open>guessProfileForAVD\<close> of \<^verbatim>\<open>internal/pool/pool.go\<close>; the profiles are in the order the random map
  iteration visits them.\<close>

definition guess_profile :: "string list \<Rightarrow> string \<Rightarrow> string" where
  "guess_profile profs avd =
     (case List.find (\<lambda>p. length (''drizz_'' @ p @ ''_'') < length avd \<and>
              has_prefix avd (''drizz_'' @ p @ ''_'')) profs of
        Some p \<Rightarrow> p
      | None \<Rightarrow> (case profs of [] \<Rightarrow> [] | p # _ \<Rightarrow> p))"

subsection \<open>Lemmas\<close>

lemma read_segment_name [simp]: "avd_name (read_segment seg i) = avd_name i"
  by (simp add: read_segment_def Let_def)

lemma fold_segments_name [simp]: "avd_name (fold read_segment segs i) = avd_name i"
  by (induction segs arbitrary: i) simp_all

lemma read_line_name [simp]: "avd_name (read_line l i) = avd_name i"
  by (simp add: read_line_def Let_def split: option.split prod.split)

lemma fold_lines_name [simp]: "avd_name (fold read_line ls i) = avd_name i"
  by (induction ls arbitrary: i) simp_all

lemma enrich_avd_name [simp]: "avd_name (enrich_avd fs i) = avd_name i"
  by (simp add: enrich_avd_def Let_def split: option.split)

lemma trim_suffix_inj:
  "has_suffix a p \<Longrightarrow> has_suffix b p \<Longrightarrow> trim_suffix a p = trim_suffix b p \<Longrightarrow> a = b"
  unfolding has_suffix_def has_prefix_iff trim_suffix_def by (auto simp: rev_eq_append_conv)

lemma list_entry_Some:
  "list_entry fs e = Some a \<Longrightarrow> e = avd_name a @ ''.ini'' \<and>
     fs_exists fs (path_join [avd_root fs, avd_name a @ ''.avd''])"
  by (auto simp: list_entry_def plain_avd_def Let_def has_suffix_def has_prefix_iff trim_suffix_def
      rev_eq_append_conv split: if_splits)

lemma list_entry_iff:
  "(\<exists>a. list_entry fs e = Some a \<and> avd_name a = n) \<longleftrightarrow>
     e = n @ ''.ini'' \<and> fs_exists fs (path_join [avd_root fs, n @ ''.avd''])"
  by (auto dest!: list_entry_Some) (simp add: list_entry_def plain_avd_def)

lemma listed_names:
  "avd_name ` set (List.map_filter (list_entry fs) es) =
     {n. n @ ''.ini'' \<in> set es \<and> fs_exists fs (path_join [avd_root fs, n @ ''.avd''])}"
proof -
  have "n \<in> avd_name ` set (List.map_filter (list_entry fs) es) \<longleftrightarrow>
      (\<exists>e \<in> set es. \<exists>a. list_entry fs e = Some a \<and> avd_name a = n)" for n
    by (force simp: map_filter_def)
  then show ?thesis unfolding list_entry_iff by blast
qed

lemma listed_distinct:
  "distinct es \<Longrightarrow> distinct (map avd_name (List.map_filter (list_entry fs) es))"
proof (induction es)
  case (Cons e es)
  have "avd_name a \<notin> avd_name ` set (List.map_filter (list_entry fs) es)"
    if "list_entry fs e = Some a" for a
    using list_entry_Some [OF that] Cons(2) unfolding listed_names by auto
  with Cons show ?case by (simp add: map_filter_simps split: option.split)
qed (simp add: map_filter_simps)

text \<open>An AVD exists for the farm exactly when its home has both the \<^verbatim>\<open>.ini\<close> file and the \<^verbatim>\<open>.avd\<close>
  directory of that name; a directory without repeated entries gives every AVD once.\<close>

theorem avd_exists_correct:
  assumes "fs_home fs \<noteq> None" and "fs_entries fs (avd_root fs) = Some es" and "distinct es"
  shows "avd_exists fs n = Some (n @ ''.ini'' \<in> set es \<and>
       fs_exists fs (path_join [avd_root fs, n @ ''.avd''])) \<and>
    distinct (map avd_name (the (avd_list fs)))"
proof -
  from assms(1,2) have l: "avd_list fs = Some (List.map_filter (list_entry fs) es)"
    by (auto simp: avd_list_def)
  have "list_ex (\<lambda>a. avd_name a = n) (List.map_filter (list_entry fs) es) \<longleftrightarrow>
      n \<in> avd_name ` set (List.map_filter (list_entry fs) es)"
    by (auto simp: list_ex_iff)
  with l listed_distinct [OF assms(3)] show ?thesis
    by (simp add: avd_exists_def listed_names)
qed

theorem avd_exists_correct_witness:
  "avd_exists \<lparr>fs_home = Some ''/h'', fs_entries = (\<lambda>_. Some [''p.ini'', ''p.avd'']),
     fs_exists = (\<lambda>_. True), fs_lines = (\<lambda>_. None)\<rparr> ''p'' = Some True"
  using avd_exists_correct [of "\<lparr>fs_home = Some ''/h'', fs_entries = (\<lambda>_. Some [''p.ini'', ''p.avd'']),
     fs_exists = (\<lambda>_. True), fs_lines = (\<lambda>_. None)\<rparr>" "[''p.ini'', ''p.avd'']" "''p''"]
  by simp

text \<open>The profile an AVD was created for is found again from its name, whatever the index, the
  random suffix and the order of the profiles, unless another configured profile's name plus an
  underscore also begins the rest of the name.\<close>

theorem guess_profile_roundtrip:
  assumes "p \<in> set profs"
    and "\<And>q. q \<in> set profs \<Longrightarrow>
      has_prefix (p @ ''_'' @ itoa i @ ''_'' @ rand_suffix bs) (q @ ''_'') \<Longrightarrow> q = p"
  shows "guess_profile profs (avd_name_with_suffix p i bs) = p"
proof -
  let ?n = "avd_name_with_suffix p i bs"
  let ?P = "\<lambda>q. length (''drizz_'' @ q @ ''_'') < length ?n \<and> has_prefix ?n (''drizz_'' @ q @ ''_'')"
  have p: "?P p"
    by (simp add: avd_name_with_suffix_def has_prefix_def)
  have only: "q = p" if "q \<in> set profs" "?P q" for q
    using that assms(2) [of q] by (simp add: avd_name_with_suffix_def has_prefix_def)
  show ?thesis
  proof (cases "List.find ?P profs")
    case None
    with p assms(1) show ?thesis by (blast dest: find_NoneD)
  next
    case (Some q)
    from only find_SomeD [OF Some] have "q = p" by blast
    with Some show ?thesis by (simp add: guess_profile_def)
  qed
qed

theorem guess_profile_roundtrip_witness:
  "guess_profile [''tablet'', ''pixel''] (avd_name_with_suffix ''pixel'' 0 [7, 255]) = ''pixel''"
  by (rule guess_profile_roundtrip) (auto simp: has_prefix_def)

text \<open>The side condition is needed: with profiles \<open>pixel\<close> and \<open>pixel_0\<close> the answer depends on
  the iteration order.\<close>

lemma guess_profile_ambiguous:
  "guess_profile [''pixel_0'', ''pixel''] (avd_name_with_suffix ''pixel'' 0 [7]) = ''pixel_0''"
  by (simp add: guess_profile_def avd_name_with_suffix_def has_prefix_def itoa_def itoa_nat.simps
      rand_suffix_def)

end
