(* ===== verification/Pool.thy ===== *)
theory Pool
  imports Instance Avd
begin

text \<open>
  \<^verbatim>\<open>internal/pool/pool.go\<close>: the pool of devices. Each definition is a stretch of the Go code between
  two points where another goroutine can interfere; operations that boot a device are given both as
  their stretches and as the composition one caller sees. \<open>p_sem\<close> is the number of tokens in the
  buffered channel \<^verbatim>\<open>sem\<close> of capacity \<open>p_cap\<close>: a send that would block is refused (\<^verbatim>\<open>select\<close> with
  \<^verbatim>\<open>default\<close>), a non-blocking receive on an empty channel does nothing, and a plain receive
  \<^verbatim>\<open><-p.sem\<close> on an empty channel never returns, which is the result \<open>Stuck\<close>. The callbacks the pool
  starts in goroutines are entries of the log \<open>p_events\<close>; the watchers it starts are \<open>p_watched\<close>.
\<close>

datatype pool_event = DeviceReady | Evicted string string string

record pool =
  p_node :: string
  p_cfg :: config
  p_cap :: nat
  p_sem :: nat
  p_instances :: "(string \<times> device_instance) list"
  p_booting :: "string list"
  p_ports :: port_allocator
  p_scanners :: nat
  p_uuids :: nat
  p_watched :: "string list"
  p_events :: "pool_event list"
  p_hist :: "cmd list"

text \<open>What the outside answers: the tools, the AVDs on disk, the clock, the uuid generator (its
  \<open>n\<close>-th result).\<close>

record pool_env =
  env_client :: adb_client
  env_fs :: avd_fs
  env_now :: time
  env_uuid :: "nat \<Rightarrow> string"

datatype pool_error =
    PoolExhausted | InstanceNotFound string | NotAvailable string device_state
  | ReservedForManual string | NoDeviceWithId string | AvdBusy string device_state
  | AvdCheckFailed string | AvdMissing string | BootFailed string | BadTransition invalid_transition
  | StillAllocated string | NilDevice string

datatype alloc_result = Got string | Refused pool_error | Stuck

definition new_pool :: "config \<Rightarrow> pool" where
  "new_pool cfg = \<lparr>p_node = node_cname (cfg_node cfg), p_cfg = cfg,
     p_cap = nat (max_concurrent (cfg_pool cfg)), p_sem = 0, p_instances = [], p_booting = [],
     p_ports = new_port_allocator (port_range_min (cfg_pool cfg)) (port_range_max (cfg_pool cfg)),
     p_scanners = 0, p_uuids = 0, p_watched = [], p_events = [], p_hist = []\<rparr>"

definition register_scanner :: "pool \<Rightarrow> pool" where
  "register_scanner p = p\<lparr>p_scanners := p_scanners p + 1\<rparr>"

definition notify_ready :: "pool \<Rightarrow> pool" where
  "notify_ready p = p\<lparr>p_events := p_events p @ [DeviceReady]\<rparr>"

subsection \<open>Instances, tokens and commands\<close>

text \<open>Run a computation on the pool's command history.\<close>

definition with_io :: "'a io \<Rightarrow> pool \<Rightarrow> 'a \<times> pool" where
  "with_io m p = (let (x, h) = run_state m (p_hist p) in (x, p\<lparr>p_hist := h\<rparr>))"

text \<open>A method call on the instance behind a key of the map.\<close>

definition on_inst :: "string \<Rightarrow> (device_instance \<Rightarrow> device_instance) \<Rightarrow> pool \<Rightarrow> pool" where
  "on_inst iid f p = p\<lparr>p_instances := upd_entry iid f (p_instances p)\<rparr>"

definition get_instance :: "string \<Rightarrow> pool \<Rightarrow> device_instance option" where
  "get_instance iid p = map_of (p_instances p) iid"

definition sem_try_acquire :: "pool \<Rightarrow> pool option" where
  "sem_try_acquire p = (if p_sem p < p_cap p then Some (p\<lparr>p_sem := p_sem p + 1\<rparr>) else None)"

definition sem_drain :: "pool \<Rightarrow> pool" where
  "sem_drain p = p\<lparr>p_sem := p_sem p - 1\<rparr>"

text \<open>\<^verbatim>\<open><-p.sem; return nil, err\<close>\<close>

definition sem_receive_or_stuck :: "pool_error \<Rightarrow> pool \<Rightarrow> alloc_result \<times> pool" where
  "sem_receive_or_stuck e p =
     (if p_sem p = 0 then (Stuck, p) else (Refused e, p\<lparr>p_sem := p_sem p - 1\<rparr>))"

definition new_instance :: "pool_env \<Rightarrow> string \<Rightarrow> string \<Rightarrow> device \<Rightarrow> string \<Rightarrow> device_instance" where
  "new_instance env iid node dev profile =
     \<lparr>inst_id = iid, inst_node = node, display_info = [], profile_name = profile,
      inst_state = StateCreating, session_id = [], created_at = env_now env, allocated_at = None,
      last_activity = 0, last_healthy = 0, health_fails = 0, reserved = False, reserved_label = [],
      inst_device = Some dev\<rparr>"

definition next_id :: "pool_env \<Rightarrow> pool \<Rightarrow> string" where
  "next_id env p = take 8 (env_uuid env (p_uuids p))"

definition create_instance :: "pool_env \<Rightarrow> device \<Rightarrow> string \<Rightarrow> pool \<Rightarrow> device_instance \<times> pool" where
  "create_instance env dev profile p =
     (let inst = new_instance env (next_id env p) (p_node p) dev profile
      in (inst, p\<lparr>p_instances := AList.update (next_id env p) inst (p_instances p),
                  p_uuids := p_uuids p + 1\<rparr>))"

definition remove_with_reason :: "string \<Rightarrow> string \<Rightarrow> pool \<Rightarrow> pool" where
  "remove_with_reason iid reason p =
     (let sid = (case get_instance iid p of Some i \<Rightarrow> session_id i | None \<Rightarrow> []);
          p1 = sem_drain (p\<lparr>p_instances := AList.delete iid (p_instances p)\<rparr>)
      in if sid \<noteq> [] then p1\<lparr>p_events := p_events p1 @ [Evicted iid sid reason]\<rparr> else p1)"

definition remove_instance :: "string \<Rightarrow> pool \<Rightarrow> pool" where
  "remove_instance iid = remove_with_reason iid []"

definition destroy_instance :: "pool_env \<Rightarrow> device_instance \<Rightarrow> pool \<Rightarrow> pool" where
  "destroy_instance env inst p =
     (let p1 = on_inst (inst_id inst) (try_transition StateDestroying) p;
          p2 = (case inst_device inst of
                  None \<Rightarrow> p1
                | Some dev \<Rightarrow>
                    (let (pa, q) = with_io (device_shutdown (env_client env) (p_ports p1) dev) p1
                     in q\<lparr>p_ports := pa\<rparr>))
      in sem_drain (remove_instance (inst_id inst) p2))"

subsection \<open>Booting\<close>

definition default_boot_profile :: android_profile where
  "default_boot_profile = \<lparr>prof_device = [], prof_system_image = [], ram_mb = 2048, heap_mb = 0,
     disk_size_mb = 4096, gpu = ''host'', prof_snapshot = False, boot_timeout_seconds = 120\<rparr>"

definition boot_profile :: "config \<Rightarrow> string \<Rightarrow> android_profile" where
  "boot_profile cfg name =
     (case map_of (android_profiles (profiles (cfg_pool cfg))) name of
        Some pr \<Rightarrow> pr | None \<Rightarrow> default_boot_profile)"

definition guess_profile_for :: "config \<Rightarrow> string \<Rightarrow> string" where
  "guess_profile_for cfg avd = guess_profile (map fst (android_profiles (profiles (cfg_pool cfg)))) avd"

text \<open>\<^verbatim>\<open>bootEmulator\<close> up to the call of \<^verbatim>\<open>Prepare\<close>: the AVD must exist, then the instance is in the map,
  booting.\<close>

definition boot_begin ::
  "pool_env \<Rightarrow> string \<Rightarrow> string \<Rightarrow> pool \<Rightarrow> (pool_error + device_instance) \<times> pool" where
  "boot_begin env avd profile p =
     (case avd_exists (env_fs env) avd of
        None \<Rightarrow> (Inl (AvdCheckFailed avd), p)
      | Some False \<Rightarrow> (Inl (AvdMissing avd), p)
      | Some True \<Rightarrow>
          (let dev = Emulator (new_emulator_device avd (boot_profile (p_cfg p) profile)
                       (visible_emulators (cfg_pool (p_cfg p))));
               (inst, p1) = create_instance env dev profile p;
               info = avd_display (enrich_avd (env_fs env) (plain_avd avd));
               inst1 = inst\<lparr>display_info := info\<rparr>
           in case transition_to StateBooting inst1 of
                Inl e \<Rightarrow> (Inl (BadTransition e), remove_instance (inst_id inst) p1)
              | Inr inst2 \<Rightarrow> (Inr inst2, on_inst (inst_id inst) (\<lambda>_. inst2) p1)))"

text \<open>The rest of it: boot the device of \<open>inst\<close>; an instance that another goroutine took out of the
  map meanwhile was destroyed, and fails the transition to warm.\<close>

definition boot_finish ::
  "pool_env \<Rightarrow> device_instance \<Rightarrow> pool \<Rightarrow> (pool_error + string) \<times> pool" where
  "boot_finish env inst p =
     (case inst_device inst of
        None \<Rightarrow> (Inl (NilDevice (inst_id inst)), p)
      | Some dev \<Rightarrow>
          (let ((ok, dev1, pa), q) = with_io (device_prepare (env_client env) (p_ports p) dev) p;
               p1 = on_inst (inst_id inst) (\<lambda>i. i\<lparr>inst_device := Some dev1\<rparr>) (q\<lparr>p_ports := pa\<rparr>)
           in if \<not> ok then (Inl (BootFailed (device_display_name dev)), remove_instance (inst_id inst) p1)
              else case get_instance (inst_id inst) p1 of
                None \<Rightarrow> (Inl (BadTransition \<lparr>bad_from = StateDestroying, bad_to = StateWarm,
                              bad_instance = inst_id inst\<rparr>), p1)
              | Some i \<Rightarrow>
                  (case transition_to StateWarm i of
                     Inl e \<Rightarrow> (Inl (BadTransition e), p1)
                   | Inr i1 \<Rightarrow>
                       (Inr (inst_id inst),
                        (let p2 = notify_ready (on_inst (inst_id inst)
                               (\<lambda>_. touch_activity (env_now env)
                                      (record_health_check True (env_now env) i1)) p1)
                         in p2\<lparr>p_watched := inst_id inst # p_watched p2\<rparr>)))))"

definition boot_emulator ::
  "pool_env \<Rightarrow> string \<Rightarrow> string \<Rightarrow> pool \<Rightarrow> (pool_error + string) \<times> pool" where
  "boot_emulator env avd profile p =
     (case boot_begin env avd profile p of
        (Inl e, p1) \<Rightarrow> (Inl e, p1)
      | (Inr inst, p1) \<Rightarrow> boot_finish env inst p1)"

definition boot_avd :: "pool_env \<Rightarrow> string \<Rightarrow> pool \<Rightarrow> (pool_error + string) \<times> pool" where
  "boot_avd env avd p =
     (case List.find (\<lambda>(k, i). map_option device_display_name (inst_device i) = Some avd)
             (p_instances p) of
        Some (k, i) \<Rightarrow> (Inr k, p)
      | None \<Rightarrow>
          if max_concurrent (cfg_pool (p_cfg p)) \<le> int (length (p_instances p))
          then (Inl PoolExhausted, p)
          else boot_emulator env avd (guess_profile_for (p_cfg p) avd) p)"

subsection \<open>Allocation\<close>

text \<open>The loop over the map in \<^verbatim>\<open>allocateAny\<close>: the first eligible instance of the profile, else the
  first eligible one.\<close>

fun scan_warm ::
  "string \<Rightarrow> bool \<Rightarrow> (string \<times> device_instance) list \<Rightarrow> string option \<Rightarrow> string option" where
  "scan_warm prof incl [] any = any"
| "scan_warm prof incl ((iid, i) # rest) any =
     (if inst_state i \<noteq> StateWarm then scan_warm prof incl rest any
      else if \<not> incl \<and> reserved i then scan_warm prof incl rest any
      else if prof \<noteq> [] \<and> profile_name i = prof then Some iid
      else scan_warm prof incl rest (if any = None then Some iid else any))"

definition alloc_warm :: "string \<Rightarrow> bool \<Rightarrow> pool \<Rightarrow> (string \<times> pool) option" where
  "alloc_warm prof incl p =
     (case scan_warm prof incl (p_instances p) None of
        None \<Rightarrow> None
      | Some iid \<Rightarrow> Some (iid, on_inst iid (try_transition StateAllocated) p))"

definition used_avds :: "pool \<Rightarrow> string list" where
  "used_avds p =
     List.map_filter (\<lambda>(k, i). map_option device_display_name (inst_device i)) (p_instances p)"

definition find_unbooted_excluding :: "pool_env \<Rightarrow> string list \<Rightarrow> pool \<Rightarrow> string option" where
  "find_unbooted_excluding env exclude p =
     (case avd_list (env_fs env) of
        None \<Rightarrow> None
      | Some avds \<Rightarrow>
          Some (case List.find (\<lambda>a. avd_name a \<notin> set (used_avds p @ exclude)) avds of
                  Some a \<Rightarrow> avd_name a | None \<Rightarrow> []))"

text \<open>Acquire a slot and pick the AVD to boot, which is reserved from then on.\<close>

definition alloc_reserve :: "pool_env \<Rightarrow> pool \<Rightarrow> (alloc_result + string) \<times> pool" where
  "alloc_reserve env p =
     (case sem_try_acquire p of
        None \<Rightarrow> (Inl (Refused PoolExhausted), p)
      | Some p1 \<Rightarrow>
          (case find_unbooted_excluding env (used_avds p1 @ p_booting p1) p1 of
             None \<Rightarrow> (case sem_receive_or_stuck PoolExhausted p1 of (r, p2) \<Rightarrow> (Inl r, p2))
           | Some avd \<Rightarrow>
               if avd = [] then (case sem_receive_or_stuck PoolExhausted p1 of (r, p2) \<Rightarrow> (Inl r, p2))
               else (Inr avd, p1\<lparr>p_booting := List.insert avd (p_booting p1)\<rparr>)))"

text \<open>After the boot: forget the AVD, then take the instance or give the slot back.\<close>

definition alloc_commit :: "string \<Rightarrow> (pool_error + string) \<times> pool \<Rightarrow> alloc_result \<times> pool" where
  "alloc_commit avd rp =
     (let (r, p0) = rp; p = p0\<lparr>p_booting := removeAll avd (p_booting p0)\<rparr>
      in case r of
           Inl e \<Rightarrow> sem_receive_or_stuck e p
         | Inr iid \<Rightarrow>
             (case get_instance iid p of
                None \<Rightarrow> sem_receive_or_stuck (BadTransition \<lparr>bad_from = StateDestroying,
                          bad_to = StateAllocated, bad_instance = iid\<rparr>) p
              | Some i \<Rightarrow>
                  (case transition_to StateAllocated i of
                     Inl e \<Rightarrow> sem_receive_or_stuck (BadTransition e) p
                   | Inr i1 \<Rightarrow> (Got iid, on_inst iid (\<lambda>_. i1) p))))"

definition allocate_any :: "pool_env \<Rightarrow> string \<Rightarrow> bool \<Rightarrow> pool \<Rightarrow> alloc_result \<times> pool" where
  "allocate_any env prof incl p =
     (case alloc_warm prof incl p of
        Some (iid, p1) \<Rightarrow> (Got iid, p1)
      | None \<Rightarrow>
          (case alloc_reserve env p of
             (Inl r, p1) \<Rightarrow> (r, p1)
           | (Inr avd, p1) \<Rightarrow>
               alloc_commit avd (boot_emulator env avd (guess_profile_for (p_cfg p1) avd) p1)))"

definition allocate :: "pool_env \<Rightarrow> string \<Rightarrow> pool \<Rightarrow> alloc_result \<times> pool" where
  "allocate env prof p = allocate_any env prof False p"

definition allocate_for_manual :: "pool_env \<Rightarrow> string \<Rightarrow> pool \<Rightarrow> alloc_result \<times> pool" where
  "allocate_for_manual env prof p = allocate_any env prof True p"

record allocate_opts =
  opt_profile_name :: string
  opt_instance_id :: string
  opt_avd_name :: string
  opt_source :: string

definition manual_caller :: "string \<Rightarrow> bool" where
  "manual_caller src \<longleftrightarrow> src = ''manual'' \<or> src = ''dashboard''"

definition allocate_instance :: "string \<Rightarrow> bool \<Rightarrow> pool \<Rightarrow> alloc_result \<times> pool" where
  "allocate_instance iid manual p =
     (case List.find (\<lambda>(k, i). inst_id i = iid) (p_instances p) of
        None \<Rightarrow> (Refused (NoDeviceWithId iid), p)
      | Some (k, i) \<Rightarrow>
          if inst_state i \<noteq> StateWarm then (Refused (NotAvailable (inst_id i) (inst_state i)), p)
          else if reserved i \<and> \<not> manual then (Refused (ReservedForManual (inst_id i)), p)
          else (case transition_to StateAllocated i of
                  Inl e \<Rightarrow> (Refused (BadTransition e), p)
                | Inr i1 \<Rightarrow> (Got k, on_inst k (\<lambda>_. i1) p)))"

definition allocate_avd :: "pool_env \<Rightarrow> string \<Rightarrow> bool \<Rightarrow> pool \<Rightarrow> alloc_result \<times> pool" where
  "allocate_avd env avd manual p =
     (case List.find (\<lambda>(k, i). map_option device_display_name (inst_device i) = Some avd)
             (p_instances p) of
        Some (k, i) \<Rightarrow>
          if inst_state i = StateWarm then
            (if reserved i \<and> \<not> manual then (Refused (ReservedForManual (inst_id i)), p)
             else (case transition_to StateAllocated i of
                     Inl e \<Rightarrow> (Refused (BadTransition e), p)
                   | Inr i1 \<Rightarrow> (Got k, on_inst k (\<lambda>_. i1) p)))
          else (Refused (AvdBusy avd (inst_state i)), p)
      | None \<Rightarrow>
          (case sem_try_acquire p of
             None \<Rightarrow> (Refused PoolExhausted, p)
           | Some p1 \<Rightarrow>
               alloc_commit avd (boot_emulator env avd (guess_profile_for (p_cfg p1) avd)
                 (p1\<lparr>p_booting := List.insert avd (p_booting p1)\<rparr>))))"

definition allocate_with :: "pool_env \<Rightarrow> allocate_opts \<Rightarrow> pool \<Rightarrow> alloc_result \<times> pool" where
  "allocate_with env opts p =
     (let manual = manual_caller (opt_source opts)
      in if opt_instance_id opts \<noteq> [] then allocate_instance (opt_instance_id opts) manual p
         else if opt_avd_name opts \<noteq> [] then allocate_avd env (opt_avd_name opts) manual p
         else allocate env (opt_profile_name opts) p)"

end
