(* ===== verification/PoolOps.thy ===== *)
theory PoolOps
  imports Pool
begin

text \<open>
  The rest of \<^verbatim>\<open>internal/pool/pool.go\<close>: returning devices, adopting and pruning them, the watcher,
  the maintenance pass, reservations, status and shutdown. Goroutines the code starts (the reset after
  a release, the parallel destroys of \<^verbatim>\<open>Stop\<close>) are definitions of their own or a fixed order of the
  interleaving.
\<close>

subsection \<open>Release\<close>

definition device_visible :: "string \<Rightarrow> (string \<times> string) list option \<Rightarrow> bool" where
  "device_visible serial devs \<longleftrightarrow>
     (case devs of None \<Rightarrow> False
      | Some ds \<Rightarrow> list_ex (\<lambda>(s, st). s = serial \<and> st = ''device'') ds)"

definition pool_release :: "pool_env \<Rightarrow> string \<Rightarrow> pool \<Rightarrow> pool_error option \<times> pool" where
  "pool_release env iid p =
     (case get_instance iid p of
        None \<Rightarrow> (Some (InstanceNotFound iid), p)
      | Some i \<Rightarrow>
          (case inst_device i of
             None \<Rightarrow> (Some (NilDevice iid), p)
           | Some dev \<Rightarrow>
               (let (devs, p1) = with_io (adb_devices (env_client env)) p
                in if \<not> device_visible (device_serial dev) devs
                   then (None, remove_instance iid (on_inst iid clear_session p1))
                   else (case transition_to StateResetting i of
                           Inl e \<Rightarrow> (Some (BadTransition e), p1)
                         | Inr i1 \<Rightarrow> (None, on_inst iid (\<lambda>_. clear_session i1) p1)))))"

text \<open>The goroutine behind a release: reset, then warm again.\<close>

definition reset_finish :: "pool_env \<Rightarrow> string \<Rightarrow> pool \<Rightarrow> pool" where
  "reset_finish env iid p =
     (case get_instance iid p of
        None \<Rightarrow> p
      | Some i \<Rightarrow>
          (case inst_device i of
             None \<Rightarrow> p
           | Some dev \<Rightarrow>
               (let (ok, p1) = with_io (device_reset (env_client env) dev) p
                in if \<not> ok then remove_instance iid p1
                   else (case transition_to StateWarm i of
                           Inl e \<Rightarrow> p1
                         | Inr i1 \<Rightarrow>
                             notify_ready (on_inst iid (\<lambda>_. touch_activity (env_now env) i1) p1)))))"

subsection \<open>Views\<close>

record pool_status =
  st_node :: string
  st_capacity :: int
  st_warm :: nat
  st_allocated :: nat
  st_booting :: nat
  st_resetting :: nat
  st_error :: nat
  st_instances :: "instance_snapshot list"

definition count_state :: "device_state \<Rightarrow> instance_snapshot list \<Rightarrow> nat" where
  "count_state s snaps = length (filter (\<lambda>x. snap_state x = s) snaps)"

definition pool_status_of :: "pool \<Rightarrow> pool_status" where
  "pool_status_of p =
     (let snaps = map (instance_snapshot_of \<circ> snd) (p_instances p)
      in \<lparr>st_node = p_node p, st_capacity = max_concurrent (cfg_pool (p_cfg p)),
          st_warm = count_state StateWarm snaps, st_allocated = count_state StateAllocated snaps,
          st_booting = count_state StateBooting snaps, st_resetting = count_state StateResetting snaps,
          st_error = count_state StateError snaps, st_instances = snaps\<rparr>)"

definition pool_available :: "string \<Rightarrow> pool \<Rightarrow> nat" where
  "pool_available prof p =
     length (filter (\<lambda>(k, i). inst_state i = StateWarm \<and> (prof = [] \<or> profile_name i = prof))
       (p_instances p))"

subsection \<open>Manual shutdown\<close>

definition shutdown_instance :: "pool_env \<Rightarrow> string \<Rightarrow> pool \<Rightarrow> pool_error option \<times> pool" where
  "shutdown_instance env iid p =
     (case get_instance iid p of
        None \<Rightarrow> (Some (InstanceNotFound iid), p)
      | Some i \<Rightarrow>
          if inst_state i = StateAllocated then (Some (StillAllocated iid), p)
          else (None, destroy_instance env i p))"

subsection \<open>Adoption\<close>

definition tracked_serial :: "string \<Rightarrow> pool \<Rightarrow> bool" where
  "tracked_serial serial p \<longleftrightarrow>
     list_ex (\<lambda>(k, i). map_option device_serial (inst_device i) = Some serial) (p_instances p)"

text \<open>What both adoptions do with a prepared device.\<close>

definition adopt_warm :: "pool_env \<Rightarrow> device \<Rightarrow> pool \<Rightarrow> string option \<times> pool" where
  "adopt_warm env dev p =
     (let (inst, p1) = create_instance env dev [] p
      in case transition_to StateWarm inst of
           Inl e \<Rightarrow> (None, remove_instance (inst_id inst) p1)
         | Inr i1 \<Rightarrow>
             (Some (inst_id inst), on_inst (inst_id inst)
                (\<lambda>_. touch_activity (env_now env) (record_health_check True (env_now env) i1)) p1))"

definition adopt_running_one :: "pool_env \<Rightarrow> string \<times> string \<Rightarrow> pool \<Rightarrow> pool" where
  "adopt_running_one env d p =
     (let (serial, st) = d
      in if st \<noteq> ''device'' then p
         else if tracked_serial serial p then p
         else (let ((ok, dev, pa), p1) = with_io (device_prepare (env_client env) (p_ports p)
                      (Running (new_running_device serial))) p
               in if \<not> ok then p1
                  else (case adopt_warm env dev p1 of
                          (None, p2) \<Rightarrow> p2
                        | (Some iid, p2) \<Rightarrow> p2\<lparr>p_watched := iid # p_watched p2\<rparr>)))"

definition adopt_running_emulators :: "pool_env \<Rightarrow> pool \<Rightarrow> pool" where
  "adopt_running_emulators env p =
     (case with_io (adb_devices (env_client env)) p of
        (None, p1) \<Rightarrow> p1
      | (Some devs, p1) \<Rightarrow> fold (adopt_running_one env) devs p1)"

definition pool_start :: "pool_env \<Rightarrow> pool \<Rightarrow> pool" where
  "pool_start env p = adopt_running_emulators env p"

definition adopt_device :: "pool_env \<Rightarrow> device \<Rightarrow> pool \<Rightarrow> pool" where
  "adopt_device env dev p =
     (if tracked_serial (device_serial dev) p then p
      else (let ((ok, dev1, pa), p1) = with_io (device_prepare (env_client env) (p_ports p) dev) p;
                p2 = p1\<lparr>p_ports := pa\<rparr>
            in if \<not> ok then p2
               else (case adopt_warm env dev1 p2 of
                       (None, p3) \<Rightarrow> p3
                     | (Some iid, p3) \<Rightarrow> notify_ready p3)))"

definition disconnected :: "string list \<Rightarrow> pool \<Rightarrow> string list" where
  "disconnected serials p =
     map (inst_id \<circ> snd) (filter (\<lambda>(k, i). case inst_device i of
           None \<Rightarrow> False
         | Some d \<Rightarrow> \<not> can_destroy d \<and> device_serial d \<notin> set serials) (p_instances p))"

definition prune_disconnected :: "string list \<Rightarrow> pool \<Rightarrow> pool" where
  "prune_disconnected serials p = fold remove_instance (disconnected serials p) p"

subsection \<open>The watcher\<close>

definition unwatch :: "string \<Rightarrow> pool \<Rightarrow> pool" where
  "unwatch iid p = p\<lparr>p_watched := remove1 iid (p_watched p)\<rparr>"

definition watch_tick :: "pool_env \<Rightarrow> string \<Rightarrow> pool \<Rightarrow> pool" where
  "watch_tick env iid p =
     (case get_instance iid p of
        None \<Rightarrow> unwatch iid p
      | Some i \<Rightarrow>
          if inst_state i \<in> {StateDestroying, StateResetting, StateBooting} then p
          else (case inst_device i of
             None \<Rightarrow> p
           | Some dev \<Rightarrow>
               (case with_io (adb_devices (env_client env)) p of
                  (None, p1) \<Rightarrow> p1
                | (Some ds, p1) \<Rightarrow>
                    if device_visible (device_serial dev) (Some ds)
                    then on_inst iid (record_health_check True (env_now env)) p1
                    else (let i1 = record_health_check False (env_now env) i;
                              p2 = on_inst iid (\<lambda>_. i1) p1
                          in if 2 \<le> health_fails i1
                             then unwatch iid (remove_with_reason iid ''emulator disappeared from adb'' p2)
                             else p2))))"

subsection \<open>Maintenance\<close>

definition scan_once :: "pool_env \<Rightarrow> pool \<Rightarrow> pool" where
  "scan_once env p =
     (case with_io (usb_scan (env_client env)) p of
        (None, p1) \<Rightarrow> p1
      | (Some ds, p1) \<Rightarrow>
          prune_disconnected (map usb_serial ds) (fold (adopt_device env \<circ> Usb) ds p1))"

definition errored :: "pool \<Rightarrow> device_instance list" where
  "errored p = filter (\<lambda>i. inst_state i = StateError) (map snd (p_instances p))"

definition idle_timeout :: "pool \<Rightarrow> duration" where
  "idle_timeout p = dur_mul (idle_timeout_minutes (cfg_cleanup (p_cfg p))) minute_ns"

definition idle_devices :: "pool_env \<Rightarrow> pool \<Rightarrow> device_instance list" where
  "idle_devices env p =
     filter (\<lambda>i. inst_state i = StateWarm \<and>
         (case inst_device i of None \<Rightarrow> False | Some d \<Rightarrow> can_destroy d) \<and>
         idle_timeout p < idle_since (env_now env) i)
       (map snd (p_instances p))"

definition run_maintenance :: "pool_env \<Rightarrow> pool \<Rightarrow> pool" where
  "run_maintenance env p =
     (let p1 = (if list_ex (\<lambda>(k, i). inst_state i = StateBooting) (p_instances p) then p
                else adopt_running_emulators env p);
          p2 = (scan_once env ^^ p_scanners p1) p1;
          p3 = fold (destroy_instance env) (errored p2) p2
      in if 0 < idle_timeout p3 then fold (destroy_instance env) (idle_devices env p3) p3 else p3)"

definition pool_stop :: "pool_env \<Rightarrow> pool \<Rightarrow> pool" where
  "pool_stop env p =
     fold (\<lambda>i q. case inst_device i of
             None \<Rightarrow> remove_instance (inst_id i) q
           | Some d \<Rightarrow> if can_destroy d then destroy_instance env i q
                       else remove_instance (inst_id i) q)
       (map snd (p_instances p)) p"

subsection \<open>Reservations\<close>

definition find_by_avd_name :: "string \<Rightarrow> pool \<Rightarrow> device_instance option" where
  "find_by_avd_name name p =
     map_option snd (List.find (\<lambda>(k, i). map_option device_display_name (inst_device i) = Some name)
       (p_instances p))"

definition reserve_instance :: "string \<Rightarrow> string \<Rightarrow> pool \<Rightarrow> pool_error option \<times> pool" where
  "reserve_instance iid label p =
     (case get_instance iid p of
        None \<Rightarrow> (Some (InstanceNotFound iid), p)
      | Some i \<Rightarrow> (None, on_inst iid (reserve label) p))"

definition unreserve_instance :: "string \<Rightarrow> pool \<Rightarrow> pool_error option \<times> pool" where
  "unreserve_instance iid p =
     (case get_instance iid p of
        None \<Rightarrow> (Some (InstanceNotFound iid), p)
      | Some i \<Rightarrow> (None, on_inst iid unreserve p))"

definition apply_reservations :: "(string \<times> string) list \<Rightarrow> pool \<Rightarrow> pool" where
  "apply_reservations by_avd p = p\<lparr>p_instances := map (\<lambda>(k, i).
     (k, case inst_device i of
           None \<Rightarrow> i
         | Some d \<Rightarrow> (case map_of by_avd (device_display_name d) of
              None \<Rightarrow> i | Some label \<Rightarrow> reserve label i))) (p_instances p)\<rparr>"

end
