(* ===== verification/PoolInv.thy ===== *)
theory PoolInv
  imports PoolOps
begin

text \<open>
  The invariant of the pool and its step relation. \<open>pool_ok\<close> says that the map is keyed by the
  instances' own ids, that every instance has a device, that no two emulators hold one console port
  and every held port is marked in the allocator, and that the semaphore is within its capacity.
  \<open>pstep R u p q\<close> says that \<open>q\<close> keeps the invariant of \<open>p\<close> and that every instance of \<open>q\<close> is one of
  \<open>p\<close> whose state moved by \<open>R\<close> or a new one, under an id drawn since. The lemmas give one such fact
  per operation; the theorems on runs are inductions over them.
\<close>

definition port_of :: "device_instance \<Rightarrow> int option" where
  "port_of i =
     (case inst_device i of
        Some (Emulator e) \<Rightarrow> if console (emu_ports e) = 0 then None else Some (console (emu_ports e))
      | _ \<Rightarrow> None)"

definition pool_ok :: "pool \<Rightarrow> bool" where
  "pool_ok p \<longleftrightarrow>
     distinct (map fst (p_instances p)) \<and>
     (\<forall>k i. get_instance k p = Some i \<longrightarrow> inst_id i = k \<and> inst_device i \<noteq> None) \<and>
     (\<forall>k i c. get_instance k p = Some i \<longrightarrow> port_of i = Some c \<longrightarrow> c \<in> set (in_use (p_ports p))) \<and>
     (\<forall>k k' i i' c. get_instance k p = Some i \<longrightarrow> get_instance k' p = Some i' \<longrightarrow>
        port_of i = Some c \<longrightarrow> port_of i' = Some c \<longrightarrow> k = k') \<and>
     p_sem p \<le> p_cap p \<and> ports_ok (p_ports p)"

definition drawn :: "(nat \<Rightarrow> string) \<Rightarrow> pool \<Rightarrow> pool \<Rightarrow> string set" where
  "drawn u p q = (\<lambda>n. take 8 (u n)) ` {p_uuids p..<p_uuids q}"

definition pstep ::
  "(device_state \<Rightarrow> device_state \<Rightarrow> bool) \<Rightarrow> (nat \<Rightarrow> string) \<Rightarrow> pool \<Rightarrow> pool \<Rightarrow> bool" where
  "pstep R u p q \<longleftrightarrow>
     (pool_ok p \<longrightarrow> pool_ok q) \<and> p_uuids p \<le> p_uuids q \<and> p_cap q = p_cap p \<and> p_cfg q = p_cfg p \<and>
     (\<forall>k i'. get_instance k q = Some i' \<longrightarrow>
        (\<exists>i. get_instance k p = Some i \<and> R (inst_state i) (inst_state i')) \<or>
        k \<in> drawn u p q \<and> lifecycle StateCreating (inst_state i'))"

definition at_most_once :: "device_state \<Rightarrow> device_state \<Rightarrow> bool" where
  "at_most_once s t \<longleftrightarrow> s = t \<or> can_transition_to s t"

subsection \<open>Composing steps\<close>

lemma pstep_trans:
  assumes "pstep R1 u p q" and "pstep R2 u q r"
    and "\<And>a b c. R1 a b \<Longrightarrow> R2 b c \<Longrightarrow> R a c" and "\<And>a b. R2 a b \<Longrightarrow> lifecycle a b"
  shows "pstep R u p r"
proof -
  have "(\<exists>i. get_instance k p = Some i \<and> R (inst_state i) (inst_state i'')) \<or>
        k \<in> drawn u p r \<and> lifecycle StateCreating (inst_state i'')"
    if i'': "get_instance k r = Some i''" for k i''
  proof -
    have mono: "drawn u p q \<subseteq> drawn u p r" "drawn u q r \<subseteq> drawn u p r"
      using assms(1,2) by (auto simp: drawn_def pstep_def)
    from assms(2) i'' consider
        (old) i' where "get_instance k q = Some i'" "R2 (inst_state i') (inst_state i'')"
      | (new) "k \<in> drawn u q r" "lifecycle StateCreating (inst_state i'')"
      unfolding pstep_def by blast
    then show ?thesis
    proof cases
      case old
      from assms(1) old(1) consider
          (old2) i where "get_instance k p = Some i" "R1 (inst_state i) (inst_state i')"
        | (new2) "k \<in> drawn u p q" "lifecycle StateCreating (inst_state i')"
        unfolding pstep_def by blast
      then show ?thesis
      proof cases
        case old2
        with old(2) assms(3) show ?thesis by blast
      next
        case new2
        with old(2) assms(4) mono(1) show ?thesis using lifecycle_trans by blast
      qed
    next
      case new
      with mono show ?thesis by blast
    qed
  qed
  with assms(1,2) show ?thesis by (simp add: pstep_def)
qed

lemma pstepD:
  assumes "pstep R u p q"
  shows "pool_ok p \<Longrightarrow> pool_ok q" "p_uuids p \<le> p_uuids q" "p_cap q = p_cap p" "p_cfg q = p_cfg p"
  using assms by (simp_all add: pstep_def)

lemma pstep_refl [simp]: "pstep (=) u p p"
  by (simp add: pstep_def)

lemma pstep_eq_trans: "pstep (=) u p q \<Longrightarrow> pstep (=) u q r \<Longrightarrow> pstep (=) u p r"
  by (erule (1) pstep_trans) (auto intro: lifecycle.stay)

lemma at_most_once_lifecycle: "at_most_once a b \<Longrightarrow> lifecycle a b"
  by (auto simp: at_most_once_def intro: lifecycle.stay lifecycle_step)

lemma pstep_weaken: "pstep (=) u p q \<Longrightarrow> pstep at_most_once u p q"
  by (auto simp: pstep_def at_most_once_def)

lemma pstep_eq_move: "pstep (=) u p q \<Longrightarrow> pstep at_most_once u q r \<Longrightarrow> pstep at_most_once u p r"
  by (erule (1) pstep_trans) (auto intro: at_most_once_lifecycle)

lemma pstep_move_eq: "pstep at_most_once u p q \<Longrightarrow> pstep (=) u q r \<Longrightarrow> pstep at_most_once u p r"
  by (erule (1) pstep_trans) (auto intro: lifecycle.stay)

lemma pstep_fold:
  assumes "\<And>x q. x \<in> set xs \<Longrightarrow> pstep (=) u q (f x q)"
  shows "pstep (=) u p (fold f xs p)"
  using assms by (induction xs arbitrary: p) (auto intro: pstep_eq_trans)

lemma pstep_funpow:
  assumes "\<And>q. pstep (=) u q (f q)"
  shows "pstep (=) u p ((f ^^ n) p)"
  by (induction n) (auto intro: pstep_eq_trans assms)

subsection \<open>The building blocks\<close>

lemma get_on_inst: "get_instance k (on_inst k' f p) =
    (if k = k' then map_option f (get_instance k p) else get_instance k p)"
  by (simp add: get_instance_def on_inst_def map_of_upd_entry)

lemma on_inst_fields [simp]:
  "p_uuids (on_inst k f p) = p_uuids p" "p_cap (on_inst k f p) = p_cap p"
  "p_cfg (on_inst k f p) = p_cfg p" "p_ports (on_inst k f p) = p_ports p"
  "p_sem (on_inst k f p) = p_sem p" "p_hist (on_inst k f p) = p_hist p"
  "p_booting (on_inst k f p) = p_booting p" "p_events (on_inst k f p) = p_events p"
  "p_watched (on_inst k f p) = p_watched p"
  "map fst (p_instances (on_inst k f p)) = map fst (p_instances p)"
  by (simp_all add: on_inst_def)

text \<open>Nothing but bookkeeping changed.\<close>

lemma pstep_same:
  assumes "p_instances q = p_instances p" "p_uuids q = p_uuids p" "p_cap q = p_cap p"
    "p_cfg q = p_cfg p" "p_ports q = p_ports p" "p_sem q \<le> p_sem p \<or> p_sem q \<le> p_cap p"
  shows "pstep (=) u p q"
  using assms by (auto simp: pstep_def pool_ok_def get_instance_def)

lemma pool_ok_on_inst:
  assumes "pool_ok p"
    and "\<And>i. get_instance k p = Some i \<Longrightarrow>
      inst_id (f i) = k \<and> inst_device (f i) \<noteq> None \<and> port_of (f i) = port_of i"
  shows "pool_ok (on_inst k f p)"
  using assms unfolding pool_ok_def by (auto simp: get_on_inst split: if_splits) (metis option.inject)+

lemma pstep_on_inst:
  assumes "\<And>i. get_instance k p = Some i \<Longrightarrow> inst_id i = k \<Longrightarrow> inst_device i \<noteq> None \<Longrightarrow>
      inst_id (f i) = k \<and> inst_device (f i) \<noteq> None \<and> port_of (f i) = port_of i"
    and "\<And>i. get_instance k p = Some i \<Longrightarrow> R (inst_state i) (inst_state (f i))"
    and "\<And>s. R s s"
  shows "pstep R u p (on_inst k f p)"
proof -
  have "pool_ok (on_inst k f p)" if "pool_ok p"
    by (rule pool_ok_on_inst [OF that]) (use that assms(1) in \<open>auto simp: pool_ok_def\<close>)
  then show ?thesis
    using assms(2,3) by (auto simp: pstep_def get_on_inst split: if_splits)
qed

lemma port_of_same_device: "inst_device i = inst_device j \<Longrightarrow> port_of i = port_of j"
  by (simp add: port_of_def)

lemma get_delete: "get_instance k (p\<lparr>p_instances := AList.delete k' (p_instances p)\<rparr>) =
    (if k = k' then None else get_instance k p)"
  by (simp add: get_instance_def delete_conv')

lemma get_remove: "get_instance k (remove_with_reason k' r p) =
    (if k = k' then None else get_instance k p)"
  by (simp add: remove_with_reason_def Let_def sem_drain_def get_instance_def delete_conv')

lemma remove_fields [simp]:
  "p_uuids (remove_with_reason k r p) = p_uuids p" "p_cap (remove_with_reason k r p) = p_cap p"
  "p_cfg (remove_with_reason k r p) = p_cfg p" "p_ports (remove_with_reason k r p) = p_ports p"
  "p_sem (remove_with_reason k r p) = p_sem p - 1" "p_booting (remove_with_reason k r p) = p_booting p"
  "p_instances (remove_with_reason k r p) = AList.delete k (p_instances p)"
  by (simp_all add: remove_with_reason_def Let_def sem_drain_def)

lemma pstep_remove: "pstep (=) u p (remove_with_reason k r p)"
proof -
  have "pool_ok (remove_with_reason k r p)" if "pool_ok p"
    using that unfolding pool_ok_def
    by (auto simp: get_remove distinct_delete split: if_splits)
  then show ?thesis by (auto simp: pstep_def get_remove)
qed

lemma pstep_remove_instance: "pstep (=) u p (remove_instance k p)"
  unfolding remove_instance_def by (rule pstep_remove)

text \<open>Ports may be given back as long as no other instance holds them.\<close>

lemma pstep_ports:
  assumes "pool_ok p \<Longrightarrow> ports_ok pa"
    and "\<And>k i c. pool_ok p \<Longrightarrow> get_instance k p = Some i \<Longrightarrow> port_of i = Some c \<Longrightarrow> c \<in> set (in_use pa)"
  shows "pstep (=) u p (p\<lparr>p_ports := pa\<rparr>)"
  using assms by (auto simp: pstep_def pool_ok_def get_instance_def)

lemma with_io_fields [simp]:
  "p_uuids (snd (with_io m p)) = p_uuids p" "p_cap (snd (with_io m p)) = p_cap p"
  "p_cfg (snd (with_io m p)) = p_cfg p" "p_ports (snd (with_io m p)) = p_ports p"
  "p_sem (snd (with_io m p)) = p_sem p" "p_instances (snd (with_io m p)) = p_instances p"
  "p_booting (snd (with_io m p)) = p_booting p" "p_events (snd (with_io m p)) = p_events p"
  "p_watched (snd (with_io m p)) = p_watched p"
  "get_instance k (snd (with_io m p)) = get_instance k p"
  by (simp_all add: with_io_def get_instance_def split: prod.split)

lemma with_io_same: "with_io m p = (x, q) \<Longrightarrow> pstep (=) u p q"
  by (rule pstep_same) (metis with_io_fields snd_conv order_refl)+

lemma pstep_create:
  assumes "port_of (new_instance env (next_id env p) (p_node p) dev prof) = None"
  shows "pstep (=) (env_uuid env) p (snd (create_instance env dev prof p))"
proof -
  let ?q = "snd (create_instance env dev prof p)"
  let ?i = "new_instance env (next_id env p) (p_node p) dev prof"
  have get: "get_instance k ?q = (if k = next_id env p then Some ?i else get_instance k p)" for k
    by (simp add: create_instance_def Let_def get_instance_def update_conv')
  have new: "inst_id ?i = next_id env p" "inst_device ?i = Some dev" "inst_state ?i = StateCreating"
    by (simp_all add: new_instance_def)
  have "pool_ok ?q" if ok: "pool_ok p"
    unfolding pool_ok_def get
  proof (intro conjI allI impI)
    show "distinct (map fst (p_instances ?q))"
      using ok by (simp add: create_instance_def Let_def pool_ok_def distinct_update)
    show "p_sem ?q \<le> p_cap ?q" "ports_ok (p_ports ?q)"
      using ok by (simp_all add: create_instance_def Let_def pool_ok_def)
    have ports: "p_ports ?q = p_ports p" by (simp add: create_instance_def Let_def)
    fix k i c
    assume g: "(if k = next_id env p then Some ?i else get_instance k p) = Some i"
    from g ok new show "inst_id i = k" "inst_device i \<noteq> None"
      by (auto simp: pool_ok_def split: if_splits)
    assume c: "port_of i = Some c"
    from g c ok assms ports show "c \<in> set (in_use (p_ports ?q))"
      by (auto simp: pool_ok_def split: if_splits)
    fix k' i'
    assume "(if k' = next_id env p then Some ?i else get_instance k' p) = Some i'" "port_of i' = Some c"
    with g c ok assms show "k = k'"
      unfolding pool_ok_def by (auto split: if_splits)
  qed
  moreover have "next_id env p \<in> drawn (env_uuid env) p ?q"
    by (auto simp: drawn_def next_id_def create_instance_def Let_def)
  moreover have "p_uuids p \<le> p_uuids ?q" "p_cap ?q = p_cap p" "p_cfg ?q = p_cfg p"
    by (simp_all add: create_instance_def Let_def)
  moreover have "(\<exists>i. get_instance k p = Some i \<and> inst_state i = inst_state i') \<or>
      k \<in> drawn (env_uuid env) p ?q \<and> lifecycle StateCreating (inst_state i')"
    if "get_instance k ?q = Some i'" for k i'
    using that calculation(2) new(3) by (auto simp: get intro: lifecycle.stay split: if_splits)
  ultimately show ?thesis unfolding pstep_def by blast
qed

subsection \<open>Every operation\<close>

lemma transition_moves: "transition_to t i = Inr i' \<Longrightarrow>
    i' = i\<lparr>inst_state := t\<rparr> \<and> at_most_once (inst_state i) (inst_state i')"
  by (auto simp: transition_to_Inr at_most_once_def)

lemma at_most_once_refl [simp]: "at_most_once s s"
  by (simp add: at_most_once_def)

lemma port_of_update [simp]:
  "port_of (i\<lparr>inst_state := s\<rparr>) = port_of i" "port_of (i\<lparr>display_info := x\<rparr>) = port_of i"
  "port_of (try_transition t i) = port_of i"
  "port_of (set_session sid now i) = port_of i" "port_of (clear_session i) = port_of i"
  "port_of (touch_activity now i) = port_of i" "port_of (record_health_check b now i) = port_of i"
  "port_of (reserve l i) = port_of i" "port_of (unreserve i) = port_of i"
  by (rule port_of_same_device; simp)+

text \<open>Replacing the entry by a result of its own methods.\<close>

lemma pstep_replace:
  assumes "get_instance k p = Some i" and "inst_id j = inst_id i" and "inst_device j = inst_device i"
    and "R (inst_state i) (inst_state j)" and "\<And>s. R s s"
  shows "pstep R u p (on_inst k (\<lambda>_. j) p)"
  by (rule pstep_on_inst) (use assms in \<open>auto simp: port_of_def\<close>)

lemma pstep_move:
  assumes "get_instance k p = Some i" and "transition_to t i = Inr j"
  shows "pstep at_most_once u p (on_inst k (\<lambda>_. j) p)"
  by (rule pstep_replace [OF assms(1)]) (use transition_moves [OF assms(2)] in auto)

lemma pstep_method:
  assumes "\<And>i. inst_id (f i) = inst_id i \<and> inst_device (f i) = inst_device i \<and>
      inst_state (f i) = inst_state i"
  shows "pstep (=) u p (on_inst k f p)"
  by (rule pstep_on_inst) (use assms in \<open>auto intro: port_of_same_device\<close>)

lemma pstep_sem_drain: "pstep (=) u p (sem_drain p)"
  by (rule pstep_same) (simp_all add: sem_drain_def)

lemma pstep_sem_acquire: "sem_try_acquire p = Some q \<Longrightarrow> pstep (=) u p q"
  by (rule pstep_same) (auto simp: sem_try_acquire_def split: if_splits)

lemma pstep_sem_receive: "pstep (=) u p (snd (sem_receive_or_stuck e p))"
  by (rule pstep_same) (simp_all add: sem_receive_or_stuck_def)

lemma pstep_notify: "pstep (=) u p (notify_ready p)"
  by (rule pstep_same) (simp_all add: notify_ready_def)

lemma pstep_booting: "pstep (=) u p (p\<lparr>p_booting := b\<rparr>)"
  by (rule pstep_same) simp_all

lemma pstep_watched: "pstep (=) u p (p\<lparr>p_watched := b\<rparr>)"
  by (rule pstep_same) simp_all

lemmas pstep_eq_intros = pstep_sem_drain pstep_notify pstep_booting pstep_watched
  pstep_remove_instance pstep_remove pstep_method

text \<open>Destroying an instance of the map gives its ports back, which nobody else holds.\<close>

lemma get_instance_fields [simp]:
  "get_instance k (p\<lparr>p_ports := a\<rparr>) = get_instance k p"
  "get_instance k (p\<lparr>p_hist := h\<rparr>) = get_instance k p"
  "get_instance k (p\<lparr>p_sem := n\<rparr>) = get_instance k p"
  "get_instance k (p\<lparr>p_booting := b\<rparr>) = get_instance k p"
  "get_instance k (p\<lparr>p_events := ev\<rparr>) = get_instance k p"
  "get_instance k (p\<lparr>p_watched := w\<rparr>) = get_instance k p"
  by (simp_all add: get_instance_def)

lemma destroy_instance_result:
  "\<exists>pa h. destroy_instance env i p = sem_drain (remove_instance (inst_id i)
       (on_inst (inst_id i) (try_transition StateDestroying) p\<lparr>p_hist := h, p_ports := pa\<rparr>)) \<and>
     (case port_of i of None \<Rightarrow> pa = p_ports p
      | Some c \<Rightarrow> in_use pa = removeAll c (in_use (p_ports p)) \<and> (ports_ok (p_ports p) \<longrightarrow> ports_ok pa))"
proof (cases "inst_device i")
  case None
  then show ?thesis
    by (intro exI [of _ "p_ports p"] exI [of _ "p_hist p"])
      (simp add: destroy_instance_def port_of_def on_inst_def)
next
  case (Some d)
  let ?p1 = "on_inst (inst_id i) (try_transition StateDestroying) p"
  obtain pa h where r: "run_state (device_shutdown (env_client env) (p_ports p) d) (p_hist p) = (pa, h)"
    by fastforce
  with shutdown_result [of "env_client env" "p_ports p" d "p_hist p"]
  have "pa = (case d of Emulator e \<Rightarrow> if console (emu_ports e) \<noteq> 0
        then port_release (emu_ports e) (p_ports p) else p_ports p | _ \<Rightarrow> p_ports p)"
    by simp
  with r Some show ?thesis
    by (intro exI [of _ pa] exI [of _ h])
      (auto simp: destroy_instance_def with_io_def port_of_def port_release_def ports_ok_def
        distinct_removeAll split: device.split)
qed

lemma pstep_destroy:
  assumes "get_instance (inst_id i) p = Some i"
  shows "pstep (=) u p (destroy_instance env i p)"
proof -
  obtain pa h where d: "destroy_instance env i p = sem_drain (remove_instance (inst_id i)
       (on_inst (inst_id i) (try_transition StateDestroying) p\<lparr>p_hist := h, p_ports := pa\<rparr>))"
    and pa: "case port_of i of None \<Rightarrow> pa = p_ports p
      | Some c \<Rightarrow> in_use pa = removeAll c (in_use (p_ports p)) \<and> (ports_ok (p_ports p) \<longrightarrow> ports_ok pa)"
    using destroy_instance_result by blast
  let ?q = "destroy_instance env i p"
  have get: "get_instance k ?q = (if k = inst_id i then None else get_instance k p)" for k
    by (simp add: d sem_drain_def remove_instance_def get_remove get_on_inst)
  have fl: "p_ports ?q = pa" "p_sem ?q = p_sem p - 2" "p_cap ?q = p_cap p" "p_uuids ?q = p_uuids p"
    "p_cfg ?q = p_cfg p" "map fst (p_instances ?q) = filter (\<lambda>k. k \<noteq> inst_id i) (map fst (p_instances p))"
    by (simp_all add: d sem_drain_def remove_instance_def on_inst_def upd_entry_def AList.delete_eq
        filter_map comp_def case_prod_unfold split: if_splits)
  have "pool_ok ?q" if ok: "pool_ok p"
    unfolding pool_ok_def get
  proof (intro conjI allI impI)
    show "distinct (map fst (p_instances ?q))" "p_sem ?q \<le> p_cap ?q" "ports_ok (p_ports ?q)"
      using ok pa by (auto simp: fl pool_ok_def split: option.splits)
    fix k j c
    assume g: "(if k = inst_id i then None else get_instance k p) = Some j"
    then have g': "get_instance k p = Some j" "k \<noteq> inst_id i" by (auto split: if_splits)
    with ok show "inst_id j = k" "inst_device j \<noteq> None" by (auto simp: pool_ok_def)
    assume c: "port_of j = Some c"
    with ok g' assms have "port_of i \<noteq> Some c" unfolding pool_ok_def by metis
    with ok g' c pa show "c \<in> set (in_use (p_ports ?q))"
      by (auto simp: fl pool_ok_def split: option.splits)
    fix k' j'
    assume "(if k' = inst_id i then None else get_instance k' p) = Some j'" "port_of j' = Some c"
    with g' c ok show "k = k'" unfolding pool_ok_def by (metis option.distinct(1))
  qed
  then show ?thesis by (auto simp: pstep_def get fl)
qed

text \<open>Booting.\<close>

lemma boot_begin_step: "pstep (=) (env_uuid env) p (snd (boot_begin env avd prof p)) \<or>
    (\<exists>inst q. boot_begin env avd prof p = (Inr inst, q) \<and> inst_state inst = StateBooting \<and>
       pstep at_most_once (env_uuid env) p q)"
proof (cases "avd_exists (env_fs env) avd = Some True")
  case False
  then show ?thesis by (auto simp: boot_begin_def split: option.split bool.split)
next
  case True
  let ?dev = "Emulator (new_emulator_device avd (boot_profile (p_cfg p) prof)
     (visible_emulators (cfg_pool (p_cfg p))))"
  let ?i = "new_instance env (next_id env p) (p_node p) ?dev prof"
  let ?q = "snd (create_instance env ?dev prof p)"
  let ?j = "?i\<lparr>display_info := avd_display (enrich_avd (env_fs env) (plain_avd avd)),
      inst_state := StateBooting\<rparr>"
  have c: "pstep (=) (env_uuid env) p ?q"
    by (rule pstep_create) (simp add: port_of_def new_instance_def new_emulator_device_def)
  have g: "get_instance (next_id env p) ?q = Some ?i"
    by (simp add: create_instance_def Let_def get_instance_def update_conv')
  have b: "boot_begin env avd prof p = (Inr ?j, on_inst (next_id env p) (\<lambda>_. ?j) ?q)"
    by (simp add: boot_begin_def True Let_def create_instance_def transition_to_def new_instance_def)
  have "pstep at_most_once (env_uuid env) ?q (on_inst (next_id env p) (\<lambda>_. ?j) ?q)"
    by (rule pstep_replace [OF g]) (simp_all add: new_instance_def at_most_once_def)
  with c b pstep_eq_move show ?thesis by auto
qed

lemma pstep_boot_begin: "pstep at_most_once (env_uuid env) p (snd (boot_begin env avd prof p))"
  using boot_begin_step [of env p avd prof] by (auto intro: pstep_weaken)

lemma prepare_ports:
  assumes "run_state (device_prepare c pa d) h = ((ok, d', pa'), h')"
  shows "(ports_ok pa \<longrightarrow> ports_ok pa') \<and> set (in_use pa) \<subseteq> set (in_use pa') \<and>
    (\<forall>e. d = Emulator e \<longrightarrow> ok \<longrightarrow> (\<exists>e'. d' = Emulator e' \<and>
       console (emu_ports e') \<in> set (in_use pa') \<and> console (emu_ports e') \<notin> set (in_use pa))) \<and>
    ((\<forall>e. d \<noteq> Emulator e) \<longrightarrow> (\<forall>e. d' \<noteq> Emulator e) \<and> pa' = pa)"
proof (cases d)
  case (Emulator e)
  with assms obtain e' where e': "run_state (emulator_prepare c pa e) h = ((ok, e', pa'), h')"
    "d' = Emulator e'" by (auto split: prod.splits)
  from e'(1) show ?thesis
  proof (cases rule: emulator_prepare_cases)
    case no_port
    with ports_ok_allocate [of pa] Emulator e'(2) show ?thesis
      by (auto simp: port_allocate_def split: option.splits)
  next
    case no_process
    with ports_ok_allocate [of pa] port_release_allocate [OF no_process(1)] Emulator e'(2)
    show ?thesis by (auto simp: ports_ok_release)
  next
    case booted
    with ports_ok_allocate [of pa] port_allocate_Inr [OF booted(1)] Emulator e'(2)
    show ?thesis by auto
  qed
qed (use assms in \<open>auto split: prod.splits\<close>)

lemma pool_ok_ports_grow:
  assumes "pool_ok p" and "ports_ok pa" and "set (in_use (p_ports p)) \<subseteq> set (in_use pa)"
  shows "pool_ok (p\<lparr>p_ports := pa\<rparr>)"
  using assms unfolding pool_ok_def by auto

text \<open>The prepared device goes into the entry: its port is new to everybody.\<close>

lemma pool_ok_set_device:
  assumes "pool_ok p" and "ports_ok pa" and "set (in_use (p_ports p)) \<subseteq> set (in_use pa)"
    and "\<And>e. d = Emulator e \<Longrightarrow> console (emu_ports e) \<in> set (in_use pa) \<and>
      console (emu_ports e) \<notin> set (in_use (p_ports p))"
  shows "pool_ok (on_inst k (\<lambda>i. i\<lparr>inst_device := Some d\<rparr>) (p\<lparr>p_ports := pa\<rparr>))"
proof -
  let ?q = "on_inst k (\<lambda>i. i\<lparr>inst_device := Some d\<rparr>) (p\<lparr>p_ports := pa\<rparr>)"
  have get: "get_instance k' ?q = (if k' = k then map_option (\<lambda>i. i\<lparr>inst_device := Some d\<rparr>)
      (get_instance k p) else get_instance k' p)" for k'
    by (simp add: get_on_inst)
  have new: "c \<in> set (in_use pa) \<and> c \<notin> set (in_use (p_ports p))"
    if "port_of (i\<lparr>inst_device := Some d\<rparr>) = Some c" for i c
    using that assms(4) by (auto simp: port_of_def split: device.splits if_splits)
  have old: "c \<in> set (in_use (p_ports p))" if "get_instance k' p = Some i" "port_of i = Some c" for k' i c
    using that assms(1) by (auto simp: pool_ok_def)
  have inj: "k1 = k2" if "get_instance k1 p = Some i1" "get_instance k2 p = Some i2"
      "port_of i1 = Some c" "port_of i2 = Some c" for k1 k2 i1 i2 c
    using that assms(1) unfolding pool_ok_def by metis
  show ?thesis
    unfolding pool_ok_def get
  proof (intro conjI allI impI)
    show "distinct (map fst (p_instances ?q))" "p_sem ?q \<le> p_cap ?q" "ports_ok (p_ports ?q)"
      using assms(1,2) by (auto simp: pool_ok_def)
    fix k1 i1 c
    assume g1: "(if k1 = k then map_option (\<lambda>i. i\<lparr>inst_device := Some d\<rparr>) (get_instance k p)
        else get_instance k1 p) = Some i1"
    with assms(1) show "inst_id i1 = k1" "inst_device i1 \<noteq> None"
      by (auto simp: pool_ok_def split: if_splits)
    assume c1: "port_of i1 = Some c"
    show "c \<in> set (in_use (p_ports ?q))"
      using g1 c1 new old assms(3) by (auto split: if_splits)
    fix k2 i2
    assume g2: "(if k2 = k then map_option (\<lambda>i. i\<lparr>inst_device := Some d\<rparr>) (get_instance k p)
        else get_instance k2 p) = Some i2" and c2: "port_of i2 = Some c"
    show "k1 = k2"
      using g1 g2 c1 c2 by (auto split: if_splits dest: new old inj)
  qed
qed

lemma with_ioE:
  assumes "with_io m p = (x, q)"
  obtains h where "run_state m (p_hist p) = (x, h)" "q = p\<lparr>p_hist := h\<rparr>"
  using assms by (auto simp: with_io_def split: prod.splits)

lemma boot_finish_step:
  assumes "case inst_device inst of Some (Emulator e) \<Rightarrow> True | _ \<Rightarrow> False"
  shows "pstep at_most_once u p (snd (boot_finish env inst p))"
proof -
  let ?k = "inst_id inst"
  from assms obtain e where e: "inst_device inst = Some (Emulator e)"
    by (auto split: option.splits device.splits)
  obtain ok dev1 pa h where r:
    "run_state (device_prepare (env_client env) (p_ports p) (Emulator e)) (p_hist p) = ((ok, dev1, pa), h)"
    by (metis prod_cases3 surj_pair)
  let ?p0 = "p\<lparr>p_hist := h, p_ports := pa\<rparr>"
  let ?p1 = "on_inst ?k (\<lambda>i. i\<lparr>inst_device := Some dev1\<rparr>) ?p0"
  note ports = prepare_ports [OF r]
  have ok0: "pool_ok ?p0" if "pool_ok p"
    using pool_ok_ports_grow [of p pa] that ports by (auto simp: pool_ok_def)
  have same: "get_instance k ?p0 = get_instance k p" for k by simp
  show ?thesis
  proof (cases ok)
    case False
    have b: "snd (boot_finish env inst p) = remove_instance ?k ?p1"
      using False e r by (simp add: boot_finish_def with_io_def del: device_prepare.simps)
    have "pool_ok (remove_instance ?k ?p0)" if "pool_ok p"
      using pstep_remove_instance [of u ?p0 ?k] ok0 [OF that] by (simp add: pstep_def)
    moreover have eq: "get_instance k (remove_instance ?k ?p1) = get_instance k (remove_instance ?k ?p0)" for k
      by (simp add: remove_instance_def get_remove get_on_inst)
    moreover have "map fst (p_instances (remove_instance ?k ?p1)) = map fst (p_instances (remove_instance ?k ?p0))"
      by (simp add: remove_instance_def keys_delete)
    ultimately have "pool_ok (remove_instance ?k ?p1)" if "pool_ok p"
      using that unfolding pool_ok_def eq by (simp add: remove_instance_def)
    then show ?thesis unfolding b
      by (auto simp: pstep_def remove_instance_def get_remove get_on_inst at_most_once_def)
  next
    case True
    have ok1: "pool_ok ?p1" if ok: "pool_ok p"
    proof (rule pool_ok_set_device [of "p\<lparr>p_hist := h\<rparr>", simplified])
      show "pool_ok (p\<lparr>p_hist := h\<rparr>)" using ok by (simp add: pool_ok_def)
      show "ports_ok pa" using ports ok by (simp add: pool_ok_def)
      show "set (in_use (p_ports p)) \<subseteq> set (in_use pa)" by (rule ports [THEN conjunct2, THEN conjunct1])
      show "console (emu_ports e) \<in> set (in_use pa) \<and> console (emu_ports e) \<notin> set (in_use (p_ports p))"
        if "dev1 = Emulator e" for e
        using ports [THEN conjunct2, THEN conjunct2, THEN conjunct1, rule_format, OF refl True] that
        by auto
    qed
    have get1: "get_instance k ?p1 = (if k = ?k then map_option (\<lambda>i. i\<lparr>inst_device := Some dev1\<rparr>)
        (get_instance k p) else get_instance k p)" for k
      by (simp add: get_on_inst)
    have s1: "pstep (=) u p ?p1"
      using ok1 by (auto simp: pstep_def get1 split: if_splits)
    have b: "snd (boot_finish env inst p) = (case get_instance ?k ?p1 of None \<Rightarrow> ?p1
        | Some i \<Rightarrow> (case transition_to StateWarm i of Inl e \<Rightarrow> ?p1
          | Inr i1 \<Rightarrow> (let p2 = notify_ready (on_inst ?k
                (\<lambda>_. touch_activity (env_now env) (record_health_check True (env_now env) i1)) ?p1)
              in p2\<lparr>p_watched := ?k # p_watched p2\<rparr>)))"
      using True e r
      by (simp add: boot_finish_def with_io_def Let_def del: device_prepare.simps
          split: option.split sum.split)
    show ?thesis
    proof (cases "get_instance ?k ?p1")
      case None
      with b s1 show ?thesis by (simp add: pstep_weaken)
    next
      case (Some i)
      show ?thesis
      proof (cases "transition_to StateWarm i")
        case (Inl x)
        with b s1 Some show ?thesis by (simp add: pstep_weaken)
      next
        case (Inr i1)
        let ?j = "touch_activity (env_now env) (record_health_check True (env_now env) i1)"
        let ?p2 = "on_inst ?k (\<lambda>_. ?j) ?p1"
        have m: "pstep at_most_once u ?p1 ?p2"
          by (rule pstep_replace [OF Some]) (use transition_moves [OF Inr] in auto)
        have "pstep (=) u ?p2 (snd (boot_finish env inst p))"
          by (rule pstep_same) (simp_all add: b Some Inr Let_def notify_ready_def)
        with s1 m show ?thesis by (meson pstep_eq_move pstep_move_eq)
      qed
    qed
  qed
qed

text \<open>Allocating and releasing.\<close>

definition eligible :: "bool \<Rightarrow> device_instance \<Rightarrow> bool" where
  "eligible incl i \<longleftrightarrow> inst_state i = StateWarm \<and> (incl \<or> \<not> reserved i)"

text \<open>The one-pass loop is: the first eligible instance of the profile, else the first eligible.\<close>

lemma scan_warm_spec:
  "scan_warm prof incl m any =
     (case List.find (\<lambda>(k, i). eligible incl i \<and> prof \<noteq> [] \<and> profile_name i = prof) m of
        Some (k, i) \<Rightarrow> Some k
      | None \<Rightarrow> (case any of Some k \<Rightarrow> Some k
                 | None \<Rightarrow> map_option fst (List.find (\<lambda>(k, i). eligible incl i) m)))"
  by (induction m arbitrary: any)
    (auto simp: eligible_def split: if_splits option.splits)

lemma scan_warm_Some:
  assumes "scan_warm prof incl m None = Some k"
  obtains i where "(k, i) \<in> set m" "eligible incl i"
  using assms by (auto simp: scan_warm_spec split: option.splits dest!: find_SomeD)

lemma scan_warm_None: "scan_warm prof incl m None = None \<Longrightarrow> (k, i) \<in> set m \<Longrightarrow> \<not> eligible incl i"
  by (auto simp: scan_warm_spec split: option.splits dest: find_NoneD)

lemma pstep_alloc_warm:
  "alloc_warm prof incl p = Some (k, q) \<Longrightarrow> pstep at_most_once u p q"
  by (auto simp: alloc_warm_def at_most_once_def split: option.splits intro!: pstep_on_inst)

lemma pstep_alloc_reserve: "pstep (=) u p (snd (alloc_reserve env p))"
proof (cases "sem_try_acquire p")
  case (Some p1)
  have "pstep (=) u p1 (snd (alloc_reserve env p))"
    by (auto simp: alloc_reserve_def Some split: option.split prod.splits intro: pstep_booting)
      (metis pstep_sem_receive snd_conv)+
  then show ?thesis using pstep_eq_trans pstep_sem_acquire [OF Some] by blast
qed (simp add: alloc_reserve_def)

lemma pstep_alloc_commit: "pstep at_most_once u p (snd (alloc_commit avd (r, p)))"
proof -
  let ?p = "p\<lparr>p_booting := removeAll avd (p_booting p)\<rparr>"
  have "pstep at_most_once u ?p (snd (alloc_commit avd (r, p)))"
    by (auto simp: alloc_commit_def Let_def split: sum.split option.split
        intro: pstep_weaken [OF pstep_sem_receive] pstep_move)
  with pstep_booting pstep_eq_move show ?thesis by blast
qed

lemma pstep_allocate_instance:
  assumes "distinct (map fst (p_instances p))"
  shows "pstep at_most_once u p (snd (allocate_instance k m p))"
  using assms
  by (auto simp: allocate_instance_def get_instance_def split: option.split sum.split prod.split
      intro!: pstep_weaken [OF pstep_refl] pstep_move dest!: find_SomeD)

end
