(* ===== verification/PoolRun.thy ===== *)
theory PoolRun
  imports PoolInv
begin

text \<open>
  Runs of the pool: the remaining operations as steps, the step relation in which any goroutine may do
  its next stretch at any time, and the theorems that hold of every run.
\<close>

subsection \<open>The remaining operations\<close>

lemma pstep_pool_release: "pstep at_most_once u p (snd (pool_release env k p))"
proof (cases "get_instance k p")
  case (Some i)
  show ?thesis
  proof (cases "inst_device i")
    case (Some d)
    obtain devs p1 where io: "with_io (adb_devices (env_client env)) p = (devs, p1)" by fastforce
    note same = with_io_same [OF io, of u]
    have g: "get_instance k p1 = get_instance k p" using io by (metis snd_conv with_io_fields(10))
    have "pstep at_most_once u p1 (snd (pool_release env k p))"
    proof (cases "device_visible (device_serial d) devs")
      case False
      have "pstep (=) u p1 (remove_instance k (on_inst k clear_session p1))"
        by (rule pstep_eq_trans [OF pstep_method pstep_remove_instance]) simp
      with False show ?thesis
        by (simp add: pool_release_def \<open>get_instance k p = Some i\<close> Some io pstep_weaken)
    next
      case True
      show ?thesis
      proof (cases "transition_to StateResetting i")
        case (Inl e)
        with True show ?thesis
          by (simp add: pool_release_def \<open>get_instance k p = Some i\<close> Some io
              pstep_weaken [OF pstep_refl])
      next
        case (Inr j)
        have "pstep at_most_once u p1 (on_inst k (\<lambda>_. clear_session j) p1)"
          by (rule pstep_replace [of _ _ i])
            (use transition_moves [OF Inr] g \<open>get_instance k p = Some i\<close> in auto)
        with True Inr show ?thesis
          by (simp add: pool_release_def \<open>get_instance k p = Some i\<close> Some io)
      qed
    qed
    with same show ?thesis by (rule pstep_eq_move)
  qed (simp add: pool_release_def Some pstep_weaken)
qed (simp add: pool_release_def pstep_weaken)

lemma pstep_reset_finish: "pstep at_most_once u p (reset_finish env k p)"
proof (cases "get_instance k p")
  case (Some i)
  show ?thesis
  proof (cases "inst_device i")
    case (Some d)
    obtain b p1 where io: "with_io (device_reset (env_client env) d) p = (b, p1)" by fastforce
    note same = with_io_same [OF io, of u]
    have g: "get_instance k p1 = Some i"
      using io \<open>get_instance k p = Some i\<close> by (metis snd_conv with_io_fields(10))
    have r: "reset_finish env k p = (if \<not> b then remove_instance k p1
        else (case transition_to StateWarm i of Inl e \<Rightarrow> p1
              | Inr i1 \<Rightarrow> notify_ready (on_inst k (\<lambda>_. touch_activity (env_now env) i1) p1)))"
      by (simp add: reset_finish_def \<open>get_instance k p = Some i\<close> Some io del: device_reset.simps)
    have "pstep at_most_once u p1 (reset_finish env k p)"
    proof (cases "\<not> b")
      case False
      show ?thesis
      proof (cases "transition_to StateWarm i")
        case (Inr j)
        have "pstep at_most_once u p1 (on_inst k (\<lambda>_. touch_activity (env_now env) j) p1)"
          by (rule pstep_replace [OF g]) (use transition_moves [OF Inr] in auto)
        from pstep_move_eq [OF this pstep_notify] False Inr show ?thesis by (simp add: r)
      qed (use False in \<open>simp add: r pstep_weaken\<close>)
    qed (simp add: r pstep_weaken pstep_remove_instance)
    with same show ?thesis by (rule pstep_eq_move)
  qed (simp add: reset_finish_def Some pstep_weaken)
qed (simp add: reset_finish_def pstep_weaken)

lemma pstep_adopt_warm:
  assumes "port_of (new_instance env (next_id env p) (p_node p) dev []) = None"
  shows "pstep (=) (env_uuid env) p (snd (adopt_warm env dev p))"
proof -
  let ?i = "new_instance env (next_id env p) (p_node p) dev []"
  let ?k = "next_id env p"
  let ?q = "snd (create_instance env dev [] p)"
  let ?j = "touch_activity (env_now env) (record_health_check True (env_now env) (?i\<lparr>inst_state := StateWarm\<rparr>))"
  have r: "snd (adopt_warm env dev p) = on_inst ?k (\<lambda>_. ?j) ?q"
    by (simp add: adopt_warm_def create_instance_def Let_def transition_to_def new_instance_def)
  have c: "pstep (=) (env_uuid env) p ?q" by (rule pstep_create [OF assms])
  have g: "get_instance ?k ?q = Some ?i"
    by (simp add: create_instance_def Let_def get_instance_def update_conv')
  have m: "pstep at_most_once (env_uuid env) ?q (on_inst ?k (\<lambda>_. ?j) ?q)"
    by (rule pstep_replace [OF g]) (simp_all add: new_instance_def at_most_once_def)
  have old: "get_instance k (on_inst ?k (\<lambda>_. ?j) ?q) = get_instance k p" if "k \<noteq> ?k" for k
    using that by (simp add: get_on_inst) (simp add: create_instance_def Let_def get_instance_def update_conv')
  have new: "get_instance ?k (on_inst ?k (\<lambda>_. ?j) ?q) = Some ?j"
    by (simp add: get_on_inst g)
  have "?k \<in> drawn (env_uuid env) p (on_inst ?k (\<lambda>_. ?j) ?q)"
    by (auto simp: drawn_def next_id_def create_instance_def Let_def)
  moreover have "lifecycle StateCreating (inst_state ?j)"
    by (simp add: lifecycle_step)
  ultimately have states: "(\<exists>i. get_instance k p = Some i \<and> inst_state i = inst_state i') \<or>
      k \<in> drawn (env_uuid env) p (on_inst ?k (\<lambda>_. ?j) ?q) \<and> lifecycle StateCreating (inst_state i')"
    if "get_instance k (on_inst ?k (\<lambda>_. ?j) ?q) = Some i'" for k i'
    using that old [of k] new by (cases "k = ?k") auto
  show ?thesis
    unfolding r pstep_def
  proof (intro conjI allI impI)
    fix k i'
    assume "get_instance k (on_inst ?k (\<lambda>_. ?j) ?q) = Some i'"
    then show "(\<exists>i. get_instance k p = Some i \<and> inst_state i = inst_state i') \<or>
        k \<in> drawn (env_uuid env) p (on_inst ?k (\<lambda>_. ?j) ?q) \<and>
        lifecycle StateCreating (inst_state i')" by (rule states)
  qed (use pstepD [OF c] pstepD [OF m] in simp_all)
qed

lemma pstep_adopt_running_one: "pstep (=) (env_uuid env) p (adopt_running_one env d p)"
proof (cases "snd d \<noteq> ''device'' \<or> tracked_serial (fst d) p")
  case False
  obtain ok dev pa p1 where io: "with_io (device_prepare (env_client env) (p_ports p)
      (Running (new_running_device (fst d)))) p = ((ok, dev, pa), p1)"
    by (metis prod_cases3 surj_pair)
  note same = with_io_same [OF io, of "env_uuid env"]
  from io have dev: "\<forall>e. dev \<noteq> Emulator e" by (elim with_ioE) (auto split: prod.splits)
  have s: "pstep (=) (env_uuid env) p1 (snd (adopt_warm env dev p1))"
    by (rule pstep_adopt_warm) (use dev in \<open>auto simp: port_of_def new_instance_def split: device.split\<close>)
  have r: "adopt_running_one env d p = (if \<not> ok then p1 else (case adopt_warm env dev p1 of
      (None, p2) \<Rightarrow> p2 | (Some k, p2) \<Rightarrow> p2\<lparr>p_watched := k # p_watched p2\<rparr>))"
    using False io by (simp add: adopt_running_one_def case_prod_unfold Let_def del: device_prepare.simps)
  have "pstep (=) (env_uuid env) p1 (adopt_running_one env d p)"
    using s pstep_eq_trans pstep_watched
    by (auto simp: r split: prod.splits option.splits)
  with same show ?thesis by (rule pstep_eq_trans)
qed (auto simp: adopt_running_one_def Let_def case_prod_unfold)

lemma pstep_adopt_running: "pstep (=) (env_uuid env) p (adopt_running_emulators env p)"
proof -
  obtain devs p1 where io: "with_io (adb_devices (env_client env)) p = (devs, p1)" by fastforce
  have "pstep (=) (env_uuid env) p1 (adopt_running_emulators env p)"
    by (auto simp: adopt_running_emulators_def io split: option.split
        intro: pstep_fold pstep_adopt_running_one)
  with with_io_same [OF io] show ?thesis by (rule pstep_eq_trans)
qed

lemma pstep_adopt_usb: "pstep (=) (env_uuid env) p (adopt_device env (Usb d) p)"
proof (cases "tracked_serial (usb_serial d) p")
  case False
  obtain ok dev pa p1 where io: "with_io (device_prepare (env_client env) (p_ports p) (Usb d)) p =
      ((ok, dev, pa), p1)" by (metis prod_cases3 surj_pair)
  from io have dev: "\<forall>e. dev \<noteq> Emulator e" "pa = p_ports p1"
    by (elim with_ioE; auto split: prod.splits)+
  then have p1: "p1\<lparr>p_ports := pa\<rparr> = p1" by simp
  have s: "pstep (=) (env_uuid env) p1 (snd (adopt_warm env dev p1))"
    by (rule pstep_adopt_warm) (use dev in \<open>auto simp: port_of_def new_instance_def split: device.split\<close>)
  have r: "adopt_device env (Usb d) p = (if \<not> ok then p1 else (case adopt_warm env dev p1 of
      (None, p3) \<Rightarrow> p3 | (Some k, p3) \<Rightarrow> notify_ready p3))"
    using False io p1 by (simp add: adopt_device_def Let_def del: device_prepare.simps)
  have "pstep (=) (env_uuid env) p1 (adopt_device env (Usb d) p)"
    using s pstep_eq_trans pstep_notify
    by (auto simp: r split: prod.splits option.splits)
  with with_io_same [OF io] show ?thesis by (rule pstep_eq_trans)
qed (simp add: adopt_device_def)

lemma pstep_scan_once: "pstep (=) (env_uuid env) p (scan_once env p)"
proof -
  obtain ds p1 where io: "with_io (usb_scan (env_client env)) p = (ds, p1)" by fastforce
  have "pstep (=) (env_uuid env) p1 (scan_once env p)"
  proof (cases ds)
    case (Some xs)
    let ?q = "fold (adopt_device env \<circ> Usb) xs p1"
    have "pstep (=) (env_uuid env) p1 ?q" by (rule pstep_fold) (simp add: pstep_adopt_usb)
    moreover have "pstep (=) (env_uuid env) ?q (prune_disconnected (map usb_serial xs) ?q)"
      unfolding prune_disconnected_def by (rule pstep_fold) (rule pstep_remove_instance)
    ultimately have "pstep (=) (env_uuid env) p1 (prune_disconnected (map usb_serial xs) ?q)"
      by (rule pstep_eq_trans)
    then show ?thesis by (simp add: scan_once_def io Some)
  qed (simp add: scan_once_def io)
  with with_io_same [OF io] show ?thesis by (rule pstep_eq_trans)
qed

text \<open>Destroying a batch: the instances of the batch stay in the map until their turn.\<close>

lemma get_destroy: "get_instance k (destroy_instance env i p) =
    (if k = inst_id i then None else get_instance k p)"
proof -
  obtain pa h where d: "destroy_instance env i p = sem_drain (remove_instance (inst_id i)
       (on_inst (inst_id i) (try_transition StateDestroying) p\<lparr>p_hist := h, p_ports := pa\<rparr>))"
    using destroy_instance_result by blast
  show ?thesis by (simp add: d sem_drain_def remove_instance_def get_remove get_on_inst)
qed

lemma pstep_destroy_all:
  assumes "\<And>i. i \<in> set is \<Longrightarrow> get_instance (inst_id i) p = Some i" and "distinct (map inst_id is)"
  shows "pstep (=) u p (fold (destroy_instance env) is p)"
  using assms
proof (induction "is" arbitrary: p)
  case (Cons i "is")
  have "get_instance (inst_id j) (destroy_instance env i p) = Some j" if "j \<in> set is" for j
    using that Cons(2) [of j] Cons(3) by (auto simp: get_destroy image_iff)
  with Cons have "pstep (=) u (destroy_instance env i p) (fold (destroy_instance env) is (destroy_instance env i p))"
    by simp
  with pstep_destroy [of i p u env] Cons(2) [of i] show ?case by (auto intro: pstep_eq_trans)
qed simp

lemma instances_of_pool:
  assumes "pool_ok p"
  shows "i \<in> snd ` set (p_instances p) \<Longrightarrow> get_instance (inst_id i) p = Some i"
    and "distinct (map inst_id (map snd (p_instances p)))"
proof -
  have key: "inst_id j = k" if "(k, j) \<in> set (p_instances p)" for k j
    using that assms by (auto simp: pool_ok_def get_instance_def)
  have "map inst_id (map snd (p_instances p)) = map fst (p_instances p)"
    by (auto simp: key)
  moreover have "distinct (map fst (p_instances p))" using assms by (simp add: pool_ok_def)
  ultimately show "distinct (map inst_id (map snd (p_instances p)))" by metis
  show "get_instance (inst_id i) p = Some i" if "i \<in> snd ` set (p_instances p)"
    using that key assms by (force simp: pool_ok_def get_instance_def)
qed

lemma pstep_destroy_filter:
  assumes "pool_ok p"
  shows "pstep (=) u p (fold (destroy_instance env) (filter P (map snd (p_instances p))) p)"
proof (rule pstep_destroy_all)
  show "get_instance (inst_id i) p = Some i" if "i \<in> set (filter P (map snd (p_instances p)))" for i
    using that instances_of_pool(1) [OF assms] by auto
  show "distinct (map inst_id (filter P (map snd (p_instances p))))"
    using instances_of_pool(2) [OF assms] by (rule distinct_map_filter)
qed

lemma pstep_run_maintenance:
  assumes "pool_ok p"
  shows "pstep (=) (env_uuid env) p (run_maintenance env p)"
proof -
  let ?u = "env_uuid env"
  define p1 where "p1 = (if list_ex (\<lambda>(k, i). inst_state i = StateBooting) (p_instances p) then p
     else adopt_running_emulators env p)"
  define p2 where "p2 = (scan_once env ^^ p_scanners p1) p1"
  define p3 where "p3 = fold (destroy_instance env) (errored p2) p2"
  have s1: "pstep (=) ?u p p1" by (simp add: p1_def pstep_adopt_running)
  have "pstep (=) ?u p1 p2" unfolding p2_def by (rule pstep_funpow) (rule pstep_scan_once)
  with s1 have s2: "pstep (=) ?u p p2" by (rule pstep_eq_trans)
  with assms have ok2: "pool_ok p2" by (simp add: pstep_def)
  have "pstep (=) ?u p2 p3" unfolding p3_def errored_def by (rule pstep_destroy_filter [OF ok2])
  with s2 have s3: "pstep (=) ?u p p3" by (rule pstep_eq_trans)
  with assms have ok3: "pool_ok p3" by (simp add: pstep_def)
  have "pstep (=) ?u p3 (fold (destroy_instance env) (idle_devices env p3) p3)"
    unfolding idle_devices_def by (rule pstep_destroy_filter [OF ok3])
  with s3 have "pstep (=) ?u p (fold (destroy_instance env) (idle_devices env p3) p3)"
    by (rule pstep_eq_trans)
  with s3 show ?thesis
    by (simp add: run_maintenance_def Let_def p1_def [symmetric] p2_def [symmetric] p3_def [symmetric])
qed

lemma pstep_watch_tick: "pstep (=) u p (watch_tick env k p)"
proof (cases "get_instance k p")
  case None
  then show ?thesis by (simp add: watch_tick_def unwatch_def pstep_watched)
next
  case (Some i)
  obtain ds p1 where io: "with_io (adb_devices (env_client env)) p = (ds, p1)" by fastforce
  have g: "get_instance k p1 = Some i" using io Some by (metis snd_conv with_io_fields(10))
  note same = with_io_same [OF io, of u]
  have m: "pstep (=) u p (on_inst k (record_health_check True (env_now env)) p1)"
    by (rule pstep_eq_trans [OF same pstep_method]) simp
  have f: "pstep (=) u p (on_inst k (\<lambda>_. record_health_check False (env_now env) i) p1)" (is "pstep _ _ _ ?q")
    by (rule pstep_eq_trans [OF same pstep_replace [OF g]]) simp_all
  have e: "pstep (=) u p (unwatch k (remove_with_reason k ''emulator disappeared from adb'' ?q))"
    unfolding unwatch_def by (rule pstep_eq_trans [OF pstep_eq_trans [OF f pstep_remove] pstep_watched])
  show ?thesis
    using same m f e by (simp add: watch_tick_def Some io Let_def split: option.split)
qed

lemma pstep_shutdown: "pool_ok p \<Longrightarrow> pstep (=) u p (snd (shutdown_instance env k p))"
  by (auto simp: shutdown_instance_def pool_ok_def split: option.split intro!: pstep_destroy)

lemma pstep_reservations:
  "pstep (=) u p (snd (reserve_instance k l p))" "pstep (=) u p (snd (unreserve_instance k p))"
  by (auto simp: reserve_instance_def unreserve_instance_def split: option.split intro: pstep_method)

lemma pstep_apply_reservations: "pstep (=) u p (apply_reservations m p)"
proof -
  let ?f = "\<lambda>i. case inst_device i of None \<Rightarrow> i
     | Some d \<Rightarrow> (case map_of m (device_display_name d) of None \<Rightarrow> i | Some label \<Rightarrow> reserve label i)"
  have get: "get_instance k (apply_reservations m p) = map_option ?f (get_instance k p)" for k
    by (simp add: get_instance_def apply_reservations_def) (induction "p_instances p", auto simp: map_of_map)
  have f: "inst_id (?f i) = inst_id i" "inst_device (?f i) = inst_device i"
    "inst_state (?f i) = inst_state i" "port_of (?f i) = port_of i" for i
    by (auto split: option.split)
  have keys: "map fst (p_instances (apply_reservations m p)) = map fst (p_instances p)"
    by (simp add: apply_reservations_def comp_def case_prod_unfold)
  have "pool_ok (apply_reservations m p)" if "pool_ok p"
    using that f unfolding pool_ok_def keys get by (auto simp: apply_reservations_def)
  then show ?thesis using f by (auto simp: pstep_def get) (simp_all add: apply_reservations_def)
qed

lemma pstep_allocate_avd_tracked:
  assumes "distinct (map fst (p_instances p))"
    and "List.find (\<lambda>(k, i). map_option device_display_name (inst_device i) = Some avd)
          (p_instances p) = Some (k, i)"
  shows "pstep at_most_once u p (snd (allocate_avd env avd m p))"
proof -
  have g: "get_instance k p = Some i"
    using assms find_SomeD [OF assms(2)] by (simp add: get_instance_def)
  show ?thesis
    using assms(2) by (auto simp: allocate_avd_def pstep_weaken intro: pstep_move [OF g] split: sum.split)
qed

lemma pstep_pool_stop:
  assumes "pool_ok p"
  shows "pstep (=) u p (pool_stop env p)"
proof -
  let ?f = "\<lambda>i q. case inst_device i of None \<Rightarrow> remove_instance (inst_id i) q
     | Some d \<Rightarrow> if can_destroy d then destroy_instance env i q else remove_instance (inst_id i) q"
  have all: "pstep (=) u q (fold ?f is q)"
    if "\<And>i. i \<in> set is \<Longrightarrow> get_instance (inst_id i) q = Some i" "distinct (map inst_id is)" for "is" q
    using that
  proof (induction "is" arbitrary: q)
    case (Cons i "is")
    have "get_instance (inst_id j) (?f i q) = Some j" if "j \<in> set is" for j
      using that Cons(2) [of j] Cons(3)
      by (auto simp: get_destroy image_iff remove_instance_def get_remove split: option.split)
    with Cons have "pstep (=) u (?f i q) (fold ?f is (?f i q))" by simp
    moreover have "pstep (=) u q (?f i q)"
      using pstep_destroy [of i q u env] Cons(2) [of i] pstep_remove_instance
      by (auto split: option.split)
    ultimately show ?case by (auto intro: pstep_eq_trans)
  qed simp
  show ?thesis
    unfolding pool_stop_def by (rule all) (use instances_of_pool [OF assms] in auto)
qed

lemma pstep_shuffle:
  assumes "distinct (map fst (p_instances p))" and "mset m = mset (p_instances p)"
  shows "pstep (=) u p (p\<lparr>p_instances := m\<rparr>)"
proof -
  have "mset (map fst m) = mset (map fst (p_instances p))" using assms(2) by (simp add: mset_map)
  with assms(1) have d: "distinct (map fst m)" using mset_eq_imp_distinct_iff by blast
  have "set m = set (p_instances p)" using assms(2) by (rule mset_eq_setD)
  then have "map_of m k = Some v \<longleftrightarrow> map_of (p_instances p) k = Some v" for k v
    using d assms(1) by (simp add: map_of_eq_Some_iff)
  then have "map_of m k = map_of (p_instances p) k" for k by (metis option.exhaust)
  then have "get_instance k (p\<lparr>p_instances := m\<rparr>) = get_instance k p" for k
    by (simp add: get_instance_def)
  with d show ?thesis by (auto simp: pstep_def pool_ok_def)
qed

subsection \<open>The step relation\<close>

definition boots_emulator :: "device_instance \<Rightarrow> bool" where
  "boots_emulator i \<longleftrightarrow> (case inst_device i of Some (Emulator e) \<Rightarrow> True | _ \<Rightarrow> False)"

text \<open>One stretch of one goroutine. Every environment may answer differently; only the uuid
  generator \<open>u\<close> is the same throughout. \<open>shuffle\<close> is the random order of Go's map iteration.\<close>

inductive pool_step :: "(nat \<Rightarrow> string) \<Rightarrow> pool \<Rightarrow> pool \<Rightarrow> bool" for u where
  shuffle: "mset m = mset (p_instances p) \<Longrightarrow> pool_step u p (p\<lparr>p_instances := m\<rparr>)"
| warm: "alloc_warm prof incl p = Some (k, q) \<Longrightarrow> pool_step u p q"
| reserve_slot: "env_uuid env = u \<Longrightarrow> pool_step u p (snd (alloc_reserve env p))"
| reserve_avd: "sem_try_acquire p = Some q \<Longrightarrow>
    pool_step u p (q\<lparr>p_booting := List.insert avd (p_booting q)\<rparr>)"
| start_boot: "env_uuid env = u \<Longrightarrow> pool_step u p (snd (boot_begin env avd prof p))"
| end_boot: "env_uuid env = u \<Longrightarrow> boots_emulator i \<Longrightarrow> pool_step u p (snd (boot_finish env i p))"
| commit: "pool_step u p (snd (alloc_commit avd (r, p)))"
| by_id: "pool_step u p (snd (allocate_instance k m p))"
| by_avd: "List.find (\<lambda>(k, i). map_option device_display_name (inst_device i) = Some avd)
      (p_instances p) = Some ki \<Longrightarrow> pool_step u p (snd (allocate_avd env avd m p))"
| session: "pool_step u p (on_inst k (set_session sid now) p)"
| unsession: "pool_step u p (on_inst k clear_session p)"
| touch: "pool_step u p (on_inst k (touch_activity now) p)"
| release: "env_uuid env = u \<Longrightarrow> pool_step u p (snd (pool_release env k p))"
| reset: "env_uuid env = u \<Longrightarrow> pool_step u p (reset_finish env k p)"
| watch: "env_uuid env = u \<Longrightarrow> pool_step u p (watch_tick env k p)"
| adopt: "env_uuid env = u \<Longrightarrow> pool_step u p (pool_start env p)"
| maintain: "env_uuid env = u \<Longrightarrow> pool_step u p (run_maintenance env p)"
| shut: "env_uuid env = u \<Longrightarrow> pool_step u p (snd (shutdown_instance env k p))"
| stop: "env_uuid env = u \<Longrightarrow> pool_step u p (pool_stop env p)"
| label: "pool_step u p (snd (reserve_instance k l p))"
| unlabel: "pool_step u p (snd (unreserve_instance k p))"
| labels: "pool_step u p (apply_reservations rs p)"

lemma pool_step_pstep:
  assumes "pool_step u p q" and "pool_ok p"
  shows "pstep at_most_once u p q"
proof -
  have d: "distinct (map fst (p_instances p))" using assms(2) by (simp add: pool_ok_def)
  from assms show ?thesis
  proof (cases rule: pool_step.cases)
    case (shuffle m)
    with pstep_shuffle [OF d, of m] show ?thesis by (simp add: pstep_weaken)
  next
    case (reserve_avd q' avd)
    then show ?thesis using pstep_eq_trans [OF pstep_sem_acquire pstep_booting] by (simp add: pstep_weaken)
  next
    case (by_avd avd ki env m)
    with pstep_allocate_avd_tracked [OF d] show ?thesis by (cases ki) blast
  next
    case (end_boot env i)
    then show ?thesis by (auto simp: boots_emulator_def intro: boot_finish_step)
  next
    case (session k sid now)
    then show ?thesis by (simp add: pstep_weaken pstep_method)
  next
    case (unsession k)
    then show ?thesis by (simp add: pstep_weaken pstep_method)
  next
    case (touch k now)
    then show ?thesis by (simp add: pstep_weaken pstep_method)
  next
    case (adopt env)
    then show ?thesis using pstep_adopt_running by (auto simp: pool_start_def intro: pstep_weaken)
  next
    case (maintain env)
    then show ?thesis using pstep_run_maintenance [OF assms(2)] by (auto intro: pstep_weaken)
  next
    case (stop env)
    then show ?thesis using pstep_pool_stop [OF assms(2)] by (auto intro: pstep_weaken)
  next
    case (shut env k)
    then show ?thesis using pstep_shutdown [OF assms(2)] by (auto intro: pstep_weaken)
  qed (use d in \<open>auto intro: pstep_alloc_warm pstep_weaken pstep_alloc_reserve pstep_boot_begin
      pstep_alloc_commit pstep_allocate_instance pstep_pool_release pstep_reset_finish
      pstep_watch_tick pstep_reservations pstep_apply_reservations\<close>)
qed

inductive pool_run :: "(nat \<Rightarrow> string) \<Rightarrow> config \<Rightarrow> pool \<Rightarrow> bool" for u cfg where
  fresh: "pool_run u cfg (new_pool cfg)"
| step: "pool_run u cfg p \<Longrightarrow> pool_step u p q \<Longrightarrow> pool_run u cfg q"

lemma pool_ok_new: "pool_ok (new_pool cfg)"
  by (simp add: pool_ok_def new_pool_def get_instance_def ports_ok_new)

lemma pool_run_ok: "pool_run u cfg p \<Longrightarrow> pool_ok p"
  by (induction rule: pool_run.induct) (auto simp: pool_ok_new dest: pool_step_pstep pstepD(1))

lemma pool_run_cap: "pool_run u cfg p \<Longrightarrow>
    p_cap p = nat (max_concurrent (cfg_pool cfg)) \<and> p_cfg p = cfg"
proof (induction rule: pool_run.induct)
  case (step p q)
  with pool_step_pstep [OF step(2) pool_run_ok [OF step(1)]] show ?case by (simp add: pstepD)
qed (simp add: new_pool_def)

end
