(* ===== verification/PoolProps.thy ===== *)
theory PoolProps
  imports PoolRun
begin

text \<open>
  What the pool guarantees: the invariant and the lifecycle over every run, what each way of
  allocating returns and leaves alone, and what releasing, watching, adopting and destroying do,
  including the places where slots and ports are miscounted.
\<close>

subsection \<open>A small farm for concrete runs\<close>

definition small_fs :: avd_fs where
  "small_fs = \<lparr>fs_home = Some ''/h'', fs_entries = (\<lambda>_. Some [''p.ini'']), fs_exists = (\<lambda>_. True),
     fs_lines = (\<lambda>_. None)\<rparr>"

definition small_env :: pool_env where
  "small_env = \<lparr>env_client = quiet_client, env_fs = small_fs, env_now = 1,
     env_uuid = (\<lambda>n. itoa_nat n)\<rparr>"

definition small_config :: config where
  "small_config =
     \<lparr>cfg_node = \<lparr>node_cname = ''n'', external_url = [], data_dir_field = [], log_level = [], metrics_port = 0\<rparr>,
      cfg_mesh = \<lparr>mesh_id = [], mesh_name = [], mesh_key = []\<rparr>,
      cfg_sdk = \<lparr>sdk_root = [], sdk_adb = [], sdk_avdmanager = [], sdk_sdkmanager = [],
        sdk_emulator = [], sdk_java = []\<rparr>,
      cfg_pool = \<lparr>visible_emulators = False, max_concurrent = 2, session_timeout_minutes = 60,
        session_max_minutes = 180, queue_max_size = 20, queue_timeout_seconds = 300,
        port_range_min = 5554, port_range_max = 5700, artifact_retention_hours = 0, warmup = [],
        profiles = \<lparr>android_profiles = [(''px'', small_profile)], ios_profiles = []\<rparr>\<rparr>,
      cfg_api = \<lparr>api_host = [], api_port = 9401, grpc_port = 9400\<rparr>,
      cfg_network = \<lparr>allowed_cidrs = [], mdns = \<lparr>mdns_enabled = False, service_type = [], mdns_hostname = False\<rparr>\<rparr>,
      cfg_health = \<lparr>interval_seconds = 15, unhealthy_threshold = 3\<rparr>,
      cfg_cleanup = \<lparr>on_session_end = [], orphan_check_interval_secs = 60,
        disk_cleanup_threshold_gb = 20, idle_timeout_minutes = 5\<rparr>,
      cfg_artifacts = \<lparr>storage_path = [], video_recording = False, screenshot_on_fail = False,
        logcat_capture = False, network_har_capture = False, retention_days = 30\<rparr>,
      cfg_webhooks = [], cfg_license = \<lparr>lic_key = [], validation_endpoint = [], grace_period_hours = 72\<rparr>\<rparr>"

lemma small_exists: "avd_exists small_fs ''p'' = Some True"
  by (simp add: avd_exists_def avd_list_def small_fs_def list_entry_def has_suffix_def has_prefix_def
      trim_suffix_def map_filter_def plain_avd_def Let_def)

subsection \<open>Invariant and lifecycle of every run\<close>



text \<open>C6: in one stretch of any goroutine an instance that stays in the map keeps its state or makes
  one transition of the table: no operation bypasses the lifecycle. (An id that was drawn again in the
  stretch names a new instance.)\<close>

theorem pool_follows_lifecycle:
  assumes "pool_run u cfg p" and "pool_step u p q"
    and "get_instance k p = Some i" and "get_instance k q = Some i'" and "k \<notin> drawn u p q"
  shows "inst_state i' = inst_state i \<or> can_transition_to (inst_state i) (inst_state i')"
  using pool_step_pstep [OF assms(2) pool_run_ok [OF assms(1)]] assms(3-5)
  unfolding pstep_def at_most_once_def by (metis option.inject)

theorem pool_follows_lifecycle_witness:
  "\<exists>p q i i'. pool_run itoa_nat small_config p \<and> pool_step itoa_nat p q \<and>
     get_instance ''0'' p = Some i \<and> get_instance ''0'' q = Some i' \<and>
     inst_state i = StateBooting \<and> inst_state i' = inst_state i"
proof -
  let ?p = "snd (boot_begin small_env ''p'' ''px'' (new_pool small_config))"
  let ?q = "snd (reserve_instance ''0'' ''x'' ?p)"
  have r: "pool_run itoa_nat small_config ?p"
    by (rule pool_run.step [OF pool_run.fresh pool_step.start_boot]) (simp add: small_env_def)
  have s: "pool_step itoa_nat ?p ?q" by (rule pool_step.label)
  obtain i where i: "get_instance ''0'' ?p = Some i" "inst_state i = StateBooting"
    by (simp add: boot_begin_def small_env_def small_exists create_instance_def new_pool_def
        Let_def transition_to_def new_instance_def on_inst_def get_instance_def upd_entry_def
        next_id_def itoa_nat.simps)
  have i': "get_instance ''0'' ?q = Some (reserve ''x'' i)"
    using i by (simp add: reserve_instance_def get_on_inst)
  have "''0'' \<notin> drawn itoa_nat ?p ?q"
    using i by (simp add: drawn_def reserve_instance_def)
  from pool_follows_lifecycle [OF r s i(1) i' this] r s i i' show ?thesis by fastforce
qed

subsection \<open>Allocation\<close>

lemma get_create: "get_instance k (snd (create_instance env dev prof p)) =
    (if k = next_id env p then Some (new_instance env (next_id env p) (p_node p) dev prof)
     else get_instance k p)"
  by (simp add: create_instance_def Let_def get_instance_def update_conv')

lemma create_fields [simp]:
  "p_sem (snd (create_instance env dev prof p)) = p_sem p"
  "p_cap (snd (create_instance env dev prof p)) = p_cap p"
  "p_booting (snd (create_instance env dev prof p)) = p_booting p"
  "p_ports (snd (create_instance env dev prof p)) = p_ports p"
  "p_events (snd (create_instance env dev prof p)) = p_events p"
  "p_cfg (snd (create_instance env dev prof p)) = p_cfg p"
  "fst (create_instance env dev prof p) = new_instance env (next_id env p) (p_node p) dev prof"
  by (simp_all add: create_instance_def Let_def)

lemma boot_begin_Inr:
  assumes "boot_begin env avd prof p = (Inr i, q)"
  shows "get_instance k q = (if k = next_id env p then Some i else get_instance k p)"
    "inst_id i = next_id env p" "inst_state i = StateBooting" "\<not> reserved i" "session_id i = []"
    "\<exists>e. inst_device i = Some (Emulator e) \<and> emu_avd e = avd \<and> console (emu_ports e) = 0"
    "p_sem q = p_sem p" "p_booting q = p_booting p" "p_ports q = p_ports p"
proof -
  let ?dev = "Emulator (new_emulator_device avd (boot_profile (p_cfg p) prof)
     (visible_emulators (cfg_pool (p_cfg p))))"
  let ?i = "new_instance env (next_id env p) (p_node p) ?dev prof"
  from assms have i: "i = ?i\<lparr>display_info := avd_display (enrich_avd (env_fs env) (plain_avd avd)),
      inst_state := StateBooting\<rparr>"
    and q: "q = on_inst (next_id env p) (\<lambda>_. i) (snd (create_instance env ?dev prof p))"
    by (auto simp: boot_begin_def create_instance_def Let_def transition_to_def new_instance_def
        split: option.splits bool.splits)
  show "get_instance k q = (if k = next_id env p then Some i else get_instance k p)"
    by (simp add: q get_on_inst get_create)
  show "inst_id i = next_id env p" "inst_state i = StateBooting" "\<not> reserved i" "session_id i = []"
    "\<exists>e. inst_device i = Some (Emulator e) \<and> emu_avd e = avd \<and> console (emu_ports e) = 0"
    by (simp_all add: i new_instance_def new_emulator_device_def)
  show "p_sem q = p_sem p" "p_booting q = p_booting p" "p_ports q = p_ports p" by (simp_all add: q)
qed

lemma boot_begin_Inl: "boot_begin env avd prof p = (Inl e, q) \<Longrightarrow> q = p"
  by (auto simp: boot_begin_def create_instance_def Let_def transition_to_def new_instance_def
      split: option.splits bool.splits)

text \<open>\<^verbatim>\<open>boot_finish\<close> on the instance just put into the map.\<close>

lemma boot_finish_cases:
  assumes "boot_finish env i p = (r, q)" and "get_instance (inst_id i) p = Some i"
    and "inst_state i = StateBooting" and "inst_device i = Some (Emulator e)"
  obtains (failed) err where "r = Inl err" "p_sem q = p_sem p - 1" "p_booting q = p_booting p"
      "\<And>k. get_instance k q = (if k = inst_id i then None else get_instance k p)"
  | (warm) j e' where "r = Inr (inst_id i)" "get_instance (inst_id i) q = Some j"
      "inst_state j = StateWarm" "reserved j = reserved i" "session_id j = session_id i"
      "inst_device j = Some (Emulator e')" "emu_avd e' = emu_avd e" "emu_process e' \<noteq> None"
      "p_sem q = p_sem p" "p_booting q = p_booting p"
      "\<And>k. k \<noteq> inst_id i \<Longrightarrow> get_instance k q = get_instance k p"
proof -
  obtain ok e1 pa h where r0: "run_state (emulator_prepare (env_client env) (p_ports p) e) (p_hist p) =
      ((ok, e1, pa), h)" by (metis prod_cases3 surj_pair)
  then have io: "with_io (device_prepare (env_client env) (p_ports p) (Emulator e)) p =
      ((ok, Emulator e1, pa), p\<lparr>p_hist := h\<rparr>)" by (simp add: with_io_def)
  let ?p1 = "on_inst (inst_id i) (\<lambda>i. i\<lparr>inst_device := Some (Emulator e1)\<rparr>) (p\<lparr>p_hist := h, p_ports := pa\<rparr>)"
  have g: "get_instance (inst_id i) ?p1 = Some (i\<lparr>inst_device := Some (Emulator e1)\<rparr>)"
    by (simp add: get_on_inst assms(2))
  show ?thesis
  proof (cases ok)
    case False
    with assms io have "r = Inl (BootFailed (emu_avd e))" "q = remove_instance (inst_id i) ?p1"
      by (auto simp: boot_finish_def)
    with failed show ?thesis
      by (auto simp: remove_instance_def get_remove get_on_inst)
  next
    case True
    let ?j = "touch_activity (env_now env) (record_health_check True (env_now env)
        (i\<lparr>inst_device := Some (Emulator e1), inst_state := StateWarm\<rparr>))"
    have t: "transition_to StateWarm (i\<lparr>inst_device := Some (Emulator e1)\<rparr>) =
        Inr (i\<lparr>inst_device := Some (Emulator e1), inst_state := StateWarm\<rparr>)"
      by (simp add: transition_to_def assms(3))
    from True assms(1,4) io have rq: "r = Inr (inst_id i)"
      "q = (let p2 = notify_ready (on_inst (inst_id i) (\<lambda>_. ?j) ?p1)
            in p2\<lparr>p_watched := inst_id i # p_watched p2\<rparr>)"
      by (auto simp: boot_finish_def g t)
    have e1: "emu_avd e1 = emu_avd e" "emu_process e1 \<noteq> None"
      using r0 True by (cases rule: emulator_prepare_cases; simp)+
    have "get_instance k q = (if k = inst_id i then Some ?j else get_instance k p)" for k
      by (simp add: rq Let_def notify_ready_def get_on_inst assms(2))
    with warm [OF rq(1), of ?j e1] e1 rq(2) show ?thesis
      by (simp add: Let_def notify_ready_def record_health_check_def touch_activity_def)
  qed
qed

lemma boot_emulator_cases:
  assumes "boot_emulator env avd prof p = (r, q)"
  obtains (absent) err where "r = Inl err" "q = p"
  | (boot_failed) err where "r = Inl err" "p_sem q = p_sem p - 1" "p_booting q = p_booting p"
      "\<And>k. get_instance k q = (if k = next_id env p then None else get_instance k p)"
  | (boot_warm) j e where "r = Inr (next_id env p)" "get_instance (next_id env p) q = Some j"
      "inst_state j = StateWarm" "\<not> reserved j" "session_id j = []"
      "inst_device j = Some (Emulator e)" "emu_avd e = avd" "p_sem q = p_sem p"
      "p_booting q = p_booting p" "\<And>k. k \<noteq> next_id env p \<Longrightarrow> get_instance k q = get_instance k p"
proof (cases "fst (boot_begin env avd prof p)")
  case (Inl e)
  then obtain q' where b: "boot_begin env avd prof p = (Inl e, q')" by (metis prod.collapse)
  with boot_begin_Inl [OF b] assms absent show ?thesis by (auto simp: boot_emulator_def)
next
  case (Inr i)
  then obtain p1 where b: "boot_begin env avd prof p = (Inr i, p1)" by (metis prod.collapse)
  note bb = boot_begin_Inr [OF b]
  from bb(6) obtain e where e: "inst_device i = Some (Emulator e)" "emu_avd e = avd" by blast
  from assms b have f: "boot_finish env i p1 = (r, q)" by (simp add: boot_emulator_def)
  have g: "get_instance (inst_id i) p1 = Some i" by (simp add: bb(1,2))
  from f g bb(3) e(1) show ?thesis
  proof (cases rule: boot_finish_cases)
    case (failed err)
    with boot_failed bb show ?thesis by auto
  next
    case (warm j e')
    with boot_warm bb e show ?thesis by auto
  qed
qed

definition some_eligible :: "bool \<Rightarrow> pool \<Rightarrow> bool" where
  "some_eligible incl p \<longleftrightarrow> (\<exists>k i. get_instance k p = Some i \<and> eligible incl i)"

lemma alloc_warm_Some:
  assumes "alloc_warm prof incl p = Some (k, q)" and "distinct (map fst (p_instances p))"
  obtains i where "get_instance k p = Some i" "eligible incl i"
    "get_instance k q = Some (i\<lparr>inst_state := StateAllocated\<rparr>)"
    "\<And>k'. k' \<noteq> k \<Longrightarrow> get_instance k' q = get_instance k' p" "p_sem q = p_sem p"
    "profile_name i = prof \<or> prof = [] \<or>
     (\<forall>k' i'. get_instance k' p = Some i' \<longrightarrow> eligible incl i' \<longrightarrow> profile_name i' \<noteq> prof)"
proof -
  let ?P = "\<lambda>(k, i). eligible incl i \<and> prof \<noteq> [] \<and> profile_name i = prof"
  from assms(1) have sc: "scan_warm prof incl (p_instances p) None = Some k"
    and q: "q = on_inst k (try_transition StateAllocated) p"
    by (auto simp: alloc_warm_def split: option.splits)
  have mem: "(k', i') \<in> set (p_instances p) \<longleftrightarrow> get_instance k' p = Some i'" for k' i'
    using assms(2) by (simp add: get_instance_def)
  have "\<exists>i. get_instance k p = Some i \<and> eligible incl i \<and> (profile_name i = prof \<or> prof = [] \<or>
     (\<forall>k' i'. get_instance k' p = Some i' \<longrightarrow> eligible incl i' \<longrightarrow> profile_name i' \<noteq> prof))"
  proof (cases "List.find ?P (p_instances p)")
    case None
    with sc obtain i where i: "(k, i) \<in> set (p_instances p)" "eligible incl i"
      by (auto simp: scan_warm_spec dest!: find_SomeD)
    from find_NoneD [OF None] i show ?thesis unfolding mem [symmetric] by auto
  next
    case (Some ki)
    with sc find_SomeD [OF Some] show ?thesis by (auto simp: scan_warm_spec mem split: prod.splits)
  qed
  then obtain i where i: "get_instance k p = Some i" "eligible incl i" "profile_name i = prof \<or> prof = [] \<or>
     (\<forall>k' i'. get_instance k' p = Some i' \<longrightarrow> eligible incl i' \<longrightarrow> profile_name i' \<noteq> prof)" by blast
  from i(2) have "try_transition StateAllocated i = i\<lparr>inst_state := StateAllocated\<rparr>"
    by (simp add: try_transition_def transition_to_def eligible_def)
  with i that q show ?thesis by (simp add: get_on_inst)
qed

lemma alloc_warm_None:
  assumes "alloc_warm prof incl p = None" and "distinct (map fst (p_instances p))"
  shows "\<not> some_eligible incl p"
  using assms scan_warm_None [of prof incl "p_instances p"]
  by (auto simp: some_eligible_def alloc_warm_def get_instance_def dest: map_of_SomeD split: option.splits)

lemma alloc_warm_iff:
  assumes "distinct (map fst (p_instances p))"
  shows "alloc_warm prof incl p = None \<longleftrightarrow> \<not> some_eligible incl p"
proof (cases "alloc_warm prof incl p")
  case None
  with alloc_warm_None [OF None assms] show ?thesis by simp
next
  case (Some kq)
  then obtain k q where kq: "alloc_warm prof incl p = Some (k, q)" by (cases kq) simp
  from kq assms obtain i where "get_instance k p = Some i" "eligible incl i"
    by (rule alloc_warm_Some)
  with kq show ?thesis by (auto simp: some_eligible_def)
qed

lemma sem_receive_cases:
  "sem_receive_or_stuck e p = (if p_sem p = 0 then (Stuck, p) else (Refused e, p\<lparr>p_sem := p_sem p - 1\<rparr>))"
  by (rule sem_receive_or_stuck_def)

lemma alloc_reserve_cases:
  assumes "alloc_reserve env p = (r, q)"
  obtains (full) "r = Inl (Refused PoolExhausted)" "q = p" "p_cap p \<le> p_sem p"
  | (none) "r = Inl (Refused PoolExhausted)" "q = p" "p_sem p < p_cap p"
  | (picked) avd where "r = Inr avd" "avd \<noteq> []" "avd \<notin> set (used_avds p)" "avd \<notin> set (p_booting p)"
      "q = p\<lparr>p_sem := p_sem p + 1, p_booting := List.insert avd (p_booting p)\<rparr>" "p_sem p < p_cap p"
proof (cases "p_sem p < p_cap p")
  case False
  with assms full show ?thesis by (simp add: alloc_reserve_def sem_try_acquire_def)
next
  case True
  let ?p1 = "p\<lparr>p_sem := p_sem p + 1\<rparr>"
  have acq: "sem_try_acquire p = Some ?p1" using True by (simp add: sem_try_acquire_def)
  have used: "used_avds ?p1 = used_avds p" by (simp add: used_avds_def)
  have same: "p\<lparr>p_sem := p_sem p\<rparr> = p" by simp
  show ?thesis
  proof (cases "find_unbooted_excluding env (used_avds p @ p_booting p) ?p1")
    case None
    with assms acq used True none show ?thesis by (simp add: alloc_reserve_def sem_receive_cases)
  next
    case (Some avd)
    show ?thesis
    proof (cases "avd = []")
      case True
      with Some assms acq used \<open>p_sem p < p_cap p\<close> none show ?thesis
        by (simp add: alloc_reserve_def sem_receive_cases)
    next
      case False
      with Some have "avd \<notin> set (used_avds p)" "avd \<notin> set (p_booting p)"
        by (auto simp: find_unbooted_excluding_def used split: option.splits dest!: find_SomeD)
      with False Some assms acq used True picked show ?thesis by (auto simp: alloc_reserve_def)
    qed
  qed
qed

text \<open>The end of an on-demand boot, seen from the pool \<open>p\<close> it started from with one more token.\<close>

lemma boot_and_commit:
  assumes "alloc_commit avd (boot_emulator env avd prof p) = (r, q)" and "p_sem p = Suc n"
  obtains (got) j where "r = Got (next_id env p)" "get_instance (next_id env p) q = Some j"
      "inst_state j = StateAllocated" "\<not> reserved j" "session_id j = []" "p_sem q = Suc n"
      "\<And>k. k \<noteq> next_id env p \<Longrightarrow> get_instance k q = get_instance k p"
  | (refused) e where "r = Refused e" "p_sem q = n" "\<And>k. get_instance k q = get_instance k p"
  | (twice) e where "r = Refused e" "n \<noteq> 0" "p_sem q = n - 1"
      "\<And>k. k \<noteq> next_id env p \<Longrightarrow> get_instance k q = get_instance k p"
  | (stuck) "r = Stuck" "n = 0" "p_sem q = 0"
      "\<And>k. k \<noteq> next_id env p \<Longrightarrow> get_instance k q = get_instance k p"
proof -
  obtain r1 q1 where b: "boot_emulator env avd prof p = (r1, q1)" by fastforce
  let ?q = "q1\<lparr>p_booting := removeAll avd (p_booting q1)\<rparr>"
  from b show ?thesis
  proof (cases rule: boot_emulator_cases)
    case (absent err)
    with assms b refused show ?thesis by (auto simp: alloc_commit_def sem_receive_cases Let_def)
  next
    case (boot_failed err)
    with assms b twice stuck show ?thesis
      by (auto simp: alloc_commit_def sem_receive_cases Let_def split: if_splits)
  next
    case (boot_warm j e)
    have t: "transition_to StateAllocated j = Inr (j\<lparr>inst_state := StateAllocated\<rparr>)"
      by (simp add: transition_to_def boot_warm(3))
    from assms b boot_warm t got [of "j\<lparr>inst_state := StateAllocated\<rparr>"] show ?thesis
      by (auto simp: alloc_commit_def get_on_inst Let_def)
  qed
qed

lemma pool_run_distinct: "pool_run u cfg p \<Longrightarrow> distinct (map fst (p_instances p))"
  using pool_run_ok by (auto simp: pool_ok_def)

lemma allocate_any_warm:
  "alloc_warm prof incl p = Some (k, q) \<Longrightarrow> allocate_any env prof incl p = (Got k, q)"
  by (simp add: allocate_any_def)

lemma get_reserved [simp]:
  "get_instance k (p\<lparr>p_sem := n, p_booting := b\<rparr>) = get_instance k p"
  "next_id env (p\<lparr>p_sem := n, p_booting := b\<rparr>) = next_id env p"
  by (simp_all add: get_instance_def next_id_def)

lemma allocate_any_cold:
  assumes "alloc_warm prof incl p = None" and "allocate_any env prof incl p = (r, q)"
  obtains (got) j where "r = Got (next_id env p)" "get_instance (next_id env p) q = Some j"
      "inst_state j = StateAllocated" "\<not> reserved j" "session_id j = []" "p_sem q = p_sem p + 1"
      "p_sem p < p_cap p" "\<And>k. k \<noteq> next_id env p \<Longrightarrow> get_instance k q = get_instance k p"
  | (refused) e where "r = Refused e" "p_sem q = p_sem p" "\<And>k. get_instance k q = get_instance k p"
  | (twice) e where "r = Refused e" "p_sem p \<noteq> 0" "p_sem q = p_sem p - 1"
      "\<And>k. k \<noteq> next_id env p \<Longrightarrow> get_instance k q = get_instance k p"
  | (stuck) "r = Stuck" "p_sem p = 0" "p_sem q = 0"
      "\<And>k. k \<noteq> next_id env p \<Longrightarrow> get_instance k q = get_instance k p"
proof -
  obtain r1 p1 where a: "alloc_reserve env p = (r1, p1)" by fastforce
  then show ?thesis
  proof (cases rule: alloc_reserve_cases)
    case (picked avd)
    have c: "alloc_commit avd (boot_emulator env avd (guess_profile_for (p_cfg p1) avd) p1) = (r, q)"
      using assms a picked(1) by (simp add: allocate_any_def)
    have s: "p_sem p1 = Suc (p_sem p)" by (simp add: picked(5))
    have g: "get_instance k p1 = get_instance k p" "next_id env p1 = next_id env p" for k
      by (simp_all add: picked(5))
    from c s show ?thesis
    proof (cases rule: boot_and_commit)
      case (got j)
      with g s picked(6) that(1) [of j] show ?thesis by simp
    next
      case (refused e)
      with g that(2) show ?thesis by simp
    next
      case (twice e)
      with g that(3) show ?thesis by simp
    next
      case stuck
      with g that(4) show ?thesis by simp
    qed
  qed (use assms a refused in \<open>auto simp: allocate_any_def\<close>)
qed

text \<open>C5: what \<^verbatim>\<open>Allocate\<close>/\<^verbatim>\<open>AllocateForManual\<close> give back. A success is an instance that is now
  Allocated and that the caller may use (an automated caller never gets a reserved one), every other
  instance is untouched, and either it was warm (and of the wanted profile, if any eligible one was)
  with no slot taken, or nothing eligible was warm and one slot was free and is now taken. Only when
  nothing eligible is warm is the caller refused.\<close>

theorem allocate_any_correct:
  assumes "pool_run u cfg p" and "allocate_any env prof incl p = (r, q)"
  shows "case r of
      Got k \<Rightarrow>
        (\<exists>j. get_instance k q = Some j \<and> inst_state j = StateAllocated \<and> (incl \<or> \<not> reserved j)) \<and>
        (\<forall>k'. k' \<noteq> k \<longrightarrow> get_instance k' q = get_instance k' p) \<and>
        (if some_eligible incl p
         then p_sem q = p_sem p \<and> (\<exists>i. get_instance k p = Some i \<and> inst_state i = StateWarm \<and>
             (profile_name i = prof \<or> prof = [] \<or> (\<forall>k' i'. get_instance k' p = Some i' \<longrightarrow>
                eligible incl i' \<longrightarrow> profile_name i' \<noteq> prof)))
         else p_sem p < p_cap p \<and> p_sem q = p_sem p + 1)
    | Refused e \<Rightarrow> \<not> some_eligible incl p
    | Stuck \<Rightarrow> \<not> some_eligible incl p \<and> p_sem p = 0"
proof (cases "alloc_warm prof incl p")
  case None
  note no = alloc_warm_None [OF None pool_run_distinct [OF assms(1)]]
  from None assms(2) show ?thesis by (cases rule: allocate_any_cold) (use no in auto)
next
  case (Some kq)
  then obtain k q' where "alloc_warm prof incl p = Some (k, q')" by (cases kq) simp
  with assms(2) have w: "alloc_warm prof incl p = Some (k, q)" "r = Got k"
    by (auto simp: allocate_any_warm)
  from w(1) pool_run_distinct [OF assms(1)] show ?thesis
  proof (cases rule: alloc_warm_Some)
    case (1 i)
    then have "some_eligible incl p" by (auto simp: some_eligible_def)
    with 1 show ?thesis by (simp add: w(2) eligible_def)
  qed
qed

lemma small_alloc_fields:
  "find_unbooted_excluding small_env [] (new_pool small_config\<lparr>p_sem := 1\<rparr>) = Some ''p''"
  by (simp add: find_unbooted_excluding_def avd_list_def small_env_def small_fs_def list_entry_def
      has_suffix_def has_prefix_def trim_suffix_def map_filter_def plain_avd_def Let_def
      used_avds_def new_pool_def)

lemma prepare_succeeds:
  assumes "port_allocate pa = (Inr pp, pa1)" and "\<And>h cmd. start_oracle c h cmd \<noteq> None"
  shows "fst (fst (run_state (emulator_prepare c pa d) h))"
proof -
  obtain pid where "start_oracle c h
      (emulator_path c # boot_args (emu_avd d) \<lparr>opt_profile = emu_profile d, opt_ports = pp, from_snapshot = False,
                       snapshot_name = [], no_window = \<not> emu_visible d, no_audio = True\<rparr>) = Some pid"
    using assms(2) by blast
  then show ?thesis
    by (simp add: emulator_prepare_def assms(1) emu_boot_def Let_def case_prod_unfold)
qed

lemma boot_succeeds:
  assumes "avd_exists (env_fs env) avd = Some True" and "port_allocate (p_ports p) = (Inr pp, pa)"
    and "\<And>h cmd. start_oracle (env_client env) h cmd \<noteq> None"
  shows "fst (boot_emulator env avd prof p) = Inr (next_id env p)"
proof -
  obtain i p1 where b: "boot_begin env avd prof p = (Inr i, p1)"
    by (simp add: boot_begin_def assms(1) create_instance_def Let_def transition_to_def new_instance_def)
  note bb = boot_begin_Inr [OF b]
  from bb(6) obtain e where e: "inst_device i = Some (Emulator e)" by blast
  obtain ok e1 pa1 h where r: "run_state (emulator_prepare (env_client env) (p_ports p1) e) (p_hist p1) =
      ((ok, e1, pa1), h)" by (metis prod_cases3 surj_pair)
  have ok: "ok" using prepare_succeeds [OF assms(2,3), of e "p_hist p1"] r by (simp add: bb(9))
  let ?p1 = "on_inst (next_id env p) (\<lambda>i. i\<lparr>inst_device := Some (Emulator e1)\<rparr>) (p1\<lparr>p_hist := h, p_ports := pa1\<rparr>)"
  have g: "get_instance (next_id env p) ?p1 = Some (i\<lparr>inst_device := Some (Emulator e1)\<rparr>)"
    by (simp add: get_on_inst bb)
  show ?thesis
    using ok r by (simp add: boot_emulator_def b boot_finish_def e with_io_def g transition_to_def
        Let_def bb)
qed

lemma small_allocation: "fst (allocate_any small_env ''px'' False (new_pool small_config)) = Got ''0''"
proof -
  let ?p = "new_pool small_config"
  let ?p1 = "?p\<lparr>p_sem := 1, p_booting := [''p'']\<rparr>"
  have w: "alloc_warm ''px'' False ?p = None" by (simp add: alloc_warm_def new_pool_def)
  have a: "alloc_reserve small_env ?p = (Inr ''p'', ?p1)"
    using small_alloc_fields by (simp add: alloc_reserve_def sem_try_acquire_def new_pool_def small_config_def used_avds_def)
  have pa: "port_allocate (p_ports ?p1) = (Inr \<lparr>console = 5554, adb_port = 5555\<rparr>, p_ports ?p1\<lparr>in_use := [5554]\<rparr>)"
    by (simp add: port_allocate_def new_port_allocator_def scan_ports.simps new_pool_def small_config_def)
  have b: "fst (boot_emulator small_env ''p'' (guess_profile_for (p_cfg ?p1) ''p'') ?p1) = Inr (next_id small_env ?p1)"
    by (rule boot_succeeds [OF _ pa]) (simp_all add: small_env_def small_exists quiet_client_def)
  have n: "next_id small_env ?p = ''0''"
    by (simp add: next_id_def small_env_def new_pool_def itoa_nat.simps)
  obtain r q where rq: "boot_emulator small_env ''p'' (guess_profile_for (p_cfg ?p1) ''p'') ?p1 = (r, q)" by fastforce
  from rq b have "r = Inr (next_id small_env ?p1)" by simp
  with rq show ?thesis
    by (cases rule: boot_emulator_cases)
      (auto simp: allocate_any_def w a n alloc_commit_def transition_to_def Let_def rq [simplified])
qed
theorem allocate_any_correct_witness:
  "\<exists>q j. allocate_any small_env ''px'' False (new_pool small_config) = (Got ''0'', q) \<and>
     get_instance ''0'' q = Some j \<and> inst_state j = StateAllocated \<and> p_sem q = 1"
proof -
  obtain r q where a: "allocate_any small_env ''px'' False (new_pool small_config) = (r, q)" by fastforce
  then have r: "r = Got ''0''" using small_allocation by simp
  have n: "\<not> some_eligible False (new_pool small_config)" "p_sem (new_pool small_config) = 0"
    by (simp_all add: some_eligible_def new_pool_def get_instance_def)
  from allocate_any_correct [OF pool_run.fresh a] n a r show ?thesis by auto
qed

lemma prepare_fails:
  assumes "\<And>h cmd. start_oracle c h cmd = None"
  shows "\<not> fst (fst (run_state (emulator_prepare c pa d) h))"
  by (simp add: emulator_prepare_def assms emu_boot_def Let_def split: prod.split sum.split)

lemma boot_fails:
  assumes "avd_exists (env_fs env) avd = Some True"
    and "\<And>h cmd. start_oracle (env_client env) h cmd = None"
  obtains err q where "boot_emulator env avd prof p = (Inl err, q)" "p_sem q = p_sem p - 1"
    "\<And>k. k \<noteq> next_id env p \<Longrightarrow> get_instance k q = get_instance k p"
proof -
  obtain i p1 where b: "boot_begin env avd prof p = (Inr i, p1)"
    by (simp add: boot_begin_def assms(1) create_instance_def Let_def transition_to_def new_instance_def)
  note bb = boot_begin_Inr [OF b]
  from bb(6) obtain e where e: "inst_device i = Some (Emulator e)" by blast
  obtain ok e1 pa1 h where r: "run_state (emulator_prepare (env_client env) (p_ports p1) e) (p_hist p1) =
      ((ok, e1, pa1), h)" by (metis prod_cases3 surj_pair)
  have ok: "\<not> ok" using prepare_fails [OF assms(2), of "p_ports p1" e "p_hist p1"] r by simp
  let ?p1 = "on_inst (next_id env p) (\<lambda>i. i\<lparr>inst_device := Some (Emulator e1)\<rparr>) (p1\<lparr>p_hist := h, p_ports := pa1\<rparr>)"
  have "boot_emulator env avd prof p = (Inl (BootFailed (emu_avd e)), remove_instance (next_id env p) ?p1)"
    using ok r by (simp add: boot_emulator_def b boot_finish_def e with_io_def Let_def bb(2))
  then show ?thesis
    by (rule that) (simp_all add: remove_instance_def get_remove get_on_inst bb(1,7))
qed

text \<open>C17: a failing boot costs a slot. When nothing eligible is warm and the emulator of the picked
  AVD does not start, the failed instance is removed, which gives the caller's slot back, and then the
  caller gives it back again: with no other token in the semaphore it never returns, otherwise it is
  refused and the semaphore is left with one token less than before although no instance has gone.\<close>

theorem failed_boot_costs_a_slot:
  assumes "\<not> some_eligible incl p" and "distinct (map fst (p_instances p))"
    and "alloc_reserve env p = (Inr avd, p1)" and "avd_exists (env_fs env) avd = Some True"
    and "\<And>h cmd. start_oracle (env_client env) h cmd = None"
  shows "(if p_sem p = 0 then fst (allocate_any env prof incl p) = Stuck
     else (\<exists>e. fst (allocate_any env prof incl p) = Refused e) \<and>
       p_sem (snd (allocate_any env prof incl p)) = p_sem p - 1) \<and>
    (\<forall>k. k \<noteq> next_id env p \<longrightarrow>
       get_instance k (snd (allocate_any env prof incl p)) = get_instance k p)"
proof -
  have w: "alloc_warm prof incl p = None" using alloc_warm_iff [OF assms(2)] assms(1) by blast
  have p1: "p_sem p1 = Suc (p_sem p)" "\<And>k. get_instance k p1 = get_instance k p"
    "next_id env p1 = next_id env p"
    using assms(3) by (cases rule: alloc_reserve_cases; simp)+
  obtain err q where b:
    "boot_emulator env avd (guess_profile_for (p_cfg p1) avd) p1 = (Inl err, q)"
    "p_sem q = p_sem p1 - 1" "\<And>k. k \<noteq> next_id env p1 \<Longrightarrow> get_instance k q = get_instance k p1"
    using boot_fails [OF assms(4,5), where p = p1 and prof = "guess_profile_for (p_cfg p1) avd"] by blast
  have "allocate_any env prof incl p = alloc_commit avd (Inl err, q)"
    by (simp add: allocate_any_def w assms(3) b(1))
  with b(2,3) p1 show ?thesis by (simp add: alloc_commit_def sem_receive_cases Let_def)
qed

definition broken_env :: pool_env where
  "broken_env = small_env\<lparr>env_client := quiet_client\<lparr>start_oracle := (\<lambda>h cmd. None)\<rparr>\<rparr>"

theorem failed_boot_costs_a_slot_witness:
  "fst (allocate_any broken_env ''px'' False (new_pool small_config)) = Stuck"
proof -
  let ?p = "new_pool small_config"
  have a: "alloc_reserve broken_env ?p = (Inr ''p'', ?p\<lparr>p_sem := 1, p_booting := [''p'']\<rparr>)"
    using small_alloc_fields
    by (simp add: alloc_reserve_def sem_try_acquire_def new_pool_def small_config_def used_avds_def
        broken_env_def find_unbooted_excluding_def small_env_def)
  have n: "\<not> some_eligible False ?p" "distinct (map fst (p_instances ?p))" "p_sem ?p = 0"
    by (simp_all add: some_eligible_def new_pool_def get_instance_def)
  have "avd_exists (env_fs broken_env) ''p'' = Some True"
    by (simp add: broken_env_def small_env_def small_exists)
  from failed_boot_costs_a_slot [OF n(1,2) a this, of "''px''"] n(3) show ?thesis
    by (simp add: broken_env_def)
qed

lemma allocate_instance_Got:
  assumes "allocate_instance iid m p = (Got k, q)" and "pool_ok p"
  obtains i where "get_instance k p = Some i" "inst_state i = StateWarm" "m \<or> \<not> reserved i"
    "q = on_inst k (\<lambda>_. i\<lparr>inst_state := StateAllocated\<rparr>) p" "k = iid"
proof -
  from assms(1) obtain i where f: "List.find (\<lambda>(k, i). inst_id i = iid) (p_instances p) = Some (k, i)"
    and i: "inst_state i = StateWarm" "m \<or> \<not> reserved i"
    "q = on_inst k (\<lambda>_. i\<lparr>inst_state := StateAllocated\<rparr>) p"
    by (auto simp: allocate_instance_def transition_to_def split: option.splits if_splits)
  from find_SomeD [OF f] assms(2) have "get_instance k p = Some i" "inst_id i = iid"
    by (auto simp: get_instance_def pool_ok_def)
  moreover from this assms(2) have "k = iid" by (auto simp: pool_ok_def)
  ultimately show ?thesis using i that by blast
qed

lemma allocate_avd_Got:
  assumes "allocate_avd env avd m p = (Got k, q)" and "pool_ok p"
  shows "(\<exists>j. get_instance k q = Some j \<and> inst_state j = StateAllocated \<and> (m \<or> \<not> reserved j)) \<and>
    (\<forall>k'. k' \<noteq> k \<longrightarrow> get_instance k' q = get_instance k' p)"
proof (cases "List.find (\<lambda>(k, i). map_option device_display_name (inst_device i) = Some avd) (p_instances p)")
  case None
  with assms(1) obtain p1 where p1: "sem_try_acquire p = Some p1"
    by (auto simp: allocate_avd_def split: option.splits)
  let ?p2 = "p1\<lparr>p_booting := List.insert avd (p_booting p1)\<rparr>"
  from None assms(1) p1 have c: "alloc_commit avd (boot_emulator env avd (guess_profile_for (p_cfg p1) avd) ?p2) = (Got k, q)"
    by (simp add: allocate_avd_def)
  have s: "p_sem ?p2 = Suc (p_sem p)" and g: "\<And>k. get_instance k ?p2 = get_instance k p"
    using p1 by (auto simp: sem_try_acquire_def split: if_splits)
  from c s show ?thesis by (cases rule: boot_and_commit) (use g in auto)
next
  case (Some ki)
  then obtain k' i where f: "List.find (\<lambda>(k, i). map_option device_display_name (inst_device i) = Some avd)
      (p_instances p) = Some (k', i)" by (cases ki) auto
  with assms(1) have "k' = k" "inst_state i = StateWarm" "m \<or> \<not> reserved i"
    "q = on_inst k (\<lambda>_. i\<lparr>inst_state := StateAllocated\<rparr>) p"
    by (auto simp: allocate_avd_def transition_to_def split: option.splits if_splits)
  moreover have "get_instance k' p = Some i"
    using find_SomeD [OF f] assms(2) by (auto simp: get_instance_def pool_ok_def)
  ultimately show ?thesis by (simp add: get_on_inst)
qed

text \<open>C16: whichever way a device is asked for (by id, by AVD, by profile), a success is an Allocated
  device that is not reserved unless the caller is the dashboard or says "manual", it is the one that
  was asked for by id, and every other instance is as it was.\<close>

theorem allocate_with_correct:
  assumes "pool_run u cfg p" and "allocate_with env opts p = (Got k, q)"
  shows "(\<exists>j. get_instance k q = Some j \<and> inst_state j = StateAllocated \<and>
      (manual_caller (opt_source opts) \<or> \<not> reserved j)) \<and>
    (opt_instance_id opts \<noteq> [] \<longrightarrow> k = opt_instance_id opts) \<and>
    (\<forall>k'. k' \<noteq> k \<longrightarrow> get_instance k' q = get_instance k' p)"
proof -
  have ok: "pool_ok p" by (rule pool_run_ok [OF assms(1)])
  consider (iid) "opt_instance_id opts \<noteq> []" | (avd) "opt_instance_id opts = []" "opt_avd_name opts \<noteq> []"
    | (any) "opt_instance_id opts = []" "opt_avd_name opts = []" by blast
  then show ?thesis
  proof cases
    case iid
    with assms(2) have "allocate_instance (opt_instance_id opts) (manual_caller (opt_source opts)) p = (Got k, q)"
      by (simp add: allocate_with_def)
    from this ok show ?thesis by (rule allocate_instance_Got) (auto simp: get_on_inst)
  next
    case avd
    with assms(2) have "allocate_avd env (opt_avd_name opts) (manual_caller (opt_source opts)) p = (Got k, q)"
      by (simp add: allocate_with_def)
    from allocate_avd_Got [OF this ok] avd show ?thesis by simp
  next
    case any
    with assms(2) have a: "allocate_any env (opt_profile_name opts) False p = (Got k, q)"
      by (simp add: allocate_with_def allocate_def)
    show ?thesis
    proof (cases "alloc_warm (opt_profile_name opts) False p")
      case None
      from None a show ?thesis by (cases rule: allocate_any_cold) (use any in auto)
    next
      case (Some kq)
      with a have "alloc_warm (opt_profile_name opts) False p = Some (k, q)"
        by (cases kq) (auto simp: allocate_any_warm)
      from this pool_run_distinct [OF assms(1)] show ?thesis
        by (rule alloc_warm_Some) (use any in \<open>auto simp: eligible_def\<close>)
    qed
  qed
qed

theorem allocate_with_correct_witness:
  "\<exists>q j. allocate_with small_env \<lparr>opt_profile_name = ''px'', opt_instance_id = [], opt_avd_name = [],
       opt_source = ''ci''\<rparr> (new_pool small_config) = (Got ''0'', q) \<and>
     get_instance ''0'' q = Some j \<and> \<not> reserved j"
proof -
  let ?o = "\<lparr>opt_profile_name = ''px'', opt_instance_id = [], opt_avd_name = [], opt_source = ''ci''\<rparr>"
  have "allocate_with small_env ?o (new_pool small_config) =
      allocate_any small_env ''px'' False (new_pool small_config)"
    by (simp add: allocate_with_def allocate_def)
  then obtain q where "allocate_with small_env ?o (new_pool small_config) = (Got ''0'', q)"
    using small_allocation by (metis prod.collapse)
  from allocate_with_correct [OF pool_run.fresh this] this show ?thesis
    by (auto simp: manual_caller_def)
qed

subsection \<open>Giving devices back\<close>

text \<open>C8: releasing a device. An unknown id is an error. A device that \<^verbatim>\<open>adb\<close> no longer lists is
  dropped with its session cleared first, so no eviction is reported; one that is still listed goes
  from Allocated to Resetting without its session and, when its reset ends, to Warm again (no reset
  fails), at which point waiting callers are notified. Nothing else in the pool moves.\<close>

theorem pool_release_correct:
  assumes "get_instance k p = Some i" and "inst_device i = Some d" and "inst_state i = StateAllocated"
    and "pool_release env k p = (err, q)"
  shows "err = None \<and> p_events q = p_events p \<and>
    (\<forall>k'. k' \<noteq> k \<longrightarrow> get_instance k' q = get_instance k' p) \<and>
    (if device_visible (device_serial d) (fst (run_state (adb_devices (env_client env)) (p_hist p)))
     then get_instance k q = Some (clear_session (i\<lparr>inst_state := StateResetting\<rparr>)) \<and>
       (\<exists>j. get_instance k (reset_finish env' k q) = Some j \<and> inst_state j = StateWarm \<and>
          session_id j = [] \<and> last_activity j = env_now env' \<and>
          p_events (reset_finish env' k q) = p_events p @ [DeviceReady])
     else get_instance k q = None \<and> p_sem q = p_sem p - 1)"
proof -
  obtain devs h where r: "run_state (adb_devices (env_client env)) (p_hist p) = (devs, h)" by fastforce
  let ?p1 = "p\<lparr>p_hist := h\<rparr>"
  have io: "with_io (adb_devices (env_client env)) p = (devs, ?p1)" by (simp add: with_io_def r)
  have ok: "fst (run_state (device_reset c d) h') = True" for c h'
    by (cases d) (auto simp: emulator_reset_def running_reset_def split: prod.splits)
  show ?thesis
  proof (cases "device_visible (device_serial d) devs")
    case False
    with assms io have "err = None" "q = remove_instance k (on_inst k clear_session ?p1)"
      by (auto simp: pool_release_def)
    with False r assms(1) show ?thesis
      by (simp add: remove_instance_def get_remove get_on_inst)
        (simp add: remove_with_reason_def Let_def get_on_inst sem_drain_def assms(1))
  next
    case True
    let ?j = "clear_session (i\<lparr>inst_state := StateResetting\<rparr>)"
    have q: "err = None" "q = on_inst k (\<lambda>_. ?j) ?p1"
      using assms io True by (auto simp: pool_release_def transition_to_def)
    have g: "get_instance k q = Some ?j" by (simp add: q get_on_inst assms(1))
    obtain h2 where r2: "run_state (device_reset (env_client env') d) (p_hist q) = (True, h2)"
      using ok by (metis prod.collapse)
    have "reset_finish env' k q = notify_ready (on_inst k
        (\<lambda>_. touch_activity (env_now env') (?j\<lparr>inst_state := StateWarm\<rparr>)) (q\<lparr>p_hist := h2\<rparr>))"
      by (simp add: reset_finish_def g assms(2) with_io_def r2 transition_to_def del: device_reset.simps)
    moreover have "p_events q = p_events p" by (simp add: q)
    ultimately show ?thesis
      using g q(1) True r
      by (simp add: notify_ready_def get_on_inst touch_activity_def clear_session_def)
        (simp add: q(2) get_on_inst)
  qed
qed

text \<open>A pool with one phone or emulator in it.\<close>

definition one_instance :: "device_state \<Rightarrow> string \<Rightarrow> device \<Rightarrow> device_instance" where
  "one_instance s sid d = (new_instance small_env ''a'' ''n'' d [])\<lparr>inst_state := s, session_id := sid\<rparr>"

definition one_pool :: "device_state \<Rightarrow> string \<Rightarrow> device \<Rightarrow> pool" where
  "one_pool s sid d = (new_pool small_config)\<lparr>p_instances := [(''a'', one_instance s sid d)], p_sem := 1\<rparr>"

lemma get_one [simp]: "get_instance k (one_pool s sid d) =
    (if k = ''a'' then Some (one_instance s sid d) else None)"
  by (simp add: one_pool_def get_instance_def)

lemma one_fields [simp]: "inst_state (one_instance s sid d) = s" "session_id (one_instance s sid d) = sid"
  "inst_device (one_instance s sid d) = Some d" "inst_id (one_instance s sid d) = ''a''"
  "health_fails (one_instance s sid d) = 0" "p_sem (one_pool s sid d) = 1"
  "p_events (one_pool s sid d) = []"
  by (simp_all add: one_instance_def one_pool_def new_instance_def new_pool_def)

lemma quiet_devices: "run_state (adb_devices quiet_client) h = (Some [], h @ [[''adb'', ''devices'']])"
  by (simp add: adb_devices_def quiet_client_def parse_devices_def trim_space_def map_filter_def)

theorem pool_release_correct_witness:
  "\<exists>q. pool_release small_env ''a'' (one_pool StateAllocated ''s'' (Running (new_running_device ''e''))) = (None, q) \<and>
     get_instance ''a'' q = None \<and> p_sem q = 0 \<and> p_events q = []"
proof -
  let ?p = "one_pool StateAllocated ''s'' (Running (new_running_device ''e''))"
  obtain err q where r: "pool_release small_env ''a'' ?p = (err, q)" by fastforce
  have "get_instance ''a'' ?p = Some (one_instance StateAllocated ''s'' (Running (new_running_device ''e'')))"
    by simp
  from pool_release_correct [OF this _ _ r] r show ?thesis
    by (simp add: small_env_def quiet_devices device_visible_def)
qed

text \<open>C18: the watcher drops a device at the second probe in a row that does not list it, not at the
  first; the eviction is reported with the session that was attached; and the console port of a dropped
  emulator stays marked as used although no instance holds it any more.\<close>

theorem watcher_evicts_at_second_miss:
  assumes "pool_ok p" and "get_instance k p = Some i" and "inst_device i = Some d" and "health_fails i = 0"
    and "inst_state i \<in> {StateWarm, StateAllocated, StateError, StateCreating}"
    and "fst (run_state (adb_devices (env_client env1)) (p_hist p)) = Some ds1"
    and "\<not> device_visible (device_serial d) (Some ds1)"
    and "fst (run_state (adb_devices (env_client env2)) (p_hist (watch_tick env1 k p))) = Some ds2"
    and "\<not> device_visible (device_serial d) (Some ds2)"
  shows "get_instance k (watch_tick env1 k p) = Some (i\<lparr>health_fails := 1\<rparr>) \<and>
    get_instance k (watch_tick env2 k (watch_tick env1 k p)) = None \<and>
    p_events (watch_tick env2 k (watch_tick env1 k p)) = p_events p @
      (if session_id i = [] then [] else [Evicted k (session_id i) ''emulator disappeared from adb'']) \<and>
    (\<forall>c. port_of i = Some c \<longrightarrow>
       c \<in> set (in_use (p_ports (watch_tick env2 k (watch_tick env1 k p)))) \<and>
       (\<forall>k' j. get_instance k' (watch_tick env2 k (watch_tick env1 k p)) = Some j \<longrightarrow> port_of j \<noteq> Some c))"
proof -
  obtain h1 where "run_state (adb_devices (env_client env1)) (p_hist p) = (Some ds1, h1)"
    using assms(6) by (metis prod.collapse)
  then have io1: "with_io (adb_devices (env_client env1)) p = (Some ds1, p\<lparr>p_hist := h1\<rparr>)"
    by (simp add: with_io_def)
  define q1 where "q1 = watch_tick env1 k p"
  have state: "inst_state i \<notin> {StateDestroying, StateResetting, StateBooting}"
    using assms(5) by auto
  have q1: "q1 = on_inst k (\<lambda>_. i\<lparr>health_fails := 1\<rparr>) (p\<lparr>p_hist := h1\<rparr>)"
    using state by (simp add: q1_def watch_tick_def assms(2,3,4,7) io1 record_health_check_def Let_def)
  obtain h2 where "run_state (adb_devices (env_client env2)) (p_hist q1) = (Some ds2, h2)"
    using assms(8) by (metis prod.collapse q1_def)
  then have io2: "with_io (adb_devices (env_client env2)) q1 = (Some ds2, q1\<lparr>p_hist := h2\<rparr>)"
    by (simp add: with_io_def)
  have g1: "get_instance k q1 = Some (i\<lparr>health_fails := 1\<rparr>)" by (simp add: q1 get_on_inst assms(2))
  define q2 where "q2 = watch_tick env2 k q1"
  have q2: "q2 = unwatch k (remove_with_reason k ''emulator disappeared from adb''
      (on_inst k (\<lambda>_. i\<lparr>health_fails := 2\<rparr>) (q1\<lparr>p_hist := h2\<rparr>)))"
    using state by (simp add: q2_def watch_tick_def g1 assms(3,9) io2 record_health_check_def Let_def)
  have get2: "get_instance k' q2 = (if k' = k then None else get_instance k' p)" for k'
    by (simp add: q2 unwatch_def get_remove get_on_inst q1)
  have ev2: "p_events q2 = p_events p @
      (if session_id i = [] then [] else [Evicted k (session_id i) ''emulator disappeared from adb''])"
    by (simp add: q2 unwatch_def remove_with_reason_def Let_def get_on_inst q1 assms(2) sem_drain_def)
  have "p_ports q2 = p_ports p" by (simp add: q2 unwatch_def q1)
  moreover have "port_of j \<noteq> Some c" if "port_of i = Some c" "get_instance k' q2 = Some j" for c k' j
    using that assms(1,2) get2 unfolding pool_ok_def by (metis option.distinct(1))
  moreover have "c \<in> set (in_use (p_ports p))" if "port_of i = Some c" for c
    using that assms(1,2) unfolding pool_ok_def by blast
  ultimately show ?thesis
    unfolding q1_def [symmetric] q2_def [symmetric] using g1 get2 ev2 by simp
qed

theorem watcher_evicts_at_second_miss_witness:
  "p_events (watch_tick small_env ''a'' (watch_tick small_env ''a''
     (one_pool StateAllocated ''s'' (Running (new_running_device ''e'')))))
   = [Evicted ''a'' ''s'' ''emulator disappeared from adb'']"
proof -
  let ?p = "one_pool StateAllocated ''s'' (Running (new_running_device ''e''))"
  have ok: "pool_ok ?p"
    by (simp add: pool_ok_def port_of_def) (simp add: one_pool_def new_pool_def small_config_def ports_ok_new)
  have g: "get_instance ''a'' ?p = Some (one_instance StateAllocated ''s'' (Running (new_running_device ''e'')))"
    by simp
  have q: "fst (run_state (adb_devices (env_client small_env)) h) = Some []" for h
    by (simp add: small_env_def quiet_devices)
  from watcher_evicts_at_second_miss [OF ok g _ _ _ q _ q] show ?thesis
    by (simp add: device_visible_def)
qed

text \<open>Destroying an instance takes exactly it out of the pool and reports an attached session,
  but gives two slots back: where the semaphore counted the instances exactly, it is one short
  afterwards, so one device more than \<^verbatim>\<open>max_concurrent\<close> can be booted.\<close>

theorem destroy_returns_two_slots:
  assumes "pool_ok p" and "get_instance (inst_id i) p = Some i"
  shows "(\<forall>k. get_instance k (destroy_instance env i p) =
      (if k = inst_id i then None else get_instance k p)) \<and>
    p_sem (destroy_instance env i p) = p_sem p - 2 \<and>
    p_events (destroy_instance env i p) = p_events p @
      (if session_id i = [] then [] else [Evicted (inst_id i) (session_id i) []]) \<and>
    (p_sem p = length (p_instances p) \<and> 2 \<le> p_sem p \<longrightarrow>
       length (p_instances (destroy_instance env i p)) = p_sem (destroy_instance env i p) + 1)"
proof -
  obtain pa h where d: "destroy_instance env i p = sem_drain (remove_instance (inst_id i)
       (on_inst (inst_id i) (try_transition StateDestroying) p\<lparr>p_hist := h, p_ports := pa\<rparr>))"
    using destroy_instance_result by blast
  have s: "p_sem (destroy_instance env i p) = p_sem p - 2"
    by (simp add: d sem_drain_def remove_instance_def)
  have ev: "p_events (destroy_instance env i p) = p_events p @
      (if session_id i = [] then [] else [Evicted (inst_id i) (session_id i) []])"
    by (simp add: d sem_drain_def remove_instance_def remove_with_reason_def Let_def get_on_inst assms(2))
  have dist: "distinct (map fst (p_instances p))" using assms(1) by (simp add: pool_ok_def)
  have "length (p_instances (destroy_instance env i p)) =
      length (filter (\<lambda>k. k \<noteq> inst_id i) (map fst (p_instances p)))"
    using arg_cong [OF keys_delete [of "inst_id i" "upd_entry (inst_id i) (try_transition StateDestroying) (p_instances p)"], of length]
    by (simp add: d sem_drain_def remove_instance_def on_inst_def)
  also have "\<dots> = length (removeAll (inst_id i) (map fst (p_instances p)))"
    by (simp add: removeAll_filter_not_eq eq_commute)
  also have "\<dots> = length (p_instances p) - 1"
  proof -
    have "inst_id i \<in> set (map fst (p_instances p))"
      using assms(2) by (force simp: get_instance_def dest: map_of_SomeD)
    with dist show ?thesis by (simp add: distinct_remove1_removeAll [symmetric] length_remove1)
  qed
  finally show ?thesis using s ev by (auto simp: get_destroy)
qed

theorem destroy_returns_two_slots_witness:
  "p_sem (destroy_instance small_env (one_instance StateWarm [] (Usb (new_usb_device ''e'')))
     (one_pool StateWarm [] (Usb (new_usb_device ''e'')))) = 0 \<and>
   get_instance ''a'' (destroy_instance small_env (one_instance StateWarm [] (Usb (new_usb_device ''e'')))
     (one_pool StateWarm [] (Usb (new_usb_device ''e'')))) = None"
proof -
  let ?i = "one_instance StateWarm [] (Usb (new_usb_device ''e''))"
  let ?p = "one_pool StateWarm [] (Usb (new_usb_device ''e''))"
  have ok: "pool_ok ?p"
    by (simp add: pool_ok_def port_of_def) (simp add: one_pool_def new_pool_def small_config_def ports_ok_new)
  have "get_instance (inst_id ?i) ?p = Some ?i" by simp
  from destroy_returns_two_slots [OF ok this] show ?thesis by simp
qed

text \<open>The adoption of one listed device: an unreserved warm instance around it, under the next id.\<close>

lemma adopt_running_one_result:
  assumes "\<not> tracked_serial s p"
  shows "\<exists>d i. get_instance (next_id env p) (adopt_running_one env (s, ''device'') p) = Some i \<and>
    inst_device i = Some (Running d) \<and> run_serial d = s \<and> inst_state i = StateWarm \<and> \<not> reserved i"
proof -
  obtain ok d h1 where r: "run_state (running_prepare (env_client env) (new_running_device s)) (p_hist p) = ((ok, d), h1)"
    by (metis prod_cases3 surj_pair)
  then have okd: "ok" "run_serial d = s"
    by (auto simp: running_prepare_def new_running_device_def split: prod.splits option.splits)
  let ?p1 = "p\<lparr>p_hist := h1\<rparr>"
  have io: "with_io (device_prepare (env_client env) (p_ports p) (Running (new_running_device s))) p =
      ((True, Running d, p_ports p), ?p1)"
    using r okd by (simp add: with_io_def)
  let ?k = "next_id env p"
  let ?i = "new_instance env ?k (p_node p) (Running d) []"
  let ?j = "touch_activity (env_now env) (record_health_check True (env_now env) (?i\<lparr>inst_state := StateWarm\<rparr>))"
  have w: "adopt_warm env (Running d) ?p1 = (Some ?k, on_inst ?k (\<lambda>_. ?j) (snd (create_instance env (Running d) [] ?p1)))"
    by (simp add: adopt_warm_def create_instance_def Let_def transition_to_def new_instance_def next_id_def)
  have q: "adopt_running_one env (s, ''device'') p =
      (let p2 = on_inst ?k (\<lambda>_. ?j) (snd (create_instance env (Running d) [] ?p1))
      in p2\<lparr>p_watched := ?k # p_watched p2\<rparr>)"
    using assms io w by (simp add: adopt_running_one_def Let_def del: device_prepare.simps)
  have g: "get_instance ?k (adopt_running_one env (s, ''device'') p) = Some ?j"
    by (simp add: q Let_def get_on_inst get_create next_id_def)
  show ?thesis
    by (rule exI [of _ d], rule exI [of _ ?j]) (use g okd in \<open>simp add: new_instance_def\<close>)
qed

text \<open>The start-up scan takes every device \<^verbatim>\<open>adb\<close> lists for an emulator, a phone on USB too: it is
  wrapped as a running emulator, warm and destroyable, so that the USB scan then finds its serial
  tracked, releasing it uninstalls the user's apps when there is no snapshot to load, and an idle
  phone is sent \<^verbatim>\<open>emu kill\<close>.\<close>

theorem adoption_ignores_device_kind:
  assumes "\<not> tracked_serial s p"
  shows "\<exists>k i r. get_instance k (adopt_running_one env (s, ''device'') p) = Some i \<and>
      inst_state i = StateWarm \<and> inst_device i = Some (Running r) \<and> run_serial r = s \<and>
      can_destroy (Running r) \<and> tracked_serial s (adopt_running_one env (s, ''device'') p) \<and>
      adopt_device env (Usb (new_usb_device s)) (adopt_running_one env (s, ''device'') p) =
        adopt_running_one env (s, ''device'') p \<and>
      on_dev c s [''emu'', ''kill''] \<in> set (snd (run_state (device_shutdown c pa (Running r)) h))"
proof -
  let ?q = "adopt_running_one env (s, ''device'') p"
  from adopt_running_one_result [OF assms] obtain d i where g: "get_instance (next_id env p) ?q = Some i" and
    dev: "inst_device i = Some (Running d)" "run_serial d = s" "inst_state i = StateWarm" by blast
  have t: "tracked_serial s ?q"
  proof -
    from g have "(next_id env p, i) \<in> set (p_instances ?q)" unfolding get_instance_def by (rule map_of_SomeD)
    then show ?thesis unfolding tracked_serial_def list_ex_iff by (rule rev_bexI) (simp add: dev(1,2))
  qed
  have kill: "on_dev c s [''emu'', ''kill''] \<in> set (snd (run_state (device_shutdown c pa (Running d)) h))"
    using dev(2) by (auto simp: running_shutdown_def adb_emu_command_def split: prod.split)
  have "adopt_device env (Usb (new_usb_device s)) ?q = ?q"
    using t by (simp add: adopt_device_def new_usb_device_def)
  with g dev t kill show ?thesis by force
qed

theorem adoption_ignores_device_kind_witness:
  "\<exists>k i r. get_instance k (adopt_running_one small_env (''R5CR1234567'', ''device'') (new_pool small_config)) = Some i \<and>
     inst_device i = Some (Running r) \<and> run_serial r = ''R5CR1234567''"
proof -
  have "\<not> tracked_serial ''R5CR1234567'' (new_pool small_config)"
    by (simp add: tracked_serial_def new_pool_def)
  from adoption_ignores_device_kind [OF this] show ?thesis by blast
qed

end
