(* ===== verification/Session.thy ===== *)
theory Session
  imports Instance
begin

text \<open>
  \<^verbatim>\<open>internal/session/session.go\<close>: the session states with their names and JSON form, the session and
  the request that creates one, and the length a session gets (\<^verbatim>\<open>createSessionFromInstance\<close> of
  \<^verbatim>\<open>broker.go\<close>), with the 64-bit wrap-around of \<^verbatim>\<open>time.Duration\<close>.
\<close>

datatype session_state =
    SessionQueued | SessionActive | SessionReleased | SessionTimedOut | SessionErrored
  | SessionInterrupted

definition all_session_states :: "session_state list" where
  "all_session_states = [SessionQueued, SessionActive, SessionReleased, SessionTimedOut,
     SessionErrored, SessionInterrupted]"

fun session_state_name :: "session_state \<Rightarrow> string" where
  "session_state_name SessionQueued = ''queued''"
| "session_state_name SessionActive = ''active''"
| "session_state_name SessionReleased = ''released''"
| "session_state_name SessionTimedOut = ''timed_out''"
| "session_state_name SessionErrored = ''errored''"
| "session_state_name SessionInterrupted = ''interrupted''"

definition marshal_session_state :: "session_state \<Rightarrow> string" where
  "marshal_session_state s = CHR 0x22 # session_state_name s @ [CHR 0x22]"

definition unmarshal_session_state :: "string \<Rightarrow> session_state option" where
  "unmarshal_session_state d =
     List.find (\<lambda>s. session_state_name s = strip_quotes d) all_session_states"

record session_capabilities =
  record_video :: bool
  capture_logcat :: bool
  capture_screenshots :: bool
  capture_network :: bool
  retention_hours :: int

record session_connection =
  conn_host :: string
  conn_node :: string
  conn_kind :: "device_kind option"
  conn_adb_port :: int
  conn_serial :: string
  conn_console_port :: int
  conn_appium_url :: string
  conn_appium_local :: string
  conn_udid :: string

record session =
  sess_id :: string
  sess_node :: string
  sess_profile :: string
  sess_platform :: string
  sess_instance :: string
  sess_device_name :: string
  sess_state :: session_state
  sess_conn :: session_connection
  sess_client_id :: string
  sess_client_name :: string
  sess_source :: string
  sess_labels :: "(string \<times> string) list"
  sess_created :: time
  sess_expires :: time
  sess_released :: "time option"
  sess_caps :: "session_capabilities option"

record create_request =
  rq_platform :: string
  rq_profile :: string
  rq_client_id :: string
  rq_client_name :: string
  rq_source :: string
  rq_labels :: "(string \<times> string) list"
  rq_timeout_min :: int
  rq_device_id :: string
  rq_avd_name :: string
  rq_caps :: "session_capabilities option"

definition session_is_active :: "session \<Rightarrow> bool" where
  "session_is_active s \<longleftrightarrow> sess_state s = SessionActive \<or> sess_state s = SessionQueued"

definition session_is_expired :: "time \<Rightarrow> session \<Rightarrow> bool" where
  "session_is_expired now s \<longleftrightarrow> sess_expires s < now"

definition session_length :: "pool_config \<Rightarrow> int \<Rightarrow> duration" where
  "session_length pc minutes =
     (let t = (if 0 < minutes then dur_mul minutes minute_ns
               else dur_mul (session_timeout_minutes pc) minute_ns);
          m = dur_mul (session_max_minutes pc) minute_ns
      in if m < t then m else t)"

subsection \<open>Lemmas\<close>

lemma session_state_name_inj [simp]: "session_state_name a = session_state_name b \<longleftrightarrow> a = b"
  by (cases a; cases b) simp_all

text \<open>A session state survives its JSON form, and a text decodes to a state exactly when it is
  that state's name, quoted or bare.\<close>

theorem session_state_json_roundtrip:
  "unmarshal_session_state (marshal_session_state s) = Some s \<and>
   (unmarshal_session_state d = Some t \<longleftrightarrow> strip_quotes d = session_state_name t)"
proof -
  have "unmarshal_session_state d = Some t" if "strip_quotes d = session_state_name t" for d t
    using that by (cases t) (simp_all add: unmarshal_session_state_def all_session_states_def)
  moreover have "strip_quotes d = session_state_name t" if "unmarshal_session_state d = Some t" for d t
    using that by (auto simp: unmarshal_session_state_def dest: find_SomeD)
  ultimately show ?thesis by (metis marshal_session_state_def strip_quotes_quoted)
qed

text \<open>C19: a session never runs longer than \<^verbatim>\<open>session_max_minutes\<close>, and without overflow (up to
  153722867 minutes) it runs exactly as long as asked for, or as the default says when nothing is
  asked for, cut at the maximum.\<close>

theorem session_length_bounded:
  assumes "0 \<le> session_max_minutes pc" and "session_max_minutes pc \<le> 153722867"
  shows "session_length pc n \<le> session_max_minutes pc * minute_ns \<and>
    (n \<le> 153722867 \<and> 0 \<le> session_timeout_minutes pc \<and> session_timeout_minutes pc \<le> 153722867 \<longrightarrow>
       session_length pc n =
         min (session_max_minutes pc) (if 0 < n then n else session_timeout_minutes pc) * minute_ns)"
proof -
  have m: "dur_mul (session_max_minutes pc) minute_ns = session_max_minutes pc * minute_ns"
    using assms by (rule dur_mul_minutes)
  then have "session_length pc n \<le> session_max_minutes pc * minute_ns"
    by (simp add: session_length_def Let_def)
  moreover have "session_length pc n =
      min (session_max_minutes pc) (if 0 < n then n else session_timeout_minutes pc) * minute_ns"
    if "n \<le> 153722867" "0 \<le> session_timeout_minutes pc" "session_timeout_minutes pc \<le> 153722867"
  proof -
    let ?a = "if 0 < n then n else session_timeout_minutes pc"
    have "dur_mul ?a minute_ns = ?a * minute_ns"
      by (rule dur_mul_minutes) (use that in auto)
    then have "session_length pc n = (if session_max_minutes pc * minute_ns < ?a * minute_ns
        then session_max_minutes pc * minute_ns else ?a * minute_ns)"
      by (simp add: session_length_def Let_def m if_distrib [of "\<lambda>x. dur_mul x minute_ns"])
    moreover have "0 < minute_ns" by (simp add: minute_ns_def)
    ultimately show ?thesis by (simp only: mult_less_cancel_right_pos min_def) simp
  qed
  ultimately show ?thesis by blast
qed

theorem session_length_bounded_witness:
  "session_length \<lparr>visible_emulators = False, max_concurrent = 2, session_timeout_minutes = 60,
     session_max_minutes = 180, queue_max_size = 20, queue_timeout_seconds = 300, port_range_min = 5554,
     port_range_max = 5700, artifact_retention_hours = 0, warmup = [],
     profiles = \<lparr>android_profiles = [], ios_profiles = []\<rparr>\<rparr> 600 = 180 * minute_ns"
  using session_length_bounded [of "\<lparr>visible_emulators = False, max_concurrent = 2, session_timeout_minutes = 60,
     session_max_minutes = 180, queue_max_size = 20, queue_timeout_seconds = 300, port_range_min = 5554,
     port_range_max = 5700, artifact_retention_hours = 0, warmup = [],
     profiles = \<lparr>android_profiles = [], ios_profiles = []\<rparr>\<rparr>" 600]
  by (simp del: One_nat_def)

text \<open>Beyond that bound the product wraps: such a session is expired when it starts.\<close>

lemma session_length_wraps:
  "session_max_minutes pc = 180 \<Longrightarrow> session_length pc 153722868 < 0"
proof -
  assume "session_max_minutes pc = 180"
  moreover have "dur_mul 153722868 minute_ns = 153722868 * 60000000000 - 2 ^ 64"
    by (simp add: dur_mul_def wrap64_mod minute_ns_def)
  moreover have "dur_mul 180 minute_ns = 180 * 60000000000"
    by (simp add: dur_mul_def wrap64_mod minute_ns_def)
  ultimately show ?thesis by (simp add: session_length_def Let_def)
qed

end
