(* ===== verification/Queue.thy ===== *)
theory Queue
  imports Session
begin

text \<open>
  \<^verbatim>\<open>internal/session/queue.go\<close>: the waiting line. Entries are pointers in Go and compared by
  identity; \<open>qe_ticket\<close> is that identity. The wait of \<^verbatim>\<open>Enqueue\<close> on its result channel, its timer and
  its context is split off: \<open>enqueue_begin\<close> is the part under the lock, \<open>queue_remove\<close> what a client
  does that stops waiting. The locale \<open>work_queue\<close> is what the broker relies on.
\<close>

subsection \<open>The interface\<close>

datatype 'e queue_op = Put 'e | Take | Return 'e

locale work_queue =
  fixes items :: "'q \<Rightarrow> 'e list"
    and put :: "'e \<Rightarrow> 'q \<Rightarrow> 'q option"
    and take_first :: "'q \<Rightarrow> ('e \<times> 'q) option"
    and return_first :: "'e \<Rightarrow> 'q \<Rightarrow> 'q"
  assumes put_items: "put e q = Some q' \<Longrightarrow> items q' = items q @ [e]"
    and take_items: "take_first q = Some (e, q') \<longleftrightarrow>
          (\<exists>es. items q = e # es \<and> items q' = es \<and> take_first q = Some (e, q'))"
    and take_none: "take_first q = None \<longleftrightarrow> items q = []"
    and return_items: "items (return_first e q) = e # items q"
begin

text \<open>A history: what was put in, in order, and what was taken for good, in order.\<close>

inductive history :: "'q \<Rightarrow> 'e list \<Rightarrow> 'e list \<Rightarrow> bool" where
  start: "items q = [] \<Longrightarrow> history q [] []"
| put: "history q ins outs \<Longrightarrow> put e q = Some q' \<Longrightarrow> history q' (ins @ [e]) outs"
| serve: "history q ins outs \<Longrightarrow> take_first q = Some (e, q') \<Longrightarrow> history q' ins (outs @ [e])"
| retry: "history q ins outs \<Longrightarrow> take_first q = Some (e, q') \<Longrightarrow> history (return_first e q') ins outs"

lemma take_SomeD: "take_first q = Some (e, q') \<Longrightarrow> items q = e # items q'"
  using take_items by blast

lemma history_fifo: "history q ins outs \<Longrightarrow> ins = outs @ items q"
proof (induction rule: history.induct)
  case (serve q ins outs e q')
  with take_SomeD [OF serve(2)] show ?case by simp
next
  case (retry q ins outs e q')
  with take_SomeD [OF retry(2)] show ?case by (simp add: return_items)
qed (simp_all add: put_items)

end

subsection \<open>The queue\<close>

record queue_entry =
  qe_ticket :: nat
  qe_request :: create_request
  qe_enqueued_at :: time

record queue =
  q_entries :: "queue_entry list"
  q_max_size :: int
  q_timeout :: duration
  q_tickets :: nat

datatype queue_error = QueueFull | QueueTimeout | QueueCancelled

definition new_queue :: "int \<Rightarrow> duration \<Rightarrow> queue" where
  "new_queue n t = \<lparr>q_entries = [], q_max_size = n, q_timeout = t, q_tickets = 0\<rparr>"

definition enqueue_begin :: "time \<Rightarrow> create_request \<Rightarrow> queue \<Rightarrow> (queue_error + queue_entry) \<times> queue" where
  "enqueue_begin now req q =
     (if q_max_size q \<le> int (length (q_entries q)) then (Inl QueueFull, q)
      else (let e = \<lparr>qe_ticket = q_tickets q, qe_request = req, qe_enqueued_at = now\<rparr>
            in (Inr e, q\<lparr>q_entries := q_entries q @ [e], q_tickets := q_tickets q + 1\<rparr>)))"

definition queue_wait :: "queue \<Rightarrow> duration" where
  "queue_wait q = (if q_timeout q = 0 then 5 * minute_ns else q_timeout q)"

definition try_dequeue :: "queue \<Rightarrow> (queue_entry \<times> queue) option" where
  "try_dequeue q =
     (case q_entries q of [] \<Rightarrow> None | e # es \<Rightarrow> Some (e, q\<lparr>q_entries := es\<rparr>))"

definition push_front :: "queue_entry \<Rightarrow> queue \<Rightarrow> queue" where
  "push_front e q = q\<lparr>q_entries := e # q_entries q\<rparr>"

definition queue_depth :: "queue \<Rightarrow> nat" where
  "queue_depth q = length (q_entries q)"

fun drop_ticket :: "nat \<Rightarrow> queue_entry list \<Rightarrow> queue_entry list" where
  "drop_ticket t [] = []"
| "drop_ticket t (e # es) = (if qe_ticket e = t then es else e # drop_ticket t es)"

definition queue_remove :: "nat \<Rightarrow> queue \<Rightarrow> queue" where
  "queue_remove t q = q\<lparr>q_entries := drop_ticket t (q_entries q)\<rparr>"

definition put_entry :: "queue_entry \<Rightarrow> queue \<Rightarrow> queue option" where
  "put_entry e q =
     (case enqueue_begin (qe_enqueued_at e) (qe_request e) q of
        (Inr e', q') \<Rightarrow> if e' = e then Some q' else None
      | _ \<Rightarrow> None)"

interpretation wait_line: work_queue q_entries put_entry try_dequeue push_front
proof unfold_locales
  fix e q q'
  show "put_entry e q = Some q' \<Longrightarrow> q_entries q' = q_entries q @ [e]"
    by (auto simp: put_entry_def enqueue_begin_def Let_def split: if_splits)
  show "try_dequeue q = Some (e, q') \<longleftrightarrow>
      (\<exists>es. q_entries q = e # es \<and> q_entries q' = es \<and> try_dequeue q = Some (e, q'))"
    by (auto simp: try_dequeue_def split: list.splits)
  show "try_dequeue q = None \<longleftrightarrow> q_entries q = []"
    by (auto simp: try_dequeue_def split: list.splits)
  show "q_entries (push_front e q) = e # q_entries q" by (simp add: push_front_def)
qed

subsection \<open>Properties\<close>

lemma drop_ticket_fresh: "t \<notin> qe_ticket ` set es \<Longrightarrow> drop_ticket t es = es"
  by (induction es) auto

lemma drop_ticket_filter:
  "distinct (map qe_ticket es) \<Longrightarrow> drop_ticket t es = filter (\<lambda>e. qe_ticket e \<noteq> t) es"
proof (induction es)
  case (Cons e es)
  then show ?case using drop_ticket_fresh [of t es] by (auto simp: filter_id_conv image_iff)
qed simp

text \<open>The line is first come, first served: over any run of arrivals, services and retries (an
  entry taken and put back to the front because the pool was still full), the requests served so far
  followed by those still waiting are exactly the arrivals in their order.\<close>

theorem queue_is_fifo:
  assumes "wait_line.history q ins outs"
  shows "ins = outs @ q_entries q \<and>
    (try_dequeue q = Some (e, q') \<longrightarrow> (\<exists>later. ins = outs @ e # later))"
  using wait_line.history_fifo [OF assms] wait_line.take_SomeD by auto

definition sample_request :: create_request where
  "sample_request = \<lparr>rq_platform = ''android'', rq_profile = ''px'', rq_client_id = [], rq_client_name = [],
     rq_source = ''ci'', rq_labels = [], rq_timeout_min = 0, rq_device_id = [], rq_avd_name = [], rq_caps = None\<rparr>"

theorem queue_is_fifo_witness:
  "\<exists>q e. wait_line.history q [e] [] \<and> q_entries q = [e] \<and> [e] = [] @ q_entries q"
proof -
  let ?e = "\<lparr>qe_ticket = 0, qe_request = sample_request, qe_enqueued_at = 5\<rparr>"
  let ?q = "(new_queue 2 0)\<lparr>q_entries := [?e], q_tickets := 1\<rparr>"
  have h: "wait_line.history ?q ([] @ [?e]) []"
    by (rule wait_line.history.put [OF wait_line.history.start [of "new_queue 2 0"]])
      (simp_all add: new_queue_def put_entry_def enqueue_begin_def Let_def)
  from queue_is_fifo [OF h] h show ?thesis by (intro exI [of _ ?q] exI [of _ ?e]) simp
qed

text \<open>A request is refused exactly when \<^verbatim>\<open>maxSize\<close> entries are waiting, and arrivals alone never
  exceed it; every ticket is new; a client that gives up takes out its own entry and no other, and one
  whose entry was already taken changes nothing.\<close>

theorem enqueue_bounded:
  assumes "distinct (map qe_ticket (q_entries q))" and "\<forall>e \<in> set (q_entries q). qe_ticket e < q_tickets q"
    and "int (queue_depth q) \<le> q_max_size q"
  shows "(case enqueue_begin now req q of
       (Inl err, q') \<Rightarrow> err = QueueFull \<and> q' = q \<and> int (queue_depth q) = q_max_size q
     | (Inr e, q') \<Rightarrow> qe_request e = req \<and> q_entries q' = q_entries q @ [e] \<and>
         int (queue_depth q') \<le> q_max_size q' \<and> distinct (map qe_ticket (q_entries q')) \<and>
         queue_remove (qe_ticket e) q' = q'\<lparr>q_entries := q_entries q\<rparr>) \<and>
    q_entries (queue_remove t q) = filter (\<lambda>e. qe_ticket e \<noteq> t) (q_entries q)"
proof -
  have f: "drop_ticket (q_tickets q) (q_entries q @ [e]) = q_entries q"
    if "qe_ticket e = q_tickets q" for e
    using assms(1,2) that by (subst drop_ticket_filter) (auto simp: filter_id_conv)
  show ?thesis
    using assms f by (auto simp: enqueue_begin_def queue_depth_def Let_def queue_remove_def
        drop_ticket_filter)
qed

theorem enqueue_bounded_witness:
  "fst (enqueue_begin 5 sample_request (new_queue 0 0)) = Inl QueueFull"
proof -
  let ?q = "new_queue 0 0"
  obtain r q' where e: "enqueue_begin 5 sample_request ?q = (r, q')" by fastforce
  have q: "q_max_size q' = 0"
    using e by (auto simp: enqueue_begin_def new_queue_def Let_def split: if_splits)
  have c: "case enqueue_begin 5 sample_request ?q of
       (Inl err, q') \<Rightarrow> err = QueueFull \<and> q' = ?q \<and> int (queue_depth ?q) = q_max_size ?q
     | (Inr e, q') \<Rightarrow> qe_request e = sample_request \<and> q_entries q' = q_entries ?q @ [e] \<and>
         int (queue_depth q') \<le> q_max_size q' \<and> distinct (map qe_ticket (q_entries q')) \<and>
         queue_remove (qe_ticket e) q' = q'\<lparr>q_entries := q_entries ?q\<rparr>"
    by (rule conjunct1 [OF enqueue_bounded]) (simp_all add: new_queue_def queue_depth_def)
  show ?thesis
  proof (cases r)
    case (Inl err)
    with c e show ?thesis by simp
  next
    case (Inr x)
    with c e q show ?thesis by (auto simp: queue_depth_def)
  qed
qed

text \<open>A client that gives up while the broker holds its entry leaves nothing behind to stop the broker
  from putting the entry back: the stale entry stays at the front.\<close>

lemma stale_entry_survives:
  assumes "try_dequeue q = Some (e, q1)" and "distinct (map qe_ticket (q_entries q))"
  shows "e \<in> set (q_entries (push_front e (queue_remove (qe_ticket e) q1)))"
  by (simp add: push_front_def)

end
