(* ===== verification/Broker.thy ===== *)
theory Broker
  imports PoolProps Queue
begin

text \<open>
  \<^verbatim>\<open>internal/session/broker.go\<close>: sessions on top of the pool and the queue. What the broker asks of the
  store, the capture service, Appium and the webhooks is the log \<open>b_effects\<close>, in order; the answers of
  Appium are part of the environment. A client blocked in \<^verbatim>\<open>Enqueue\<close> is its ticket; a result put into its
  channel is an entry of \<open>b_results\<close>. \<open>b_ready\<close> counts the signals in the channel \<^verbatim>\<open>readyCh\<close> (10 at most).
\<close>

datatype event_detail = Detail string | Lasted duration

datatype broker_effect =
    StoreSession session string
  | StoreEvent string string string event_detail
  | CapVideo string string | CapLogcat string string | CapNetwork string string
  | CapStopAll string | CapRetention string int
  | AppiumStart string string | AppiumStop string | AppiumStopAll
  | WebhookSend string string string string "duration option"
  | CleanupZombies

datatype broker_error =
    SessionNotFound string | SessionNotActive string session_state | NoProfilesConfigured
  | AllocFailed pool_error | QueueErr queue_error | PoolReleaseFailed pool_error

record broker =
  b_sessions :: "(string \<times> session) list"
  b_node :: string
  b_pool :: pool
  b_queue :: queue
  b_cfg :: config
  b_store :: bool
  b_capture :: bool
  b_host :: string
  b_ready :: nat
  b_uuids :: nat
  b_effects :: "broker_effect list"
  b_results :: "(nat \<times> (broker_error + session)) list"

text \<open>\<open>be_appium\<close>: \<open>None\<close> when no Appium is installed, else what starting one answers (the two URLs,
  or an error).\<close>

record broker_env =
  be_pool :: pool_env
  be_uuid :: "nat \<Rightarrow> string"
  be_appium :: "(string \<Rightarrow> string \<Rightarrow> (string \<times> string) option) option"

datatype create_result = Created session | Waiting nat | Failed broker_error | Hanging

definition be_now :: "broker_env \<Rightarrow> time" where
  "be_now env = env_now (be_pool env)"

definition new_broker :: "config \<Rightarrow> pool \<Rightarrow> bool \<Rightarrow> string \<Rightarrow> broker" where
  "new_broker cfg p store host = \<lparr>b_sessions = [], b_node = node_cname (cfg_node cfg), b_pool = p,
     b_queue = new_queue (queue_max_size (cfg_pool cfg))
       (dur_mul (queue_timeout_seconds (cfg_pool cfg)) second_ns),
     b_cfg = cfg, b_store = store, b_capture = False, b_host = host, b_ready = 0, b_uuids = 0,
     b_effects = [], b_results = []\<rparr>"

definition set_capture_service :: "broker \<Rightarrow> broker" where
  "set_capture_service b = b\<lparr>b_capture := True\<rparr>"

definition emit :: "broker_effect list \<Rightarrow> broker \<Rightarrow> broker" where
  "emit es b = b\<lparr>b_effects := b_effects b @ es\<rparr>"

definition emit_if :: "bool \<Rightarrow> broker_effect list \<Rightarrow> broker \<Rightarrow> broker" where
  "emit_if c es b = (if c then emit es b else b)"

definition get_session :: "string \<Rightarrow> broker \<Rightarrow> session option" where
  "get_session sid b = map_of (b_sessions b) sid"

definition on_session :: "string \<Rightarrow> (session \<Rightarrow> session) \<Rightarrow> broker \<Rightarrow> broker" where
  "on_session sid f b = b\<lparr>b_sessions := upd_entry sid f (b_sessions b)\<rparr>"

definition end_session :: "session_state \<Rightarrow> time \<Rightarrow> session \<Rightarrow> session" where
  "end_session st now s = s\<lparr>sess_state := st, sess_released := Some now\<rparr>"

text \<open>The callback registered with the pool: a send that never blocks on a channel of size 10.\<close>

definition on_ready :: "broker \<Rightarrow> broker" where
  "on_ready b = (if b_ready b < 10 then b\<lparr>b_ready := b_ready b + 1\<rparr> else b)"

subsection \<open>Building a session\<close>

definition build_connection :: "string \<Rightarrow> device_instance \<Rightarrow> session_connection" where
  "build_connection host i =
     (case inst_device i of
        None \<Rightarrow> \<lparr>conn_host = host, conn_node = [], conn_kind = None, conn_adb_port = 0, conn_serial = [],
          conn_console_port = 0, conn_appium_url = [], conn_appium_local = [], conn_udid = []\<rparr>
      | Some d \<Rightarrow>
          (let ci = device_connection d
           in \<lparr>conn_host = host, conn_node = [], conn_kind = Some (ci_kind ci),
               conn_adb_port = ci_adb_port ci, conn_serial = ci_serial ci,
               conn_console_port = ci_console_port ci, conn_appium_url = [], conn_appium_local = [],
               conn_udid = ci_udid ci\<rparr>))"

definition new_session :: "broker_env \<Rightarrow> device_instance \<Rightarrow> create_request \<Rightarrow> broker \<Rightarrow> session" where
  "new_session env i req b =
     \<lparr>sess_id = take 12 (be_uuid env (b_uuids b)), sess_node = b_node b, sess_profile = rq_profile req,
      sess_platform = rq_platform req, sess_instance = inst_id i,
      sess_device_name = (case inst_device i of None \<Rightarrow> [] | Some d \<Rightarrow> device_display_name d),
      sess_state = SessionActive,
      sess_conn = (build_connection (b_host b) i)\<lparr>conn_node := b_node b\<rparr>,
      sess_client_id = rq_client_id req, sess_client_name = rq_client_name req,
      sess_source = rq_source req, sess_labels = rq_labels req, sess_created = be_now env,
      sess_expires = be_now env + session_length (cfg_pool (b_cfg b)) (rq_timeout_min req),
      sess_released = None, sess_caps = rq_caps req\<rparr>"

definition capture_starts :: "broker \<Rightarrow> string \<Rightarrow> device_instance \<Rightarrow> create_request \<Rightarrow> broker_effect list" where
  "capture_starts b sid i req =
     (case (rq_caps req, inst_device i) of
        (Some caps, Some d) \<Rightarrow>
          (if \<not> b_capture b then []
           else (let serial = device_serial d
                 in (if retention_hours caps \<noteq> 0 then [CapRetention sid (retention_hours caps)] else []) @
                    (if record_video caps then [CapVideo sid serial] else []) @
                    (if capture_logcat caps then [CapLogcat sid serial] else []) @
                    (if capture_network caps then [CapNetwork sid serial] else [])))
      | _ \<Rightarrow> [])"

definition create_session_from_instance ::
  "broker_env \<Rightarrow> device_instance \<Rightarrow> create_request \<Rightarrow> broker \<Rightarrow> session \<times> broker" where
  "create_session_from_instance env i req b =
     (let s = new_session env i req b;
          sid = sess_id s;
          serial = (case inst_device i of None \<Rightarrow> [] | Some d \<Rightarrow> device_serial d);
          b1 = b\<lparr>b_pool := on_inst (inst_id i) (set_session sid (be_now env)) (b_pool b),
                 b_sessions := AList.update sid s (b_sessions b), b_uuids := b_uuids b + 1\<rparr>;
          b2 = emit (capture_starts b sid i req) b1;
          b3 = emit_if (b_store b)
                 [StoreSession s ''active'',
                  StoreEvent ''session_created'' (inst_id i) sid (Detail (''profile='' @ sess_profile s))] b2;
          (s1, b4) = (case be_appium env of
              None \<Rightarrow> (s, b3)
            | Some start \<Rightarrow>
                (let b' = emit [AppiumStart sid serial] b3
                 in case start sid serial of
                      None \<Rightarrow> (s, b')
                    | Some (url, local_url) \<Rightarrow>
                        (let s' = s\<lparr>sess_conn := (sess_conn s)\<lparr>conn_appium_url := url,
                                     conn_appium_local := local_url\<rparr>\<rparr>
                         in (s', on_session sid (\<lambda>_. s') b'))));
          b5 = emit [WebhookSend ''session.created'' sid (inst_id i) (sess_profile s1) None] b4
      in (s1, b5))"

subsection \<open>Creating\<close>

text \<open>The pool's answer, with the instance behind the id.\<close>

definition with_allocation ::
  "broker_env \<Rightarrow> create_request \<Rightarrow> alloc_result \<times> pool \<Rightarrow>
   (pool_error \<Rightarrow> broker \<Rightarrow> create_result \<times> broker) \<Rightarrow> broker \<Rightarrow> create_result \<times> broker" where
  "with_allocation env req rp refused b =
     (let (r, p) = rp; b1 = b\<lparr>b_pool := p\<rparr>
      in case r of
           Stuck \<Rightarrow> (Hanging, b1)
         | Refused e \<Rightarrow> refused e b1
         | Got k \<Rightarrow>
             (case get_instance k p of
                None \<Rightarrow> (Hanging, b1)
              | Some i \<Rightarrow>
                  (case create_session_from_instance env i req b1 of (s, b2) \<Rightarrow> (Created s, b2))))"

definition enqueue_request :: "broker_env \<Rightarrow> create_request \<Rightarrow> broker \<Rightarrow> create_result \<times> broker" where
  "enqueue_request env req b =
     (case enqueue_begin (be_now env) req (b_queue b) of
        (Inl e, q) \<Rightarrow> (Failed (QueueErr e), b\<lparr>b_queue := q\<rparr>)
      | (Inr e, q) \<Rightarrow> (Waiting (qe_ticket e), b\<lparr>b_queue := q\<rparr>))"

definition default_profile :: "config \<Rightarrow> string" where
  "default_profile cfg =
     (case android_profiles (profiles (cfg_pool cfg)) of [] \<Rightarrow> [] | (n, _) # _ \<Rightarrow> n)"

definition broker_create :: "broker_env \<Rightarrow> create_request \<Rightarrow> broker \<Rightarrow> create_result \<times> broker" where
  "broker_create env req0 b =
     (let req = (if rq_platform req0 = [] then req0\<lparr>rq_platform := ''android''\<rparr> else req0)
      in if rq_device_id req \<noteq> [] \<or> rq_avd_name req \<noteq> [] then
           with_allocation env req
             (allocate_with (be_pool env) \<lparr>opt_profile_name = [], opt_instance_id = rq_device_id req,
                opt_avd_name = rq_avd_name req, opt_source = rq_source req\<rparr> (b_pool b))
             (\<lambda>e b1. (Failed (AllocFailed e), b1)) b
         else
           (let req1 = (if rq_profile req = [] then req\<lparr>rq_profile := default_profile (b_cfg b)\<rparr> else req)
            in if rq_profile req1 = [] then (Failed NoProfilesConfigured, b)
               else with_allocation env req1
                 (if manual_caller (rq_source req1)
                  then allocate_for_manual (be_pool env) (rq_profile req1) (b_pool b)
                  else allocate (be_pool env) (rq_profile req1) (b_pool b))
                 (\<lambda>e b1. if e = PoolExhausted then enqueue_request env req1 b1
                         else (Failed (AllocFailed e), b1)) b))"

text \<open>A queued client that gives up: its timer or its context fired before a result came.\<close>

definition give_up :: "nat \<Rightarrow> broker \<Rightarrow> broker" where
  "give_up t b = b\<lparr>b_queue := queue_remove t (b_queue b)\<rparr>"

subsection \<open>Releasing, evictions, timeouts\<close>

definition broker_release :: "broker_env \<Rightarrow> string \<Rightarrow> broker \<Rightarrow> broker_error option \<times> broker" where
  "broker_release env sid b =
     (case get_session sid b of
        None \<Rightarrow> (Some (SessionNotFound sid), b)
      | Some s \<Rightarrow>
          if \<not> session_is_active s then (Some (SessionNotActive sid (sess_state s)), b)
          else
            (let now = be_now env;
                 s1 = end_session SessionReleased now s;
                 b1 = on_session sid (\<lambda>_. s1) b;
                 b2 = emit_if (b_store b) [StoreSession s1 ''released'',
                        StoreEvent ''session_released'' (sess_instance s1) (sess_id s1)
                          (Lasted (now - sess_created s1))] b1;
                 b3 = emit_if (b_capture b) [CapStopAll sid] b2;
                 b4 = emit [AppiumStop sid, WebhookSend ''session.released'' sid (sess_instance s1)
                        (sess_profile s1) (Some (now - sess_created s1))] b3;
                 (err, p) = pool_release (be_pool env) (sess_instance s1) (b_pool b4);
                 b5 = b4\<lparr>b_pool := p\<rparr>
             in (map_option PoolReleaseFailed err, b5)))"

definition handle_evicted :: "broker_env \<Rightarrow> string \<Rightarrow> string \<Rightarrow> string \<Rightarrow> broker \<Rightarrow> broker" where
  "handle_evicted env iid sid reason b =
     (case get_session sid b of
        None \<Rightarrow> b
      | Some s \<Rightarrow>
          if \<not> session_is_active s then b
          else
            (let now = be_now env;
                 s1 = end_session SessionInterrupted now s;
                 b1 = emit_if (b_capture b) [CapStopAll sid] (on_session sid (\<lambda>_. s1) b);
                 b2 = emit [AppiumStop sid] b1;
                 b3 = emit_if (b_store b) [StoreSession s1 ''interrupted'',
                        StoreEvent ''session_interrupted'' (sess_instance s1) (sess_id s1) (Detail reason)] b2
             in emit [WebhookSend ''session.interrupted'' (sess_id s1) (sess_instance s1)
                        (sess_profile s1) (Some (now - sess_created s1))] b3))"

definition timeout_session :: "broker_env \<Rightarrow> string \<Rightarrow> broker \<Rightarrow> broker" where
  "timeout_session env sid b =
     (let b1 = on_session sid (end_session SessionTimedOut (be_now env)) b
      in case get_session sid b1 of
           None \<Rightarrow> b1
         | Some s \<Rightarrow>
             (let b2 = emit_if (b_store b) [StoreSession s ''timed_out'',
                         StoreEvent ''session_timed_out'' (sess_instance s) (sess_id s) (Detail [])] b1;
                  (err, p) = pool_release (be_pool env) (sess_instance s) (b_pool b2)
              in b2\<lparr>b_pool := p\<rparr>))"

definition expired_sessions :: "time \<Rightarrow> broker \<Rightarrow> string list" where
  "expired_sessions now b =
     map fst (filter (\<lambda>(k, s). sess_state s = SessionActive \<and> session_is_expired now s) (b_sessions b))"

definition enforce_timeouts :: "broker_env \<Rightarrow> broker \<Rightarrow> broker" where
  "enforce_timeouts env b = fold (timeout_session env) (expired_sessions (be_now env) b) b"

subsection \<open>Draining the queue\<close>

definition send_result :: "nat \<Rightarrow> broker_error + session \<Rightarrow> broker \<Rightarrow> broker" where
  "send_result t r b = b\<lparr>b_results := b_results b @ [(t, r)]\<rparr>"

text \<open>The goroutine a release starts. \<open>Hanging\<close> means that it never gets past the allocation.\<close>

definition drain_queue :: "broker_env \<Rightarrow> broker \<Rightarrow> create_result option \<times> broker" where
  "drain_queue env b =
     (case try_dequeue (b_queue b) of
        None \<Rightarrow> (None, b)
      | Some (e, q) \<Rightarrow>
          (let (r, b1) = with_allocation env (qe_request e)
                 (allocate (be_pool env) (rq_profile (qe_request e)) (b_pool b))
                 (\<lambda>err b'. (Failed (AllocFailed err), b'\<lparr>b_queue := push_front e (b_queue b')\<rparr>))
                 (b\<lparr>b_queue := q\<rparr>)
           in (Some r, case r of Created s \<Rightarrow> send_result (qe_ticket e) (Inr s) b1 | _ \<Rightarrow> b1)))"

text \<open>One round of \<^verbatim>\<open>tryDrainQueue\<close>: whether to go on, and the broker after it.\<close>

definition drain_round :: "broker_env \<Rightarrow> broker \<Rightarrow> bool \<times> broker" where
  "drain_round env b =
     (case try_dequeue (b_queue b) of
        None \<Rightarrow> (False, b)
      | Some (e, q) \<Rightarrow>
          (let (r, b1) = with_allocation env (qe_request e)
                 (allocate (be_pool env) (rq_profile (qe_request e)) (b_pool b))
                 (\<lambda>err b'. if err = PoolExhausted
                    then (Waiting (qe_ticket e), b'\<lparr>b_queue := push_front e (b_queue b')\<rparr>)
                    else (Failed (AllocFailed err), send_result (qe_ticket e) (Inl (AllocFailed err)) b'))
                 (b\<lparr>b_queue := q\<rparr>)
           in case r of
                Created s \<Rightarrow> (True, send_result (qe_ticket e) (Inr s) b1)
              | _ \<Rightarrow> (False, b1)))"

text \<open>Each recursion has one entry less to serve, so the depth of the queue is fuel enough.\<close>

fun drain_rounds :: "nat \<Rightarrow> broker_env \<Rightarrow> broker \<Rightarrow> broker" where
  "drain_rounds 0 env b = b"
| "drain_rounds (Suc n) env b =
     (case drain_round env b of (go_on, b1) \<Rightarrow> if go_on then drain_rounds n env b1 else b1)"

definition try_drain_queue :: "broker_env \<Rightarrow> broker \<Rightarrow> broker" where
  "try_drain_queue env b = drain_rounds (queue_depth (b_queue b)) env b"

definition ready_signal :: "broker_env \<Rightarrow> broker \<Rightarrow> broker" where
  "ready_signal env b = (if b_ready b = 0 then b else try_drain_queue env (b\<lparr>b_ready := b_ready b - 1\<rparr>))"

subsection \<open>Views and lifetime\<close>

definition active_count :: "broker \<Rightarrow> nat" where
  "active_count b = length (filter (\<lambda>(k, s). session_is_active s) (b_sessions b))"

definition broker_list :: "broker \<Rightarrow> session list" where
  "broker_list b = map snd (b_sessions b)"

definition broker_start :: "broker \<Rightarrow> broker" where
  "broker_start b = emit_if (b_store b) [CleanupZombies] b"

definition broker_stop :: "broker \<Rightarrow> broker" where
  "broker_stop b = emit [AppiumStopAll] b"

text \<open>\<^verbatim>\<open>javaHomeFromJava\<close>\<close>

definition java_home_from_java :: "string \<Rightarrow> string" where
  "java_home_from_java java = (if java = [] then [] else path_dir (path_dir java))"

end
