(* ===== verification/BrokerProps.thy ===== *)
theory BrokerProps
  imports Broker
begin

text \<open>
  What the broker guarantees for the sessions it creates, ends, times out and serves from the queue,
  and what an expiry leaves running that a release stops.
\<close>

subsection \<open>Allocations keep the pool's invariant\<close>

lemma boot_begin_boots:
  "boot_begin env avd prof p = (Inr i, q) \<Longrightarrow> case inst_device i of Some (Emulator e) \<Rightarrow> True | _ \<Rightarrow> False"
  using boot_begin_Inr(6) by fastforce

lemma boot_emulator_ok:
  assumes "pool_ok p"
  shows "pool_ok (snd (boot_emulator env avd prof p))"
proof -
  obtain r q where b: "boot_begin env avd prof p = (r, q)" by fastforce
  have q: "pool_ok q" using pstepD(1) [OF pstep_boot_begin assms, of env avd prof] b by simp
  show ?thesis
  proof (cases r)
    case (Inr i)
    from pstepD(1) [OF boot_finish_step [OF boot_begin_boots [OF b [unfolded Inr]]] q]
    show ?thesis by (simp add: boot_emulator_def b Inr)
  qed (use q in \<open>simp add: boot_emulator_def b\<close>)
qed

lemma alloc_commit_ok: "pool_ok p \<Longrightarrow> pool_ok (snd (alloc_commit avd (r, p)))"
  using pstepD(1) [OF pstep_alloc_commit] .

lemma boot_commit_ok: "pool_ok p \<Longrightarrow> pool_ok (snd (alloc_commit avd (boot_emulator env avd prof p)))"
  using alloc_commit_ok boot_emulator_ok by (metis prod.collapse)

lemma allocate_any_ok:
  assumes "pool_ok p"
  shows "pool_ok (snd (allocate_any env prof incl p))"
proof (cases "alloc_warm prof incl p")
  case (Some kq)
  then obtain k q where "alloc_warm prof incl p = Some (k, q)" by (cases kq) simp
  with pstepD(1) [OF pstep_alloc_warm [OF this] assms] show ?thesis by (simp add: allocate_any_def)
next
  case None
  obtain r q where a: "alloc_reserve env p = (r, q)" by fastforce
  have q: "pool_ok q" using pstepD(1) [OF pstep_alloc_reserve assms, of env] a by simp
  show ?thesis
    using q boot_commit_ok [OF q] by (cases r) (simp_all add: allocate_any_def None a)
qed

lemma allocate_with_ok:
  assumes "pool_ok p"
  shows "pool_ok (snd (allocate_with env opts p))"
proof -
  have d: "distinct (map fst (p_instances p))" using assms by (simp add: pool_ok_def)
  have "pool_ok (snd (allocate_avd env avd m p))" for avd m
  proof (cases "List.find (\<lambda>(k, i). map_option device_display_name (inst_device i) = Some avd) (p_instances p)")
    case (Some ki)
    then obtain k i where "List.find (\<lambda>(k, i). map_option device_display_name (inst_device i) = Some avd)
        (p_instances p) = Some (k, i)" by (cases ki) auto
    from pstepD(1) [OF pstep_allocate_avd_tracked [OF d this] assms] show ?thesis .
  next
    case None
    show ?thesis
    proof (cases "sem_try_acquire p")
      case None
      with \<open>List.find _ _ = None\<close> assms show ?thesis by (simp add: allocate_avd_def)
    next
      case (Some p1)
      have "pool_ok (p1\<lparr>p_booting := List.insert avd (p_booting p1)\<rparr>)"
        using pstepD(1) [OF pstep_eq_trans [OF pstep_sem_acquire [OF Some] pstep_booting] assms] .
      from boot_commit_ok [OF this] \<open>List.find _ _ = None\<close> Some show ?thesis
        by (simp add: allocate_avd_def)
    qed
  qed
  then show ?thesis
    using pstepD(1) [OF pstep_allocate_instance [OF d] assms] allocate_any_ok [OF assms]
    by (simp add: allocate_with_def allocate_def Let_def)
qed

subsection \<open>Sessions\<close>

lemma get_on_session: "get_session sid (on_session sid' f b) =
    (if sid = sid' then map_option f (get_session sid b) else get_session sid b)"
  by (simp add: get_session_def on_session_def map_of_upd_entry)

lemma emit_fields [simp]:
  "b_sessions (emit es b) = b_sessions b" "b_pool (emit es b) = b_pool b" "b_queue (emit es b) = b_queue b"
  "b_effects (emit es b) = b_effects b @ es" "get_session sid (emit es b) = get_session sid b"
  "b_results (emit es b) = b_results b" "b_cfg (emit es b) = b_cfg b" "b_store (emit es b) = b_store b"
  "b_sessions (emit_if c es b) = b_sessions b" "b_pool (emit_if c es b) = b_pool b"
  "b_queue (emit_if c es b) = b_queue b" "b_results (emit_if c es b) = b_results b"
  "b_effects (emit_if c es b) = b_effects b @ (if c then es else [])"
  "get_session sid (emit_if c es b) = get_session sid b" "b_cfg (emit_if c es b) = b_cfg b"
  "b_store (emit_if c es b) = b_store b"
  by (simp_all add: emit_def emit_if_def get_session_def)

lemma session_pool_fields [simp]:
  "get_session sid (b\<lparr>b_pool := p\<rparr>) = get_session sid b"
  "get_session sid (b\<lparr>b_queue := q\<rparr>) = get_session sid b"
  "get_session sid (b\<lparr>b_results := r\<rparr>) = get_session sid b"
  "b_pool (on_session sid f b) = b_pool b" "b_queue (on_session sid f b) = b_queue b"
  "b_effects (on_session sid f b) = b_effects b" "b_results (on_session sid f b) = b_results b"
  "b_store (on_session sid f b) = b_store b" "b_cfg (on_session sid f b) = b_cfg b"
  by (simp_all add: get_session_def on_session_def)

lemma new_session_fields [simp]:
  "sess_state (new_session env i req b) = SessionActive"
  "sess_instance (new_session env i req b) = inst_id i"
  "sess_created (new_session env i req b) = be_now env"
  "sess_expires (new_session env i req b) =
     be_now env + session_length (cfg_pool (b_cfg b)) (rq_timeout_min req)"
  "sess_source (new_session env i req b) = rq_source req"
  "sess_id (new_session env i req b) = take 12 (be_uuid env (b_uuids b))"
  by (simp_all add: new_session_def)

lemma get_session_insert [simp]:
  "get_session sid (b\<lparr>b_pool := p, b_sessions := AList.update k s m, b_uuids := n\<rparr>) =
     (if sid = k then Some s else map_of m sid)"
  by (simp add: get_session_def update_conv')

lemma create_session_result:
  assumes "create_session_from_instance env i req b = (s, b')"
  shows "get_session sid b' = (if sid = sess_id s then Some s else get_session sid b)"
    "b_pool b' = on_inst (inst_id i) (set_session (sess_id s) (be_now env)) (b_pool b)"
    "sess_state s = SessionActive" "sess_instance s = inst_id i" "sess_created s = be_now env"
    "sess_expires s = be_now env + session_length (cfg_pool (b_cfg b)) (rq_timeout_min req)"
    "b_queue b' = b_queue b" "b_results b' = b_results b" "sess_source s = rq_source req"
    "sess_id s = take 12 (be_uuid env (b_uuids b))"
  using assms
  by (auto simp: create_session_from_instance_def Let_def get_on_session
      get_session_def [of sid b] split: option.splits prod.splits)

lemma with_allocation_Created:
  assumes "with_allocation env req rp f b = (Created s, b')"
    and "\<And>e b1. fst (f e b1) \<noteq> Created s"
  obtains k p i where "rp = (Got k, p)" "get_instance k p = Some i"
    "create_session_from_instance env i req (b\<lparr>b_pool := p\<rparr>) = (s, b')"
proof -
  obtain r p where rp: "rp = (r, p)" by fastforce
  show ?thesis
  proof (cases r)
    case (Got k)
    with assms(1) rp that show ?thesis
      by (auto simp: with_allocation_def Let_def split: option.splits prod.splits)
  next
    case (Refused e)
    with assms rp show ?thesis by (simp add: with_allocation_def) (metis fst_conv)
  qed (use assms(1) rp in \<open>simp add: with_allocation_def\<close>)
qed

lemma enqueue_not_created: "fst (enqueue_request env req b) \<noteq> Created s"
  by (simp add: enqueue_request_def split: prod.split sum.split)

definition got_device :: "bool \<Rightarrow> alloc_result \<times> pool \<Rightarrow> pool \<Rightarrow> bool" where
  "got_device manual rp p \<longleftrightarrow>
     (case rp of (Got k, q) \<Rightarrow>
        (\<exists>j. get_instance k q = Some j \<and> inst_state j = StateAllocated \<and> (manual \<or> \<not> reserved j)) \<and>
        (\<forall>k'. k' \<noteq> k \<longrightarrow> get_instance k' q = get_instance k' p) \<and> pool_ok q
      | _ \<Rightarrow> True)"

text \<open>The two allocation theorems of the pool in the form the broker needs (without naming them).\<close>

lemma allocate_any_got:
  assumes "pool_ok p"
  shows "got_device incl (allocate_any env prof incl p) p"
proof -
  obtain r q where a: "allocate_any env prof incl p = (r, q)" by fastforce
  have q: "pool_ok q" using allocate_any_ok [OF assms, of env prof incl] a by simp
  have d: "distinct (map fst (p_instances p))" using assms by (simp add: pool_ok_def)
  show ?thesis
  proof (cases "alloc_warm prof incl p")
    case None
    from None a show ?thesis
      by (cases rule: allocate_any_cold) (use q a in \<open>auto simp: got_device_def\<close>)
  next
    case (Some kq)
    then obtain k q' where w: "alloc_warm prof incl p = Some (k, q')" by (cases kq) simp
    with a have "q' = q" "r = Got k" by (auto simp: allocate_any_warm)
    with w d show ?thesis
      by (elim alloc_warm_Some) (use q a in \<open>auto simp: got_device_def eligible_def\<close>)
  qed
qed

lemma allocate_with_got:
  assumes "pool_ok p"
  shows "got_device (manual_caller (opt_source opts)) (allocate_with env opts p) p"
proof -
  obtain r q where a: "allocate_with env opts p = (r, q)" by fastforce
  have q: "pool_ok q" using allocate_with_ok [OF assms, of env opts] a by simp
  consider (iid) "opt_instance_id opts \<noteq> []" | (avd) "opt_instance_id opts = []" "opt_avd_name opts \<noteq> []"
    | (any) "opt_instance_id opts = []" "opt_avd_name opts = []" by blast
  then show ?thesis
  proof cases
    case iid
    with a have i: "allocate_instance (opt_instance_id opts) (manual_caller (opt_source opts)) p = (r, q)"
      by (simp add: allocate_with_def)
    show ?thesis
    proof (cases r)
      case (Got k)
      from i [unfolded Got] assms show ?thesis
        by (rule allocate_instance_Got) (use Got a q in \<open>auto simp: got_device_def get_on_inst\<close>)
    qed (simp_all add: got_device_def a)
  next
    case avd
    with a have i: "allocate_avd env (opt_avd_name opts) (manual_caller (opt_source opts)) p = (r, q)"
      by (simp add: allocate_with_def)
    show ?thesis
    proof (cases r)
      case (Got k)
      from allocate_avd_Got [OF i [unfolded Got] assms] q show ?thesis
        by (simp add: got_device_def a Got)
    qed (simp_all add: got_device_def a)
  next
    case any
    then have "allocate_with env opts p = allocate_any env (opt_profile_name opts) False p"
      by (simp add: allocate_with_def allocate_def)
    with allocate_any_got [OF assms, of False env "opt_profile_name opts"] show ?thesis
      by (auto simp: got_device_def split: prod.splits alloc_result.splits)
  qed
qed

subsection \<open>Creating a session\<close>

lemma got_device_session:
  assumes "got_device m rp p" and "rp = (Got k, q)" and "get_instance k q = Some i"
    and "create_session_from_instance env i req (b\<lparr>b_pool := q\<rparr>) = (s, b')"
  shows "sess_instance s = k" "get_instance k (b_pool b') = Some (set_session (sess_id s) (be_now env) i)"
    "inst_state i = StateAllocated" "m \<or> \<not> reserved i"
    "\<And>k'. k' \<noteq> k \<Longrightarrow> get_instance k' (b_pool b') = get_instance k' p"
proof -
  note c = create_session_result [OF assms(4)]
  have ok: "pool_ok q" using assms(1,2) by (simp add: got_device_def)
  have k: "inst_id i = k" using ok assms(3) unfolding pool_ok_def by blast
  then show "sess_instance s = k" by (simp add: c(4))
  show "get_instance k (b_pool b') = Some (set_session (sess_id s) (be_now env) i)"
    by (simp add: c(2) get_on_inst k assms(3))
  show "inst_state i = StateAllocated" "m \<or> \<not> reserved i"
    using assms(1-3) by (auto simp: got_device_def)
  show "get_instance k' (b_pool b') = get_instance k' p" if "k' \<noteq> k" for k'
    using that assms(1,2) by (auto simp: c(2) get_on_inst k got_device_def)
qed

lemma broker_create_Created:
  assumes "broker_create env req b = (Created s, b')" and "pool_ok (b_pool b)"
  obtains req' rp k q i where "got_device (manual_caller (rq_source req)) rp (b_pool b)" "rp = (Got k, q)"
    "get_instance k q = Some i" "create_session_from_instance env i req' (b\<lparr>b_pool := q\<rparr>) = (s, b')"
    "rq_timeout_min req' = rq_timeout_min req" "rq_source req' = rq_source req"
proof -
  let ?r = "if rq_platform req = [] then req\<lparr>rq_platform := ''android''\<rparr> else req"
  let ?r1 = "if rq_profile ?r = [] then ?r\<lparr>rq_profile := default_profile (b_cfg b)\<rparr> else ?r"
  have f: "rq_source ?r = rq_source req" "rq_timeout_min ?r = rq_timeout_min req"
    "rq_source ?r1 = rq_source req" "rq_timeout_min ?r1 = rq_timeout_min req" by simp_all
  show ?thesis
  proof (cases "rq_device_id ?r \<noteq> [] \<or> rq_avd_name ?r \<noteq> []")
    case True
    let ?o = "\<lparr>opt_profile_name = [], opt_instance_id = rq_device_id ?r,
                opt_avd_name = rq_avd_name ?r, opt_source = rq_source ?r\<rparr>"
    let ?rp = "allocate_with (be_pool env) ?o (b_pool b)"
    from True assms(1) have w: "with_allocation env ?r ?rp (\<lambda>e b1. (Failed (AllocFailed e), b1)) b = (Created s, b')"
      unfolding broker_create_def Let_def by (simp only: if_True simp_thms)
    from w obtain k q i where kqi: "?rp = (Got k, q)" "get_instance k q = Some i"
      "create_session_from_instance env i ?r (b\<lparr>b_pool := q\<rparr>) = (s, b')"
      by (rule with_allocation_Created) simp_all
    have "opt_source ?o = rq_source req" using f(1) by simp
    with allocate_with_got [OF assms(2), of ?o "be_pool env"]
    have g: "got_device (manual_caller (rq_source req)) ?rp (b_pool b)" by metis
    show ?thesis by (rule that [OF g kqi f(2) f(1)])
  next
    case False
    let ?rp = "if manual_caller (rq_source ?r1)
                  then allocate_for_manual (be_pool env) (rq_profile ?r1) (b_pool b)
                  else allocate (be_pool env) (rq_profile ?r1) (b_pool b)"
    let ?f = "\<lambda>e b1. if e = PoolExhausted then enqueue_request env ?r1 b1 else (Failed (AllocFailed e), b1)"
    have ne: "rq_profile ?r1 \<noteq> []"
    proof
      assume "rq_profile ?r1 = []"
      with False assms(1) show False unfolding broker_create_def Let_def
        by (simp only: if_False simp_thms if_True) simp
    qed
    from False ne assms(1) have w: "with_allocation env ?r1 ?rp ?f b = (Created s, b')"
      unfolding broker_create_def Let_def by (simp only: if_False simp_thms)
    from w obtain k q i where kqi: "?rp = (Got k, q)" "get_instance k q = Some i"
      "create_session_from_instance env i ?r1 (b\<lparr>b_pool := q\<rparr>) = (s, b')"
      by (rule with_allocation_Created) (simp add: enqueue_not_created)
    have g: "got_device (manual_caller (rq_source req)) ?rp (b_pool b)"
      unfolding f allocate_for_manual_def allocate_def
      using allocate_any_got [OF assms(2), of True] allocate_any_got [OF assms(2), of False] by simp
    show ?thesis by (rule that [OF g kqi f(4) f(3)])
  qed
qed

text \<open>C1: a session that is created has a device to itself: it is registered as active under its id
  (no other session changes), it names an instance that is Allocated, carries this session's id and
  may be used by this caller, every other instance of the pool is untouched, and it expires no later
  than \<^verbatim>\<open>session_max_minutes\<close> from now.\<close>

theorem created_session_owns_device:
  assumes "pool_run u cfg (b_pool b)" and "broker_create env req b = (Created s, b')"
  shows "(\<forall>sid. get_session sid b' = (if sid = sess_id s then Some s else get_session sid b)) \<and>
    sess_state s = SessionActive \<and>
    (\<exists>i. get_instance (sess_instance s) (b_pool b') = Some i \<and> inst_state i = StateAllocated \<and>
       session_id i = sess_id s \<and> (manual_caller (rq_source req) \<or> \<not> reserved i)) \<and>
    (\<forall>k. k \<noteq> sess_instance s \<longrightarrow> get_instance k (b_pool b') = get_instance k (b_pool b)) \<and>
    sess_expires s \<le> be_now env + dur_mul (session_max_minutes (cfg_pool (b_cfg b))) minute_ns"
proof -
  from assms(2) pool_run_ok [OF assms(1)] show ?thesis
  proof (rule broker_create_Created)
    fix req' rp k q i
    assume g: "got_device (manual_caller (rq_source req)) rp (b_pool b)" "rp = (Got k, q)"
      "get_instance k q = Some i" "create_session_from_instance env i req' (b\<lparr>b_pool := q\<rparr>) = (s, b')"
    note d = got_device_session [OF g]
    note c = create_session_result [OF g(4)]
    have "sess_expires s \<le> be_now env + dur_mul (session_max_minutes (cfg_pool (b_cfg b))) minute_ns"
      by (simp add: c(6) session_length_def Let_def)
    with d c(1,3) show ?thesis by simp
  qed
qed

definition small_benv :: broker_env where
  "small_benv = \<lparr>be_pool = small_env, be_uuid = itoa_nat, be_appium = None\<rparr>"

lemma small_creation:
  "\<exists>s b'. broker_create small_benv sample_request
     (new_broker small_config (new_pool small_config) True ''127.0.0.1'') = (Created s, b') \<and> sess_instance s = ''0''"
proof -
  let ?b = "new_broker small_config (new_pool small_config) True ''127.0.0.1''"
  obtain q where a: "allocate_any small_env ''px'' False (new_pool small_config) = (Got ''0'', q)"
    using small_allocation by (metis prod.collapse)
  have g: "got_device False (Got ''0'', q) (new_pool small_config)"
    using allocate_any_got [OF pool_ok_new [of small_config], of False small_env "''px''"] a by simp
  then obtain i where i: "get_instance ''0'' q = Some i" by (auto simp: got_device_def)
  obtain s b' where c: "create_session_from_instance small_benv i sample_request (?b\<lparr>b_pool := q\<rparr>) = (s, b')"
    by fastforce
  have "broker_create small_benv sample_request ?b = (Created s, b')"
    using a i c by (simp add: broker_create_def sample_request_def Let_def allocate_def manual_caller_def
        small_benv_def new_broker_def with_allocation_def)
  with got_device_session(1) [OF g refl i c] show ?thesis by blast
qed

theorem created_session_owns_device_witness:
  "\<exists>s b' i. broker_create small_benv sample_request
     (new_broker small_config (new_pool small_config) True ''127.0.0.1'') = (Created s, b') \<and>
     get_instance (sess_instance s) (b_pool b') = Some i \<and> session_id i = sess_id s \<and> \<not> reserved i"
proof -
  let ?b = "new_broker small_config (new_pool small_config) True ''127.0.0.1''"
  obtain s b' where c: "broker_create small_benv sample_request ?b = (Created s, b')"
    using small_creation by blast
  have "pool_run itoa_nat small_config (b_pool ?b)" by (simp add: new_broker_def pool_run.fresh)
  from created_session_owns_device [OF this c] c show ?thesis
    by (auto simp: sample_request_def manual_caller_def)
qed

subsection \<open>Ending a session\<close>

lemma end_session_fields [simp]:
  "sess_state (end_session st now s) = st" "sess_instance (end_session st now s) = sess_instance s"
  "sess_id (end_session st now s) = sess_id s" "sess_created (end_session st now s) = sess_created s"
  "sess_profile (end_session st now s) = sess_profile s"
  by (simp_all add: end_session_def)

text \<open>C7: releasing an active session marks it Released (and no other session changes), records it,
  stops its captures and its Appium server and tells the webhooks before the device goes back to the
  pool, and a second release is refused without any effect.\<close>

theorem broker_release_correct:
  assumes "get_session sid b = Some s" and "session_is_active s" and "sess_id s = sid"
    and "broker_release env sid b = (err, b')"
  shows "(\<forall>sid'. get_session sid' b' =
      (if sid' = sid then Some (end_session SessionReleased (be_now env) s) else get_session sid' b)) \<and>
    err = map_option PoolReleaseFailed (fst (pool_release (be_pool env) (sess_instance s) (b_pool b))) \<and>
    b_pool b' = snd (pool_release (be_pool env) (sess_instance s) (b_pool b)) \<and>
    b_effects b' = b_effects b @
      (if b_store b then [StoreSession (end_session SessionReleased (be_now env) s) ''released'',
         StoreEvent ''session_released'' (sess_instance s) sid (Lasted (be_now env - sess_created s))] else []) @
      (if b_capture b then [CapStopAll sid] else []) @
      [AppiumStop sid, WebhookSend ''session.released'' sid (sess_instance s) (sess_profile s)
         (Some (be_now env - sess_created s))] \<and>
    broker_release env' sid b' = (Some (SessionNotActive sid SessionReleased), b')"
proof -
  obtain e p where pr: "pool_release (be_pool env) (sess_instance s) (b_pool b) = (e, p)" by fastforce
  have r: "err = map_option PoolReleaseFailed e"
    "\<And>sid'. get_session sid' b' =
      (if sid' = sid then Some (end_session SessionReleased (be_now env) s) else get_session sid' b)"
    "b_pool b' = p"
    "b_effects b' = b_effects b @
      (if b_store b then [StoreSession (end_session SessionReleased (be_now env) s) ''released'',
         StoreEvent ''session_released'' (sess_instance s) sid (Lasted (be_now env - sess_created s))] else []) @
      (if b_capture b then [CapStopAll sid] else []) @
      [AppiumStop sid, WebhookSend ''session.released'' sid (sess_instance s) (sess_profile s)
         (Some (be_now env - sess_created s))]"
    using assms by (auto simp: broker_release_def Let_def pr get_on_session)
  have "broker_release env' sid b' = (Some (SessionNotActive sid SessionReleased), b')"
    by (simp add: broker_release_def r(2) session_is_active_def)
  with r pr show ?thesis by simp
qed

definition small_session :: session where
  "small_session = \<lparr>sess_id = ''s'', sess_node = ''n'', sess_profile = ''px'', sess_platform = ''android'',
     sess_instance = ''a'', sess_device_name = ''p'', sess_state = SessionActive,
     sess_conn = build_connection ''127.0.0.1'' (one_instance StateAllocated ''s'' (Running (new_running_device ''e''))),
     sess_client_id = [], sess_client_name = [], sess_source = ''ci'', sess_labels = [], sess_created = 0,
     sess_expires = 10, sess_released = None, sess_caps = None\<rparr>"

definition small_broker :: broker where
  "small_broker = (new_broker small_config
     (one_pool StateAllocated ''s'' (Running (new_running_device ''e''))) False ''127.0.0.1'')
     \<lparr>b_sessions := [(''s'', small_session)]\<rparr>"

theorem broker_release_correct_witness:
  "get_session ''s'' (snd (broker_release small_benv ''s'' small_broker)) =
     Some (end_session SessionReleased 1 small_session) \<and>
   fst (broker_release small_benv ''s'' (snd (broker_release small_benv ''s'' small_broker))) =
     Some (SessionNotActive ''s'' SessionReleased)"
proof -
  obtain err b' where r: "broker_release small_benv ''s'' small_broker = (err, b')" by fastforce
  have s: "get_session ''s'' small_broker = Some small_session" "session_is_active small_session"
    "sess_id small_session = ''s''"
    by (simp_all add: small_broker_def get_session_def small_session_def session_is_active_def)
  from broker_release_correct [OF s r, of small_benv] show ?thesis
    by (simp add: r) (simp add: be_now_def small_benv_def small_env_def)
qed

text \<open>An eviction interrupts its session once: an active session becomes Interrupted, one that
  ended before (the user's release won the race) is left alone, no other session is touched, and
  reporting the eviction again changes nothing.\<close>

theorem eviction_is_idempotent:
  "(\<forall>sid'. get_session sid' (handle_evicted env iid sid reason b) =
      map_option (\<lambda>s. if sid' = sid \<and> session_is_active s
        then end_session SessionInterrupted (be_now env) s else s) (get_session sid' b)) \<and>
   handle_evicted env' iid' sid reason' (handle_evicted env iid sid reason b) =
     handle_evicted env iid sid reason b \<and>
   b_pool (handle_evicted env iid sid reason b) = b_pool b"
proof -
  have 1: "get_session sid' (handle_evicted env iid sid reason b) =
      map_option (\<lambda>s. if sid' = sid \<and> session_is_active s
        then end_session SessionInterrupted (be_now env) s else s) (get_session sid' b)" for sid'
    by (cases "get_session sid' b"; cases "sid' = sid")
      (auto simp: handle_evicted_def Let_def get_on_session split: option.split)
  have 2: "handle_evicted env' iid' sid reason' (handle_evicted env iid sid reason b) =
     handle_evicted env iid sid reason b"
    unfolding handle_evicted_def [of env'] 1
    by (cases "get_session sid b") (auto simp: session_is_active_def)
  have "b_pool (handle_evicted env iid sid reason b) = b_pool b"
    by (simp add: handle_evicted_def Let_def split: option.split)
  with 1 2 show ?thesis by blast
qed

definition store_effect :: "broker_effect \<Rightarrow> bool" where
  "store_effect e \<longleftrightarrow> (case e of StoreSession _ _ \<Rightarrow> True | StoreEvent _ _ _ _ \<Rightarrow> True | _ \<Rightarrow> False)"

lemma timeout_session_result:
  "(\<forall>sid'. get_session sid' (timeout_session env sid b) =
      (if sid' = sid then map_option (end_session SessionTimedOut (be_now env)) (get_session sid b)
       else get_session sid' b)) \<and>
   (\<exists>es. b_effects (timeout_session env sid b) = b_effects b @ es \<and> list_all store_effect es) \<and>
   b_queue (timeout_session env sid b) = b_queue b \<and> b_store (timeout_session env sid b) = b_store b"
  by (auto simp: timeout_session_def Let_def get_on_session store_effect_def split: option.split prod.split)

lemma timeout_fold:
  "distinct sids \<Longrightarrow>
   (\<forall>sid'. get_session sid' (fold (timeout_session env) sids b) =
      (if sid' \<in> set sids then map_option (end_session SessionTimedOut (be_now env)) (get_session sid' b)
       else get_session sid' b)) \<and>
   (\<exists>es. b_effects (fold (timeout_session env) sids b) = b_effects b @ es \<and> list_all store_effect es) \<and>
   b_queue (fold (timeout_session env) sids b) = b_queue b"
proof (induction sids arbitrary: b)
  case (Cons sid sids)
  note t = timeout_session_result [of env sid b]
  from Cons have IH: "(\<forall>sid'. get_session sid' (fold (timeout_session env) sids (timeout_session env sid b)) =
      (if sid' \<in> set sids then map_option (end_session SessionTimedOut (be_now env))
         (get_session sid' (timeout_session env sid b)) else get_session sid' (timeout_session env sid b))) \<and>
   (\<exists>es. b_effects (fold (timeout_session env) sids (timeout_session env sid b)) =
      b_effects (timeout_session env sid b) @ es \<and> list_all store_effect es) \<and>
   b_queue (fold (timeout_session env) sids (timeout_session env sid b)) = b_queue (timeout_session env sid b)"
    by simp
  from t IH obtain es1 es2 where
    "b_effects (timeout_session env sid b) = b_effects b @ es1" "list_all store_effect es1"
    "b_effects (fold (timeout_session env) sids (timeout_session env sid b)) =
       b_effects (timeout_session env sid b) @ es2" "list_all store_effect es2" by blast
  then have "\<exists>es. b_effects (fold (timeout_session env) (sid # sids) b) = b_effects b @ es \<and> list_all store_effect es"
    by (intro exI [of _ "es1 @ es2"]) simp
  with t IH Cons(2) show ?case by auto
qed simp

text \<open>C9: a timeout pass ends exactly the active sessions whose time is over, as TimedOut, and leaves
  every other session as it is; but unlike a release all it does besides giving the device back is to
  record: captures and the Appium server of the session keep running, no webhook is sent and the queue
  is not served.\<close>

theorem timeouts_end_expired_sessions:
  assumes "distinct (map fst (b_sessions b))"
  shows "(\<forall>sid. get_session sid (enforce_timeouts env b) =
      map_option (\<lambda>s. if sess_state s = SessionActive \<and> session_is_expired (be_now env) s
        then end_session SessionTimedOut (be_now env) s else s) (get_session sid b)) \<and>
    (\<exists>es. b_effects (enforce_timeouts env b) = b_effects b @ es \<and> list_all store_effect es) \<and>
    b_queue (enforce_timeouts env b) = b_queue b"
proof -
  let ?x = "expired_sessions (be_now env) b"
  have d: "distinct ?x" unfolding expired_sessions_def by (rule distinct_map_filter [OF assms])
  have m: "sid \<in> set ?x \<longleftrightarrow> (\<exists>s. get_session sid b = Some s \<and> sess_state s = SessionActive \<and>
      session_is_expired (be_now env) s)" for sid
    using assms by (force simp: expired_sessions_def get_session_def)
  have "get_session sid (enforce_timeouts env b) =
      map_option (\<lambda>s. if sess_state s = SessionActive \<and> session_is_expired (be_now env) s
        then end_session SessionTimedOut (be_now env) s else s) (get_session sid b)" for sid
    using timeout_fold [OF d, of env b] m [of sid]
    by (cases "get_session sid b") (auto simp: enforce_timeouts_def)
  with timeout_fold [OF d, of env b] show ?thesis by (simp add: enforce_timeouts_def)
qed

theorem timeouts_end_expired_sessions_witness:
  "get_session ''s'' (enforce_timeouts (small_benv\<lparr>be_pool := small_env\<lparr>env_now := 11\<rparr>\<rparr>) small_broker) =
     Some (end_session SessionTimedOut 11 small_session)"
proof -
  have "distinct (map fst (b_sessions small_broker))" by (simp add: small_broker_def)
  from timeouts_end_expired_sessions [OF this, of "small_benv\<lparr>be_pool := small_env\<lparr>env_now := 11\<rparr>\<rparr>"]
  show ?thesis
    by (simp add: small_broker_def get_session_def small_session_def session_is_expired_def be_now_def)
qed

text \<open>Between the scan and its turn a session may be released; the pass does not look again and
  overwrites the outcome.\<close>

lemma timeout_overwrites_release:
  "get_session sid b = Some (end_session SessionReleased t s) \<Longrightarrow>
   \<exists>s'. get_session sid (timeout_session env sid b) = Some s' \<and> sess_state s' = SessionTimedOut"
  using timeout_session_result [of env sid b] by simp

subsection \<open>Serving the queue\<close>

lemma with_allocation_keeps:
  assumes "with_allocation env req rp f b = (r, b')"
  shows "(\<exists>e b1. r = fst (f e b1) \<and> b' = snd (f e b1) \<and> b_queue b1 = b_queue b \<and> b_results b1 = b_results b) \<or>
    b_queue b' = b_queue b \<and> b_results b' = b_results b \<and> (r = Hanging \<or> (\<exists>s. r = Created s))"
proof -
  obtain x p where rp: "rp = (x, p)" by fastforce
  let ?b1 = "b\<lparr>b_pool := p\<rparr>"
  show ?thesis
  proof (cases x)
    case (Refused e)
    then have "r = fst (f e ?b1)" "b' = snd (f e ?b1)"
      using assms by (simp_all add: with_allocation_def rp)
    then show ?thesis by force
  next
    case (Got k)
    show ?thesis
    proof (cases "get_instance k p")
      case (Some i)
      obtain s b2 where c: "create_session_from_instance env i req ?b1 = (s, b2)" by fastforce
      with assms Got Some have "r = Created s" "b' = b2" by (simp_all add: with_allocation_def rp)
      with create_session_result(7,8) [OF c] show ?thesis by simp
    qed (use assms Got in \<open>auto simp: with_allocation_def rp\<close>)
  qed (use assms in \<open>auto simp: with_allocation_def rp\<close>)
qed

lemma drain_round_cases:
  assumes "drain_round env b = (go_on, b')"
  obtains (served) e es r where "q_entries (b_queue b) = e # es" "q_entries (b_queue b') = es"
      "b_results b' = b_results b @ [(qe_ticket e, r)]"
  | (kept) "\<not> go_on" "q_entries (b_queue b') = q_entries (b_queue b)" "b_results b' = b_results b"
  | (hung) e es where "\<not> go_on" "q_entries (b_queue b) = e # es" "q_entries (b_queue b') = es"
      "b_results b' = b_results b"
proof (cases "try_dequeue (b_queue b)")
  case None
  with assms kept show ?thesis by (simp add: drain_round_def)
next
  case (Some eq)
  then obtain e q where d: "try_dequeue (b_queue b) = Some (e, q)" by (cases eq) simp
  then have q: "q_entries (b_queue b) = e # q_entries q" by (rule wait_line.take_SomeD)
  let ?f = "\<lambda>err b'. if err = PoolExhausted
      then (Waiting (qe_ticket e), b'\<lparr>b_queue := push_front e (b_queue b')\<rparr>)
      else (Failed (AllocFailed err), send_result (qe_ticket e) (Inl (AllocFailed err)) b')"
  obtain r b1 where w: "with_allocation env (qe_request e)
      (allocate (be_pool env) (rq_profile (qe_request e)) (b_pool b)) ?f (b\<lparr>b_queue := q\<rparr>) = (r, b1)"
    by fastforce
  have res: "(go_on, b') = (case r of Created s \<Rightarrow> (True, send_result (qe_ticket e) (Inr s) b1) | _ \<Rightarrow> (False, b1))"
    using assms d w by (simp add: drain_round_def)
  from with_allocation_keeps [OF w] consider
      (refused) err b2 where "r = fst (?f err b2)" "b1 = snd (?f err b2)" "b_queue b2 = q" "b_results b2 = b_results b"
    | (finished) "b_queue b1 = q" "b_results b1 = b_results b" "r = Hanging \<or> (\<exists>s. r = Created s)" by auto
  then show ?thesis
  proof cases
    case refused
    then show ?thesis
      using res q kept served by (cases "err = PoolExhausted") (auto simp: push_front_def send_result_def)
  next
    case finished
    then show ?thesis using res q served hung by (auto simp: send_result_def)
  qed
qed

text \<open>Serving the queue answers the requests at its front, in their order, one result each, and
  stops at the first that cannot be served, which stays in front; only if the allocation never returns
  is the request it was for lost.\<close>

theorem drain_serves_in_order:
  "\<exists>front rest results. q_entries (b_queue b) = front @ rest \<and>
     b_results (try_drain_queue env b) = b_results b @ results \<and>
     map fst results = map qe_ticket front \<and>
     q_entries (b_queue (try_drain_queue env b)) \<in> {rest, tl rest}"
proof -
  have "\<exists>front rest results. q_entries (b_queue b) = front @ rest \<and>
     b_results (drain_rounds n env b) = b_results b @ results \<and>
     map fst results = map qe_ticket front \<and>
     q_entries (b_queue (drain_rounds n env b)) \<in> {rest, tl rest}" for n
  proof (induction n arbitrary: b)
    case 0
    show ?case by (intro exI [of _ "[]"] exI [of _ "q_entries (b_queue b)"]) auto
  next
    case (Suc n)
    obtain go_on b1 where d: "drain_round env b = (go_on, b1)" by fastforce
    from d show ?case
    proof (cases rule: drain_round_cases)
      case (served e es r)
      show ?thesis
      proof (cases go_on)
        case True
        from Suc [of b1] obtain front rest results where IH: "es = front @ rest"
          "b_results (drain_rounds n env b1) = b_results b1 @ results" "map fst results = map qe_ticket front"
          "q_entries (b_queue (drain_rounds n env b1)) \<in> {rest, tl rest}" using served by auto
        with served d True show ?thesis
          by (intro exI [of _ "e # front"] exI [of _ rest] exI [of _ "(qe_ticket e, r) # results"]) auto
      next
        case False
        with served d show ?thesis
          by (intro exI [of _ "[e]"] exI [of _ es] exI [of _ "[(qe_ticket e, r)]"]) auto
      qed
    next
      case kept
      with d show ?thesis
        by (intro exI [of _ "[]"] exI [of _ "q_entries (b_queue b)"]) auto
    next
      case (hung e es)
      with d show ?thesis
        by (intro exI [of _ "[]"] exI [of _ "q_entries (b_queue b)"]) auto
    qed
  qed
  then show ?thesis by (simp add: try_drain_queue_def)
qed

end
