(* ===== verification/Farm.thy ===== *)
theory Farm
  imports BrokerProps
begin

text \<open>
  The broker and the pool together: what the goroutines of \<^verbatim>\<open>session/broker.go\<close> and \<^verbatim>\<open>pool/pool.go\<close> do to
  the sessions and the devices at the same time. The abstract specification is a table of leases, from
  session ids to the instances they hold, in which a device is granted only while nobody holds it; the
  broker's sessions refine it, for every interleaving of its operations with the pool's own activity.
\<close>

subsection \<open>What the pool does on its own\<close>

definition stays :: "device_state \<Rightarrow> device_state \<Rightarrow> bool" where
  "stays s t \<longleftrightarrow> lifecycle s t \<and> (s = StateAllocated \<longrightarrow> t = StateAllocated)"

lemma stays_refl [simp]: "stays s s"
  by (simp add: stays_def lifecycle.stay)

lemma pstep_stays_trans: "pstep stays u p q \<Longrightarrow> pstep stays u q r \<Longrightarrow> pstep stays u p r"
  by (erule (1) pstep_trans) (auto simp: stays_def intro: lifecycle_trans)

lemma pstep_mono: "pstep R u p q \<Longrightarrow> (\<And>s t. R s t \<Longrightarrow> R' s t) \<Longrightarrow> pstep R' u p q"
  unfolding pstep_def by blast

lemma pstep_eq_stays: "pstep (=) u p q \<Longrightarrow> pstep stays u p q"
  by (erule pstep_mono) simp

text \<open>\<open>moves_to t p q\<close>: every instance of \<open>q\<close> is one of \<open>p\<close>, in the same state or moved to \<open>t\<close>.\<close>

definition moves_to :: "device_state \<Rightarrow> pool \<Rightarrow> pool \<Rightarrow> bool" where
  "moves_to t p q \<longleftrightarrow> (\<forall>k i'. get_instance k q = Some i' \<longrightarrow> (\<exists>i. get_instance k p = Some i \<and>
     (inst_state i' = inst_state i \<or> inst_state i' = t \<and> can_transition_to (inst_state i) t)))"

lemma pstep_moves_stays:
  assumes "pstep at_most_once u p q" and "moves_to t p q" and "t = StateWarm \<or> t = StateAllocated"
  shows "pstep stays u p q"
proof -
  have "\<exists>i. get_instance k p = Some i \<and> stays (inst_state i) (inst_state i')"
    if "get_instance k q = Some i'" for k i'
    using that assms(2,3) unfolding moves_to_def
    by (fastforce simp: stays_def intro: lifecycle.stay lifecycle_step)
  with assms(1) show ?thesis by (auto simp: pstep_def)
qed

lemma moves_to_boot_finish: "moves_to StateWarm p (snd (boot_finish env i p))"
  unfolding moves_to_def
proof (intro allI impI)
  fix k i' assume q: "get_instance k (snd (boot_finish env i p)) = Some i'"
  show "\<exists>j. get_instance k p = Some j \<and>
      (inst_state i' = inst_state j \<or> inst_state i' = StateWarm \<and> can_transition_to (inst_state j) StateWarm)"
    using q by (auto simp: boot_finish_def with_io_def Let_def remove_instance_def get_remove get_on_inst
        notify_ready_def transition_to_def simp del: device_prepare.simps
        split: option.splits prod.splits sum.splits if_splits)
qed

lemma moves_to_reset_finish: "moves_to StateWarm p (reset_finish env k p)"
  unfolding moves_to_def
proof (intro allI impI)
  fix k' i' assume q: "get_instance k' (reset_finish env k p) = Some i'"
  show "\<exists>j. get_instance k' p = Some j \<and>
      (inst_state i' = inst_state j \<or> inst_state i' = StateWarm \<and> can_transition_to (inst_state j) StateWarm)"
    using q by (auto simp: reset_finish_def with_io_def Let_def remove_instance_def get_remove get_on_inst
        notify_ready_def transition_to_def simp del: device_reset.simps
        split: option.splits prod.splits sum.splits if_splits)
qed

lemma moves_to_alloc_commit: "moves_to StateAllocated p (snd (alloc_commit avd (r, p)))"
  unfolding moves_to_def
  by (auto simp: alloc_commit_def Let_def sem_receive_or_stuck_def transition_to_def get_on_inst
      split: sum.splits option.splits if_splits)

lemma stays_boot_begin: "pstep stays (env_uuid env) p (snd (boot_begin env avd prof p))"
proof (cases "boot_begin env avd prof p")
  case (Pair r q)
  show ?thesis
  proof (cases r)
    case (Inl e)
    with boot_begin_Inl [OF Pair [unfolded Inl]] Pair show ?thesis by (simp add: pstep_eq_stays)
  next
    case (Inr i)
    note b = boot_begin_Inr [OF Pair [unfolded Inr]]
    have p: "pstep at_most_once (env_uuid env) p q" using pstep_boot_begin [of env p avd prof] Pair by simp
    have "next_id env p \<in> drawn (env_uuid env) p q"
      using Pair Inr by (auto simp: drawn_def next_id_def boot_begin_def create_instance_def Let_def
          split: option.splits bool.splits sum.splits)
    moreover have "lifecycle StateCreating StateBooting" by (rule lifecycle_step) simp
    ultimately show ?thesis using p b(1,3) Pair by (auto simp: pstep_def)
  qed
qed

lemma stays_boot_emulator: "pstep stays (env_uuid env) p (snd (boot_emulator env avd prof p))"
proof (cases "boot_begin env avd prof p")
  case (Pair r q)
  with stays_boot_begin [of env p avd prof] have b: "pstep stays (env_uuid env) p q" by simp
  show ?thesis
  proof (cases r)
    case (Inr i)
    have "pstep stays (env_uuid env) q (snd (boot_finish env i q))"
      using boot_finish_step boot_begin_boots [OF Pair [unfolded Inr]] moves_to_boot_finish
      by (blast intro: pstep_moves_stays)
    with b show ?thesis using Pair Inr by (simp add: boot_emulator_def pstep_stays_trans)
  qed (use b Pair in \<open>simp add: boot_emulator_def\<close>)
qed

lemma stays_boot_commit:
  "pstep stays (env_uuid env) p (snd (alloc_commit avd (boot_emulator env avd prof p)))"
  using pstep_stays_trans [OF stays_boot_emulator
      pstep_moves_stays [OF pstep_alloc_commit moves_to_alloc_commit]]
  by (metis prod.collapse)


subsection \<open>Instance ids\<close>

definition ids :: "(nat \<Rightarrow> string) \<Rightarrow> pool \<Rightarrow> string set" where
  "ids u p = (\<lambda>n. take 8 (u n)) ` {..<p_uuids p}"

definition ids_ok :: "(nat \<Rightarrow> string) \<Rightarrow> pool \<Rightarrow> bool" where
  "ids_ok u p \<longleftrightarrow> (\<forall>k i. get_instance k p = Some i \<longrightarrow> k \<in> ids u p)"

text \<open>The eight characters the pool keeps of a uuid have not repeated so far.\<close>

definition fresh_ids :: "(nat \<Rightarrow> string) \<Rightarrow> pool \<Rightarrow> bool" where
  "fresh_ids u p \<longleftrightarrow> inj_on (\<lambda>n. take 8 (u n)) {..<p_uuids p}"

lemma fresh_ids_mono: "p_uuids p \<le> p_uuids q \<Longrightarrow> fresh_ids u q \<Longrightarrow> fresh_ids u p"
  unfolding fresh_ids_def by (erule inj_on_subset) auto

lemma drawn_new:
  assumes "fresh_ids u q" and "k \<in> drawn u p q"
  shows "k \<notin> ids u p"
proof
  assume "k \<in> ids u p"
  then obtain m where m: "m < p_uuids p" "k = take 8 (u m)" by (auto simp: ids_def)
  from assms(2) obtain n where n: "p_uuids p \<le> n" "n < p_uuids q" "k = take 8 (u n)" by (auto simp: drawn_def)
  from m n have "m = n" using inj_onD [OF assms(1) [unfolded fresh_ids_def], of m n] by simp
  with m n show False by simp
qed

lemma next_id_new:
  "fresh_ids (env_uuid env) q \<Longrightarrow> p_uuids p < p_uuids q \<Longrightarrow> next_id env p \<notin> ids (env_uuid env) p"
  by (rule drawn_new) (auto simp: drawn_def next_id_def)

lemma ids_mono: "pstep R u p q \<Longrightarrow> ids u p \<subseteq> ids u q"
  unfolding pstep_def ids_def by (intro image_mono) auto

lemma ids_ok_pstep: "pstep R u p q \<Longrightarrow> ids_ok u p \<Longrightarrow> ids_ok u q"
proof -
  assume p: "pstep R u p q" and ok: "ids_ok u p"
  have "drawn u p q \<subseteq> ids u q" by (auto simp: drawn_def ids_def)
  with p ok ids_mono [OF p] show "ids_ok u q" unfolding ids_ok_def pstep_def by blast
qed

lemma pstep_old:
  assumes "pstep R u p q" and "fresh_ids u q" and "k \<in> ids u p" and "get_instance k q = Some i'"
  shows "\<exists>i. get_instance k p = Some i \<and> R (inst_state i) (inst_state i')"
  using assms drawn_new [OF assms(2), of k p] unfolding pstep_def by blast

text \<open>The stretches of the pool's own goroutines: adoption, boots asked for by name, the end of a reset,
  the watchers, the maintenance pass, manual shutdown and reservations; not the allocations and releases
  the broker asks for.\<close>

inductive background :: "(nat \<Rightarrow> string) \<Rightarrow> pool \<Rightarrow> pool \<Rightarrow> bool" for u where
  shuffle: "mset m = mset (p_instances p) \<Longrightarrow> background u p (p\<lparr>p_instances := m\<rparr>)"
| start_boot: "env_uuid env = u \<Longrightarrow> background u p (snd (boot_begin env avd prof p))"
| end_boot: "env_uuid env = u \<Longrightarrow> boots_emulator i \<Longrightarrow> background u p (snd (boot_finish env i p))"
| touch: "background u p (on_inst k (touch_activity now) p)"
| reset: "env_uuid env = u \<Longrightarrow> background u p (reset_finish env k p)"
| watch: "env_uuid env = u \<Longrightarrow> background u p (watch_tick env k p)"
| adopt: "env_uuid env = u \<Longrightarrow> background u p (pool_start env p)"
| maintain: "env_uuid env = u \<Longrightarrow> background u p (run_maintenance env p)"
| shut: "env_uuid env = u \<Longrightarrow> background u p (snd (shutdown_instance env k p))"
| stop: "env_uuid env = u \<Longrightarrow> background u p (pool_stop env p)"
| label: "background u p (snd (reserve_instance k l p))"
| unlabel: "background u p (snd (unreserve_instance k p))"
| labels: "background u p (apply_reservations rs p)"

lemma background_stays:
  assumes "background u p q" and "pool_ok p"
  shows "pstep stays u p q"
proof -
  have d: "distinct (map fst (p_instances p))" using assms(2) by (simp add: pool_ok_def)
  from assms show ?thesis
  proof (cases rule: background.cases)
    case (shuffle m)
    with pstep_shuffle [OF d, of m] show ?thesis by (simp add: pstep_eq_stays)
  next
    case (end_boot env i)
    have "pstep at_most_once u p q"
      unfolding end_boot(1) using end_boot(3) by (intro boot_finish_step) (simp add: boots_emulator_def)
    with moves_to_boot_finish end_boot(1) show ?thesis by (blast intro: pstep_moves_stays)
  next
    case (touch k now)
    then show ?thesis by (simp add: pstep_eq_stays pstep_method)
  next
    case (reset env k)
    with pstep_reset_finish moves_to_reset_finish show ?thesis by (blast intro: pstep_moves_stays)
  next
    case (adopt env)
    then show ?thesis using pstep_adopt_running by (auto simp: pool_start_def intro: pstep_eq_stays)
  next
    case (maintain env)
    then show ?thesis using pstep_run_maintenance [OF assms(2)] by (auto intro: pstep_eq_stays)
  next
    case (stop env)
    then show ?thesis using pstep_pool_stop [OF assms(2)] by (auto intro: pstep_eq_stays)
  next
    case (shut env k)
    then show ?thesis using pstep_shutdown [OF assms(2)] by (auto intro: pstep_eq_stays)
  qed (auto intro: stays_boot_begin pstep_eq_stays pstep_watch_tick pstep_reservations pstep_apply_reservations)
qed

subsection \<open>What allocations and releases do\<close>

lemma stays_alloc_warm:
  assumes "alloc_warm prof incl p = Some (k, q)" and "distinct (map fst (p_instances p))"
  shows "pstep stays u p q"
proof -
  from assms obtain i where "get_instance k p = Some i" "eligible incl i"
    "get_instance k q = Some (i\<lparr>inst_state := StateAllocated\<rparr>)"
    "\<And>k'. k' \<noteq> k \<Longrightarrow> get_instance k' q = get_instance k' p"
    by (rule alloc_warm_Some) blast
  then have "\<exists>j. get_instance k' p = Some j \<and> (inst_state i' = inst_state j \<or>
      inst_state i' = StateAllocated \<and> can_transition_to (inst_state j) StateAllocated)"
    if "get_instance k' q = Some i'" for k' i'
    using that by (cases "k' = k") (auto simp: eligible_def)
  then have "moves_to StateAllocated p q" by (simp add: moves_to_def)
  with pstep_alloc_warm [OF assms(1)] show ?thesis by (blast intro: pstep_moves_stays)
qed

lemma stays_allocate_any:
  assumes "distinct (map fst (p_instances p))"
  shows "pstep stays (env_uuid env) p (snd (allocate_any env prof incl p))"
proof (cases "alloc_warm prof incl p")
  case (Some kq)
  then show ?thesis using stays_alloc_warm [OF _ assms] by (cases kq) (simp add: allocate_any_def)
next
  case None
  obtain r p1 where a: "alloc_reserve env p = (r, p1)" by fastforce
  have s: "pstep stays (env_uuid env) p p1"
    using pstep_eq_stays [OF pstep_alloc_reserve [of "env_uuid env" p env]] a by simp
  show ?thesis
    using s pstep_stays_trans [OF s stays_boot_commit] by (cases r) (simp_all add: allocate_any_def None a)
qed


lemma moves_to_move:
  assumes "get_instance k p = Some i" and "transition_to t i = Inr j"
  shows "moves_to t p (on_inst k (\<lambda>_. j) p)"
  using assms by (auto simp: moves_to_def get_on_inst transition_to_Inr split: if_splits)

lemma stays_move:
  assumes "get_instance k p = Some i" and "transition_to StateAllocated i = Inr j"
  shows "pstep stays u p (on_inst k (\<lambda>_. j) p)"
  by (rule pstep_moves_stays [OF pstep_move [OF assms] moves_to_move [OF assms]]) simp

lemma find_get:
  assumes "List.find P (p_instances p) = Some (k, i)" and "distinct (map fst (p_instances p))"
  shows "get_instance k p = Some i" "P (k, i)"
  using assms find_SomeD [OF assms(1)] by (simp_all add: get_instance_def)

lemma stays_allocate_instance:
  "distinct (map fst (p_instances p)) \<Longrightarrow> pstep stays u p (snd (allocate_instance k m p))"
  by (auto simp: allocate_instance_def pstep_eq_stays split: option.split sum.split
      intro!: stays_move dest: find_get(1))

lemma stays_allocate_avd:
  assumes "distinct (map fst (p_instances p))"
  shows "pstep stays (env_uuid env) p (snd (allocate_avd env avd m p))"
proof (cases "List.find (\<lambda>(k, i). map_option device_display_name (inst_device i) = Some avd) (p_instances p)")
  case (Some ki)
  then obtain k i where f: "List.find (\<lambda>(k, i). map_option device_display_name (inst_device i) = Some avd)
      (p_instances p) = Some (k, i)" by (cases ki) auto
  from find_get(1) [OF f assms] f show ?thesis
    by (auto simp: allocate_avd_def pstep_eq_stays intro: stays_move split: sum.split)
next
  case None
  show ?thesis
  proof (cases "sem_try_acquire p")
    case (Some p1)
    have "pstep stays (env_uuid env) p (p1\<lparr>p_booting := List.insert avd (p_booting p1)\<rparr>)"
      by (rule pstep_eq_stays [OF pstep_eq_trans [OF pstep_sem_acquire [OF Some] pstep_booting]])
    from pstep_stays_trans [OF this stays_boot_commit] show ?thesis
      using None by (simp add: allocate_avd_def Some)
  qed (use None in \<open>simp add: allocate_avd_def pstep_eq_stays\<close>)
qed

lemma stays_allocate_with:
  assumes "distinct (map fst (p_instances p))"
  shows "pstep stays (env_uuid env) p (snd (allocate_with env opts p))"
  using assms by (simp add: allocate_with_def Let_def allocate_def stays_allocate_any
      stays_allocate_instance stays_allocate_avd)

text \<open>A granted instance was warm, or is new.\<close>

lemma boot_commit_draws:
  assumes "alloc_commit avd (boot_emulator env avd prof p) = (Got k, q)"
  shows "p_uuids p < p_uuids q"
proof (cases "boot_begin env avd prof p")
  case (Pair r p1)
  show ?thesis
  proof (cases r)
    case (Inl e)
    with Pair assms show ?thesis
      by (auto simp: boot_emulator_def alloc_commit_def sem_receive_or_stuck_def Let_def split: if_splits)
  next
    case (Inr i)
    have 1: "p_uuids p1 = p_uuids p + 1"
      using Pair Inr by (auto simp: boot_begin_def create_instance_def Let_def
          split: option.splits bool.splits sum.splits)
    have "p_uuids p1 \<le> p_uuids (snd (boot_finish env i p1))"
      using pstepD(2) [OF boot_finish_step [OF boot_begin_boots [OF Pair [unfolded Inr]]]] .
    also have "\<dots> \<le> p_uuids q"
      using pstepD(2) [OF pstep_alloc_commit, of "snd (boot_finish env i p1)" avd "fst (boot_finish env i p1)"]
        assms Pair Inr by (simp add: boot_emulator_def)
    finally show ?thesis using 1 by simp
  qed
qed

definition newly_granted :: "(nat \<Rightarrow> string) \<Rightarrow> string \<Rightarrow> pool \<Rightarrow> bool" where
  "newly_granted u k p \<longleftrightarrow> (\<exists>i. get_instance k p = Some i \<and> inst_state i = StateWarm) \<or> k \<notin> ids u p"

lemma allocate_any_new:
  assumes "allocate_any env prof incl p = (Got k, q)" and "distinct (map fst (p_instances p))"
    and "fresh_ids (env_uuid env) q"
  shows "newly_granted (env_uuid env) k p"
proof (cases "alloc_warm prof incl p")
  case (Some kq)
  with assms(1) have "alloc_warm prof incl p = Some (k, q)" by (cases kq) (simp add: allocate_any_def)
  then obtain i where "get_instance k p = Some i" "eligible incl i"
    using assms(2) by (rule alloc_warm_Some) blast
  then show ?thesis by (auto simp: newly_granted_def eligible_def)
next
  case None
  obtain r p1 where a: "alloc_reserve env p = (r, p1)" by fastforce
  from a have "p_uuids p < p_uuids q"
    by (cases rule: alloc_reserve_cases)
      (use a None assms(1) in \<open>auto simp: allocate_any_def dest!: boot_commit_draws\<close>)
  moreover from None assms(1) have "k = next_id env p" by (cases rule: allocate_any_cold) auto
  ultimately show ?thesis using next_id_new [OF assms(3)] by (simp add: newly_granted_def)
qed

lemma allocate_avd_new:
  assumes "allocate_avd env avd m p = (Got k, q)" and "distinct (map fst (p_instances p))"
    and "fresh_ids (env_uuid env) q"
  shows "newly_granted (env_uuid env) k p"
proof (cases "List.find (\<lambda>(k, i). map_option device_display_name (inst_device i) = Some avd) (p_instances p)")
  case (Some ki)
  then obtain k' i where f: "List.find (\<lambda>(k, i). map_option device_display_name (inst_device i) = Some avd)
      (p_instances p) = Some (k', i)" by (cases ki) auto
  with assms(1) have "k' = k" "inst_state i = StateWarm"
    by (auto simp: allocate_avd_def split: if_splits sum.splits)
  with find_get(1) [OF f assms(2)] show ?thesis by (auto simp: newly_granted_def)
next
  case None
  with assms(1) obtain p1 where p1: "sem_try_acquire p = Some p1"
    by (auto simp: allocate_avd_def split: option.splits)
  let ?p2 = "p1\<lparr>p_booting := List.insert avd (p_booting p1)\<rparr>"
  have c: "alloc_commit avd (boot_emulator env avd (guess_profile_for (p_cfg p1) avd) ?p2) = (Got k, q)"
    using None assms(1) p1 by (simp add: allocate_avd_def)
  have s: "p_sem ?p2 = Suc (p_sem p)" "next_id env ?p2 = next_id env p" "p_uuids ?p2 = p_uuids p"
    using p1 by (auto simp: sem_try_acquire_def next_id_def split: if_splits)
  from c s(1) have "k = next_id env ?p2" by (cases rule: boot_and_commit) auto
  with s(2,3) boot_commit_draws [OF c] next_id_new [OF assms(3), of p] show ?thesis
    by (simp add: newly_granted_def)
qed

lemma allocate_with_new:
  assumes "allocate_with env opts p = (Got k, q)" and "pool_ok p" and "fresh_ids (env_uuid env) q"
  shows "newly_granted (env_uuid env) k p"
proof -
  have d: "distinct (map fst (p_instances p))" using assms(2) by (simp add: pool_ok_def)
  have "newly_granted (env_uuid env) k p" if "allocate_instance iid m p = (Got k, q)" for iid m
    using allocate_instance_Got [OF that assms(2)] by (auto simp: newly_granted_def)
  with assms(1,3) d show ?thesis
    by (auto simp: allocate_with_def Let_def allocate_def split: if_splits
        intro: allocate_any_new allocate_avd_new)
qed

lemma get_pool_release:
  assumes "k' \<noteq> k"
  shows "get_instance k' (snd (pool_release env k p)) = get_instance k' p"
  using assms
  by (auto simp: pool_release_def with_io_def Let_def remove_instance_def get_remove get_on_inst
      split: option.split prod.split sum.split)


subsection \<open>The specification: a table of leases\<close>

type_synonym lease_table = "string \<rightharpoonup> string"

inductive lease_step :: "lease_table \<Rightarrow> lease_table \<Rightarrow> bool" where
  grant: "k \<notin> ran L \<Longrightarrow> lease_step L (L(sid \<mapsto> k))"
| revoke: "lease_step L (L(sid := None))"

lemma lease_step_inj: "lease_step L L' \<Longrightarrow> inj_on L (dom L) \<Longrightarrow> inj_on L' (dom L')"
proof (induction rule: lease_step.induct)
  case (grant k L sid)
  have "x = y" if "L x = L y" "L x = Some v" for x y v
    using inj_onD [OF grant(2) that(1)] that by (metis domI)
  with grant(1) show ?case by (auto simp: inj_on_def ran_def)
qed (auto simp: inj_on_def)

lemma lease_steps_inj: "lease_step\<^sup>*\<^sup>* L L' \<Longrightarrow> inj_on L (dom L) \<Longrightarrow> inj_on L' (dom L')"
  by (induction rule: rtranclp_induct) (auto intro: lease_step_inj)

text \<open>The abstraction: which active session holds which instance.\<close>

definition leases :: "broker \<Rightarrow> lease_table" where
  "leases b sid = (case get_session sid b of None \<Rightarrow> None
     | Some s \<Rightarrow> if session_is_active s then Some (sess_instance s) else None)"

lemma leases_Some: "leases b sid = Some k \<longleftrightarrow>
    (\<exists>s. get_session sid b = Some s \<and> session_is_active s \<and> sess_instance s = k)"
  by (auto simp: leases_def split: option.split)

text \<open>A session is well formed: it is under its own id, its instance was one of the pool's, and it is
  active exactly as long as it has no end.\<close>

definition session_ok :: "(nat \<Rightarrow> string) \<Rightarrow> pool \<Rightarrow> string \<Rightarrow> session \<Rightarrow> bool" where
  "session_ok u p sid s \<longleftrightarrow> sess_id s = sid \<and> sess_instance s \<in> ids u p \<and>
     sess_state s \<in> {SessionActive, SessionReleased, SessionTimedOut, SessionInterrupted} \<and>
     (sess_released s = None \<longleftrightarrow> sess_state s = SessionActive)"

definition farm_ok :: "(nat \<Rightarrow> string) \<Rightarrow> broker \<Rightarrow> bool" where
  "farm_ok u b \<longleftrightarrow> pool_ok (b_pool b) \<and> ids_ok u (b_pool b) \<and> distinct (map fst (b_sessions b)) \<and>
     (\<forall>sid s. get_session sid b = Some s \<longrightarrow> session_ok u (b_pool b) sid s) \<and>
     (\<forall>sid k i. leases b sid = Some k \<longrightarrow> get_instance k (b_pool b) = Some i \<longrightarrow> inst_state i = StateAllocated) \<and>
     inj_on (leases b) (dom (leases b))"

definition simulates :: "(nat \<Rightarrow> string) \<Rightarrow> broker \<Rightarrow> broker \<Rightarrow> bool" where
  "simulates u b b' \<longleftrightarrow>
     (pool_ok (b_pool b) \<longrightarrow> pool_ok (b_pool b') \<and> p_uuids (b_pool b) \<le> p_uuids (b_pool b')) \<and>
     (farm_ok u b \<longrightarrow> fresh_ids u (b_pool b') \<longrightarrow>
      farm_ok u b' \<and> lease_step\<^sup>*\<^sup>* (leases b) (leases b'))"

lemma farm_pool: "farm_ok u b \<Longrightarrow> pool_ok (b_pool b)"
  by (simp add: farm_ok_def)

lemma simulates_trans: "simulates u b b' \<Longrightarrow> simulates u b' b'' \<Longrightarrow> simulates u b b''"
  unfolding simulates_def by (meson farm_pool fresh_ids_mono le_trans rtranclp_trans)

lemma get_session_cong: "b_sessions b' = b_sessions b \<Longrightarrow> get_session sid b' = get_session sid b"
  by (simp add: get_session_def)

lemma leases_cong: "b_sessions b' = b_sessions b \<Longrightarrow> leases b' = leases b"
  by (simp add: leases_def fun_eq_iff get_session_def)

lemma session_ok_mono: "ids u p \<subseteq> ids u q \<Longrightarrow> session_ok u p sid s \<Longrightarrow> session_ok u q sid s"
  by (auto simp: session_ok_def)

lemma farm_ok_lease_id: "farm_ok u b \<Longrightarrow> leases b sid = Some k \<Longrightarrow> k \<in> ids u (b_pool b)"
  by (auto simp: farm_ok_def leases_Some session_ok_def)

text \<open>The pool moves, the sessions stay.\<close>

lemma simulates_pool:
  assumes "b_sessions b' = b_sessions b" and "pstep stays u (b_pool b) (b_pool b')"
  shows "simulates u b b'"
proof -
  note same = leases_cong [OF assms(1)] get_session_cong [OF assms(1)]
  note m = ids_mono [OF assms(2)]
  have "farm_ok u b'" if ok: "farm_ok u b" and fresh: "fresh_ids u (b_pool b')"
  proof -
    have "inst_state i = StateAllocated" if l: "leases b sid = Some k" and i: "get_instance k (b_pool b') = Some i"
      for sid k i
    proof -
      from pstep_old [OF assms(2) fresh farm_ok_lease_id [OF ok l] i] obtain j where
        "get_instance k (b_pool b) = Some j" "stays (inst_state j) (inst_state i)" by blast
      with ok l show ?thesis by (auto simp: farm_ok_def stays_def)
    qed
    with ok show ?thesis
      using ids_ok_pstep [OF assms(2)] pstepD(1) [OF assms(2)] session_ok_mono [OF m]
      unfolding farm_ok_def same assms(1) by blast
  qed
  then show ?thesis using pstepD(1,2) [OF assms(2)] by (simp add: simulates_def same)
qed

text \<open>A session ends; its instance may move.\<close>

lemma simulates_end:
  assumes "get_session sid b = Some s" and "session_is_active s"
    and "st \<in> {SessionReleased, SessionTimedOut, SessionInterrupted}"
    and "\<And>sid'. get_session sid' b' = (if sid' = sid then Some (end_session st now s) else get_session sid' b)"
    and "map fst (b_sessions b') = map fst (b_sessions b)"
    and "pstep R u (b_pool b) (b_pool b')"
    and "\<And>k. k \<noteq> sess_instance s \<Longrightarrow> get_instance k (b_pool b') = get_instance k (b_pool b)"
  shows "simulates u b b'"
proof -
  have ended: "\<not> session_is_active (end_session st now s)"
    using assms(3) by (auto simp: session_is_active_def)
  have l: "leases b' = (leases b)(sid := None)"
    using ended by (auto simp: leases_def assms(4))
  have "farm_ok u b'" if ok: "farm_ok u b"
  proof -
    have "session_ok u (b_pool b') sid' t" if "get_session sid' b' = Some t" for sid' t
    proof (cases "sid' = sid")
      case True
      with that assms(4) have "t = end_session st now s" by simp
      moreover have "session_ok u (b_pool b) sid s" using ok assms(1) by (simp add: farm_ok_def)
      ultimately show ?thesis
        using True assms(3) ids_mono [OF assms(6)] by (auto simp: session_ok_def end_session_def)
    next
      case False
      with that assms(4) ok have "session_ok u (b_pool b) sid' t" by (auto simp: farm_ok_def)
      then show ?thesis by (rule session_ok_mono [OF ids_mono [OF assms(6)]])
    qed
    moreover have "inst_state i = StateAllocated"
      if k: "leases b' sid' = Some k" and i: "get_instance k (b_pool b') = Some i" for sid' k i
    proof -
      have k': "leases b sid' = Some k" "sid' \<noteq> sid" using k l by (auto split: if_splits)
      moreover have "leases b sid = Some (sess_instance s)" using assms(1,2) by (simp add: leases_def)
      ultimately have "k \<noteq> sess_instance s"
        using ok unfolding farm_ok_def by (metis domI inj_onD)
      with assms(7) i ok k'(1) show ?thesis by (auto simp: farm_ok_def)
    qed
    moreover have "inj_on (leases b') (dom (leases b'))"
      using ok l lease_step_inj [OF lease_step.revoke] by (simp add: farm_ok_def)
    ultimately show ?thesis
      using ok ids_ok_pstep [OF assms(6)] pstepD(1) [OF assms(6)] assms(5) by (simp add: farm_ok_def)
  qed
  moreover have "lease_step\<^sup>*\<^sup>* (leases b) (leases b')"
    unfolding l by (rule r_into_rtranclp) (rule lease_step.revoke)
  ultimately show ?thesis using pstepD(1,2) [OF assms(6)] by (simp add: simulates_def)
qed

text \<open>A session is made for an instance that was just granted.\<close>

lemma create_session_keys:
  "create_session_from_instance env i req b = (s, b') \<Longrightarrow> distinct (map fst (b_sessions b)) \<Longrightarrow>
   distinct (map fst (b_sessions b'))"
  by (auto simp: create_session_from_instance_def Let_def on_session_def distinct_update
      split: option.splits prod.splits)

lemma create_session_released:
  "create_session_from_instance env i req b = (s, b') \<Longrightarrow> sess_released s = None"
  by (auto simp: create_session_from_instance_def Let_def new_session_def split: option.splits prod.splits)

lemma simulates_grant:
  assumes "fresh_ids u q" and "pstep stays u (b_pool b) q" and "newly_granted u k (b_pool b)"
    and "get_instance k q = Some i" and "inst_state i = StateAllocated"
    and "create_session_from_instance env i req (b1\<lparr>b_pool := q\<rparr>) = (s, b')"
    and "b_sessions b1 = b_sessions b"
  shows "simulates u b b'"
proof -
  note c = create_session_result [OF assms(6)]
  have gs: "get_session sid b' = (if sid = sess_id s then Some s else get_session sid b)" for sid
    using c(1) get_session_cong [OF assms(7)] by simp
  have act: "session_is_active s" using c(3) by (simp add: session_is_active_def)
  have "farm_ok u b' \<and> lease_step\<^sup>*\<^sup>* (leases b) (leases b')" if ok: "farm_ok u b"
  proof -
    from ok
    have okq: "pool_ok q" "ids_ok u q"
      using pstepD(1) [OF assms(2)] ids_ok_pstep [OF assms(2)] by (auto simp: farm_ok_def)
    then have k: "inst_id i = k" "k \<in> ids u q" using assms(4) by (auto simp: pool_ok_def ids_ok_def)
    have p: "pstep stays u (b_pool b) (b_pool b')"
      unfolding c(2) by (rule pstep_stays_trans [OF _ pstep_eq_stays [OF pstep_method]]) (use assms(2) in simp_all)
    have l: "leases b' = (leases b)(sess_id s \<mapsto> k)"
      using act c(4) k(1) by (auto simp: leases_def gs)
    have nk: "k \<notin> ran (leases b)"
    proof
      assume "k \<in> ran (leases b)"
      then obtain sid where sid: "leases b sid = Some k" by (auto simp: ran_def)
      with assms(3) farm_ok_lease_id [OF ok sid] obtain j where
        "get_instance k (b_pool b) = Some j" "inst_state j = StateWarm" by (auto simp: newly_granted_def)
      with ok sid show False by (auto simp: farm_ok_def)
    qed
    have step: "lease_step (leases b) (leases b')" unfolding l by (rule lease_step.grant [OF nk])
    have "session_ok u (b_pool b') sid t" if "get_session sid b' = Some t" for sid t
    proof (cases "sid = sess_id s")
      case True
      with that gs have "t = s" by simp
      then show ?thesis
        using True k c(3,4) create_session_released [OF assms(6)] ids_mono [OF p] ids_mono [OF assms(2)] c(2)
        by (auto simp: session_ok_def ids_def)
    next
      case False
      with that gs ok have "session_ok u (b_pool b) sid t" by (auto simp: farm_ok_def)
      then show ?thesis by (rule session_ok_mono [OF ids_mono [OF p]])
    qed
    moreover have "inst_state j = StateAllocated"
      if k': "leases b' sid = Some k'" and j: "get_instance k' (b_pool b') = Some j" for sid k' j
    proof (cases "k' = k")
      case True
      with j assms(4,5) k(1) show ?thesis by (auto simp: c(2) get_on_inst)
    next
      case False
      with k' l have lk: "leases b sid = Some k'" by (auto split: if_splits)
      have "fresh_ids u (b_pool b')" using assms(1) by (simp add: c(2) fresh_ids_def)
      from pstep_old [OF p this farm_ok_lease_id [OF ok lk] j] ok lk show ?thesis
        by (auto simp: farm_ok_def stays_def)
    qed
    moreover have "inj_on (leases b') (dom (leases b'))"
      using ok lease_step_inj [OF step] by (simp add: farm_ok_def)
    moreover have "distinct (map fst (b_sessions b'))"
      using create_session_keys [OF assms(6)] ok assms(7) by (simp add: farm_ok_def)
    ultimately have "farm_ok u b'"
      using ok pstepD(1) [OF p] ids_ok_pstep [OF p] by (simp add: farm_ok_def)
    with step show ?thesis by blast
  qed
  moreover have "pstep stays u q (b_pool b')" unfolding c(2) by (simp add: pstep_eq_stays pstep_method)
  from pstep_stays_trans [OF assms(2) this] have
    "pool_ok (b_pool b) \<Longrightarrow> pool_ok (b_pool b')" "p_uuids (b_pool b) \<le> p_uuids (b_pool b')"
    by (simp_all add: pstepD)
  ultimately show ?thesis by (simp add: simulates_def)
qed


subsection \<open>Every operation refines the specification\<close>

lemma simulatesI:
  assumes "pool_ok (b_pool b) \<Longrightarrow> pstep R u (b_pool b) (b_pool b')"
    and "farm_ok u b \<Longrightarrow> fresh_ids u (b_pool b') \<Longrightarrow> simulates u b b'"
  shows "simulates u b b'"
  using assms pstepD(1,2) [OF assms(1)] by (auto simp: simulates_def farm_pool)

lemma pool_keys: "pool_ok p \<Longrightarrow> distinct (map fst (p_instances p))"
  by (simp add: pool_ok_def)

text \<open>Only the sessions and the pool matter.\<close>

lemma simulates_same:
  assumes "b_sessions b' = b_sessions b" and "b_pool b' = b_pool b"
  shows "simulates u b b'"
  using assms
  by (simp add: simulates_def farm_ok_def leases_cong [OF assms(1)] get_session_cong [OF assms(1)])

lemma simulates_allocation:
  assumes "fresh_ids u q" and "b_sessions b1 = b_sessions b" and "rp = (r, q)"
    and "pstep stays u (b_pool b) q" and "\<And>k. r = Got k \<Longrightarrow> newly_granted u k (b_pool b)"
    and "got_device m rp (b_pool b)"
    and "\<And>e c. b_sessions (snd (f e c)) = b_sessions c \<and> b_pool (snd (f e c)) = b_pool c"
  shows "simulates u b (snd (with_allocation env req rp f b1))"
proof -
  have pool: "simulates u b b'" if "b_sessions b' = b_sessions b" "b_pool b' = q" for b'
    using simulates_pool [OF that(1)] assms(4) that(2) by simp
  show ?thesis
  proof (cases r)
    case (Got k)
    then obtain i where i: "get_instance k q = Some i" "inst_state i = StateAllocated"
      using assms(3,6) by (auto simp: got_device_def)
    obtain s b2 where c: "create_session_from_instance env i req (b1\<lparr>b_pool := q\<rparr>) = (s, b2)" by fastforce
    have "snd (with_allocation env req rp f b1) = b2"
      by (simp add: with_allocation_def assms(3) Got i(1) c)
    then show ?thesis
      using simulates_grant [OF assms(1,4) assms(5) [OF Got] i c assms(2)] by simp
  next
    case (Refused e)
    show ?thesis by (rule pool) (simp_all add: with_allocation_def assms(2,3,7) Refused)
  next
    case Stuck
    show ?thesis by (rule pool) (simp_all add: with_allocation_def assms(2,3) Stuck)
  qed
qed

lemma enqueue_same:
  "b_sessions (snd (enqueue_request env req b)) = b_sessions b \<and> b_pool (snd (enqueue_request env req b)) = b_pool b"
  by (auto simp: enqueue_request_def split: prod.split sum.split)

text \<open>An allocation the queue or a client asks for by profile.\<close>

lemma with_allocation_pool:
  assumes "\<And>e c. b_sessions (snd (f e c)) = b_sessions c \<and> b_pool (snd (f e c)) = b_pool c"
  shows "pstep (=) u (snd rp) (b_pool (snd (with_allocation env req rp f b1)))"
proof -
  have "pstep (=) u (b_pool c) (b_pool b')" if "create_session_from_instance env i req c = (s, b')" for i c s b'
    using create_session_result(2) [OF that] by (simp add: pstep_method)
  from this [of _ "b1\<lparr>b_pool := snd rp\<rparr>"] show ?thesis
    by (cases rp) (auto simp: with_allocation_def Let_def assms split: prod.split alloc_result.split option.split)
qed

lemma simulates_allocate_any:
  assumes "b_sessions b1 = b_sessions b"
    and "\<And>e c. b_sessions (snd (f e c)) = b_sessions c \<and> b_pool (snd (f e c)) = b_pool c"
  shows "simulates (env_uuid (be_pool env)) b
    (snd (with_allocation env req (allocate_any (be_pool env) prof incl (b_pool b)) f b1))"
proof (rule simulatesI)
  let ?rp = "allocate_any (be_pool env) prof incl (b_pool b)"
  show "pstep stays (env_uuid (be_pool env)) (b_pool b) (b_pool (snd (with_allocation env req ?rp f b1)))"
    if "pool_ok (b_pool b)"
    by (rule pstep_stays_trans [OF stays_allocate_any [OF pool_keys [OF that]]
          pstep_eq_stays [OF with_allocation_pool [OF assms(2)]]])
  assume "farm_ok (env_uuid (be_pool env)) b"
    and fr: "fresh_ids (env_uuid (be_pool env)) (b_pool (snd (with_allocation env req ?rp f b1)))"
  then have ok: "pool_ok (b_pool b)" "distinct (map fst (p_instances (b_pool b)))" using farm_pool pool_keys by auto
  obtain r q where rp: "allocate_any (be_pool env) prof incl (b_pool b) = (r, q)" by fastforce
  have fq: "fresh_ids (env_uuid (be_pool env)) q"
    using fresh_ids_mono [OF _ fr] pstepD(2) [OF with_allocation_pool [OF assms(2)], of ?rp] by (simp add: rp)
  show "simulates (env_uuid (be_pool env)) b
      (snd (with_allocation env req (allocate_any (be_pool env) prof incl (b_pool b)) f b1))"
  proof (rule simulates_allocation [OF fq assms(1) rp _ _ allocate_any_got [OF ok(1)] assms(2)])
    show "pstep stays (env_uuid (be_pool env)) (b_pool b) q"
      using stays_allocate_any [OF ok(2), of "be_pool env" prof incl] by (simp add: rp)
    show "newly_granted (env_uuid (be_pool env)) k (b_pool b)" if "r = Got k" for k
      using rp [unfolded that] ok(2) fq by (rule allocate_any_new)
  qed
qed

lemma simulates_allocate_with:
  assumes "\<And>e c. b_sessions (snd (f e c)) = b_sessions c \<and> b_pool (snd (f e c)) = b_pool c"
  shows "simulates (env_uuid (be_pool env)) b
    (snd (with_allocation env req (allocate_with (be_pool env) opts (b_pool b)) f b))"
proof (rule simulatesI)
  let ?rp = "allocate_with (be_pool env) opts (b_pool b)"
  show "pstep stays (env_uuid (be_pool env)) (b_pool b) (b_pool (snd (with_allocation env req ?rp f b)))"
    if "pool_ok (b_pool b)"
    by (rule pstep_stays_trans [OF stays_allocate_with [OF pool_keys [OF that]]
          pstep_eq_stays [OF with_allocation_pool [OF assms(1)]]])
  assume "farm_ok (env_uuid (be_pool env)) b"
    and fr: "fresh_ids (env_uuid (be_pool env)) (b_pool (snd (with_allocation env req ?rp f b)))"
  then have ok: "pool_ok (b_pool b)" "distinct (map fst (p_instances (b_pool b)))" using farm_pool pool_keys by auto
  obtain r q where rp: "allocate_with (be_pool env) opts (b_pool b) = (r, q)" by fastforce
  have fq: "fresh_ids (env_uuid (be_pool env)) q"
    using fresh_ids_mono [OF _ fr] pstepD(2) [OF with_allocation_pool [OF assms(1)], of ?rp] by (simp add: rp)
  show "simulates (env_uuid (be_pool env)) b
      (snd (with_allocation env req (allocate_with (be_pool env) opts (b_pool b)) f b))"
  proof (rule simulates_allocation [OF fq refl rp _ _ allocate_with_got [OF ok(1)] assms(1)])
    show "pstep stays (env_uuid (be_pool env)) (b_pool b) q"
      using stays_allocate_with [OF ok(2), of "be_pool env" opts] by (simp add: rp)
    show "newly_granted (env_uuid (be_pool env)) k (b_pool b)" if "r = Got k" for k
      using rp [unfolded that] ok(1) fq by (rule allocate_with_new)
  qed
qed

lemma simulates_create: "simulates (env_uuid (be_pool env)) b (snd (broker_create env req b))"
  unfolding broker_create_def Let_def allocate_for_manual_def allocate_def
  using simulates_same [of b b]
  by (auto intro!: simulates_allocate_with simulates_allocate_any simp: enqueue_same)

lemma session_keys_on [simp]: "map fst (b_sessions (on_session sid f b)) = map fst (b_sessions b)"
  by (simp add: on_session_def)

lemma simulates_release: "simulates (env_uuid (be_pool env)) b (snd (broker_release env sid b))"
proof (cases "get_session sid b")
  case (Some s)
  show ?thesis
  proof (cases "session_is_active s")
    case True
    obtain err q where r: "pool_release (be_pool env) (sess_instance s) (b_pool b) = (err, q)" by fastforce
    show ?thesis
    proof (rule simulates_end [OF Some True, of SessionReleased _ "be_now env"])
      show "pstep at_most_once (env_uuid (be_pool env)) (b_pool b) (b_pool (snd (broker_release env sid b)))"
        using pstep_pool_release [of _ "b_pool b" "be_pool env" "sess_instance s"]
        by (simp add: broker_release_def Some True Let_def r)
      show "get_instance k (b_pool (snd (broker_release env sid b))) = get_instance k (b_pool b)"
        if "k \<noteq> sess_instance s" for k
        using get_pool_release [OF that, of "be_pool env" "b_pool b"]
        by (simp add: broker_release_def Some True Let_def r)
    qed (simp_all add: broker_release_def Some True Let_def r get_on_session)
  qed (simp add: broker_release_def Some simulates_same)
qed (simp add: broker_release_def simulates_same)

lemma simulates_evicted: "simulates u b (snd (x, handle_evicted env iid sid reason b))"
proof (cases "get_session sid b")
  case (Some s)
  show ?thesis
  proof (cases "session_is_active s")
    case True
    show ?thesis
      by (rule simulates_end [OF Some True, of SessionInterrupted _ "be_now env" "(=)"])
        (simp_all add: handle_evicted_def Some True Let_def get_on_session)
  qed (simp add: handle_evicted_def Some simulates_same)
qed (simp add: handle_evicted_def simulates_same)

lemma simulates_timeout:
  assumes "get_session sid b = Some s" and "session_is_active s"
  shows "simulates (env_uuid (be_pool env)) b (timeout_session env sid b)"
proof -
  obtain err q where r: "pool_release (be_pool env) (sess_instance s) (b_pool b) = (err, q)" by fastforce
  show ?thesis
  proof (rule simulates_end [OF assms, of SessionTimedOut _ "be_now env"])
    show "pstep at_most_once (env_uuid (be_pool env)) (b_pool b) (b_pool (timeout_session env sid b))"
      using pstep_pool_release [of _ "b_pool b" "be_pool env" "sess_instance s"]
      by (simp add: timeout_session_def get_on_session assms(1) Let_def r)
    show "get_instance k (b_pool (timeout_session env sid b)) = get_instance k (b_pool b)"
      if "k \<noteq> sess_instance s" for k
      using get_pool_release [OF that, of "be_pool env" "b_pool b"]
      by (simp add: timeout_session_def get_on_session assms(1) Let_def r)
  qed (simp_all add: timeout_session_def get_on_session assms(1) Let_def r)
qed

lemma simulates_timeouts:
  assumes "\<And>sid. sid \<in> set sids \<Longrightarrow> \<exists>s. get_session sid b = Some s \<and> session_is_active s" and "distinct sids"
  shows "simulates (env_uuid (be_pool env)) b (fold (timeout_session env) sids b)"
  using assms
proof (induction sids arbitrary: b)
  case (Cons sid sids)
  then obtain s where s: "get_session sid b = Some s" "session_is_active s" by auto
  have "simulates (env_uuid (be_pool env)) (timeout_session env sid b)
      (fold (timeout_session env) sids (timeout_session env sid b))"
  proof (rule Cons.IH)
    fix sid' assume "sid' \<in> set sids"
    with Cons.prems show "\<exists>s. get_session sid' (timeout_session env sid b) = Some s \<and> session_is_active s"
      using timeout_session_result [of env sid b] by fastforce
  qed (use Cons.prems in simp)
  with simulates_timeout [OF s] show ?case unfolding fold_Cons comp_apply by (rule simulates_trans)
qed (simp add: simulates_same)

lemma timeout_pool: "pstep lifecycle (env_uuid (be_pool env)) (b_pool b) (b_pool (timeout_session env sid b))"
proof -
  have "pstep lifecycle u p (snd (pool_release (be_pool env) k p))" for u k p
    by (rule pstep_mono [OF pstep_pool_release]) (rule at_most_once_lifecycle)
  then show ?thesis
    using pstep_mono [OF pstep_refl, of lifecycle] lifecycle.stay
    by (auto simp: timeout_session_def Let_def split: option.split prod.split) (metis snd_conv)+
qed

lemma simulates_enforce: "simulates (env_uuid (be_pool env)) b (enforce_timeouts env b)"
proof (rule simulatesI)
  have "pstep lifecycle (env_uuid (be_pool env)) (b_pool c) (b_pool (fold (timeout_session env) sids c))" for sids c
  proof (induction sids arbitrary: c)
    case Nil
    show ?case using pstep_mono [OF pstep_refl, of lifecycle] lifecycle.stay by simp
  next
    case (Cons sid sids)
    from pstep_trans [OF timeout_pool Cons.IH, of lifecycle] lifecycle_trans show ?case by simp
  qed
  then show "pstep lifecycle (env_uuid (be_pool env)) (b_pool b) (b_pool (enforce_timeouts env b))"
    by (simp add: enforce_timeouts_def)
  assume "farm_ok (env_uuid (be_pool env)) b"
  then have d: "distinct (map fst (b_sessions b))" by (simp add: farm_ok_def)
  show "simulates (env_uuid (be_pool env)) b (enforce_timeouts env b)"
    unfolding enforce_timeouts_def
  proof (rule simulates_timeouts)
    show "distinct (expired_sessions (be_now env) b)"
      using d by (simp add: expired_sessions_def distinct_map_filter)
    show "\<exists>s. get_session sid b = Some s \<and> session_is_active s" if "sid \<in> set (expired_sessions (be_now env) b)" for sid
      using that d by (auto simp: expired_sessions_def get_session_def session_is_active_def)
  qed
qed

lemma simulates_drain_queue: "simulates (env_uuid (be_pool env)) b (snd (drain_queue env b))"
proof (cases "try_dequeue (b_queue b)")
  case (Some eq)
  then obtain e q where eq: "try_dequeue (b_queue b) = Some (e, q)" by (cases eq) simp
  let ?f = "\<lambda>err b'. (Failed (AllocFailed err), b'\<lparr>b_queue := push_front e (b_queue b')\<rparr>)"
  obtain r b1 where w: "with_allocation env (qe_request e)
      (allocate_any (be_pool env) (rq_profile (qe_request e)) False (b_pool b)) ?f (b\<lparr>b_queue := q\<rparr>) = (r, b1)"
    by fastforce
  have "simulates (env_uuid (be_pool env)) b b1"
    using simulates_allocate_any [where ?b1.0 = "b\<lparr>b_queue := q\<rparr>" and b = b and f = ?f and
        req = "qe_request e" and prof = "rq_profile (qe_request e)" and incl = False and env = env] by (simp add: w)
  moreover have "simulates (env_uuid (be_pool env)) b1 (snd (drain_queue env b))"
    by (rule simulates_same)
      (simp_all add: drain_queue_def eq allocate_def w send_result_def split: create_result.split)
  ultimately show ?thesis by (rule simulates_trans)
qed (simp add: drain_queue_def simulates_same)

lemma simulates_drain_round: "simulates (env_uuid (be_pool env)) b (snd (drain_round env b))"
proof (cases "try_dequeue (b_queue b)")
  case (Some eq)
  then obtain e q where eq: "try_dequeue (b_queue b) = Some (e, q)" by (cases eq) simp
  let ?f = "\<lambda>err b'. if err = PoolExhausted
                    then (Waiting (qe_ticket e), b'\<lparr>b_queue := push_front e (b_queue b')\<rparr>)
                    else (Failed (AllocFailed err), send_result (qe_ticket e) (Inl (AllocFailed err)) b')"
  obtain r b1 where w: "with_allocation env (qe_request e)
      (allocate_any (be_pool env) (rq_profile (qe_request e)) False (b_pool b)) ?f (b\<lparr>b_queue := q\<rparr>) = (r, b1)"
    by fastforce
  have "simulates (env_uuid (be_pool env)) b b1"
    using simulates_allocate_any [where ?b1.0 = "b\<lparr>b_queue := q\<rparr>" and b = b and f = ?f and
        req = "qe_request e" and prof = "rq_profile (qe_request e)" and incl = False and env = env] by (simp add: w send_result_def)
  moreover have "simulates (env_uuid (be_pool env)) b1 (snd (drain_round env b))"
    by (rule simulates_same)
      (simp_all add: drain_round_def eq allocate_def w send_result_def split: create_result.split)
  ultimately show ?thesis by (rule simulates_trans)
qed (simp add: drain_round_def simulates_same)

lemma simulates_drain: "simulates (env_uuid (be_pool env)) b (try_drain_queue env b)"
proof -
  have "simulates (env_uuid (be_pool env)) b (drain_rounds n env b)" for n
  proof (induction n arbitrary: b)
    case (Suc n)
    show ?case
      using simulates_drain_round [of env b] simulates_trans Suc
      by (auto split: prod.split)
  qed (simp add: simulates_same)
  then show ?thesis by (simp add: try_drain_queue_def)
qed

end
