(* ===== verification/FarmProps.thy ===== *)
theory FarmProps
  imports Farm
begin

text \<open>
  Runs of the broker with its pool and the theorems about them: sessions are well formed, the leases
  refine their specification, no device serves two sessions, no device is left idle while a request
  waits, and the race in the timeout pass that breaks the second when its two halves are torn apart.
\<close>

subsection \<open>Runs\<close>

inductive farm_step :: "(nat \<Rightarrow> string) \<Rightarrow> broker \<Rightarrow> broker \<Rightarrow> bool" for u where
  create: "env_uuid (be_pool env) = u \<Longrightarrow> farm_step u b (snd (broker_create env req b))"
| release: "env_uuid (be_pool env) = u \<Longrightarrow> farm_step u b (snd (broker_release env sid b))"
| evicted: "farm_step u b (handle_evicted env iid sid reason b)"
| timeouts: "env_uuid (be_pool env) = u \<Longrightarrow> farm_step u b (enforce_timeouts env b)"
| drain: "env_uuid (be_pool env) = u \<Longrightarrow> farm_step u b (snd (drain_queue env b))"
| poll: "env_uuid (be_pool env) = u \<Longrightarrow> farm_step u b (try_drain_queue env b)"
| ready: "env_uuid (be_pool env) = u \<Longrightarrow> farm_step u b (ready_signal env b)"
| signal: "farm_step u b (on_ready b)"
| leave: "farm_step u b (give_up t b)"
| capture: "farm_step u b (set_capture_service b)"
| pool: "background u (b_pool b) q \<Longrightarrow> farm_step u b (b\<lparr>b_pool := q\<rparr>)"

inductive farm_run :: "(nat \<Rightarrow> string) \<Rightarrow> broker \<Rightarrow> bool" for u where
  fresh: "farm_run u (new_broker cfg (new_pool cfg) store host)"
| step: "farm_run u b \<Longrightarrow> farm_step u b b' \<Longrightarrow> farm_run u b'"

lemma farm_step_simulates: "farm_step u b b' \<Longrightarrow> simulates u b b'"
proof (induction rule: farm_step.induct)
  case (ready env b)
  have "simulates u (b\<lparr>b_ready := b_ready b - 1\<rparr>) (try_drain_queue env (b\<lparr>b_ready := b_ready b - 1\<rparr>))"
    using simulates_drain [of env] ready by simp
  moreover have "simulates u b (b\<lparr>b_ready := b_ready b - 1\<rparr>)" by (rule simulates_same) simp_all
  ultimately have "simulates u b (try_drain_queue env (b\<lparr>b_ready := b_ready b - 1\<rparr>))"
    by (rule simulates_trans [rotated])
  then show ?case by (simp add: ready_signal_def simulates_same)
next
  case (pool b q)
  show ?case
  proof (rule simulatesI [where R = stays])
    show "pstep stays u (b_pool b) (b_pool (b\<lparr>b_pool := q\<rparr>))" if "pool_ok (b_pool b)"
      using background_stays [OF pool that] by simp
    show "simulates u b (b\<lparr>b_pool := q\<rparr>)" if "farm_ok u b"
      by (rule simulates_pool) (use background_stays [OF pool farm_pool [OF that]] in simp_all)
  qed
next
  case (evicted b env iid sid reason)
  then show ?case using simulates_evicted [of u b undefined env] by simp
qed (auto intro: simulates_create simulates_release simulates_enforce simulates_drain_queue simulates_drain
    simulates_same simp: on_ready_def give_up_def set_capture_service_def)

lemma farm_ok_new: "farm_ok u (new_broker cfg (new_pool cfg) store host)"
proof -
  let ?b = "new_broker cfg (new_pool cfg) store host"
  have "get_session sid ?b = None" for sid by (simp add: new_broker_def get_session_def)
  moreover from this have "leases ?b sid = None" for sid by (simp add: leases_def)
  moreover have "get_instance k (b_pool ?b) = None" for k
    by (simp add: new_broker_def new_pool_def get_instance_def)
  ultimately show ?thesis by (simp add: farm_ok_def ids_ok_def dom_def) (simp add: new_broker_def pool_ok_new)
qed

lemma farm_run_pool: "farm_run u b \<Longrightarrow> pool_ok (b_pool b)"
proof (induction rule: farm_run.induct)
  case (step b b')
  then show ?case using farm_step_simulates [OF step(2)] by (simp add: simulates_def)
qed (simp add: new_broker_def pool_ok_new)

lemma farm_run_ok: "farm_run u b \<Longrightarrow> fresh_ids u (b_pool b) \<Longrightarrow> farm_ok u b"
proof (induction rule: farm_run.induct)
  case (step b b')
  note s = farm_step_simulates [OF step(2)]
  have "fresh_ids u (b_pool b)"
    using fresh_ids_mono [OF _ step(4)] s farm_run_pool [OF step(1)] by (simp add: simulates_def)
  with step s show ?case by (simp add: simulates_def)
qed (simp add: farm_ok_new)

subsection \<open>A concrete run\<close>

lemma fresh_ids_itoa: "p_uuids p \<le> 10 \<Longrightarrow> fresh_ids itoa_nat p"
proof -
  have "take 8 (itoa_nat n) = itoa_nat n" if "n < 10" for n
    using that by (simp add: itoa_nat.simps)
  then show "p_uuids p \<le> 10 \<Longrightarrow> fresh_ids itoa_nat p"
    by (auto simp: fresh_ids_def intro!: inj_onI)
qed

lemma uuids_boot_finish: "p_uuids (snd (boot_finish env i p)) = p_uuids p"
  by (auto simp: boot_finish_def with_io_def Let_def remove_instance_def notify_ready_def
      simp del: device_prepare.simps split: option.splits prod.splits sum.splits)

lemma uuids_boot_emulator: "p_uuids (snd (boot_emulator env avd prof p)) \<le> p_uuids p + 1"
proof (cases "boot_begin env avd prof p")
  case (Pair r p1)
  then have "p_uuids p1 \<le> p_uuids p + 1"
    by (auto simp: boot_begin_def create_instance_def Let_def remove_instance_def
        split: option.splits bool.splits sum.splits)
  with Pair show ?thesis
    using uuids_boot_finish [of env _ p1] by (cases r) (simp_all add: boot_emulator_def)
qed

lemma uuids_allocate_any: "p_uuids (snd (allocate_any env prof incl p)) \<le> p_uuids p + 1"
proof (cases "alloc_warm prof incl p")
  case (Some kq)
  then show ?thesis by (auto simp: allocate_any_def alloc_warm_def split: option.splits)
next
  case None
  obtain r p1 where a: "alloc_reserve env p = (r, p1)" by fastforce
  then have u: "p_uuids p1 = p_uuids p" by (cases rule: alloc_reserve_cases) auto
  have "p_uuids (snd (alloc_commit avd rq)) = p_uuids (snd rq)" for avd rq
    by (cases rq) (simp add: alloc_commit_def sem_receive_or_stuck_def Let_def split: sum.split option.split)
  with uuids_boot_emulator [of env _ _ p1] u show ?thesis
    by (cases r) (simp_all add: allocate_any_def None a)
qed

lemma small_farm:
  obtains s b' where
    "farm_step itoa_nat (new_broker small_config (new_pool small_config) True ''127.0.0.1'') b'"
    "farm_run itoa_nat b'" "fresh_ids itoa_nat (b_pool b')" "get_session (sess_id s) b' = Some s"
    "session_is_active s" "leases b' (sess_id s) = Some ''0''"
proof -
  let ?b = "new_broker small_config (new_pool small_config) True ''127.0.0.1''"
  obtain q where a: "allocate_any small_env ''px'' False (new_pool small_config) = (Got ''0'', q)"
    using small_allocation by (metis prod.collapse)
  have g: "got_device False (Got ''0'', q) (new_pool small_config)"
    using allocate_any_got [OF pool_ok_new [of small_config], of False small_env "''px''"] a by simp
  then obtain i where i: "get_instance ''0'' q = Some i" by (auto simp: got_device_def)
  obtain s b' where c: "create_session_from_instance small_benv i sample_request (?b\<lparr>b_pool := q\<rparr>) = (s, b')"
    by fastforce
  note r = create_session_result [OF c]
  have "broker_create small_benv sample_request ?b = (Created s, b')"
    using a i c by (simp add: broker_create_def sample_request_def Let_def allocate_def manual_caller_def
        small_benv_def new_broker_def with_allocation_def)
  then have st: "farm_step itoa_nat ?b b'"
    using farm_step.create [of small_benv itoa_nat ?b sample_request]
    by (simp add: small_benv_def small_env_def)
  have s: "get_session (sess_id s) b' = Some s" "session_is_active s" "sess_instance s = ''0''"
    using r(1) r(3) got_device_session(1) [OF g refl i c] by (simp_all add: session_is_active_def)
  have "p_uuids (b_pool b') = p_uuids (snd (allocate_any small_env ''px'' False (new_pool small_config)))"
    by (simp add: r(2) a)
  then have "p_uuids (b_pool b') \<le> 10"
    using uuids_allocate_any [of small_env "''px''" False "new_pool small_config"] by (simp add: new_pool_def)
  then have "fresh_ids itoa_nat (b_pool b')" by (rule fresh_ids_itoa)
  moreover have "farm_run itoa_nat b'" by (rule farm_run.step [OF farm_run.fresh st])
  ultimately show ?thesis using that st s by (simp add: leases_def)
qed


subsection \<open>The theorems\<close>



text \<open>C11: the sessions of a reachable broker are well formed: each is stored once, under its own id, in
  one of the states active, released, timed out and interrupted, it has an end exactly when it is not
  active, and its instance id is one the pool has drawn.\<close>

theorem sessions_well_formed:
  assumes "farm_run u b" and "fresh_ids u (b_pool b)"
  shows "distinct (map fst (b_sessions b)) \<and>
    (\<forall>(sid, s) \<in> set (b_sessions b). sess_id s = sid \<and>
       sess_state s \<in> {SessionActive, SessionReleased, SessionTimedOut, SessionInterrupted} \<and>
       (sess_released s = None \<longleftrightarrow> session_is_active s) \<and> sess_instance s \<in> ids u (b_pool b))"
proof -
  have ok: "farm_ok u b" by (rule farm_run_ok [OF assms])
  then have d: "distinct (map fst (b_sessions b))" by (simp add: farm_ok_def)
  have so: "session_ok u (b_pool b) sid s" if "(sid, s) \<in> set (b_sessions b)" for sid s
    using ok that d by (simp add: farm_ok_def get_session_def)
  then have "sess_id s = sid \<and>
       sess_state s \<in> {SessionActive, SessionReleased, SessionTimedOut, SessionInterrupted} \<and>
       (sess_released s = None \<longleftrightarrow> session_is_active s) \<and> sess_instance s \<in> ids u (b_pool b)"
    if "(sid, s) \<in> set (b_sessions b)" for sid s
    using so [OF that] by (auto simp: session_ok_def session_is_active_def)
  with d show ?thesis by blast
qed

theorem sessions_well_formed_witness:
  "\<exists>(b :: broker) sid s. (sid, s) \<in> set (b_sessions b) \<and> sess_id s = sid \<and> sess_released s = None"
proof -
  obtain s b' where f: "farm_step itoa_nat (new_broker small_config (new_pool small_config) True ''127.0.0.1'') b'"
    "farm_run itoa_nat b'" "fresh_ids itoa_nat (b_pool b')" "get_session (sess_id s) b' = Some s"
    "session_is_active s" "leases b' (sess_id s) = Some ''0''"
    by (rule small_farm)
  from f(4) have m: "(sess_id s, s) \<in> set (b_sessions b')" by (simp add: get_session_def map_of_SomeD)
  have "sess_released s = None"
    using bspec [OF conjunct2 [OF sessions_well_formed [OF f(2,3)]] m] f(5) by simp
  with m show ?thesis by blast
qed

subsection \<open>No device is idle while a request waits\<close>

lemma commit_refused_keeps:
  assumes "alloc_commit avd (boot_emulator env avd prof p) = (r, q)" and "\<And>k. r \<noteq> Got k"
    and "get_instance k q = Some i"
  shows "get_instance k p = Some i"
proof -
  obtain r1 q1 where b: "boot_emulator env avd prof p = (r1, q1)" by fastforce
  have g: "get_instance k q = get_instance k q1" if "r1 = Inl e" for e
    using assms(1) b that by (auto simp: alloc_commit_def sem_receive_cases Let_def split: if_splits)
  from b show ?thesis
  proof (cases rule: boot_emulator_cases)
    case (absent err)
    with g assms(3) show ?thesis by simp
  next
    case (boot_failed err)
    with g assms(3) show ?thesis by (auto split: if_splits)
  next
    case (boot_warm j e)
    then have "transition_to StateAllocated j = Inr (j\<lparr>inst_state := StateAllocated\<rparr>)"
      by (simp add: transition_to_def)
    with assms(1,2) b boot_warm show ?thesis by (auto simp: alloc_commit_def Let_def)
  qed
qed

lemma allocate_any_refused:
  assumes "allocate_any env prof incl p = (r, q)" and "\<And>k. r \<noteq> Got k" and "distinct (map fst (p_instances p))"
  shows "\<not> some_eligible incl q"
proof -
  have n: "alloc_warm prof incl p = None"
    using assms(1,2) by (auto simp: allocate_any_def split: option.splits)
  obtain r1 p1 where a: "alloc_reserve env p = (r1, p1)" by fastforce
  then have g1: "get_instance k p1 = get_instance k p" for k by (cases rule: alloc_reserve_cases) auto
  have "get_instance k p = Some i" if q: "get_instance k q = Some i" for k i
  proof (cases r1)
    case (Inl x)
    with assms(1) n a g1 q show ?thesis by (simp add: allocate_any_def)
  next
    case (Inr avd)
    with assms(1) n a have "alloc_commit avd (boot_emulator env avd (guess_profile_for (p_cfg p1) avd) p1) = (r, q)"
      by (simp add: allocate_any_def)
    from commit_refused_keeps [OF this assms(2) q] g1 show ?thesis by simp
  qed
  with alloc_warm_None [OF n assms(3)] show ?thesis unfolding some_eligible_def by blast
qed

text \<open>What one round does, by the answer of the allocation.\<close>

lemma drain_round_step:
  assumes "drain_round env b = (go_on, b')" and "q_entries (b_queue b) = e # es" and "pool_ok (b_pool b)"
  shows "(\<exists>s. go_on \<and> q_entries (b_queue b') = es \<and> b_results b' = b_results b @ [(qe_ticket e, Inr s)] \<and>
       pool_ok (b_pool b')) \<or>
    \<not> go_on \<and> \<not> some_eligible False (b_pool b) \<and> \<not> some_eligible False (b_pool b')"
proof -
  obtain r q where a: "allocate_any (be_pool env) (rq_profile (qe_request e)) False (b_pool b) = (r, q)" by fastforce
  have d: "distinct (map fst (p_instances (b_pool b)))" using assms(3) by (rule pool_keys)
  have t: "try_dequeue (b_queue b) = Some (e, (b_queue b)\<lparr>q_entries := es\<rparr>)"
    by (simp add: try_dequeue_def assms(2))
  show ?thesis
  proof (cases "\<exists>k. r = Got k")
    case True
    then obtain k where k: "r = Got k" by blast
    with allocate_any_got [OF assms(3), of False "be_pool env" "rq_profile (qe_request e)"] a obtain i where
      i: "get_instance k q = Some i" and q: "pool_ok q" by (auto simp: got_device_def)
    obtain s b2 where c: "create_session_from_instance env i (qe_request e)
        (b\<lparr>b_queue := (b_queue b)\<lparr>q_entries := es\<rparr>, b_pool := q\<rparr>) = (s, b2)" by fastforce
    note cr = create_session_result [OF c]
    have "pool_ok (b_pool b2)" unfolding cr(2)
      using pstepD(1) [OF pstep_method, of "set_session (sess_id s) (be_now env)" q] q by simp
    moreover have "drain_round env b = (True, send_result (qe_ticket e) (Inr s) b2)"
      by (simp add: drain_round_def t allocate_def a k with_allocation_def i c)
    ultimately show ?thesis using assms(1) cr(7,8) by (auto simp: send_result_def)
  next
    case False
    then have nq: "\<not> some_eligible False q" using allocate_any_refused [OF a _ d] by blast
    have "alloc_warm (rq_profile (qe_request e)) False (b_pool b) = None"
      using a False by (auto simp: allocate_any_def split: option.splits)
    then have np: "\<not> some_eligible False (b_pool b)" by (rule alloc_warm_None [OF _ d])
    have "\<not> go_on \<and> b_pool b' = q"
      using assms(1) False
      by (auto simp: drain_round_def t allocate_def a with_allocation_def send_result_def Let_def
          split: alloc_result.splits if_splits)
    with np nq show ?thesis by blast
  qed
qed

lemma drain_rounds_complete:
  assumes "pool_ok (b_pool b)" and "length (q_entries (b_queue b)) \<le> n"
  shows "q_entries (b_queue (drain_rounds n env b)) = [] \<or> \<not> some_eligible False (b_pool (drain_rounds n env b))"
  using assms
proof (induction n arbitrary: b)
  case (Suc n)
  show ?case
  proof (cases "q_entries (b_queue b)")
    case Nil
    then show ?thesis by (simp add: drain_round_def try_dequeue_def)
  next
    case (Cons e es)
    obtain go_on b1 where r: "drain_round env b = (go_on, b1)" by fastforce
    from drain_round_step [OF r Cons Suc.prems(1)] Suc.IH [of b1] Suc.prems(2) Cons r show ?thesis by auto
  qed
qed simp

lemma drain_rounds_results: "\<exists>rs. b_results (drain_rounds n env b) = b_results b @ rs"
proof (induction n arbitrary: b)
  case (Suc n)
  obtain go_on b1 where r: "drain_round env b = (go_on, b1)" by fastforce
  have "\<exists>rs. b_results b1 = b_results b @ rs" using r by (cases rule: drain_round_cases) auto
  with Suc [of b1] r show ?case by auto
qed simp

text \<open>C4: waiting requests make progress. Every time the broker serves its queue, the service ends with
  nobody waiting or with no unreserved warm device left, so no such device idles beside a waiting request;
  and when one is warm to begin with, the client at the front gets a session, first of all results.\<close>

theorem no_device_idles_beside_the_queue:
  assumes "farm_run u b"
  shows "(queue_depth (b_queue (try_drain_queue env b)) = 0 \<or>
       \<not> some_eligible False (b_pool (try_drain_queue env b))) \<and>
    (q_entries (b_queue b) = e # es \<longrightarrow> some_eligible False (b_pool b) \<longrightarrow>
       (\<exists>s later. b_results (try_drain_queue env b) = b_results b @ (qe_ticket e, Inr s) # later))"
proof -
  have ok: "pool_ok (b_pool b)" by (rule farm_run_pool [OF assms])
  have "\<exists>s later. b_results (try_drain_queue env b) = b_results b @ (qe_ticket e, Inr s) # later"
    if q: "q_entries (b_queue b) = e # es" "some_eligible False (b_pool b)"
  proof -
    obtain go_on b1 where r: "drain_round env b = (go_on, b1)" by fastforce
    from drain_round_step [OF r q(1) ok] q(2) obtain s where
      s: "go_on" "b_results b1 = b_results b @ [(qe_ticket e, Inr s)]" by blast
    have "try_drain_queue env b = drain_rounds (length es) env b1"
      using q(1) r s(1) by (simp add: try_drain_queue_def queue_depth_def)
    with drain_rounds_results [of "length es" env b1] s(2) show ?thesis by auto
  qed
  with drain_rounds_complete [OF ok le_refl] show ?thesis
    by (simp add: try_drain_queue_def queue_depth_def)
qed

text \<open>A farm without room for emulators: a request waits, then a device that \<^verbatim>\<open>adb\<close> lists is adopted.\<close>

definition usb_client :: adb_client where
  "usb_client = quiet_client\<lparr>run_oracle := (\<lambda>h cmd. Some (''List'' @ [nl] @ ''e device''))\<rparr>"

definition usb_env :: pool_env where
  "usb_env = small_env\<lparr>env_client := usb_client\<rparr>"

definition roomless_config :: config where
  "roomless_config = small_config\<lparr>cfg_pool := (cfg_pool small_config)\<lparr>max_concurrent := 0\<rparr>\<rparr>"

lemma usb_client_lists: "fst (run_state (adb_devices usb_client) h) = Some [(''e'', ''device'')]"
  by (simp add: adb_devices_def usb_client_def parse_devices_def trim_space_def nl_def is_space_def map_filter_def)

lemma roomless_farm:
  obtains b e i where "farm_run itoa_nat b" "q_entries (b_queue b) = [e]" "qe_ticket e = 0"
    "get_instance ''0'' (b_pool b) = Some i" "eligible False i"
proof -
  let ?b = "new_broker roomless_config (new_pool roomless_config) True ''127.0.0.1''"
  let ?b1 = "snd (broker_create small_benv sample_request ?b)"
  have a: "allocate_any small_env ''px'' False (new_pool roomless_config) = (Refused PoolExhausted, new_pool roomless_config)"
    by (simp add: allocate_any_def alloc_warm_def alloc_reserve_def sem_try_acquire_def new_pool_def roomless_config_def)
  have b1: "b_pool ?b1 = new_pool roomless_config" "\<exists>e. q_entries (b_queue ?b1) = [e] \<and> qe_ticket e = 0"
    using a by (simp_all add: broker_create_def sample_request_def Let_def allocate_def manual_caller_def small_benv_def
        new_broker_def with_allocation_def enqueue_request_def enqueue_begin_def new_queue_def roomless_config_def
        small_config_def)
  let ?q = "pool_start usb_env (b_pool ?b1)"
  obtain h where h: "run_state (adb_devices usb_client) [] = (Some [(''e'', ''device'')], h)"
    using usb_client_lists [of "[]"] by (metis prod.collapse)
  let ?p = "(new_pool roomless_config)\<lparr>p_hist := h\<rparr>"
  have q: "?q = adopt_running_one usb_env (''e'', ''device'') ?p"
  proof -
    have "p_hist (new_pool roomless_config) = []" by (simp add: new_pool_def)
    with h have "with_io (adb_devices (env_client usb_env)) (new_pool roomless_config) = (Some [(''e'', ''device'')], ?p)"
      by (simp add: with_io_def usb_env_def)
    then show ?thesis by (simp add: pool_start_def adopt_running_emulators_def b1(1))
  qed
  have n: "next_id usb_env ?p = ''0''" "\<not> tracked_serial ''e'' ?p"
    by (simp_all add: next_id_def usb_env_def small_env_def new_pool_def itoa_nat.simps tracked_serial_def)
  obtain i where i: "get_instance ''0'' ?q = Some i" "eligible False i"
    using adopt_running_one_result [OF n(2), of usb_env] unfolding n(1) q by (auto simp: eligible_def)
  have "farm_run itoa_nat ?b1"
    by (rule farm_run.step [OF farm_run.fresh farm_step.create]) (simp add: small_benv_def small_env_def)
  moreover have "background itoa_nat (b_pool ?b1) ?q"
    by (rule background.adopt) (simp add: usb_env_def small_env_def)
  ultimately have r: "farm_run itoa_nat (?b1\<lparr>b_pool := ?q\<rparr>)"
    by (rule farm_run.step [OF _ farm_step.pool])
  from b1(2) obtain e where "q_entries (b_queue (?b1\<lparr>b_pool := ?q\<rparr>)) = [e]" "qe_ticket e = 0" by auto
  with r i that [of "?b1\<lparr>b_pool := ?q\<rparr>"] show ?thesis by simp
qed

theorem no_device_idles_beside_the_queue_witness:
  "\<exists>b s later. farm_run itoa_nat b \<and> queue_depth (b_queue b) = 1 \<and>
     b_results (try_drain_queue small_benv b) = b_results b @ (0, Inr s) # later"
proof -
  obtain b e i where b: "farm_run itoa_nat b" "q_entries (b_queue b) = [e]" "qe_ticket e = 0"
    "get_instance ''0'' (b_pool b) = Some i" "eligible False i" by (rule roomless_farm)
  from b(4,5) have "some_eligible False (b_pool b)" by (auto simp: some_eligible_def)
  with no_device_idles_beside_the_queue [OF b(1), of small_benv e "[]"] b(2,3) obtain s later where
    "b_results (try_drain_queue small_benv b) = b_results b @ (0, Inr s) # later" by auto
  moreover have "queue_depth (b_queue b) = 1" by (simp add: queue_depth_def b(2))
  ultimately show ?thesis using b(1) by blast
qed

subsection \<open>The timeout pass torn apart\<close>

text \<open>C10: \<^verbatim>\<open>enforceTimeouts\<close> lists the expired sessions first and ends them later, one by one, without
  looking again. If in between the client releases an expired session and its device goes to another
  client, the late turn of the first session marks it timed out again and takes the device from the
  second: it is reset (its apps uninstalled) and untagged while that session stays active.\<close>

theorem late_timeout_takes_device:
  assumes "get_session sid b = Some s" and "get_session sid2 b = Some s2" and "sid \<noteq> sid2"
    and "session_is_active s2" and "sess_instance s2 = sess_instance s"
    and "get_instance (sess_instance s) (b_pool b) = Some i" and "inst_state i = StateAllocated"
    and "inst_device i = Some d"
    and "device_visible (device_serial d) (fst (run_state (adb_devices (env_client (be_pool env))) (p_hist (b_pool b))))"
  shows "\<exists>s' i'. get_session sid (timeout_session env sid b) = Some s' \<and> sess_state s' = SessionTimedOut \<and>
    get_session sid2 (timeout_session env sid b) = Some s2 \<and>
    leases (timeout_session env sid b) sid2 = Some (sess_instance s) \<and>
    get_instance (sess_instance s) (b_pool (timeout_session env sid b)) = Some i' \<and>
    inst_state i' = StateResetting \<and> session_id i' = []"
proof -
  note t = timeout_session_result [of env sid b]
  have 1: "get_session sid (timeout_session env sid b) = Some (end_session SessionTimedOut (be_now env) s)"
    "get_session sid2 (timeout_session env sid b) = Some s2" using t assms(1-3) by auto
  obtain devs h where r: "run_state (adb_devices (env_client (be_pool env))) (p_hist (b_pool b)) = (devs, h)"
    by fastforce
  have "pool_release (be_pool env) (sess_instance s) (b_pool b) =
      (None, on_inst (sess_instance s) (\<lambda>_. clear_session (i\<lparr>inst_state := StateResetting\<rparr>)) (b_pool b\<lparr>p_hist := h\<rparr>))"
    using assms(6-9) r by (simp add: pool_release_def with_io_def transition_to_def)
  then have "b_pool (timeout_session env sid b) =
      on_inst (sess_instance s) (\<lambda>_. clear_session (i\<lparr>inst_state := StateResetting\<rparr>)) (b_pool b\<lparr>p_hist := h\<rparr>)"
    by (simp add: timeout_session_def get_on_session assms(1) Let_def)
  with 1 assms(4-6) show ?thesis by (simp add: get_on_inst leases_def)
qed


theorem late_timeout_takes_device_witness:
  "\<exists>b s1 s2 i env. get_session ''s'' b = Some s1 \<and> sess_state s1 = SessionReleased \<and>
     get_session ''t'' b = Some s2 \<and> session_is_active s2 \<and> sess_instance s2 = ''a'' \<and>
     get_session ''t'' (timeout_session env ''s'' b) = Some s2 \<and>
     get_instance ''a'' (b_pool (timeout_session env ''s'' b)) = Some i \<and> inst_state i = StateResetting"
proof -
  let ?env = "small_benv\<lparr>be_pool := small_env\<lparr>env_client := usb_client\<rparr>\<rparr>"
  let ?s = "end_session SessionReleased 5 small_session"
  let ?t = "small_session\<lparr>sess_id := ''t''\<rparr>"
  let ?b = "small_broker\<lparr>b_sessions := [(''s'', ?s), (''t'', ?t)],
     b_pool := one_pool StateAllocated ''t'' (Running (new_running_device ''e''))\<rparr>"
  have 1: "get_session ''s'' ?b = Some ?s" "get_session ''t'' ?b = Some ?t" "session_is_active ?t"
    "sess_instance ?t = ''a''" "sess_instance ?s = ''a''"
    by (simp_all add: get_session_def small_session_def session_is_active_def)
  have v: "device_visible (device_serial (Running (new_running_device ''e'')))
      (fst (run_state (adb_devices (env_client (be_pool ?env))) (p_hist (b_pool ?b))))"
    by (simp add: usb_client_lists device_visible_def new_running_device_def)
  have "\<exists>s' i'. get_session ''s'' (timeout_session ?env ''s'' ?b) = Some s' \<and> sess_state s' = SessionTimedOut \<and>
      get_session ''t'' (timeout_session ?env ''s'' ?b) = Some ?t \<and>
      leases (timeout_session ?env ''s'' ?b) ''t'' = Some (sess_instance ?s) \<and>
      get_instance (sess_instance ?s) (b_pool (timeout_session ?env ''s'' ?b)) = Some i' \<and>
      inst_state i' = StateResetting \<and> session_id i' = []"
    by (rule late_timeout_takes_device [where i = "one_instance StateAllocated ''t'' (Running (new_running_device ''e''))",
        OF 1(1,2) _ 1(3) _ _ _ _ v]) (simp_all add: 1(4,5) small_session_def)
  then obtain i' where 2: "get_session ''t'' (timeout_session ?env ''s'' ?b) = Some ?t"
    "get_instance ''a'' (b_pool (timeout_session ?env ''s'' ?b)) = Some i'" "inst_state i' = StateResetting"
    unfolding 1(5) by blast
  show ?thesis
    by (rule exI [of _ ?b], rule exI [of _ ?s], rule exI [of _ ?t], rule exI [of _ i'], rule exI [of _ ?env])
      (use 1 2 in simp)
qed

end
