(* ===== verification/Tables.thy ===== *)
theory Tables
  imports Prelude
begin

text \<open>
  The interface of the farm's keyed tables: the node list of the registry, the reservations and the
  session history of the store. A client writes and deletes rows by key and looks them up; the locale
  says what a look-up returns afterwards, and its lemmas what any sequence of writes amounts to. A
  \<open>put\<close> may merge with the row it replaces (the registry keeps the date of the old entry), so the law
  names the row that is stored.
\<close>

datatype ('k, 'v) table_op = Write 'v | Erase 'k

locale keyed_table =
  fixes row_key :: "'v \<Rightarrow> 'k"
    and look :: "'t \<Rightarrow> 'k \<Rightarrow> 'v option"
    and put :: "'v \<Rightarrow> 't \<Rightarrow> 't"
    and erase :: "'k \<Rightarrow> 't \<Rightarrow> 't"
    and stored :: "'v \<Rightarrow> 'v option \<Rightarrow> 'v"
    and inv :: "'t \<Rightarrow> bool"
  assumes look_put: "inv t \<Longrightarrow> look (put v t) k =
        (if k = row_key v then Some (stored v (look t k)) else look t k)"
    and look_erase: "inv t \<Longrightarrow> look (erase k t) k' = (if k' = k then None else look t k')"
    and inv_put: "inv t \<Longrightarrow> inv (put v t)"
    and inv_erase: "inv t \<Longrightarrow> inv (erase k t)"
    and stored_key: "row_key (stored v r) = row_key v"
    and look_key: "inv t \<Longrightarrow> look t k = Some v \<Longrightarrow> row_key v = k"
begin

fun perform :: "('k, 'v) table_op \<Rightarrow> 't \<Rightarrow> 't" where
  "perform (Write v) t = put v t"
| "perform (Erase k) t = erase k t"

fun op_key :: "('k, 'v) table_op \<Rightarrow> 'k" where
  "op_key (Write v) = row_key v"
| "op_key (Erase k) = k"

text \<open>What one key holds after an operation, from what it held before: the specification.\<close>

fun effect :: "'k \<Rightarrow> ('k, 'v) table_op \<Rightarrow> 'v option \<Rightarrow> 'v option" where
  "effect k (Write v) r = (if k = row_key v then Some (stored v r) else r)"
| "effect k (Erase k') r = (if k = k' then None else r)"

lemma perform_inv: "inv t \<Longrightarrow> inv (perform x t)"
  by (cases x) (simp_all add: inv_put inv_erase)

lemma perform_look: "inv t \<Longrightarrow> look (perform x t) k = effect k x (look t k)"
  by (cases x) (simp_all add: look_put look_erase)

lemma run_inv: "inv t \<Longrightarrow> inv (fold perform xs t)"
  by (induction xs arbitrary: t) (simp_all add: perform_inv)

text \<open>Each key evolves on its own: the table refines the map specification.\<close>

lemma run_look: "inv t \<Longrightarrow> look (fold perform xs t) k = fold (effect k) xs (look t k)"
  by (induction xs arbitrary: t) (simp_all add: perform_inv perform_look)

lemma run_other: "inv t \<Longrightarrow> k \<notin> op_key ` set xs \<Longrightarrow> look (fold perform xs t) k = look t k"
proof -
  have "k \<notin> op_key ` set xs \<Longrightarrow> fold (effect k) xs r = r" for r
  proof (induction xs arbitrary: r)
    case (Cons x xs)
    then show ?case by (cases x) auto
  qed simp
  then show "inv t \<Longrightarrow> k \<notin> op_key ` set xs \<Longrightarrow> look (fold perform xs t) k = look t k"
    by (simp add: run_look)
qed

lemma last_write: "inv t \<Longrightarrow> \<exists>r. look (fold perform (xs @ [Write v]) t) (row_key v) = Some (stored v r)"
  by (auto simp: look_put run_inv)

lemma last_erase: "inv t \<Longrightarrow> look (fold perform (xs @ [Erase k]) t) k = None"
  by (simp add: look_erase run_inv)

end

text \<open>A list of rows with a key, looked up front to back: the shape both users have.\<close>

definition row_find :: "('v \<Rightarrow> 'k) \<Rightarrow> 'v list \<Rightarrow> 'k \<Rightarrow> 'v option" where
  "row_find key rows k = List.find (\<lambda>r. key r = k) rows"

definition row_drop :: "('v \<Rightarrow> 'k) \<Rightarrow> 'k \<Rightarrow> 'v list \<Rightarrow> 'v list" where
  "row_drop key k rows = filter (\<lambda>r. key r \<noteq> k) rows"

lemma row_find_Nil [simp]: "row_find key [] k = None"
  by (simp add: row_find_def)

lemma row_find_Cons [simp]: "row_find key (r # rs) k = (if key r = k then Some r else row_find key rs k)"
  by (simp add: row_find_def)

lemma row_find_append: "row_find key (xs @ ys) k =
    (case row_find key xs k of Some r \<Rightarrow> Some r | None \<Rightarrow> row_find key ys k)"
  by (induction xs) auto

lemma row_find_drop: "row_find key (row_drop key k rows) k' = (if k' = k then None else row_find key rows k')"
  by (induction rows) (auto simp: row_drop_def)

lemma row_find_key: "row_find key rows k = Some r \<Longrightarrow> key r = k \<and> r \<in> set rows"
  by (induction rows) (auto split: if_splits)

lemma row_find_None: "row_find key rows k = None \<longleftrightarrow> k \<notin> key ` set rows"
  by (induction rows) auto

lemma distinct_row_drop: "distinct (map key rows) \<Longrightarrow> distinct (map key (row_drop key k rows))"
  by (simp add: row_drop_def distinct_map_filter)

end
