(* ===== verification/Registry.thy ===== *)
theory Registry
  imports Tables
begin

text \<open>
  \<^verbatim>\<open>internal/registry/registry.go\<close> and \<^verbatim>\<open>keygen.go\<close>: the list of nodes of a group, in memory and in its
  YAML file. The file system is what the state keeps as \<open>reg_disk\<close> and, per operation, whether the write
  succeeds; the YAML and JSON codecs and the HTTP client are parameters (the parsed answer of the peer).
\<close>

record node =
  node_name :: string
  node_url :: string
  node_added_at :: time
  node_description :: string

record group_file =
  group_name :: string
  group_key :: string
  group_nodes :: "node list"

record registry =
  reg_path :: string
  reg_file :: group_file
  reg_disk :: "group_file option"

datatype registry_error =
    GroupExists string | NodeIncomplete | SaveFailed | AlreadyInGroup string | PeerUnreachable
  | InvalidGroupKey | PeerStatus int | BadExport | MissingNameOrKey | LoadFailed

definition empty_group :: group_file where
  "empty_group = \<lparr>group_name = [], group_key = [], group_nodes = []\<rparr>"

datatype disk_read = NoFile | Unreadable | FileContent group_file

definition new_registry :: "string \<Rightarrow> disk_read \<Rightarrow> registry_error + registry" where
  "new_registry path d =
     (case d of
        NoFile \<Rightarrow> Inr \<lparr>reg_path = path, reg_file = empty_group, reg_disk = None\<rparr>
      | Unreadable \<Rightarrow> Inl LoadFailed
      | FileContent f \<Rightarrow> Inr \<lparr>reg_path = path, reg_file = f, reg_disk = Some f\<rparr>)"

text \<open>\<^verbatim>\<open>save\<close>: write a temporary file and rename it, so a failure leaves the old file.\<close>

definition reg_save :: "bool \<Rightarrow> registry \<Rightarrow> registry_error option \<times> registry" where
  "reg_save ok r = (if ok then (None, r\<lparr>reg_disk := Some (reg_file r)\<rparr>) else (Some SaveFailed, r))"

definition has_group :: "registry \<Rightarrow> bool" where
  "has_group r \<longleftrightarrow> group_name (reg_file r) \<noteq> [] \<and> group_key (reg_file r) \<noteq> []"

definition verify_key :: "string \<Rightarrow> registry \<Rightarrow> bool" where
  "verify_key key r \<longleftrightarrow> group_key (reg_file r) \<noteq> [] \<and> group_key (reg_file r) = key"

definition reg_snapshot :: "registry \<Rightarrow> group_file" where
  "reg_snapshot r = (reg_file r)\<lparr>group_key := []\<rparr>"

text \<open>The copies handed to callers, and what another node that proved the key gets to see.\<close>

definition registry_group_name :: "registry \<Rightarrow> string" where
  "registry_group_name r = group_name (reg_file r)"

definition registry_group_key :: "registry \<Rightarrow> string" where
  "registry_group_key r = group_key (reg_file r)"

definition registry_nodes :: "registry \<Rightarrow> node list" where
  "registry_nodes r = group_nodes (reg_file r)"

definition marshal_for_export :: "registry \<Rightarrow> group_file" where
  "marshal_for_export r = reg_file r"

text \<open>\<^verbatim>\<open>generateKey\<close>: the hex form of 12 random bytes.\<close>

definition hex_digit :: "nat \<Rightarrow> char" where
  "hex_digit d = ''0123456789abcdef'' ! (d mod 16)"

definition generate_key :: "nat list \<Rightarrow> string" where
  "generate_key bytes = concat (map (\<lambda>b. [hex_digit (b div 16), hex_digit b]) bytes)"

definition create_group ::
  "bool \<Rightarrow> time \<Rightarrow> nat list \<Rightarrow> string \<Rightarrow> string \<Rightarrow> string \<Rightarrow> registry \<Rightarrow>
   (registry_error + string) \<times> registry" where
  "create_group ok now bytes name self_name self_url r =
     (if group_name (reg_file r) \<noteq> [] then (Inl (GroupExists (group_name (reg_file r))), r)
      else (let key = generate_key bytes;
                f = \<lparr>group_name = name, group_key = key,
                     group_nodes = [\<lparr>node_name = self_name, node_url = self_url,
                                     node_added_at = now, node_description = []\<rparr>]\<rparr>
            in case reg_save ok (r\<lparr>reg_file := f\<rparr>) of
                 (None, r1) \<Rightarrow> (Inr key, r1)
               | (Some e, r1) \<Rightarrow> (Inl e, r1)))"

fun put_node :: "time \<Rightarrow> node \<Rightarrow> node list \<Rightarrow> node list" where
  "put_node now n [] = [if node_added_at n = 0 then n\<lparr>node_added_at := now\<rparr> else n]"
| "put_node now n (x # xs) =
     (if node_name x = node_name n
      then (if node_added_at n = 0 then n\<lparr>node_added_at := node_added_at x\<rparr> else n) # xs
      else x # put_node now n xs)"

definition add_node :: "bool \<Rightarrow> time \<Rightarrow> node \<Rightarrow> registry \<Rightarrow> registry_error option \<times> registry" where
  "add_node ok now n r =
     (if node_name n = [] \<or> node_url n = [] then (Some NodeIncomplete, r)
      else reg_save ok (r\<lparr>reg_file := (reg_file r)\<lparr>group_nodes :=
             put_node now n (group_nodes (reg_file r))\<rparr>\<rparr>))"

definition drop_node :: "string \<Rightarrow> registry \<Rightarrow> registry" where
  "drop_node name r = r\<lparr>reg_file := (reg_file r)\<lparr>group_nodes :=
     filter (\<lambda>x. node_name x \<noteq> name) (group_nodes (reg_file r))\<rparr>\<rparr>"

definition remove_node :: "bool \<Rightarrow> string \<Rightarrow> registry \<Rightarrow> (bool \<times> registry_error option) \<times> registry" where
  "remove_node ok name r =
     (if name \<notin> node_name ` set (group_nodes (reg_file r)) then ((False, None), drop_node name r)
      else (case reg_save ok (drop_node name r) of (e, r1) \<Rightarrow> ((True, e), r1)))"

definition leave_group :: "bool \<Rightarrow> registry \<Rightarrow> registry_error option \<times> registry" where
  "leave_group ok r =
     (let r1 = r\<lparr>reg_file := empty_group\<rparr>
      in if ok then (None, r1\<lparr>reg_disk := None\<rparr>) else (Some SaveFailed, r1))"

text \<open>The parsed export of a peer; \<open>None\<close> is a body that is no JSON.\<close>

definition import_group :: "bool \<Rightarrow> group_file option \<Rightarrow> registry \<Rightarrow> registry_error option \<times> registry" where
  "import_group ok parsed r =
     (case parsed of
        None \<Rightarrow> (Some BadExport, r)
      | Some f \<Rightarrow>
          if group_name f = [] \<or> group_key f = [] then (Some MissingNameOrKey, r)
          else reg_save ok (r\<lparr>reg_file := f\<rparr>))"

record peer_answer =
  peer_status :: int
  peer_body :: "group_file option"

text \<open>What the joining node sends: the export request with the key, and its own entry.\<close>

datatype peer_call = GetExport string string | PostNode string string node

definition join_group ::
  "bool \<Rightarrow> time \<Rightarrow> peer_answer option \<Rightarrow> string \<Rightarrow> string \<Rightarrow> string \<Rightarrow> string \<Rightarrow> registry \<Rightarrow>
   (registry_error + string) \<times> peer_call list \<times> registry" where
  "join_group ok now answer peer key self_name self_url r =
     (if has_group r then (Inl (AlreadyInGroup (group_name (reg_file r))), [], r)
      else
        (let get = GetExport (trim_right_slash peer @ ''/api/v1/group/export'') key
         in case answer of
              None \<Rightarrow> (Inl PeerUnreachable, [get], r)
            | Some a \<Rightarrow>
                if peer_status a = 403 then (Inl InvalidGroupKey, [get], r)
                else if peer_status a \<noteq> 200 then (Inl (PeerStatus (peer_status a)), [get], r)
                else (case import_group ok (peer_body a) r of
                   (Some e, r1) \<Rightarrow> (Inl e, [get], r1)
                 | (None, r1) \<Rightarrow>
                     (let self = \<lparr>node_name = self_name, node_url = self_url,
                                  node_added_at = now, node_description = []\<rparr>
                      in case add_node ok now self r1 of
                           (Some e, r2) \<Rightarrow> (Inl e, [get], r2)
                         | (None, r2) \<Rightarrow>
                             (Inr (group_name (reg_file r2)),
                              [get, PostNode (trim_right_slash peer @ ''/api/v1/nodes'') key self], r2)))))"

subsection \<open>The node list as a table\<close>

definition nodes_ok :: "registry \<Rightarrow> bool" where
  "nodes_ok r \<longleftrightarrow> distinct (map node_name (group_nodes (reg_file r)))"

definition find_node :: "registry \<Rightarrow> string \<Rightarrow> node option" where
  "find_node r name = row_find node_name (group_nodes (reg_file r)) name"

definition stored_node :: "time \<Rightarrow> node \<Rightarrow> node option \<Rightarrow> node" where
  "stored_node now n old =
     (if node_added_at n \<noteq> 0 then n
      else n\<lparr>node_added_at := (case old of Some x \<Rightarrow> node_added_at x | None \<Rightarrow> now)\<rparr>)"

lemma put_node_find: "row_find node_name (put_node now n xs) k =
    (if k = node_name n then Some (stored_node now n (row_find node_name xs k)) else row_find node_name xs k)"
  by (induction now n xs rule: put_node.induct) (auto simp: stored_node_def)

lemma put_node_names: "map node_name (put_node now n xs) =
    (if node_name n \<in> node_name ` set xs then map node_name xs else map node_name xs @ [node_name n])"
  by (induction now n xs rule: put_node.induct) auto

definition put_in_memory :: "time \<Rightarrow> node \<Rightarrow> registry \<Rightarrow> registry" where
  "put_in_memory now n r = r\<lparr>reg_file := (reg_file r)\<lparr>group_nodes := put_node now n (group_nodes (reg_file r))\<rparr>\<rparr>"

interpretation node_table: keyed_table node_name find_node "put_in_memory now" drop_node "stored_node now" nodes_ok
  for now
proof unfold_locales
  fix t :: registry and v k k' r
  show "find_node (put_in_memory now v t) k =
      (if k = node_name v then Some (stored_node now v (find_node t k)) else find_node t k)"
    by (simp add: find_node_def put_in_memory_def put_node_find)
  show "find_node (drop_node k t) k' = (if k' = k then None else find_node t k')"
    using row_find_drop [of node_name k "group_nodes (reg_file t)" k']
    by (simp add: find_node_def drop_node_def row_drop_def)
  show "nodes_ok t \<Longrightarrow> nodes_ok (put_in_memory now v t)"
    by (simp add: nodes_ok_def put_in_memory_def put_node_names)
  show "nodes_ok t \<Longrightarrow> nodes_ok (drop_node k t)"
    by (simp add: nodes_ok_def drop_node_def distinct_map_filter)
  show "node_name (stored_node now v r) = node_name v" by (simp add: stored_node_def)
  show "find_node t k = Some v \<Longrightarrow> node_name v = k"
    by (auto simp: find_node_def dest: row_find_key)
qed

subsection \<open>Properties\<close>

lemma add_node_memory:
  assumes "node_name n \<noteq> []" and "node_url n \<noteq> []"
  shows "reg_file (snd (add_node ok now n r)) = reg_file (put_in_memory now n r)"
  using assms by (simp add: add_node_def reg_save_def put_in_memory_def)

lemma find_node_file: "reg_file r = reg_file r' \<Longrightarrow> find_node r = find_node r'"
  by (simp add: find_node_def fun_eq_iff)

text \<open>The node list is keyed by name. An accepted node is found again under its name, with the
  date it came with, else the date of the entry it replaces, else now; a removed one is not; every other
  node stays; and over any run of additions and removals in memory each name appears once and holds what
  its last operation says.\<close>

theorem registry_is_keyed:
  assumes "nodes_ok r" and "node_name n \<noteq> []" and "node_url n \<noteq> []"
  shows "(\<forall>k. find_node (snd (add_node ok now n r)) k =
      (if k = node_name n then Some (stored_node now n (find_node r k)) else find_node r k)) \<and>
    (\<forall>k. find_node (snd (remove_node ok name r)) k = (if k = name then None else find_node r k)) \<and>
    fst (fst (remove_node ok name r)) = (find_node r name \<noteq> None) \<and>
    (\<exists>old. find_node (fold (node_table.perform now) (ops @ [Write n]) r) (node_name n) = Some (stored_node now n old)) \<and>
    nodes_ok (fold (node_table.perform now) ops r)"
proof -
  have 1: "find_node (snd (add_node ok now n r)) k =
      (if k = node_name n then Some (stored_node now n (find_node r k)) else find_node r k)" for k
    using find_node_file [OF add_node_memory [OF assms(2,3), of ok now r]]
      node_table.look_put [OF assms(1), of now n k] by simp
  have f: "reg_file (snd (remove_node ok name r)) = reg_file (drop_node name r)"
    by (simp add: remove_node_def reg_save_def)
  have 2: "find_node (snd (remove_node ok name r)) k = (if k = name then None else find_node r k)" for k
    using find_node_file [OF f] node_table.look_erase [OF assms(1), of name k] by simp
  have 3: "fst (fst (remove_node ok name r)) = (find_node r name \<noteq> None)"
    by (simp add: remove_node_def find_node_def row_find_None reg_save_def split: prod.split)
  show ?thesis
    using 1 2 3 node_table.last_write [OF assms(1), of now ops n] node_table.run_inv [OF assms(1), of now ops]
    by blast
qed

definition sample_node :: node where
  "sample_node = \<lparr>node_name = ''mac-1'', node_url = ''http://mac-1:9401'', node_added_at = 0, node_description = []\<rparr>"

definition empty_registry :: registry where
  "empty_registry = \<lparr>reg_path = ''nodes.yaml'', reg_file = empty_group, reg_disk = None\<rparr>"

theorem registry_is_keyed_witness:
  "find_node (snd (add_node True 7 sample_node empty_registry)) ''mac-1'' = Some (sample_node\<lparr>node_added_at := 7\<rparr>)"
proof -
  have "nodes_ok empty_registry" "node_name sample_node \<noteq> []" "node_url sample_node \<noteq> []"
    by (simp_all add: nodes_ok_def empty_registry_def empty_group_def sample_node_def)
  from registry_is_keyed [OF this, of True 7] show ?thesis
    by (simp add: find_node_def empty_registry_def empty_group_def stored_node_def sample_node_def)
qed

text \<open>Who may change the roster. Creating a group makes exactly the returned key valid and saves
  it; a second creation is refused; leaving makes every key invalid and removes the file, so a restart
  finds no group; joining with success copies the peer's group and adds this node to it; and a peer's
  refusal changes nothing. Whatever happens, the snapshot for the dashboard carries no key.\<close>

theorem group_membership:
  "(case create_group True now bytes name self url r of
      (Inr key, r1) \<Rightarrow> group_name (reg_file r) = [] \<and> reg_disk r1 = Some (reg_file r1) \<and>
         (\<forall>k. verify_key k r1 = (k = key \<and> key \<noteq> [])) \<and>
         (name \<noteq> [] \<longrightarrow> (\<exists>e. create_group True now' bytes' name' self' url' r1 = (Inl e, r1)))
    | (Inl e, r1) \<Rightarrow> r1 = r \<and> group_name (reg_file r) \<noteq> []) \<and>
   (\<forall>k. \<not> verify_key k (snd (leave_group ok r))) \<and>
   reg_disk (snd (leave_group True r)) = None \<and> \<not> has_group (snd (leave_group ok r)) \<and>
   (case join_group True now answer peer key self url r of
      (Inr g, calls, r1) \<Rightarrow> \<not> has_group r \<and> has_group r1 \<and> group_name (reg_file r1) = g \<and>
         reg_disk r1 = Some (reg_file r1) \<and> find_node r1 self \<noteq> None \<and> length calls = 2 \<and>
         (\<exists>a f. answer = Some a \<and> peer_body a = Some f \<and> group_key (reg_file r1) = group_key f)
    | (Inl e, calls, r1) \<Rightarrow>
        (e = InvalidGroupKey \<or> e = PeerUnreachable \<or> e = AlreadyInGroup (group_name (reg_file r)) \<longrightarrow> r1 = r)) \<and>
   group_key (reg_snapshot r) = []"
proof (intro conjI)
  show "case create_group True now bytes name self url r of
      (Inr key, r1) \<Rightarrow> group_name (reg_file r) = [] \<and> reg_disk r1 = Some (reg_file r1) \<and>
         (\<forall>k. verify_key k r1 = (k = key \<and> key \<noteq> [])) \<and>
         (name \<noteq> [] \<longrightarrow> (\<exists>e. create_group True now' bytes' name' self' url' r1 = (Inl e, r1)))
    | (Inl e, r1) \<Rightarrow> r1 = r \<and> group_name (reg_file r) \<noteq> []"
    by (auto simp: create_group_def reg_save_def Let_def verify_key_def)
  show "\<forall>k. \<not> verify_key k (snd (leave_group ok r))" "\<not> has_group (snd (leave_group ok r))"
    "reg_disk (snd (leave_group True r)) = None" "group_key (reg_snapshot r) = []"
    by (simp_all add: verify_key_def leave_group_def empty_group_def Let_def has_group_def reg_snapshot_def)
  show "case join_group True now answer peer key self url r of
      (Inr g, calls, r1) \<Rightarrow> \<not> has_group r \<and> has_group r1 \<and> group_name (reg_file r1) = g \<and>
         reg_disk r1 = Some (reg_file r1) \<and> find_node r1 self \<noteq> None \<and> length calls = 2 \<and>
         (\<exists>a f. answer = Some a \<and> peer_body a = Some f \<and> group_key (reg_file r1) = group_key f)
    | (Inl e, calls, r1) \<Rightarrow>
        (e = InvalidGroupKey \<or> e = PeerUnreachable \<or> e = AlreadyInGroup (group_name (reg_file r)) \<longrightarrow> r1 = r)"
  proof (cases "\<not> has_group r \<and> (\<exists>a f. answer = Some a \<and> peer_status a = 200 \<and> peer_body a = Some f \<and>
      group_name f \<noteq> [] \<and> group_key f \<noteq> [] \<and> self \<noteq> [] \<and> url \<noteq> [])")
    case True
    then show ?thesis
      by (auto simp: join_group_def import_group_def add_node_def reg_save_def Let_def has_group_def
          find_node_def put_node_find)
  next
    case False
    then show ?thesis
      by (auto simp: join_group_def import_group_def add_node_def reg_save_def Let_def
          split: option.split)
  qed
qed

theorem group_membership_witness:
  "\<exists>key r1. create_group True 1 [2, 3, 255] ''lab'' ''mac-1'' ''http://mac-1'' empty_registry = (Inr key, r1) \<and>
     verify_key key r1 \<and> \<not> verify_key ''guess'' r1"
proof -
  have g: "generate_key [2, 3, 255] = ''0203ff''"
    by (simp add: generate_key_def hex_digit_def)
  obtain r1 where c: "create_group True 1 [2, 3, 255] ''lab'' ''mac-1'' ''http://mac-1'' empty_registry = (Inr ''0203ff'', r1)"
    by (simp add: create_group_def empty_registry_def empty_group_def reg_save_def Let_def g)
  from group_membership [where now = 1 and bytes = "[2, 3, 255]" and name = "''lab''" and self = "''mac-1''"
      and url = "''http://mac-1''" and r = empty_registry] c
  show ?thesis by auto
qed

end
