(* ===== verification/Store.thy ===== *)
theory Store
  imports Tables
begin

text \<open>
  \<^verbatim>\<open>internal/store/store.go\<close>: the SQLite tables as lists of rows in insertion order and the SQL
  statements of the source as operations on them. A time stored in RFC 3339 is its seconds (within one
  time zone the texts sort like the numbers); the day arithmetic of the zombie clean-up is the argument
  \<open>jd\<close>. Rows with equal times come back newest insertion first in the descending queries, as a
  scan of the index gives them. Failures of the database are not modelled; a nil store is the callers'
  \<open>b_store\<close>.
\<close>

type_synonym ident = string

definition secs :: "time \<Rightarrow> int" where
  "secs t = t div second_ns"

record session_row =
  row_id :: string
  row_profile :: string
  row_platform :: string
  row_instance :: string
  row_device :: string
  row_serial :: string
  row_host :: string
  row_adb_port :: int
  row_source :: string
  row_state :: string
  row_node :: string
  row_created :: int
  row_released :: "int option"
  row_duration :: int

record event_row =
  ev_id :: nat
  ev_type :: string
  ev_instance :: string
  ev_session :: string
  ev_detail :: string
  ev_created :: int

record avd_row =
  avdrow_name :: string
  avdrow_profile :: string
  avdrow_device :: string
  avdrow_image :: string

record reservation_row =
  rs_avd :: string
  rs_label :: string
  rs_at :: int

record store =
  t_sessions :: "session_row list"
  t_events :: "event_row list"
  t_avds :: "avd_row list"
  t_reservations :: "reservation_row list"
  t_event_seq :: nat

definition new_store :: store where
  "new_store = \<lparr>t_sessions = [], t_events = [], t_avds = [], t_reservations = [], t_event_seq = 0\<rparr>"

subsection \<open>Sessions\<close>

text \<open>\<^verbatim>\<open>int(releasedAt.Sub(createdAt).Seconds())\<close>\<close>

definition session_seconds :: "time \<Rightarrow> time option \<Rightarrow> int" where
  "session_seconds created released =
     (case released of None \<Rightarrow> 0 | Some t \<Rightarrow> go_div (t - created) second_ns)"

definition record_session ::
  "ident \<Rightarrow> string \<Rightarrow> string \<Rightarrow> ident \<Rightarrow> string \<Rightarrow> ident \<Rightarrow> string \<Rightarrow> string \<Rightarrow> ident \<Rightarrow> string \<Rightarrow>
   int \<Rightarrow> time \<Rightarrow> time option \<Rightarrow> store \<Rightarrow> store" where
  "record_session sid profile platform iid device serial host source state nodename adb created released s =
     s\<lparr>t_sessions := row_drop row_id sid (t_sessions s) @
        [\<lparr>row_id = sid, row_profile = profile, row_platform = platform, row_instance = iid,
          row_device = device, row_serial = serial, row_host = host, row_adb_port = adb,
          row_source = source, row_state = state, row_node = nodename, row_created = secs created,
          row_released = map_option secs released,
          row_duration = session_seconds created released\<rparr>]\<rparr>"

definition is_zombie :: "session_row \<Rightarrow> bool" where
  "is_zombie r \<longleftrightarrow> row_state r = ''active'' \<or> row_state r = ''queued''"

definition cleanup_zombie_sessions :: "(int \<Rightarrow> int \<Rightarrow> int) \<Rightarrow> time \<Rightarrow> store \<Rightarrow> nat \<times> store" where
  "cleanup_zombie_sessions jd now s =
     (length (filter is_zombie (t_sessions s)),
      s\<lparr>t_sessions := map (\<lambda>r. if is_zombie r
         then r\<lparr>row_state := ''interrupted'', row_released := Some (secs now),
                row_duration := jd (secs now) (row_created r)\<rparr>
         else r) (t_sessions s)\<rparr>)"

definition sessions_since :: "time \<Rightarrow> store \<Rightarrow> nat" where
  "sessions_since t s = length (filter (\<lambda>r. secs t < row_created r) (t_sessions s))"

text \<open>\<^verbatim>\<open>ORDER BY created_at DESC LIMIT n\<close>; a negative limit is none.\<close>

definition newest_first :: "('r \<Rightarrow> int) \<Rightarrow> int \<Rightarrow> 'r list \<Rightarrow> 'r list" where
  "newest_first created n rows =
     (let sorted = rev (sort_key created rows) in if n < 0 then sorted else take (nat n) sorted)"

definition session_history :: "int \<Rightarrow> store \<Rightarrow> session_row list" where
  "session_history n s = newest_first row_created n (t_sessions s)"

subsection \<open>AVDs and events\<close>

definition record_avd_creation :: "string \<Rightarrow> string \<Rightarrow> string \<Rightarrow> string \<Rightarrow> store \<Rightarrow> store" where
  "record_avd_creation name profile device img s =
     s\<lparr>t_avds := t_avds s @ [\<lparr>avdrow_name = name, avdrow_profile = profile, avdrow_device = device,
                              avdrow_image = img\<rparr>]\<rparr>"

definition record_event :: "time \<Rightarrow> string \<Rightarrow> string \<Rightarrow> string \<Rightarrow> string \<Rightarrow> store \<Rightarrow> store" where
  "record_event now ty iid sid detail s =
     s\<lparr>t_events := t_events s @ [\<lparr>ev_id = t_event_seq s + 1, ev_type = ty, ev_instance = iid,
          ev_session = sid, ev_detail = detail, ev_created = secs now\<rparr>],
       t_event_seq := t_event_seq s + 1\<rparr>"

definition recent_events :: "int \<Rightarrow> store \<Rightarrow> event_row list" where
  "recent_events n s = newest_first ev_created n (t_events s)"

definition events_for_session :: "string \<Rightarrow> store \<Rightarrow> event_row list" where
  "events_for_session sid s = sort_key ev_created (filter (\<lambda>e. ev_session e = sid) (t_events s))"

subsection \<open>Reservations\<close>

fun upsert_reservation :: "int \<Rightarrow> string \<Rightarrow> string \<Rightarrow> reservation_row list \<Rightarrow> reservation_row list" where
  "upsert_reservation now avd label [] = [\<lparr>rs_avd = avd, rs_label = label, rs_at = now\<rparr>]"
| "upsert_reservation now avd label (r # rs) =
     (if rs_avd r = avd then r\<lparr>rs_label := label, rs_at := now\<rparr> # rs
      else r # upsert_reservation now avd label rs)"

definition set_reservation :: "time \<Rightarrow> string \<Rightarrow> string \<Rightarrow> store \<Rightarrow> store" where
  "set_reservation now avd label s =
     s\<lparr>t_reservations := upsert_reservation (secs now) avd label (t_reservations s)\<rparr>"

definition clear_reservation :: "string \<Rightarrow> store \<Rightarrow> store" where
  "clear_reservation avd s = s\<lparr>t_reservations := row_drop rs_avd avd (t_reservations s)\<rparr>"

definition load_reservations :: "store \<Rightarrow> (string \<times> string) list" where
  "load_reservations s =
     fold (\<lambda>r m. AList.update (rs_avd r) (rs_label r) m) (t_reservations s) []"

subsection \<open>The reservations as a table\<close>

definition reservations_ok :: "store \<Rightarrow> bool" where
  "reservations_ok s \<longleftrightarrow> distinct (map rs_avd (t_reservations s))"

definition find_reservation :: "store \<Rightarrow> string \<Rightarrow> reservation_row option" where
  "find_reservation s = row_find rs_avd (t_reservations s)"

definition put_reservation :: "reservation_row \<Rightarrow> store \<Rightarrow> store" where
  "put_reservation r s = s\<lparr>t_reservations := upsert_reservation (rs_at r) (rs_avd r) (rs_label r) (t_reservations s)\<rparr>"

lemma upsert_find: "row_find rs_avd (upsert_reservation now avd label rs) k =
    (if k = avd then Some \<lparr>rs_avd = avd, rs_label = label, rs_at = now\<rparr> else row_find rs_avd rs k)"
  by (induction now avd label rs rule: upsert_reservation.induct) auto

lemma upsert_names: "map rs_avd (upsert_reservation now avd label rs) =
    (if avd \<in> rs_avd ` set rs then map rs_avd rs else map rs_avd rs @ [avd])"
  by (induction now avd label rs rule: upsert_reservation.induct) auto

interpretation reservation_table: keyed_table rs_avd find_reservation put_reservation clear_reservation
  "\<lambda>r old. r" reservations_ok
proof unfold_locales
  fix t :: store and v k k'
  show "find_reservation (put_reservation v t) k = (if k = rs_avd v then Some v else find_reservation t k)"
    by (simp add: find_reservation_def put_reservation_def upsert_find)
  show "find_reservation (clear_reservation k t) k' = (if k' = k then None else find_reservation t k')"
    by (simp add: find_reservation_def clear_reservation_def row_find_drop)
  show "reservations_ok t \<Longrightarrow> reservations_ok (put_reservation v t)"
    by (simp add: reservations_ok_def put_reservation_def upsert_names)
  show "reservations_ok t \<Longrightarrow> reservations_ok (clear_reservation k t)"
    by (simp add: reservations_ok_def clear_reservation_def distinct_row_drop)
  show "find_reservation t k = Some v \<Longrightarrow> rs_avd v = k"
    by (auto simp: find_reservation_def dest: row_find_key)
qed simp

lemma load_reservations_find:
  assumes "reservations_ok s"
  shows "map_of (load_reservations s) k = map_option rs_label (find_reservation s k)"
proof -
  have "map_of (fold (\<lambda>r m. AList.update (rs_avd r) (rs_label r) m) rs m) k =
      (case row_find rs_avd rs k of Some r \<Rightarrow> Some (rs_label r) | None \<Rightarrow> map_of m k)"
    if "distinct (map rs_avd rs)" for rs :: "reservation_row list" and m
    using that
  proof (induction rs arbitrary: m)
    case (Cons r rs)
    then have "row_find rs_avd rs (rs_avd r) = None" by (simp add: row_find_None)
    with Cons show ?case by (auto simp: update_conv' split: option.split)
  qed simp
  with assms show ?thesis
    by (simp add: load_reservations_def reservations_ok_def find_reservation_def split: option.split)
qed

subsection \<open>Properties\<close>

text \<open>Reservations survive a restart: after any sequence of reserving and clearing, what is loaded
  for an AVD is the label of its last reservation, and nothing if it was cleared last; the others are as
  they were.\<close>

theorem reservations_persist:
  assumes "reservations_ok s"
  shows "map_of (load_reservations (set_reservation now avd label s)) =
      (map_of (load_reservations s))(avd \<mapsto> label) \<and>
    map_of (load_reservations (clear_reservation avd s)) = (map_of (load_reservations s))(avd := None) \<and>
    map_of (load_reservations (fold reservation_table.perform ops s)) k =
      map_option rs_label (fold (reservation_table.effect k) ops (find_reservation s k))"
proof -
  let ?r = "\<lparr>rs_avd = avd, rs_label = label, rs_at = secs now\<rparr>"
  have p: "set_reservation now avd label s = put_reservation ?r s"
    by (simp add: set_reservation_def put_reservation_def)
  have 1: "map_of (load_reservations (set_reservation now avd label s)) k' =
      ((map_of (load_reservations s))(avd \<mapsto> label)) k'" for k'
    using load_reservations_find [OF reservation_table.inv_put [OF assms]] load_reservations_find [OF assms]
      reservation_table.look_put [OF assms]
    by (simp add: p)
  have 2: "map_of (load_reservations (clear_reservation avd s)) k' =
      ((map_of (load_reservations s))(avd := None)) k'" for k'
    using load_reservations_find [OF reservation_table.inv_erase [OF assms]] load_reservations_find [OF assms]
      reservation_table.look_erase [OF assms]
    by simp
  show ?thesis
    using 1 2 load_reservations_find [OF reservation_table.run_inv [OF assms]]
      reservation_table.run_look [OF assms, of ops k] by auto
qed

theorem reservations_persist_witness:
  "load_reservations (set_reservation 0 ''p'' ''qa'' new_store) = [(''p'', ''qa'')] \<and>
   map_of (load_reservations (set_reservation 0 ''p'' ''qa'' new_store)) ''p'' = Some ''qa''"
proof -
  have "reservations_ok new_store" by (simp add: reservations_ok_def new_store_def)
  from reservations_persist [OF this, of 0 "''p''" "''qa''"] show ?thesis
    by (simp add: load_reservations_def set_reservation_def new_store_def)
qed

text \<open>The session history. Recording a session replaces its row, so each session has one row and
  it says what was recorded last, with the whole seconds it lasted; other rows stay. After a restart's
  clean-up no row is active or queued, the ended ones are untouched and the returned count is the number
  of rows that changed. The history shows at most the asked number of rows, newest first, and no row it
  leaves out is newer than one it shows.\<close>

theorem session_history_correct:
  assumes "distinct (map row_id (t_sessions s))"
    and "s' = record_session sid profile platform iid device serial host source state nodename adb created released s"
  shows "distinct (map row_id (t_sessions s')) \<and>
    (\<exists>r. row_find row_id (t_sessions s') sid = Some r \<and> row_state r = state \<and> row_instance r = iid \<and>
       row_duration r = (case released of None \<Rightarrow> 0 | Some t \<Rightarrow> go_div (t - created) second_ns)) \<and>
    (\<forall>k. k \<noteq> sid \<longrightarrow> row_find row_id (t_sessions s') k = row_find row_id (t_sessions s) k) \<and>
    (\<forall>r \<in> set (t_sessions (snd (cleanup_zombie_sessions jd now s))). \<not> is_zombie r) \<and>
    (\<forall>r \<in> set (t_sessions s). \<not> is_zombie r \<longrightarrow> r \<in> set (t_sessions (snd (cleanup_zombie_sessions jd now s)))) \<and>
    (0 \<le> n \<longrightarrow> length (session_history n s) \<le> nat n \<and>
       sorted (rev (map row_created (session_history n s))) \<and>
       (\<forall>shown \<in> set (session_history n s). \<forall>r \<in> set (t_sessions s).
          r \<notin> set (session_history n s) \<longrightarrow> row_created r \<le> row_created shown))"
proof -
  have h: "length (session_history n s) \<le> nat n \<and>
       sorted (rev (map row_created (session_history n s))) \<and>
       (\<forall>shown \<in> set (session_history n s). \<forall>r \<in> set (t_sessions s).
          r \<notin> set (session_history n s) \<longrightarrow> row_created r \<le> row_created shown)" if "0 \<le> n"
  proof -
    let ?L = "sort_key row_created (t_sessions s)"
    have e: "session_history n s = take (nat n) (rev ?L)"
      using that by (simp add: session_history_def newest_first_def)
    have split: "?L = rev (drop (nat n) (rev ?L)) @ rev (take (nat n) (rev ?L))"
      by (metis append_take_drop_id rev_append rev_rev_ident)
    have s: "sorted (map row_created ?L)" by simp
    then have so: "sorted (map row_created (rev (drop (nat n) (rev ?L))) @ map row_created (rev (take (nat n) (rev ?L))))"
      by (subst (asm) split) simp
    then have "sorted (rev (map row_created (session_history n s)))"
      by (simp add: sorted_append e rev_map)
    moreover have "row_created r \<le> row_created shown"
      if "shown \<in> set (session_history n s)" "r \<in> set (t_sessions s)" "r \<notin> set (session_history n s)" for shown r
    proof -
      have "r \<in> set ?L" using that(2) by simp
      then have "r \<in> set (rev (drop (nat n) (rev ?L)) @ rev (take (nat n) (rev ?L)))"
        using split by metis
      with that(3) have "r \<in> set (drop (nat n) (rev ?L))" by (auto simp: e)
      with so that(1) show ?thesis by (auto simp: sorted_append e)
    qed
    moreover have "length (session_history n s) \<le> nat n" by (simp add: e)
    ultimately show ?thesis by blast
  qed
  have d: "distinct (map row_id (t_sessions s'))"
    using distinct_row_drop [OF assms(1), of sid] by (auto simp: assms(2) record_session_def row_drop_def)
  have f: "row_find row_id (t_sessions s') k =
      (if k = sid then Some (last (t_sessions s')) else row_find row_id (t_sessions s) k)" for k
    by (simp add: assms(2) record_session_def row_find_append row_find_drop split: option.split)
  have z: "\<forall>r \<in> set (t_sessions (snd (cleanup_zombie_sessions jd now s))). \<not> is_zombie r"
    "\<forall>r \<in> set (t_sessions s). \<not> is_zombie r \<longrightarrow> r \<in> set (t_sessions (snd (cleanup_zombie_sessions jd now s)))"
    by (auto simp: cleanup_zombie_sessions_def is_zombie_def image_iff)
  have l: "\<exists>r. row_find row_id (t_sessions s') sid = Some r \<and> row_state r = state \<and> row_instance r = iid \<and>
       row_duration r = (case released of None \<Rightarrow> 0 | Some t \<Rightarrow> go_div (t - created) second_ns)"
    using f [of sid] by (simp add: assms(2) record_session_def session_seconds_def)
  show ?thesis using h d f z l by simp
qed

theorem session_history_correct_witness:
  "\<exists>r. row_find row_id (t_sessions (record_session ''s'' ''px'' ''android'' ''a'' ''p'' ''e'' ''h'' ''ci''
     ''released'' ''n'' 5555 0 (Some (90 * second_ns)) new_store)) ''s'' = Some r \<and>
     row_state r = ''released'' \<and> row_duration r = 90"
proof -
  have "distinct (map row_id (t_sessions new_store))" by (simp add: new_store_def)
  note h = session_history_correct [OF this refl, of "''s''" "''px''" "''android''" "''a''" "''p''" "''e''" "''h''"
      "''ci''" "''released''" "''n''" 5555 0 "Some (90 * second_ns)"]
  have "go_div (90 * second_ns) second_ns = 90" by (simp add: go_div_nonneg second_ns_def)
  with conjunct1 [OF conjunct2 [OF h]] show ?thesis by auto
qed

end
