(* ===== verification/Appium.thy ===== *)
theory Appium
  imports Ports
begin

text \<open>
  \<^verbatim>\<open>internal/appium/server.go\<close>: one Appium server per session, each on a port of its own. \<open>Start\<close> gives
  the manager's lock away while it waits for the server, so it is two atomic stretches,
  \<open>appium_begin\<close> and \<open>appium_settle\<close>, with their composition \<open>appium_start\<close>. \<open>bound\<close> says which
  ports other programs listen on, \<open>spawn\<close> is the process the operating system starts (\<open>None\<close> when
  it cannot), and the log holds what is launched and killed. The port reservations are an instance of
  the locale \<open>resource_pool\<close>.
\<close>

record appium_instance =
  ai_port :: int
  ai_serial :: string
  ai_url :: string
  ai_local :: string
  ai_pid :: nat

datatype appium_effect = Launch "string list" "string list" | Kill nat

record appium_manager =
  am_instances :: "(string \<times> appium_instance) list"
  am_used :: "int list"
  am_bin :: string
  am_base :: int
  am_host :: string
  am_android_home :: string
  am_java_home :: string
  am_log :: "appium_effect list"

datatype appium_error = NotInstalled | NoFreePort int int | StartFailed | NeverReady int

datatype appium_begun = AlreadyRunning appium_instance | Launched appium_instance

definition new_appium_manager :: "string option \<Rightarrow> string \<Rightarrow> string \<Rightarrow> string \<Rightarrow> appium_manager" where
  "new_appium_manager look_path host android_home java_home =
     \<lparr>am_instances = [], am_used = [],
      am_bin = (case look_path of None \<Rightarrow> [] | Some b \<Rightarrow> b),
      am_base = (case look_path of None \<Rightarrow> 0 | Some b \<Rightarrow> 4723),
      am_host = host, am_android_home = android_home, am_java_home = java_home, am_log = []\<rparr>"

definition appium_available :: "appium_manager \<Rightarrow> bool" where
  "appium_available m \<longleftrightarrow> am_bin m \<noteq> []"

text \<open>The loop of \<open>findFreePortLocked\<close> with the number of ports that are left to try.\<close>

fun find_free_port :: "(int \<Rightarrow> bool) \<Rightarrow> int list \<Rightarrow> int \<Rightarrow> nat \<Rightarrow> int option" where
  "find_free_port bound used port 0 = None"
| "find_free_port bound used port (Suc n) =
     (if port \<in> set used then find_free_port bound used (port + 1) n
      else if bound port then find_free_port bound used (port + 1) n
      else Some port)"

definition reserve_port :: "(int \<Rightarrow> bool) \<Rightarrow> appium_manager \<Rightarrow> (int \<times> appium_manager) option" where
  "reserve_port bound m =
     map_option (\<lambda>p. (p, m\<lparr>am_used := p # am_used m\<rparr>))
       (find_free_port bound (am_used m) (am_base m) 100)"

definition free_port :: "int \<Rightarrow> appium_manager \<Rightarrow> appium_manager" where
  "free_port p m = m\<lparr>am_used := removeAll p (am_used m)\<rparr>"

definition appium_effects :: "appium_effect list \<Rightarrow> appium_manager \<Rightarrow> appium_manager" where
  "appium_effects es m = m\<lparr>am_log := am_log m @ es\<rparr>"

definition quoted :: "string \<Rightarrow> string" where
  "quoted s = CHR 0x22 # s @ [CHR 0x22]"

definition appium_capabilities :: "string \<Rightarrow> string" where
  "appium_capabilities serial =
     ''{'' @ quoted ''platformName'' @ '':'' @ quoted ''Android'' @ '','' @
     quoted ''appium:udid'' @ '':'' @ quoted serial @ '','' @
     quoted ''appium:automationName'' @ '':'' @ quoted ''UiAutomator2'' @ '','' @
     quoted ''appium:noReset'' @ '':true}''"

definition appium_args :: "appium_manager \<Rightarrow> int \<Rightarrow> string \<Rightarrow> string list" where
  "appium_args m port serial =
     [am_bin m, ''--port'', itoa port, ''--default-capabilities'', appium_capabilities serial,
      ''--relaxed-security'', ''--allow-insecure'', ''adb_shell'', ''--log-no-colors'']"

text \<open>What is appended to the daemon's own environment.\<close>

definition appium_env :: "appium_manager \<Rightarrow> string list" where
  "appium_env m =
     (if am_android_home m \<noteq> [] then [''ANDROID_HOME='' @ am_android_home m,
                                  ''ANDROID_SDK_ROOT='' @ am_android_home m] else []) @
     (if am_java_home m \<noteq> [] then [''JAVA_HOME='' @ am_java_home m] else [])"

definition appium_instance_of :: "appium_manager \<Rightarrow> int \<Rightarrow> string \<Rightarrow> nat \<Rightarrow> appium_instance" where
  "appium_instance_of m port serial pid =
     \<lparr>ai_port = port, ai_serial = serial,
      ai_url = ''http://'' @ am_host m @ '':'' @ itoa port,
      ai_local = ''http://127.0.0.1:'' @ itoa port, ai_pid = pid\<rparr>"

definition appium_begin ::
  "(int \<Rightarrow> bool) \<Rightarrow> nat option \<Rightarrow> string \<Rightarrow> string \<Rightarrow> appium_manager \<Rightarrow>
   (appium_error + appium_begun) \<times> appium_manager" where
  "appium_begin bound spawn sid serial m =
     (if \<not> appium_available m then (Inl NotInstalled, m)
      else (case map_of (am_instances m) sid of
        Some inst \<Rightarrow> (Inr (AlreadyRunning inst), m)
      | None \<Rightarrow> (case reserve_port bound m of
          None \<Rightarrow> (Inl (NoFreePort (am_base m) (am_base m + 100)), m)
        | Some (port, m1) \<Rightarrow>
            let m2 = appium_effects [Launch (appium_args m port serial) (appium_env m)] m1
            in (case spawn of
                  None \<Rightarrow> (Inl StartFailed, free_port port m2)
                | Some pid \<Rightarrow>
                    let inst = appium_instance_of m port serial pid
                    in (Inr (Launched inst), m2\<lparr>am_instances := AList.update sid inst (am_instances m2)\<rparr>)))))"

text \<open>The polling of \<open>waitForPort\<close>: each attempt has the time it starts at and whether the connection
  was accepted.\<close>

fun wait_for_port :: "time \<Rightarrow> (time \<times> bool) list \<Rightarrow> bool" where
  "wait_for_port deadline [] = False"
| "wait_for_port deadline ((t, accepted) # rest) =
     (if t < deadline then (if accepted then True else wait_for_port deadline rest) else False)"

definition appium_settle ::
  "bool \<Rightarrow> string \<Rightarrow> appium_instance \<Rightarrow> appium_manager \<Rightarrow>
   (appium_error + appium_instance) \<times> appium_manager" where
  "appium_settle ready sid inst m =
     (if \<not> ready then
        (Inl (NeverReady (ai_port inst)),
         appium_effects [Kill (ai_pid inst)]
           (free_port (ai_port inst) (m\<lparr>am_instances := AList.delete sid (am_instances m)\<rparr>)))
      else (Inr inst, m))"

definition appium_start ::
  "(int \<Rightarrow> bool) \<Rightarrow> nat option \<Rightarrow> time \<Rightarrow> (time \<times> bool) list \<Rightarrow> string \<Rightarrow> string \<Rightarrow> appium_manager \<Rightarrow>
   (appium_error + appium_instance) \<times> appium_manager" where
  "appium_start bound spawn now attempts sid serial m =
     (case appium_begin bound spawn sid serial m of
        (Inl e, m1) \<Rightarrow> (Inl e, m1)
      | (Inr (AlreadyRunning inst), m1) \<Rightarrow> (Inr inst, m1)
      | (Inr (Launched inst), m1) \<Rightarrow>
          appium_settle (wait_for_port (now + 30 * second_ns) attempts) sid inst m1)"

definition appium_stop :: "string \<Rightarrow> appium_manager \<Rightarrow> appium_manager" where
  "appium_stop sid m =
     (case map_of (am_instances m) sid of
        None \<Rightarrow> m
      | Some inst \<Rightarrow> appium_effects [Kill (ai_pid inst)]
          (free_port (ai_port inst) (m\<lparr>am_instances := AList.delete sid (am_instances m)\<rparr>)))"

definition appium_stop_all :: "appium_manager \<Rightarrow> appium_manager" where
  "appium_stop_all m = fold appium_stop (map fst (am_instances m)) m"

definition appium_get :: "string \<Rightarrow> appium_manager \<Rightarrow> appium_instance option" where
  "appium_get sid m = map_of (am_instances m) sid"

lemmas appium_ops = appium_begin_def appium_settle_def appium_stop_def appium_effects_def
  free_port_def reserve_port_def

subsection \<open>The ports\<close>

lemma find_free_port_Some:
  "find_free_port bound used port n = Some p \<Longrightarrow>
     port \<le> p \<and> p < port + int n \<and> p \<notin> set used \<and> \<not> bound p \<and>
     (\<forall>q. port \<le> q \<longrightarrow> q < p \<longrightarrow> q \<in> set used \<or> bound q)"
proof (induction bound used port n rule: find_free_port.induct)
  case (2 bound used port n)
  show ?case
  proof (cases "port \<in> set used \<or> bound port")
    case True
    then have "find_free_port bound used (port + 1) n = Some p" using "2.prems" by (auto split: if_splits)
    with True "2.IH" have ih: "port + 1 \<le> p \<and> p < port + 1 + int n \<and> p \<notin> set used \<and> \<not> bound p \<and>
        (\<forall>q. port + 1 \<le> q \<longrightarrow> q < p \<longrightarrow> q \<in> set used \<or> bound q)" by blast
    have "q \<in> set used \<or> bound q" if "port \<le> q" "q < p" for q
      using that True ih by (cases "q = port") auto
    with ih show ?thesis by auto
  next
    case False
    with "2.prems" show ?thesis by auto
  qed
qed simp

lemma find_free_port_None:
  "find_free_port bound used port n = None \<Longrightarrow> port \<le> q \<Longrightarrow> q < port + int n \<Longrightarrow> q \<in> set used \<or> bound q"
proof (induction bound used port n rule: find_free_port.induct)
  case (2 bound used port n)
  then show ?case by (cases "q = port") (auto split: if_splits)
qed simp

lemma find_free_port_step:
  "0 < n \<Longrightarrow> find_free_port bound used port n =
     (if port \<in> set used \<or> bound port then find_free_port bound used (port + 1) (n - 1) else Some port)"
  by (cases n) auto

interpretation appium_ports: resource_pool "reserve_port bound" free_port "\<lambda>m. set (am_used m)"
  "\<lambda>m. distinct (am_used m)"
  by unfold_locales
    (auto simp: reserve_port_def free_port_def distinct_removeAll dest: find_free_port_Some)


subsection \<open>Sessions and ports\<close>

definition appium_ports_of :: "appium_manager \<Rightarrow> int list" where
  "appium_ports_of m = map (ai_port \<circ> snd) (am_instances m)"

definition appium_ok :: "appium_manager \<Rightarrow> bool" where
  "appium_ok m \<longleftrightarrow> distinct (map fst (am_instances m)) \<and> distinct (am_used m) \<and>
     distinct (appium_ports_of m) \<and> set (am_used m) = set (appium_ports_of m) \<and>
     (\<forall>p \<in> set (am_used m). am_base m \<le> p \<and> p < am_base m + 100)"

lemma appium_ok_new: "appium_ok (new_appium_manager bin host ah jh)"
  by (simp add: appium_ok_def new_appium_manager_def appium_ports_of_def)

lemma appium_ok_log [simp]: "appium_ok (m\<lparr>am_log := l\<rparr>) = appium_ok m"
  by (simp add: appium_ok_def appium_ports_of_def)

lemma update_fresh: "map_of xs k = None \<Longrightarrow> AList.update k v xs = xs @ [(k, v)]"
  by (induction xs) (auto split: if_splits)

lemma appium_begin_fresh:
  assumes "map_of (am_instances m) sid = None" and "appium_available m"
    and "find_free_port bound (am_used m) (am_base m) 100 = Some port"
  shows "appium_begin bound (Some pid) sid serial m =
    (Inr (Launched (appium_instance_of m port serial pid)),
     m\<lparr>am_used := port # am_used m,
       am_instances := am_instances m @ [(sid, appium_instance_of m port serial pid)],
       am_log := am_log m @ [Launch (appium_args m port serial) (appium_env m)]\<rparr>)"
  by (simp add: assms appium_begin_def reserve_port_def appium_effects_def update_fresh Let_def)

lemma appium_begin_outcomes:
  assumes "appium_available m"
  shows "(\<exists>old. appium_begin bound spawn sid serial m = (Inr (AlreadyRunning old), m) \<and>
       map_of (am_instances m) sid = Some old) \<or>
    appium_begin bound spawn sid serial m = (Inl (NoFreePort (am_base m) (am_base m + 100)), m) \<and>
       find_free_port bound (am_used m) (am_base m) 100 = None \<or>
    spawn = None \<and> fst (appium_begin bound spawn sid serial m) = Inl StartFailed \<or>
    (\<exists>inst. fst (appium_begin bound spawn sid serial m) = Inr (Launched inst))"
  using assms by (simp add: appium_begin_def reserve_port_def Let_def split: option.split)

lemma appium_begin_Launched:
  assumes "appium_begin bound spawn sid serial m = (Inr (Launched inst), m')"
  shows "\<exists>port pid. map_of (am_instances m) sid = None \<and> appium_available m \<and> spawn = Some pid \<and>
    find_free_port bound (am_used m) (am_base m) 100 = Some port \<and> ai_port inst = port \<and>
    ai_serial inst = serial \<and> ai_pid inst = pid \<and>
    am_instances m' = am_instances m @ [(sid, inst)] \<and> am_used m' = port # am_used m \<and>
    am_base m' = am_base m \<and>
    am_log m' = am_log m @ [Launch (appium_args m port serial) (appium_env m)]"
proof -
  from assms show ?thesis
    by (auto simp: update_fresh appium_begin_def reserve_port_def appium_effects_def Let_def
        appium_instance_of_def split: if_splits option.splits)
qed

lemma appium_begin_other:
  assumes "appium_begin bound spawn sid serial m = (r, m')" and "\<And>inst. r \<noteq> Inr (Launched inst)"
  shows "am_instances m' = am_instances m \<and> am_used m' = am_used m \<and> am_base m' = am_base m"
  using assms
  by (auto simp: appium_begin_def reserve_port_def appium_effects_def free_port_def Let_def
      split: if_splits option.splits dest!: find_free_port_Some)

lemma appium_ok_begin:
  assumes "appium_ok m" and "appium_begin bound spawn sid serial m = (r, m')"
  shows "appium_ok m'"
proof (cases "\<exists>inst. r = Inr (Launched inst)")
  case True
  then obtain inst where "r = Inr (Launched inst)" by blast
  with assms(2) appium_begin_Launched obtain port where
    l: "map_of (am_instances m) sid = None" "find_free_port bound (am_used m) (am_base m) 100 = Some port"
      "ai_port inst = port" "am_instances m' = am_instances m @ [(sid, inst)]"
      "am_used m' = port # am_used m" "am_base m' = am_base m"
    by blast
  from find_free_port_Some [OF l(2)] l assms(1) show ?thesis
    by (auto simp: appium_ok_def appium_ports_of_def map_of_eq_None_iff)
next
  case False
  with appium_begin_other [OF assms(2)] assms(1) show ?thesis
    by (simp add: appium_ok_def appium_ports_of_def)
qed

lemma ports_delete:
  assumes "distinct (map fst xs)" and "distinct (map (ai_port \<circ> snd) xs)" and "map_of xs sid = Some inst"
  shows "distinct (map (ai_port \<circ> snd) (AList.delete sid xs)) \<and>
    set (map (ai_port \<circ> snd) (AList.delete sid xs)) = set (map (ai_port \<circ> snd) xs) - {ai_port inst}"
  using assms
proof (induction xs)
  case (Cons x xs)
  have *: "AList.delete sid xs = xs" if "sid \<notin> fst ` set xs"
    using that by (simp add: delete_idem)
  have "ai_port inst \<in> (ai_port \<circ> snd) ` set xs" if "map_of xs sid = Some inst"
    using map_of_SomeD [OF that] by force
  with Cons * show ?case by (auto simp: image_iff split: if_splits)
qed simp

text \<open>Removing a session together with the port its server holds.\<close>

lemma appium_ok_drop:
  assumes "appium_ok m" and "map_of (am_instances m) sid = Some inst"
  shows "appium_ok (free_port (ai_port inst) (m\<lparr>am_instances := AList.delete sid (am_instances m)\<rparr>))"
  using assms ports_delete [of "am_instances m" sid inst]
  by (auto simp: appium_ok_def appium_ports_of_def free_port_def distinct_removeAll keys_delete)

lemma appium_ok_stop: "appium_ok m \<Longrightarrow> appium_ok (appium_stop sid m)"
  by (auto simp: appium_stop_def appium_effects_def appium_ok_drop split: option.split)

lemma appium_ok_settle:
  "appium_ok m \<Longrightarrow> map_of (am_instances m) sid = Some inst \<Longrightarrow>
     appium_ok (snd (appium_settle ready sid inst m))"
  by (simp add: appium_settle_def appium_effects_def appium_ok_drop)


subsection \<open>Concurrent sessions\<close>

text \<open>Any interleaving of starts, their readiness results and stops. \<open>pending\<close> lists the starts whose
  caller still waits; a session is not stopped while its own start is pending.\<close>

inductive appium_run :: "appium_manager \<Rightarrow> (string \<times> appium_instance) list \<Rightarrow> bool" where
  fresh: "appium_run (new_appium_manager bin host ah jh) []"
| launch: "appium_run m ps \<Longrightarrow> appium_begin bound spawn sid serial m = (Inr (Launched inst), m') \<Longrightarrow>
     appium_run m' ((sid, inst) # ps)"
| no_launch: "appium_run m ps \<Longrightarrow> appium_begin bound spawn sid serial m = (r, m') \<Longrightarrow>
     (\<And>inst. r \<noteq> Inr (Launched inst)) \<Longrightarrow> appium_run m' ps"
| settle: "appium_run m ps \<Longrightarrow> (sid, inst) \<in> set ps \<Longrightarrow>
     appium_run (snd (appium_settle ready sid inst m)) (removeAll (sid, inst) ps)"
| stop: "appium_run m ps \<Longrightarrow> sid \<notin> fst ` set ps \<Longrightarrow> appium_run (appium_stop sid m) ps"

lemma settle_other:
  "sid' \<noteq> sid \<Longrightarrow> map_of (am_instances (snd (appium_settle ready sid inst m))) sid' =
     map_of (am_instances m) sid'"
  by (simp add: appium_settle_def appium_effects_def free_port_def delete_conv')

lemma stop_other:
  "sid' \<noteq> sid \<Longrightarrow> map_of (am_instances (appium_stop sid m)) sid' = map_of (am_instances m) sid'"
  by (simp add: appium_stop_def appium_effects_def free_port_def delete_conv' split: option.split)

lemma appium_run_ok:
  "appium_run m ps \<Longrightarrow> appium_ok m \<and> (\<forall>(sid, inst) \<in> set ps. map_of (am_instances m) sid = Some inst)"
proof (induction rule: appium_run.induct)
  case (fresh bin host ah jh)
  then show ?case by (simp add: appium_ok_new)
next
  case (launch m ps bound spawn sid serial inst m')
  from appium_begin_Launched [OF launch(2)]
  have l: "map_of (am_instances m) sid = None" "am_instances m' = am_instances m @ [(sid, inst)]"
    by blast+
  with launch show ?case
    using appium_ok_begin [OF _ launch(2)] by (auto simp: map_add_def split: option.split)
next
  case (no_launch m ps bound spawn sid serial r m')
  with appium_begin_other [OF no_launch(2)] appium_ok_begin [OF _ no_launch(2)] show ?case by simp
next
  case (settle m ps sid inst ready)
  then have i: "map_of (am_instances m) sid = Some inst" by blast
  have "map_of (am_instances (snd (appium_settle ready sid inst m))) sid' = Some inst'"
    if "(sid', inst') \<in> set (removeAll (sid, inst) ps)" for sid' inst'
  proof -
    from that settle(3) have j: "map_of (am_instances m) sid' = Some inst'" by auto
    with i that have "sid' \<noteq> sid" by auto
    then show ?thesis using j by (simp add: settle_other)
  qed
  with settle i show ?case by (auto simp: appium_ok_settle)
next
  case (stop m ps sid)
  have "map_of (am_instances (appium_stop sid m)) sid' = Some inst'"
    if "(sid', inst') \<in> set ps" for sid' inst'
    using stop that by (subst stop_other) force+
  with stop show ?case by (auto simp: appium_ok_stop)
qed


definition sample_manager :: appium_manager where
  "sample_manager = new_appium_manager (Some ''/bin/appium'') ''10.0.0.2'' [] []"

lemma sample_begin:
  fixes m1 :: appium_manager and i :: appium_instance
  defines "i \<equiv> appium_instance_of sample_manager 4724 ''e1'' 7"
    and "m1 \<equiv> sample_manager\<lparr>am_used := [4724],
        am_instances := [(''s1'', appium_instance_of sample_manager 4724 ''e1'' 7)],
        am_log := [Launch (appium_args sample_manager 4724 ''e1'') (appium_env sample_manager)]\<rparr>"
  shows "appium_begin (\<lambda>p. p = 4723) (Some 7) ''s1'' ''e1'' sample_manager = (Inr (Launched i), m1)"
    and "appium_begin (\<lambda>p. p = 4723) (Some 8) ''s2'' ''e2'' m1 =
      (Inr (Launched (appium_instance_of m1 4725 ''e2'' 8)),
       m1\<lparr>am_used := [4725, 4724],
         am_instances := [(''s1'', i), (''s2'', appium_instance_of m1 4725 ''e2'' 8)],
         am_log := am_log m1 @ [Launch (appium_args m1 4725 ''e2'') (appium_env m1)]\<rparr>)"
  unfolding i_def m1_def
  by (subst appium_begin_fresh; simp add: sample_manager_def new_appium_manager_def appium_available_def
      find_free_port_step)+



subsection \<open>One start\<close>

lemma drop_fresh:
  assumes "map_of (am_instances m) sid = None" and "p \<notin> set (am_used m)"
    and "am_instances m' = am_instances m @ [(sid, inst)]" and "am_used m' = p # am_used m"
  shows "AList.delete sid (am_instances m') = am_instances m \<and> removeAll p (am_used m') = am_used m"
proof -
  have "AList.delete sid (xs @ [(sid, inst)]) = xs" if "map_of xs sid = None" for xs
    using that by (induction xs) (auto split: if_splits)
  with assms show ?thesis by simp
qed

lemma reserve_port_None: "reserve_port bound m = None \<longleftrightarrow> find_free_port bound (am_used m) (am_base m) 100 = None"
  by (simp add: reserve_port_def)

text \<open>What starting a server for a session does. A session that has one keeps it; otherwise it
  gets the lowest port of the 100 that is neither reserved nor bound, its server answers on the local
  address of this port and only this session is added. When it fails, by whatever reason, the sessions
  and the reservations are as they were, a launched process is killed, and for want of a port it fails only when
  all 100 are taken. Stopping the session undoes the start.\<close>

theorem appium_start_correct:
  assumes "appium_ok m" and "appium_available m"
  shows "case appium_start bound spawn now attempts sid serial m of
      (Inr inst, m') \<Rightarrow>
        appium_get sid m' = Some inst \<and> appium_ok m' \<and>
        (case appium_get sid m of
           Some old \<Rightarrow> inst = old \<and> m' = m
         | None \<Rightarrow> ai_port inst \<notin> set (am_used m) \<and> \<not> bound (ai_port inst) \<and> ai_serial inst = serial \<and>
             ai_local inst = ''http://127.0.0.1:'' @ itoa (ai_port inst) \<and>
             (\<forall>q. am_base m \<le> q \<longrightarrow> q < ai_port inst \<longrightarrow> q \<in> set (am_used m) \<or> bound q) \<and>
             am_used m' = ai_port inst # am_used m \<and>
             am_instances (appium_stop sid m') = am_instances m \<and> am_used (appium_stop sid m') = am_used m)
    | (Inl e, m') \<Rightarrow>
        am_instances m' = am_instances m \<and> am_used m' = am_used m \<and>
        (case e of
           NoFreePort lo hi \<Rightarrow> m' = m \<and> (\<forall>q. am_base m \<le> q \<longrightarrow> q < am_base m + 100 \<longrightarrow> q \<in> set (am_used m) \<or> bound q)
         | NeverReady p \<Rightarrow> (\<exists>pid. spawn = Some pid \<and> last (am_log m') = Kill pid)
         | StartFailed \<Rightarrow> spawn = None
         | NotInstalled \<Rightarrow> False)"
proof (cases "appium_begin bound spawn sid serial m")
  case (Pair r m1)
  show ?thesis
  proof (cases "\<exists>inst. r = Inr (Launched inst)")
    case True
    then obtain inst where r: "r = Inr (Launched inst)" by blast
    from Pair r obtain port pid where l: "map_of (am_instances m) sid = None" "spawn = Some pid"
      "find_free_port bound (am_used m) (am_base m) 100 = Some port" by (blast dest: appium_begin_Launched)
    note e = appium_begin_fresh [OF l(1) assms(2) l(3), of pid serial]
    from e Pair r l(2) have m1: "inst = appium_instance_of m port serial pid"
      "am_instances m1 = am_instances m @ [(sid, inst)]" "am_used m1 = port # am_used m" by auto
    note p = find_free_port_Some [OF l(3)]
    have d: "AList.delete sid (am_instances m1) = am_instances m" "removeAll port (am_used m1) = am_used m"
      using drop_fresh [OF l(1) _ m1(2,3)] p by auto
    have pp: "ai_port inst = port" "ai_pid inst = pid" "ai_serial inst = serial"
      "ai_local inst = ''http://127.0.0.1:'' @ itoa port" by (simp_all add: m1(1) appium_instance_of_def)
    have g: "map_of (am_instances m1) sid = Some inst" using l(1) by (simp add: m1(2) map_add_def)
    let ?ready = "wait_for_port (now + 30 * second_ns) attempts"
    have start: "appium_start bound spawn now attempts sid serial m = appium_settle ?ready sid inst m1"
      by (simp add: appium_start_def Pair r)
    have stop: "am_instances (appium_stop sid m1) = am_instances m" "am_used (appium_stop sid m1) = am_used m"
      unfolding appium_stop_def g option.case by (simp_all add: appium_effects_def free_port_def pp d)
    have ok: "appium_ok m1" by (rule appium_ok_begin [OF assms(1) Pair])
    show ?thesis
    proof (cases ?ready)
      case True
      then show ?thesis
        using l(1) p by (simp add: start appium_settle_def appium_get_def g pp m1(3) stop ok)
    next
      case False
      then show ?thesis
        unfolding start by (simp add: appium_settle_def appium_effects_def free_port_def pp d l(2))
    qed
  next
    case False
    have o: "am_instances m1 = am_instances m" "am_used m1 = am_used m"
      using appium_begin_other [OF Pair] False by auto
    consider old where "r = Inr (AlreadyRunning old)" "m1 = m" "map_of (am_instances m) sid = Some old"
      | "r = Inl (NoFreePort (am_base m) (am_base m + 100))" "m1 = m"
        "find_free_port bound (am_used m) (am_base m) 100 = None"
      | "spawn = None" "r = Inl StartFailed"
      using appium_begin_outcomes [OF assms(2), of bound spawn sid serial] False unfolding Pair prod.inject fst_conv
      by metis
    then show ?thesis
    proof cases
      case 1
      then show ?thesis using assms(1) by (simp add: appium_start_def Pair appium_get_def)
    next
      case 2
      then show ?thesis using find_free_port_None [OF 2(3)] by (simp add: appium_start_def Pair)
    next
      case 3
      then show ?thesis using o unfolding appium_start_def Pair by simp
    qed
  qed
qed

theorem appium_start_correct_witness:
  "\<exists>inst m'. appium_start (\<lambda>p. p = 4723) (Some 7) 0 [(0, False), (second_ns, True)] ''s1'' ''e1'' sample_manager =
     (Inr inst, m') \<and> ai_port inst = 4724 \<and> am_used (appium_stop ''s1'' m') = []"
proof -
  have "appium_ok sample_manager" by (simp add: sample_manager_def appium_ok_new)
  moreover have "appium_available sample_manager"
    by (simp add: sample_manager_def new_appium_manager_def appium_available_def)
  ultimately show ?thesis
    using appium_start_correct [where m = sample_manager and bound = "\<lambda>p. p = 4723" and spawn = "Some 7"
        and now = 0 and attempts = "[(0, False), (second_ns, True)]" and sid = "''s1''" and serial = "''e1''"]
    by (simp add: appium_start_def sample_begin(1) appium_settle_def second_ns_def appium_get_def
        appium_instance_of_def) (simp add: sample_manager_def new_appium_manager_def)
qed

subsection \<open>A start that is stopped while it waits\<close>

text \<open>The failure path of a start trusts that nobody stopped the session while it waited. If an
  eviction stops it and another session starts meanwhile, that one gets the same port, and the late
  failure of the first start then unreserves the port of the second session's running server: the next
  session is given the port too.\<close>

theorem late_failure_frees_foreign_port:
  assumes "appium_ok m" and "distinct [sid1, sid2, sid3]"
    and "appium_get sid2 m = None" and "appium_get sid3 m = None"
    and "appium_begin bound (Some pid1) sid1 serial1 m = (Inr (Launched first), m1)"
    and "appium_begin bound (Some pid2) sid2 serial2 (appium_stop sid1 m1) = (Inr (Launched second), m2)"
    and "m3 = snd (appium_settle False sid1 first m2)"
    and "appium_begin bound (Some pid3) sid3 serial3 m3 = (Inr (Launched third), m4)"
  shows "appium_get sid2 m4 = Some second \<and> appium_get sid3 m4 = Some third \<and>
    ai_port second = ai_port first \<and> ai_port third = ai_port second \<and> \<not> appium_ok m4"
proof -
  from appium_begin_Launched [OF assms(5)] obtain port where f:
    "map_of (am_instances m) sid1 = None" "find_free_port bound (am_used m) (am_base m) 100 = Some port"
    "ai_port first = port" "am_instances m1 = am_instances m @ [(sid1, first)]" "am_used m1 = port # am_used m"
    "am_base m1 = am_base m" by blast
  note p = find_free_port_Some [OF f(2)]
  have g: "map_of (am_instances m1) sid1 = Some first" using f(1) by (simp add: f(4) map_add_def)
  have s: "am_instances (appium_stop sid1 m1) = am_instances m" "am_used (appium_stop sid1 m1) = am_used m"
    "am_base (appium_stop sid1 m1) = am_base m"
    using drop_fresh [OF f(1) _ f(4,5)] p unfolding appium_stop_def g option.case
    by (simp_all add: appium_effects_def free_port_def f(3,6))
  from appium_begin_Launched [OF assms(6)] s f(2)
  have t: "ai_port second = port" "am_instances m2 = am_instances m @ [(sid2, second)]"
    "am_used m2 = port # am_used m" "am_base m2 = am_base m" by auto
  have "AList.delete sid1 (am_instances m2) = am_instances m2"
    using f(1) assms(2) by (auto simp: t(2) map_of_eq_None_iff)
  then have u: "am_instances m3 = am_instances m @ [(sid2, second)]" "am_used m3 = am_used m"
    "am_base m3 = am_base m"
    using p t f(3) by (auto simp: assms(7) appium_settle_def appium_effects_def free_port_def)
  from appium_begin_Launched [OF assms(8)] u f(2)
  have v: "ai_port third = port" "am_instances m4 = am_instances m @ [(sid2, second), (sid3, third)]" by auto
  have "\<not> distinct (appium_ports_of m4)" by (simp add: appium_ports_of_def v t(1))
  then have "\<not> appium_ok m4" by (simp add: appium_ok_def)
  with assms(2,3,4) v t(1) f(3) show ?thesis
    by (auto simp: appium_get_def map_add_def split: option.split)
qed


lemma appium_begin_succeeds:
  assumes "map_of (am_instances m) sid = None" and "am_bin m \<noteq> []"
    and "find_free_port bound (am_used m) (am_base m) 100 = Some port"
  obtains inst m' where "appium_begin bound (Some pid) sid serial m = (Inr (Launched inst), m')"
    "am_instances m' = am_instances m @ [(sid, inst)]" "am_used m' = port # am_used m"
    "am_base m' = am_base m" "am_bin m' = am_bin m" "ai_port inst = port"
  using appium_begin_fresh [OF assms(1) _ assms(3), of pid serial] assms(2)
  by (simp add: appium_available_def appium_instance_of_def)

theorem late_failure_frees_foreign_port_witness:
  "\<exists>m i j. appium_get ''b'' m = Some i \<and> appium_get ''c'' m = Some j \<and> ai_port i = ai_port j"
proof -
  let ?m = "new_appium_manager (Some ''appium'') [] [] []"
  have m: "am_instances ?m = []" "am_used ?m = []" "am_base ?m = 4723" "am_bin ?m = ''appium''"
    by (simp_all add: new_appium_manager_def)
  have find: "find_free_port (\<lambda>_. False) [] 4723 100 = Some 4723" by (simp add: find_free_port_step)
  obtain first m1 where 1: "appium_begin (\<lambda>_. False) (Some 1) ''a'' ''e1'' ?m = (Inr (Launched first), m1)"
    "am_instances m1 = [(''a'', first)]" "am_used m1 = [4723]" "am_base m1 = 4723" "am_bin m1 = ''appium''"
    "ai_port first = 4723"
    by (rule appium_begin_succeeds [of ?m "''a''" "\<lambda>_. False" 4723 1 "''e1''"]) (simp_all add: m find)
  have s: "am_instances (appium_stop ''a'' m1) = []" "am_used (appium_stop ''a'' m1) = []"
    "am_base (appium_stop ''a'' m1) = 4723" "am_bin (appium_stop ''a'' m1) = ''appium''"
    using 1 by (simp_all add: appium_stop_def appium_effects_def free_port_def)
  obtain second m2 where 2: "appium_begin (\<lambda>_. False) (Some 2) ''b'' ''e2'' (appium_stop ''a'' m1) =
      (Inr (Launched second), m2)"
    "am_instances m2 = [(''b'', second)]" "am_used m2 = [4723]" "am_base m2 = 4723" "am_bin m2 = ''appium''"
    "ai_port second = 4723"
    by (rule appium_begin_succeeds [of "appium_stop ''a'' m1" "''b''" "\<lambda>_. False" 4723 2 "''e2''"])
      (simp_all add: s find)
  let ?m3 = "snd (appium_settle False ''a'' first m2)"
  have u: "am_instances ?m3 = [(''b'', second)]" "am_used ?m3 = []" "am_base ?m3 = 4723" "am_bin ?m3 = ''appium''"
    using 1 2 by (simp_all add: appium_settle_def appium_effects_def free_port_def)
  obtain third m4 where 3: "appium_begin (\<lambda>_. False) (Some 3) ''c'' ''e3'' ?m3 = (Inr (Launched third), m4)"
    by (rule appium_begin_succeeds [of ?m3 "''c''" "\<lambda>_. False" 4723 3 "''e3''"]) (simp_all add: u find)
  have "appium_get ''b'' m4 = Some second \<and> appium_get ''c'' m4 = Some third \<and>
      ai_port third = ai_port second"
    using late_failure_frees_foreign_port [OF appium_ok_new _ _ _ 1(1) 2(1) refl 3]
    by (simp add: appium_get_def m)
  then show ?thesis by (intro exI [of _ m4] exI [of _ second] exI [of _ third]) simp
qed

end
