(* ===== verification/License.thy ===== *)
theory License
  imports Prelude
begin

text \<open>
  \<^verbatim>\<open>internal/license\<close>: tiers, their limits and the validator. A limit of -1 is unlimited. The validator
  is the licence it holds, if any; \<^verbatim>\<open>time.Now()\<close> is an argument.
\<close>

record tier_limits =
  max_emulators :: int
  max_nodes :: int
  max_seats :: int
  max_session_minutes :: int
  features :: "string list"

type_synonym tier = string

definition tier_starter :: tier where "tier_starter = ''starter''"
definition tier_pro :: tier where "tier_pro = ''pro''"
definition tier_enterprise :: tier where "tier_enterprise = ''enterprise''"

definition starter_limits :: tier_limits where
  "starter_limits = \<lparr>max_emulators = 2, max_nodes = 1, max_seats = 2, max_session_minutes = 30,
     features = [''android'', ''basic_logs'', ''screenshots'', ''dashboard_cli'']\<rparr>"

definition pro_limits :: tier_limits where
  "pro_limits = \<lparr>max_emulators = -1, max_nodes = -1, max_seats = -1, max_session_minutes = -1,
     features = [''android'', ''ios'', ''federation'', ''network_sim'', ''video'', ''har'', ''crash_dumps'',
       ''analytics'', ''dashboard'', ''interactive_sessions'', ''session_sharing'', ''visual_baseline'',
       ''device_features_full'', ''ci_cd_all'']\<rparr>"

definition enterprise_limits :: tier_limits where
  "enterprise_limits = \<lparr>max_emulators = -1, max_nodes = -1, max_seats = -1, max_session_minutes = -1,
     features = [''*'']\<rparr>"

text \<open>A Go map: a key that is missing reads as the zero value.\<close>

definition limits_of :: "tier \<Rightarrow> tier_limits" where
  "limits_of t =
     (if t = tier_starter then starter_limits
      else if t = tier_pro then pro_limits
      else if t = tier_enterprise then enterprise_limits
      else \<lparr>max_emulators = 0, max_nodes = 0, max_seats = 0, max_session_minutes = 0, features = []\<rparr>)"

record license =
  lic_key :: string
  lic_tier :: tier
  lic_expires :: time
  lic_limits :: tier_limits

definition is_unlimited :: "int \<Rightarrow> bool" where
  "is_unlimited limit \<longleftrightarrow> limit = -1"

definition has_feature :: "string \<Rightarrow> license \<Rightarrow> bool" where
  "has_feature f l = list_ex (\<lambda>g. g = ''*'' \<or> g = f) (features (lic_limits l))"

definition license_expired :: "time \<Rightarrow> license \<Rightarrow> bool" where
  "license_expired now l \<longleftrightarrow> lic_expires l < now"

type_synonym validator = "license option"

definition new_validator :: validator where
  "new_validator = None"

definition year_ns :: duration where "year_ns = 365 * 24 * hour_ns"

definition license_validate :: "time \<Rightarrow> string \<Rightarrow> validator \<Rightarrow> license \<times> validator" where
  "license_validate now key v =
     (let l = \<lparr>lic_key = key, lic_tier = tier_pro, lic_expires = now + year_ns, lic_limits = limits_of tier_pro\<rparr>
      in (l, Some l))"

definition current_license :: "time \<Rightarrow> validator \<Rightarrow> license" where
  "current_license now v =
     (case v of
        Some l \<Rightarrow> l
      | None \<Rightarrow> \<lparr>lic_key = [], lic_tier = tier_starter, lic_expires = now + year_ns,
          lic_limits = limits_of tier_starter\<rparr>)"

definition can_create_session :: "time \<Rightarrow> int \<Rightarrow> validator \<Rightarrow> bool" where
  "can_create_session now emulators v =
     (let lic = current_license now v
      in if license_expired now lic then False
         else if is_unlimited (max_emulators (lic_limits lic)) then True
         else emulators < max_emulators (lic_limits lic))"

definition max_session_duration :: "time \<Rightarrow> validator \<Rightarrow> duration" where
  "max_session_duration now v =
     (let lic = current_license now v
      in if is_unlimited (max_session_minutes (lic_limits lic)) then 0
         else dur_mul (max_session_minutes (lic_limits lic)) minute_ns)"

subsection \<open>What a validator allows over time\<close>

lemmas license_simps = current_license_def license_expired_def can_create_session_def is_unlimited_def
  limits_of_def tier_starter_def tier_pro_def tier_enterprise_def starter_limits_def pro_limits_def
  enterprise_limits_def year_ns_def hour_ns_def minute_ns_def max_session_duration_def

text \<open>Without a licence two emulators for half an hour, at any time; a validated key allows any number
  without a time limit for a year, whatever the key, and nothing after it, not even what no licence
  would allow.\<close>

theorem license_over_time:
  "can_create_session now n new_validator = (n < 2)"
  "max_session_duration now new_validator = 30 * minute_ns"
  "snd (license_validate start key v) = Some (fst (license_validate start key v))"
  "can_create_session now n (snd (license_validate start key v)) = (now \<le> start + year_ns)"
  "max_session_duration now (snd (license_validate start key v)) = 0"
  by (auto simp: license_validate_def new_validator_def license_simps Let_def dur_mul_def
      wrap64_def signed_take_bit_eq_if_positive)

lemma features_by_tier:
  "has_feature f \<lparr>lic_key = k, lic_tier = tier_enterprise, lic_expires = e, lic_limits = limits_of tier_enterprise\<rparr>"
  "has_feature f \<lparr>lic_key = k, lic_tier = tier_starter, lic_expires = e, lic_limits = limits_of tier_starter\<rparr> \<longleftrightarrow>
     f \<in> set (features starter_limits)"
  by (auto simp: has_feature_def license_simps)

end
