(* ===== verification/Health.thy ===== *)
theory Health
  imports Instance
begin

text \<open>
  \<^verbatim>\<open>internal/health\<close>: the periodic checker and its probes. The checker holds pointers to pool instances;
  \<open>hc_instances\<close> is the map with the objects behind the pointers. The callback \<^verbatim>\<open>onUnhealthy\<close> is a log.
\<close>

datatype probe = BootProbe | ScreenProbe

definition boot_probe_check :: "adb_client \<Rightarrow> string \<Rightarrow> bool io" where
  "boot_probe_check c serial = do {
     val \<leftarrow> adb_get_prop c serial ''sys.boot_completed'';
     State_Monad.return (map_option trim_space val = Some ''1'') }"

definition screen_probe_check :: "adb_client \<Rightarrow> string \<Rightarrow> bool io" where
  "screen_probe_check c serial = do {
     data \<leftarrow> adb_screencap c serial;
     State_Monad.return (case data of None \<Rightarrow> False | Some d \<Rightarrow> \<not> length d < 100) }"

fun probe_check :: "adb_client \<Rightarrow> probe \<Rightarrow> string \<Rightarrow> bool io" where
  "probe_check c BootProbe serial = boot_probe_check c serial"
| "probe_check c ScreenProbe serial = screen_probe_check c serial"

fun probe_name :: "probe \<Rightarrow> string" where
  "probe_name BootProbe = ''boot''"
| "probe_name ScreenProbe = ''screen''"

text \<open>The probes in order, up to the first that fails.\<close>

fun run_probes :: "adb_client \<Rightarrow> string \<Rightarrow> probe list \<Rightarrow> bool io" where
  "run_probes c serial [] = State_Monad.return True"
| "run_probes c serial (p # ps) = do {
     ok \<leftarrow> probe_check c p serial;
     if ok then run_probes c serial ps else State_Monad.return False }"

record checker =
  hc_probes :: "probe list"
  hc_interval :: duration
  hc_threshold :: int
  hc_instances :: "(string \<times> device_instance) list"
  hc_unhealthy :: "string list"

definition new_checker :: "probe list \<Rightarrow> duration \<Rightarrow> int \<Rightarrow> checker" where
  "new_checker ps interval threshold =
     \<lparr>hc_probes = ps, hc_interval = interval, hc_threshold = threshold, hc_instances = [], hc_unhealthy = []\<rparr>"

definition checker_register :: "device_instance \<Rightarrow> checker \<Rightarrow> checker" where
  "checker_register i ck = ck\<lparr>hc_instances := AList.update (inst_id i) i (hc_instances ck)\<rparr>"

definition checker_unregister :: "string \<Rightarrow> checker \<Rightarrow> checker" where
  "checker_unregister k ck = ck\<lparr>hc_instances := AList.delete k (hc_instances ck)\<rparr>"

definition checked_state :: "device_state \<Rightarrow> bool" where
  "checked_state s \<longleftrightarrow> s = StateWarm \<or> s = StateAllocated"

definition device_check :: "adb_client \<Rightarrow> probe list \<Rightarrow> device_instance \<Rightarrow> bool io" where
  "device_check c ps i = (case inst_device i of Some d \<Rightarrow> device_health c d | None \<Rightarrow> run_probes c [] ps)"

text \<open>What a result does to the instance and to the list of reported ids.\<close>

definition settle_check :: "time \<Rightarrow> string \<Rightarrow> bool \<Rightarrow> device_instance \<Rightarrow> checker \<Rightarrow> checker" where
  "settle_check now k healthy i ck =
     (let i1 = record_health_check healthy now i;
          ck1 = ck\<lparr>hc_instances := upd_entry k (\<lambda>_. i1) (hc_instances ck)\<rparr>
      in if \<not> healthy \<and> hc_threshold ck \<le> health_fails i1
         then ck1\<lparr>hc_unhealthy := hc_unhealthy ck @ [inst_id i]\<rparr> else ck1)"

definition check_instance :: "adb_client \<Rightarrow> time \<Rightarrow> string \<Rightarrow> device_instance \<Rightarrow> checker \<Rightarrow> checker io" where
  "check_instance c now k i ck = do {
     healthy \<leftarrow> device_check c (hc_probes ck) i;
     State_Monad.return (settle_check now k healthy i ck) }"

text \<open>The snapshot under the lock, then one check after the other without it.\<close>

definition to_check :: "checker \<Rightarrow> (string \<times> device_instance) list" where
  "to_check ck = filter (\<lambda>(k, i). checked_state (inst_state i)) (hc_instances ck)"

fun check_each :: "adb_client \<Rightarrow> time \<Rightarrow> (string \<times> device_instance) list \<Rightarrow> checker \<Rightarrow> checker io" where
  "check_each c now [] ck = State_Monad.return ck"
| "check_each c now ((k, i) # rest) ck = do {
     ck1 \<leftarrow> check_instance c now k i ck; check_each c now rest ck1 }"

definition check_all :: "adb_client \<Rightarrow> time \<Rightarrow> checker \<Rightarrow> checker io" where
  "check_all c now ck = check_each c now (to_check ck) ck"

subsection \<open>One round\<close>

lemma settle_check_fields [simp]:
  "hc_threshold (settle_check now k healthy i ck) = hc_threshold ck"
  "hc_probes (settle_check now k healthy i ck) = hc_probes ck"
  "hc_instances (settle_check now k healthy i ck) =
     upd_entry k (\<lambda>_. record_health_check healthy now i) (hc_instances ck)"
  "hc_unhealthy (settle_check now k healthy i ck) = hc_unhealthy ck @
     (if \<not> healthy \<and> hc_threshold ck \<le> health_fails i + 1 then [inst_id i] else [])"
  by (auto simp: settle_check_def record_health_check_def Let_def)

text \<open>The results of a list of checks, one per instance, and what they amount to.\<close>

definition reported :: "int \<Rightarrow> (string \<times> device_instance) list \<Rightarrow> bool list \<Rightarrow> string list" where
  "reported th xs rs =
     map (\<lambda>((k, i), healthy). inst_id i)
       (filter (\<lambda>((k, i), healthy). \<not> healthy \<and> th \<le> health_fails i + 1) (zip xs rs))"

lemma check_each_result:
  assumes "run_state (check_each c now xs ck) h = (ck', h')" and "distinct (map fst xs)"
  shows "\<exists>rs. length rs = length xs \<and> hc_unhealthy ck' = hc_unhealthy ck @ reported (hc_threshold ck) xs rs \<and>
    (\<forall>k. map_of (hc_instances ck') k =
      (case map_of (zip (map fst xs) (zip (map snd xs) rs)) k of
         None \<Rightarrow> map_of (hc_instances ck) k
       | Some (i, healthy) \<Rightarrow> map_option (\<lambda>_. record_health_check healthy now i) (map_of (hc_instances ck) k)))"
  using assms
proof (induction xs arbitrary: ck h)
  case Nil
  then show ?case by (intro exI [of _ "[]"]) (simp add: reported_def)
next
  case (Cons x xs)
  obtain k i where x: "x = (k, i)" by (cases x)
  obtain r h1 where r: "run_state (device_check c (hc_probes ck) i) h = (r, h1)" by fastforce
  let ?ck = "settle_check now k r i ck"
  have e: "run_state (check_each c now xs ?ck) h1 = (ck', h')"
    using Cons.prems(1) r by (simp add: x check_instance_def)
  from Cons.IH [OF e] Cons.prems(2) obtain rs where rs: "length rs = length xs"
    "hc_unhealthy ck' = hc_unhealthy ?ck @ reported (hc_threshold ck) xs rs"
    "\<And>k'. map_of (hc_instances ck') k' =
      (case map_of (zip (map fst xs) (zip (map snd xs) rs)) k' of
         None \<Rightarrow> map_of (hc_instances ?ck) k'
       | Some (j, healthy) \<Rightarrow> map_option (\<lambda>_. record_health_check healthy now j) (map_of (hc_instances ?ck) k'))"
    by auto
  have k: "map_of (zip (map fst xs) (zip (map snd xs) rs)) k = None"
    using Cons.prems(2) x by (auto simp: map_of_eq_None_iff dest: set_zip_leftD)
  show ?case
  proof (intro exI [of _ "r # rs"] conjI allI)
    show "map_of (hc_instances ck') k' =
      (case map_of (zip (map fst (x # xs)) (zip (map snd (x # xs)) (r # rs))) k' of
         None \<Rightarrow> map_of (hc_instances ck) k'
       | Some (j, healthy) \<Rightarrow> map_option (\<lambda>_. record_health_check healthy now j) (map_of (hc_instances ck) k'))" for k'
      using rs(3) [of k'] k by (cases "k' = k") (simp_all add: x map_of_upd_entry split: option.split)
  qed (use rs(1,2) in \<open>auto simp: x reported_def\<close>)
qed

definition checked_serial :: "device_instance \<Rightarrow> string" where
  "checked_serial i = (case inst_device i of None \<Rightarrow> [] | Some d \<Rightarrow> device_serial d)"

lemma only_dev_run_probes: "only_dev c s (run_probes c s ps)"
proof -
  have "only_dev c s (probe_check c p s)" for p
    by (cases p) (simp_all add: boot_probe_check_def screen_probe_check_def issues_intros)
  then show ?thesis by (induction ps) (auto intro!: issues_intros)
qed

lemma only_dev_device_check: "only_dev c (checked_serial i) (device_check c ps i)"
  by (simp add: device_check_def checked_serial_def only_dev_healths only_dev_run_probes split: option.split)

lemma issues_check_each:
  "issues (\<lambda>cmd. \<exists>(k, i) \<in> set xs. for_dev c (checked_serial i) cmd) (check_each c now xs ck)"
proof (induction xs arbitrary: ck)
  case (Cons x xs)
  have "issues (\<lambda>cmd. \<exists>(k, i) \<in> set (x # xs). for_dev c (checked_serial i) cmd) (check_each c now xs ck1)" for ck1
    by (rule issues_mono [OF Cons]) auto
  moreover have "issues (\<lambda>cmd. \<exists>(k, i) \<in> set (x # xs). for_dev c (checked_serial i) cmd)
      (device_check c (hc_probes ck) (snd x))"
    by (rule issues_mono [OF only_dev_device_check]) (auto split: prod.split)
  ultimately show ?case by (cases x) (auto simp: check_instance_def intro!: issues_intros)
qed (simp add: issues_intros)

text \<open>One round of health checks changes exactly the registered instances that are warm or
  allocated, and those only in their health record: each is checked once, a failure adds one to its
  count and a success clears it. Reported as unhealthy, in order, are exactly those that failed with the
  count at the threshold, again in every round that follows. No command goes to another device.\<close>

theorem health_round_correct:
  assumes "distinct (map fst (hc_instances ck))" and "run_state (check_all c now ck) h = (ck', h')"
  shows "\<exists>rs. length rs = length (to_check ck) \<and>
    hc_unhealthy ck' = hc_unhealthy ck @ reported (hc_threshold ck) (to_check ck) rs \<and>
    (\<forall>k i. map_of (hc_instances ck) k = Some i \<longrightarrow> \<not> checked_state (inst_state i) \<longrightarrow>
       map_of (hc_instances ck') k = Some i) \<and>
    (\<forall>n < length rs. map_of (hc_instances ck') (fst (to_check ck ! n)) =
       Some (record_health_check (rs ! n) now (snd (to_check ck ! n)))) \<and>
    issues (\<lambda>cmd. \<exists>(k, i) \<in> set (to_check ck). for_dev c (checked_serial i) cmd) (check_all c now ck)"
proof -
  have d: "distinct (map fst (to_check ck))"
    using assms(1) by (simp add: to_check_def distinct_map_filter)
  from check_each_result [OF assms(2) [unfolded check_all_def] d] obtain rs where
    rs: "length rs = length (to_check ck)"
    "hc_unhealthy ck' = hc_unhealthy ck @ reported (hc_threshold ck) (to_check ck) rs" and
    m: "map_of (hc_instances ck') k =
      (case map_of (zip (map fst (to_check ck)) (zip (map snd (to_check ck)) rs)) k of
         None \<Rightarrow> map_of (hc_instances ck) k
       | Some (i, healthy) \<Rightarrow> map_option (\<lambda>_. record_health_check healthy now i) (map_of (hc_instances ck) k))" for k
    by blast
  have "map_of (hc_instances ck') k = Some i"
    if k: "map_of (hc_instances ck) k = Some i" "\<not> checked_state (inst_state i)" for k i
  proof -
    have "k \<notin> fst ` set (to_check ck)"
      using k by (auto simp: to_check_def dest!: map_of_SomeD dest: eq_key_imp_eq_value [OF assms(1)])
    then have "map_of (zip (map fst (to_check ck)) (zip (map snd (to_check ck)) rs)) k = None"
      by (auto simp: map_of_eq_None_iff dest!: set_zip_leftD)
    with m k show ?thesis by simp
  qed
  moreover have "map_of (hc_instances ck') (fst (to_check ck ! n)) =
      Some (record_health_check (rs ! n) now (snd (to_check ck ! n)))" if n: "n < length rs" for n
  proof -
    let ?k = "fst (to_check ck ! n)"
    have "(to_check ck ! n) \<in> set (to_check ck)" using n rs(1) by simp
    then have "(?k, snd (to_check ck ! n)) \<in> set (hc_instances ck)" by (auto simp: to_check_def)
    then have i: "map_of (hc_instances ck) ?k = Some (snd (to_check ck ! n))"
      using map_of_set_iff [OF assms(1)] by blast
    have "map_of (zip (map fst (to_check ck)) (zip (map snd (to_check ck)) rs)) ?k =
        Some (snd (to_check ck ! n), rs ! n)"
      using map_of_zip_nth [of "map fst (to_check ck)" "zip (map snd (to_check ck)) rs" n] d n rs(1) by simp
    with m [of ?k] i show ?thesis by simp
  qed
  ultimately show ?thesis using rs issues_check_each [of "to_check ck" c now ck] unfolding check_all_def by blast
qed

definition sick_phone :: device_instance where
  "sick_phone = \<lparr>inst_id = ''a'', inst_node = ''n'', display_info = [], profile_name = [], inst_state = StateWarm,
     session_id = [], created_at = 1, allocated_at = None, last_activity = 1, last_healthy = 1, health_fails = 2,
     reserved = False, reserved_label = [], inst_device = Some (Usb (new_usb_device ''e''))\<rparr>"

theorem health_round_correct_witness:
  "\<exists>ck' h'. run_state (check_all (quiet_client\<lparr>run_oracle := (\<lambda>h cmd. None)\<rparr>) 5
       (checker_register sick_phone (new_checker [BootProbe] second_ns 3))) [] = (ck', h') \<and>
     hc_unhealthy ck' = [''a''] \<and>
     map_of (hc_instances ck') ''a'' = Some (sick_phone\<lparr>health_fails := 3\<rparr>)"
proof -
  let ?c = "quiet_client\<lparr>run_oracle := (\<lambda>h cmd. None)\<rparr>"
  let ?ck = "checker_register sick_phone (new_checker [BootProbe] second_ns 3)"
  have t: "to_check ?ck = [(''a'', sick_phone)]" "hc_unhealthy ?ck = []" "hc_threshold ?ck = 3"
    by (simp_all add: to_check_def checker_register_def new_checker_def sick_phone_def checked_state_def)
  obtain ck' h' where r: "run_state (check_all ?c 5 ?ck) [] = (ck', h')" by fastforce
  have f: "\<not> fst (run_state (device_check ?c ps sick_phone) h)" for ps h
    by (simp add: device_check_def sick_phone_def usb_health_def adb_shell_def)
  have d: "distinct (map fst (hc_instances ?ck))"
    by (simp add: checker_register_def new_checker_def)
  have u: "hc_unhealthy ck' = [''a'']"
    using r f [of "hc_probes ?ck" "[]"] t
    by (auto simp: check_all_def check_instance_def sick_phone_def split: prod.splits)
  from health_round_correct [OF d r] t obtain healthy where
    "hc_unhealthy ck' = reported 3 [(''a'', sick_phone)] [healthy]"
    "map_of (hc_instances ck') ''a'' = Some (record_health_check healthy 5 sick_phone)"
    by (auto simp: length_Suc_conv)
  with u have "map_of (hc_instances ck') ''a'' = Some (record_health_check False 5 sick_phone)"
    by (cases healthy) (simp_all add: reported_def)
  with r u show ?thesis by (simp add: record_health_check_def sick_phone_def)
qed

end
