(* ===== verification/Video.thy ===== *)
theory Video
  imports Adb Paths
begin

text \<open>
  The screen recorder of \<^verbatim>\<open>internal/capture/capture.go\<close>: \<^verbatim>\<open>videoChunkLoop\<close>, which records one chunk after the
  other on the device and pulls each. A round is two stretches, \<open>chunk_begin\<close> up to the wait for the
  recording and \<open>chunk_end\<close> after it; a stop can come in between. The clock and the sizes of local
  files are functions of the commands run so far, like the answers of the tools. The line that a step
  adds to \<^verbatim>\<open>capture.log\<close> is a \<open>video_event\<close>.
\<close>

record capture_env =
  ce_client :: adb_client
  ce_now :: "cmd list \<Rightarrow> time"
  ce_stat :: "cmd list \<Rightarrow> string \<Rightarrow> int option"
  ce_lookpath :: "string \<Rightarrow> string option"
  ce_home :: string
  ce_mkdir :: "string \<Rightarrow> bool"
  ce_create :: "string \<Rightarrow> bool"
  ce_rename :: "string \<Rightarrow> string \<Rightarrow> bool"

datatype video_event =
    VideoStart string
  | ChunkStartFailed nat
  | ChunkStarted nat string
  | ChunkPulled nat int
  | ChunkPartial nat int
  | ChunkPullFailed nat
  | LoopAbort nat

record video_capture =
  vc_serial :: string
  vc_session :: string
  vc_dir :: string
  vc_chunks :: "string list"
  vc_started :: time
  vc_index :: nat
  vc_rapid :: nat
  vc_flight :: "(nat \<times> time) option"
  vc_cancelled :: bool
  vc_done :: bool
  vc_log :: "video_event list"

definition world_time :: "capture_env \<Rightarrow> time io" where
  "world_time env = State (\<lambda>h. (ce_now env h, h))"

definition world_stat :: "capture_env \<Rightarrow> string \<Rightarrow> int option io" where
  "world_stat env p = State (\<lambda>h. (ce_stat env h p, h))"

lemma run_world [simp]:
  "run_state (world_time env) h = (ce_now env h, h)" "run_state (world_stat env p) h = (ce_stat env h p, h)"
  by (simp_all add: world_time_def world_stat_def)

lemma issues_world [issues_intros]: "issues P (world_time env)" "issues P (world_stat env p)"
  by (simp_all add: issues_def)

definition new_video :: "time \<Rightarrow> string \<Rightarrow> string \<Rightarrow> string \<Rightarrow> video_capture" where
  "new_video now dir sid serial = \<lparr>vc_serial = serial, vc_session = sid, vc_dir = dir, vc_chunks = [],
     vc_started = now, vc_index = 0, vc_rapid = 0, vc_flight = None, vc_cancelled = False, vc_done = False,
     vc_log = [VideoStart serial]\<rparr>"

definition video_log :: "video_event list \<Rightarrow> video_capture \<Rightarrow> video_capture" where
  "video_log es vc = vc\<lparr>vc_log := vc_log vc @ es\<rparr>"

text \<open>\<^verbatim>\<open>%03d\<close>\<close>

definition pad3 :: "nat \<Rightarrow> string" where
  "pad3 n = replicate (3 - length (itoa_nat n)) CHR ''0'' @ itoa_nat n"

definition device_chunk :: "video_capture \<Rightarrow> nat \<Rightarrow> string" where
  "device_chunk vc n = ''/sdcard/drizz_'' @ vc_session vc @ ''_'' @ pad3 n @ ''.mp4''"

definition chunk_name :: "nat \<Rightarrow> string" where
  "chunk_name n = ''video_'' @ pad3 n @ ''.mp4''"

definition local_chunk :: "string \<Rightarrow> nat \<Rightarrow> string" where
  "local_chunk dir n = path_join [dir, chunk_name n]"

definition chunk_begin :: "capture_env \<Rightarrow> video_capture \<Rightarrow> video_capture io" where
  "chunk_begin env vc =
     (if vc_cancelled vc then State_Monad.return (vc\<lparr>vc_done := True\<rparr>)
      else do {
        t \<leftarrow> world_time env;
        pid \<leftarrow> start_cmd (ce_client env) (on_dev (ce_client env) (vc_serial vc)
          [''shell'', ''screenrecord'', ''--time-limit'', ''180'', device_chunk vc (vc_index vc)]);
        State_Monad.return (case pid of
            None \<Rightarrow> video_log [ChunkStartFailed (vc_index vc)] (vc\<lparr>vc_done := True\<rparr>)
          | Some p \<Rightarrow> video_log [ChunkStarted (vc_index vc) (device_chunk vc (vc_index vc))]
              (vc\<lparr>vc_flight := Some (p, t)\<rparr>)) })"

text \<open>What the pull brought, with the breaker that ends the loop at the second fast failure in a row.\<close>

definition chunk_outcome :: "bool \<Rightarrow> int option \<Rightarrow> bool \<Rightarrow> video_capture \<Rightarrow> video_capture" where
  "chunk_outcome pulled sz fast vc =
     (let n = vc_index vc;
          kept = vc\<lparr>vc_chunks := vc_chunks vc @ [local_chunk (vc_dir vc) n], vc_rapid := 0\<rparr>
      in if pulled then video_log [ChunkPulled n (case sz of None \<Rightarrow> 0 | Some s \<Rightarrow> s)] kept
         else if (case sz of None \<Rightarrow> False | Some s \<Rightarrow> 0 < s)
         then video_log [ChunkPartial n (the sz)] kept
         else (let failed = video_log [ChunkPullFailed n] vc
               in if fast then
                    (let r = vc_rapid vc + 1
                     in if 2 \<le> r then video_log [LoopAbort n] (failed\<lparr>vc_rapid := r, vc_done := True\<rparr>)
                        else failed\<lparr>vc_rapid := r\<rparr>)
                  else failed\<lparr>vc_rapid := 0\<rparr>))"

text \<open>The recording is over (\<open>by_cancel\<close>: because a stop interrupts it on the device, with eight seconds
  to write the file out before the host side is killed); the chunk is pulled and removed there.\<close>

definition interrupt_recording :: "capture_env \<Rightarrow> video_capture \<Rightarrow> nat \<Rightarrow> unit io" where
  "interrupt_recording env vc pid = do {
     out \<leftarrow> run_cmd (ce_client env) (on_dev (ce_client env) (vc_serial vc)
       [''shell'', ''pkill'', ''-2'', ''screenrecord'']);
     w \<leftarrow> signal_proc (ce_client env) pid ''wait'';
     if w = SigOk then State_Monad.return ()
     else do { k \<leftarrow> signal_proc (ce_client env) pid ''SIGKILL''; State_Monad.return () } }"

definition two_seconds :: duration where "two_seconds = 2 * second_ns"

definition chunk_end :: "capture_env \<Rightarrow> bool \<Rightarrow> nat \<Rightarrow> time \<Rightarrow> video_capture \<Rightarrow> video_capture io" where
  "chunk_end env by_cancel pid t0 vc = do {
     u \<leftarrow> (if by_cancel then interrupt_recording env vc pid else State_Monad.return ());
     out \<leftarrow> run_cmd (ce_client env) (on_dev (ce_client env) (vc_serial vc)
       [''pull'', device_chunk vc (vc_index vc), local_chunk (vc_dir vc) (vc_index vc)]);
     gone \<leftarrow> run_cmd (ce_client env) (on_dev (ce_client env) (vc_serial vc)
       [''shell'', ''rm'', ''-f'', device_chunk vc (vc_index vc)]);
     sz \<leftarrow> world_stat env (local_chunk (vc_dir vc) (vc_index vc));
     t1 \<leftarrow> world_time env;
     State_Monad.return
       (let vc1 = chunk_outcome (out \<noteq> None) sz (t1 - t0 < two_seconds) (vc\<lparr>vc_flight := None\<rparr>)
        in if vc_done vc1 then vc1
           else if vc_cancelled vc then vc1\<lparr>vc_done := True\<rparr>
           else vc1\<lparr>vc_index := vc_index vc + 1\<rparr>) }"

text \<open>At most \<open>n\<close> rounds of the loop while nobody stops it.\<close>

definition chunk_round :: "capture_env \<Rightarrow> video_capture \<Rightarrow> video_capture io" where
  "chunk_round env vc = do {
     vc1 \<leftarrow> chunk_begin env vc;
     case vc_flight vc1 of
       None \<Rightarrow> State_Monad.return vc1
     | Some (pid, t) \<Rightarrow> chunk_end env False pid t vc1 }"

fun chunk_loop :: "nat \<Rightarrow> capture_env \<Rightarrow> video_capture \<Rightarrow> video_capture io" where
  "chunk_loop 0 env vc = State_Monad.return vc"
| "chunk_loop (Suc n) env vc =
     (if vc_done vc then State_Monad.return vc
      else do { vc1 \<leftarrow> chunk_round env vc; chunk_loop n env vc1 })"

text \<open>What is left of the loop when the capture is cancelled.\<close>

definition finish_loop :: "capture_env \<Rightarrow> bool \<Rightarrow> video_capture \<Rightarrow> video_capture io" where
  "finish_loop env by_cancel vc0 =
     (let vc = vc0\<lparr>vc_cancelled := True\<rparr>
      in if vc_done vc then State_Monad.return vc
         else case vc_flight vc of
             None \<Rightarrow> chunk_begin env vc
           | Some (pid, t) \<Rightarrow> chunk_end env by_cancel pid t vc)"

subsection \<open>Rounds\<close>

lemma video_log_fields [simp]:
  "vc_serial (video_log es vc) = vc_serial vc" "vc_session (video_log es vc) = vc_session vc"
  "vc_dir (video_log es vc) = vc_dir vc" "vc_chunks (video_log es vc) = vc_chunks vc"
  "vc_index (video_log es vc) = vc_index vc" "vc_rapid (video_log es vc) = vc_rapid vc"
  "vc_flight (video_log es vc) = vc_flight vc" "vc_cancelled (video_log es vc) = vc_cancelled vc"
  "vc_done (video_log es vc) = vc_done vc" "vc_started (video_log es vc) = vc_started vc"
  by (simp_all add: video_log_def)

lemma chunk_outcome_fields [simp]:
  "vc_serial (chunk_outcome p s f vc) = vc_serial vc" "vc_session (chunk_outcome p s f vc) = vc_session vc"
  "vc_dir (chunk_outcome p s f vc) = vc_dir vc" "vc_index (chunk_outcome p s f vc) = vc_index vc"
  "vc_flight (chunk_outcome p s f vc) = vc_flight vc" "vc_cancelled (chunk_outcome p s f vc) = vc_cancelled vc"
  "vc_chunks (chunk_outcome p s f vc) = vc_chunks vc @
     (if p \<or> (case s of None \<Rightarrow> False | Some n \<Rightarrow> 0 < n) then [local_chunk (vc_dir vc) (vc_index vc)] else [])"
  by (simp_all add: chunk_outcome_def Let_def)

lemma chunk_outcome_done:
  "vc_done (chunk_outcome p s f vc) \<longleftrightarrow> vc_done vc \<or>
     (\<not> p \<and> \<not> (case s of None \<Rightarrow> False | Some n \<Rightarrow> 0 < n) \<and> f \<and> 1 \<le> vc_rapid vc)"
  "\<not> p \<Longrightarrow> \<not> (case s of None \<Rightarrow> False | Some n \<Rightarrow> 0 < n) \<Longrightarrow> f \<Longrightarrow>
     vc_rapid (chunk_outcome p s f vc) = vc_rapid vc + 1"
  "\<not> f \<Longrightarrow> vc_rapid (chunk_outcome p s f vc) = 0"
  by (auto simp: chunk_outcome_def Let_def)

definition pull_chunk :: "capture_env \<Rightarrow> video_capture \<Rightarrow> cmd" where
  "pull_chunk env vc = on_dev (ce_client env) (vc_serial vc)
     [''pull'', device_chunk vc (vc_index vc), local_chunk (vc_dir vc) (vc_index vc)]"

text \<open>A round that nobody stops: it begins at the history \<open>h\<close> and ends three commands later.\<close>

lemma chunk_round_cases:
  assumes "run_state (chunk_round env vc) h = (vc', h')" and "\<not> vc_cancelled vc" and "\<not> vc_done vc"
    and "vc_flight vc = None"
  obtains (not_started) "vc_done vc'" "vc_chunks vc' = vc_chunks vc" "vc_index vc' = vc_index vc"
      "\<exists>cmd. start_oracle (ce_client env) h cmd = None"
    | (recorded) cs vc1 p s where "length cs = 3" "h' = h @ cs"
      "p = (run_oracle (ce_client env) (h @ [hd cs]) (pull_chunk env vc) \<noteq> None)"
      "s = ce_stat env h' (local_chunk (vc_dir vc) (vc_index vc))"
      "vc1 = chunk_outcome p s (ce_now env h' - ce_now env h < two_seconds)
         (video_log [ChunkStarted (vc_index vc) (device_chunk vc (vc_index vc))] vc)"
      "vc' = (if vc_done vc1 then vc1 else vc1\<lparr>vc_index := vc_index vc + 1\<rparr>)"
proof -
  let ?c = "ce_client env"
  let ?rec = "on_dev ?c (vc_serial vc) [''shell'', ''screenrecord'', ''--time-limit'', ''180'', device_chunk vc (vc_index vc)]"
  let ?rm = "on_dev ?c (vc_serial vc) [''shell'', ''rm'', ''-f'', device_chunk vc (vc_index vc)]"
  show thesis
  proof (cases "start_oracle ?c h ?rec")
    case None
    then have "vc' = video_log [ChunkStartFailed (vc_index vc)] (vc\<lparr>vc_done := True\<rparr>)"
      using assms by (simp add: chunk_round_def chunk_begin_def)
    with None show thesis by (intro not_started) auto
  next
    case (Some pid)
    have same: "device_chunk (video_log es w) n = device_chunk w n" for es w n by (simp add: device_chunk_def)
    let ?w = "video_log [ChunkStarted (vc_index vc) (device_chunk vc (vc_index vc))] (vc\<lparr>vc_flight := Some (pid, ce_now env h)\<rparr>)"
    have w: "?w\<lparr>vc_flight := None\<rparr> = video_log [ChunkStarted (vc_index vc) (device_chunk vc (vc_index vc))] vc"
      using assms(4) by (simp add: video_log_def)
    have dev: "device_chunk ?w n = device_chunk vc n" for n by (simp add: device_chunk_def)
    have "run_state (chunk_begin env vc) h = (?w, h @ [?rec])"
      using assms(2) Some by (simp add: chunk_begin_def)
    then have "run_state (chunk_round env vc) h = run_state (chunk_end env False pid (ce_now env h) ?w) (h @ [?rec])"
      by (simp add: chunk_round_def)
    with assms(1) have r: "run_state (chunk_end env False pid (ce_now env h) ?w) (h @ [?rec]) = (vc', h')" by simp
    define p where "p = (run_oracle ?c (h @ [?rec]) (pull_chunk env vc) \<noteq> None)"
    define g where "g = h @ [?rec, pull_chunk env vc, ?rm]"
    define w1 where "w1 = chunk_outcome p (ce_stat env g (local_chunk (vc_dir vc) (vc_index vc)))
      (ce_now env g - ce_now env h < two_seconds)
      (video_log [ChunkStarted (vc_index vc) (device_chunk vc (vc_index vc))] vc)"
    have "run_state (chunk_end env False pid (ce_now env h) ?w) (h @ [?rec]) =
        (if vc_done w1 then w1 else w1\<lparr>vc_index := vc_index vc + 1\<rparr>, g)"
      unfolding p_def g_def w1_def using assms(2)
      by (simp add: chunk_end_def w dev pull_chunk_def Let_def cong: if_cong)
    with r have e: "vc' = (if vc_done w1 then w1 else w1\<lparr>vc_index := vc_index vc + 1\<rparr>)" "h' = g" by simp_all
    show thesis
    proof (rule recorded)
      show "length [?rec, pull_chunk env vc, ?rm] = 3" by simp
      show "h' = h @ [?rec, pull_chunk env vc, ?rm]" by (simp add: e(2) g_def)
      show "p = (run_oracle ?c (h @ [hd [?rec, pull_chunk env vc, ?rm]]) (pull_chunk env vc) \<noteq> None)"
        by (simp add: p_def)
      show "w1 = chunk_outcome p (ce_stat env h' (local_chunk (vc_dir vc) (vc_index vc)))
          (ce_now env h' - ce_now env h < two_seconds)
          (video_log [ChunkStarted (vc_index vc) (device_chunk vc (vc_index vc))] vc)"
        unfolding e(2) by (rule w1_def)
    qed (use e(1) in auto)
  qed
qed

text \<open>Between rounds a running capture has nothing in flight and at most one fast failure behind it.\<close>

definition between_rounds :: "video_capture \<Rightarrow> bool" where
  "between_rounds vc \<longleftrightarrow> \<not> vc_done vc \<and> \<not> vc_cancelled vc \<and> vc_flight vc = None \<and> vc_rapid vc \<le> 1"

lemma round_continues:
  assumes "run_state (chunk_round env vc) h = (vc', h')" and "between_rounds vc"
  shows "vc_done vc' \<or> between_rounds vc'"
  using assms(1)
proof (rule chunk_round_cases)
  fix cs vc1 p s
  assume "vc1 = chunk_outcome p s (ce_now env h' - ce_now env h < two_seconds)
      (video_log [ChunkStarted (vc_index vc) (device_chunk vc (vc_index vc))] vc)"
    "vc' = (if vc_done vc1 then vc1 else vc1\<lparr>vc_index := vc_index vc + 1\<rparr>)"
  then show ?thesis using assms(2)
    by (auto simp: between_rounds_def chunk_outcome_def Let_def)
qed (use assms(2) in \<open>simp_all add: between_rounds_def\<close>)

lemma round_fields:
  assumes "run_state (chunk_round env vc) h = (vc', h')" and "between_rounds vc"
  shows "vc_serial vc' = vc_serial vc" and "vc_session vc' = vc_session vc" and "vc_dir vc' = vc_dir vc"
proof -
  have b: "\<not> vc_cancelled vc" "\<not> vc_done vc" "vc_flight vc = None" using assms(2) by (simp_all add: between_rounds_def)
  show "vc_serial vc' = vc_serial vc" "vc_session vc' = vc_session vc" "vc_dir vc' = vc_dir vc"
    using assms(1) b by (auto simp: chunk_round_def chunk_begin_def chunk_end_def Let_def split: option.splits if_splits)
qed

subsection \<open>When the loop ends\<close>

text \<open>The device is gone: pulls fail and leave nothing, and adb says so at once.\<close>

definition device_gone :: "capture_env \<Rightarrow> video_capture \<Rightarrow> bool" where
  "device_gone env vc \<longleftrightarrow>
     (\<forall>h n. run_oracle (ce_client env) h (pull_chunk env (vc\<lparr>vc_index := n\<rparr>)) = None) \<and>
     (\<forall>h n. ce_stat env h (local_chunk (vc_dir vc) n) = None) \<and>
     (\<forall>h cs. length cs = 3 \<longrightarrow> ce_now env (h @ cs) - ce_now env h < two_seconds)"

text \<open>Every round takes two seconds or more, and recordings can be started.\<close>

definition slow_rounds :: "capture_env \<Rightarrow> bool" where
  "slow_rounds env \<longleftrightarrow> (\<forall>h cmd. start_oracle (ce_client env) h cmd \<noteq> None) \<and>
     (\<forall>h cs. length cs = 3 \<longrightarrow> two_seconds \<le> ce_now env (h @ cs) - ce_now env h)"

lemma gone_round:
  assumes "run_state (chunk_round env vc) h = (vc', h')" and "between_rounds vc" and "device_gone env vc"
  shows "vc_chunks vc' = vc_chunks vc" and "vc_done vc' \<or> vc_rapid vc = 0 \<and> vc_rapid vc' = 1"
proof -
  have b: "\<not> vc_cancelled vc" "\<not> vc_done vc" "vc_flight vc = None" using assms(2) by (simp_all add: between_rounds_def)
  have *: "vc_chunks vc' = vc_chunks vc \<and> (vc_done vc' \<or> vc_rapid vc = 0 \<and> vc_rapid vc' = 1)"
    using assms(1) b
  proof (cases rule: chunk_round_cases)
    case (recorded cs vc1 p s)
    have "run_oracle (ce_client env) (h @ [hd cs]) (pull_chunk env (vc\<lparr>vc_index := vc_index vc\<rparr>)) = None"
      using assms(3) unfolding device_gone_def by blast
    then have "\<not> p" "s = None" "ce_now env h' - ce_now env h < two_seconds"
      using recorded assms(3) by (simp_all add: device_gone_def)
    with recorded(5,6) b show ?thesis by (auto simp: chunk_outcome_def Let_def)
  qed simp
  then show "vc_chunks vc' = vc_chunks vc" "vc_done vc' \<or> vc_rapid vc = 0 \<and> vc_rapid vc' = 1" by blast+
qed

lemma slow_round:
  assumes "run_state (chunk_round env vc) h = (vc', h')" and "between_rounds vc" and "slow_rounds env"
  shows "between_rounds vc'"
proof -
  have b: "\<not> vc_cancelled vc" "\<not> vc_done vc" "vc_flight vc = None" using assms(2) by (simp_all add: between_rounds_def)
  from assms(1) b have "\<not> vc_done vc'"
  proof (cases rule: chunk_round_cases)
    case not_started
    with assms(3) show ?thesis unfolding slow_rounds_def by blast
  next
    case (recorded cs vc1 p s)
    then have "\<not> ce_now env h' - ce_now env h < two_seconds" using assms(3) by (simp add: slow_rounds_def not_less)
    with recorded(5,6) b show ?thesis by (simp add: chunk_outcome_def Let_def)
  qed
  with round_continues [OF assms(1,2)] show ?thesis by blast
qed

lemma slow_loop:
  assumes "slow_rounds env" and "between_rounds vc" and "run_state (chunk_loop n env vc) h = (vc', h')"
  shows "between_rounds vc' \<and> length h' = length h + 3 * n"
  using assms(2,3)
proof (induction n arbitrary: vc h)
  case (Suc n)
  obtain vc1 h1 where r: "run_state (chunk_round env vc) h = (vc1, h1)" by fastforce
  have b: "\<not> vc_cancelled vc" "\<not> vc_done vc" "vc_flight vc = None" using Suc.prems(1) by (simp_all add: between_rounds_def)
  from r b have "length h1 = length h + 3"
  proof (cases rule: chunk_round_cases)
    case not_started
    with assms(1) show ?thesis unfolding slow_rounds_def by blast
  qed simp
  with Suc.IH [OF slow_round [OF r Suc.prems(1) assms(1)]] Suc.prems(2) b(2) r show ?case by simp
qed simp

text \<open>C21: the recording loop of a device that has gone (nothing can be pulled, and adb says so within two
  seconds) ends by itself within two rounds, without a chunk. The loop of a capture that is cancelled
  ends with the chunk in flight. But a device whose every round takes two seconds or more, as one that
  adb waits for, is recorded for ever, whatever the pulls say.\<close>

theorem video_loop_ends:
  "(between_rounds vc \<longrightarrow> device_gone env vc \<longrightarrow>
      vc_done (fst (run_state (chunk_loop 2 env vc) h)) \<and>
      vc_chunks (fst (run_state (chunk_loop 2 env vc) h)) = vc_chunks vc) \<and>
    vc_done (fst (run_state (finish_loop env by_cancel vc) h)) \<and>
    (between_rounds vc \<longrightarrow> slow_rounds env \<longrightarrow> \<not> vc_done (fst (run_state (chunk_loop n env vc) h)))"
proof (intro conjI impI)
  assume b: "between_rounds vc" and g: "device_gone env vc"
  obtain vc1 h1 where r1: "run_state (chunk_round env vc) h = (vc1, h1)" by fastforce
  obtain vc2 h2 where r2: "run_state (chunk_round env vc1) h1 = (vc2, h2)" by fastforce
  have l: "fst (run_state (chunk_loop 2 env vc) h) = (if vc_done vc1 then vc1 else vc2)"
    using b r1 r2 by (simp add: numeral_2_eq_2 between_rounds_def)
  have "vc_done vc2 \<and> vc_chunks vc2 = vc_chunks vc1" if n: "\<not> vc_done vc1"
  proof -
    have b1: "between_rounds vc1" using round_continues [OF r1 b] n by blast
    have "device_gone env vc1"
      using g round_fields [OF r1 b] by (simp add: device_gone_def pull_chunk_def device_chunk_def)
    from gone_round [OF r2 b1 this] gone_round [OF r1 b g] n show ?thesis by auto
  qed
  with l gone_round [OF r1 b g] show "vc_done (fst (run_state (chunk_loop 2 env vc) h))"
    "vc_chunks (fst (run_state (chunk_loop 2 env vc) h)) = vc_chunks vc" by auto
next
  show "vc_done (fst (run_state (finish_loop env by_cancel vc) h))"
    by (auto simp: finish_loop_def chunk_begin_def chunk_end_def Let_def split: option.split prod.split)
next
  assume "between_rounds vc" and "slow_rounds env"
  with slow_loop [of env vc n h] show "\<not> vc_done (fst (run_state (chunk_loop n env vc) h))"
    by (metis between_rounds_def prod.collapse)
qed

definition gone_env :: "time \<Rightarrow> capture_env" where
  "gone_env pace = \<lparr>ce_client = \<lparr>adb_path = ''adb'', emulator_path = ''emulator'', run_oracle = (\<lambda>h cmd. None),
       start_oracle = (\<lambda>h cmd. Some 4711), signal_oracle = (\<lambda>h p s. SigOk), boot_polls = (\<lambda>t. 2)\<rparr>,
     ce_now = (\<lambda>h. pace * int (length h)), ce_stat = (\<lambda>h p. None), ce_lookpath = (\<lambda>p. None), ce_home = ''/root'',
     ce_mkdir = (\<lambda>p. True), ce_create = (\<lambda>p. True), ce_rename = (\<lambda>a b. True)\<rparr>"

theorem video_loop_ends_witness:
  "vc_done (fst (run_state (chunk_loop 2 (gone_env 1) (new_video 1 ''/a'' ''s'' ''e'')) [])) \<and>
   \<not> vc_done (fst (run_state (chunk_loop 1000 (gone_env second_ns) (new_video 1 ''/a'' ''s'' ''e'')) []))"
proof -
  have b: "between_rounds (new_video 1 ''/a'' ''s'' ''e'')" by (simp add: between_rounds_def new_video_def)
  have "device_gone (gone_env 1) (new_video 1 ''/a'' ''s'' ''e'')"
    by (simp add: device_gone_def gone_env_def two_seconds_def second_ns_def)
  moreover have "slow_rounds (gone_env second_ns)"
    by (simp add: slow_rounds_def gone_env_def two_seconds_def second_ns_def)
  ultimately show ?thesis
    using b video_loop_ends [of "new_video 1 ''/a'' ''s'' ''e''" "gone_env 1" "[]" False 1]
      video_loop_ends [of "new_video 1 ''/a'' ''s'' ''e''" "gone_env second_ns" "[]" False 1000] by blast
qed

subsection \<open>What is recorded\<close>

text \<open>Every stretch of the loop of one capture, and the cancellation that can come between them.\<close>

inductive video_run :: "capture_env \<Rightarrow> video_capture \<Rightarrow> bool" for env where
  fresh: "video_run env (new_video now dir sid serial)"
| start: "video_run env vc \<Longrightarrow> \<not> vc_done vc \<Longrightarrow> vc_flight vc = None \<Longrightarrow>
    video_run env (fst (run_state (chunk_begin env vc) h))"
| finish: "video_run env vc \<Longrightarrow> \<not> vc_done vc \<Longrightarrow> vc_flight vc = Some (pid, t) \<Longrightarrow>
    video_run env (fst (run_state (chunk_end env by_cancel pid t vc) h))"
| cancel: "video_run env vc \<Longrightarrow> video_run env (vc\<lparr>vc_cancelled := True\<rparr>)"

definition chunks_ok :: "video_capture \<Rightarrow> bool" where
  "chunks_ok vc \<longleftrightarrow> (\<exists>js. vc_chunks vc = map (local_chunk (vc_dir vc)) js \<and> sorted_wrt (<) js \<and>
     (\<forall>j \<in> set js. j < vc_index vc \<or> j = vc_index vc \<and> vc_done vc))"

lemma chunk_end_result:
  assumes "run_state (chunk_end env by_cancel pid t vc) h = (vc', h')"
  shows "\<exists>p s f. vc' = (let vc1 = chunk_outcome p s f (vc\<lparr>vc_flight := None\<rparr>)
    in if vc_done vc1 then vc1 else if vc_cancelled vc then vc1\<lparr>vc_done := True\<rparr>
       else vc1\<lparr>vc_index := vc_index vc + 1\<rparr>)"
  using assms by (auto simp: chunk_end_def split: if_splits prod.splits)

lemma chunks_ok_end:
  assumes "chunks_ok vc" and "\<not> vc_done vc" and "run_state (chunk_end env by_cancel pid t vc) h = (vc', h')"
  shows "chunks_ok vc'"
proof -
  from assms(1,2) obtain js where js: "vc_chunks vc = map (local_chunk (vc_dir vc)) js" "sorted_wrt (<) js"
    "\<forall>j \<in> set js. j < vc_index vc" by (auto simp: chunks_ok_def)
  from chunk_end_result [OF assms(3)] obtain p s f where
    r: "vc' = (let vc1 = chunk_outcome p s f (vc\<lparr>vc_flight := None\<rparr>)
      in if vc_done vc1 then vc1 else if vc_cancelled vc then vc1\<lparr>vc_done := True\<rparr>
         else vc1\<lparr>vc_index := vc_index vc + 1\<rparr>)" by blast
  let ?kept = "p \<or> (case s of None \<Rightarrow> False | Some n \<Rightarrow> 0 < n)"
  let ?js = "js @ (if ?kept then [vc_index vc] else [])"
  have "vc_chunks vc' = map (local_chunk (vc_dir vc')) ?js"
    using js(1) by (auto simp: r Let_def)
  moreover have "sorted_wrt (<) ?js" using js(2,3) by (auto simp: sorted_wrt_append)
  moreover have "\<forall>j \<in> set ?js. j < vc_index vc' \<or> j = vc_index vc' \<and> vc_done vc'"
    using js(3) by (auto simp: r Let_def)
  ultimately show ?thesis unfolding chunks_ok_def by blast
qed

lemma chunks_ok_begin: "chunks_ok vc \<Longrightarrow> \<not> vc_done vc \<Longrightarrow> chunks_ok (fst (run_state (chunk_begin env vc) h))"
  by (auto simp: chunk_begin_def chunks_ok_def split: option.split)

lemma pad3_inj: "pad3 m = pad3 n \<longleftrightarrow> m = n"
proof
  have z: "digits_val 0 (replicate k CHR ''0'' @ s) = digits_val 0 s" for k s
    by (induction k) (simp_all add: digit_val_def)
  assume "pad3 m = pad3 n"
  then have "digits_val 0 (pad3 m) = digits_val 0 (pad3 n)" by simp
  then show "m = n" by (simp add: pad3_def z digits_val_itoa)
qed simp

lemma chunk_name_inj: "chunk_name m = chunk_name n \<longleftrightarrow> m = n"
  by (simp add: chunk_name_def pad3_inj)

lemma only_dev_begin: "only_dev (ce_client env) (vc_serial vc) (chunk_begin env vc)"
  unfolding chunk_begin_def
  by (intro issues_intros issues_start_cmd) (simp_all add: for_dev_def on_dev_def)

text \<open>Whatever the tools answer, and wherever a stop falls, the chunks of a recording are kept in the
  order in which they were recorded, each once and under a name of its own, none from a later round than
  the current one.\<close>

theorem video_chunks_in_order:
  assumes "video_run env vc"
  shows "\<exists>js. vc_chunks vc = map (local_chunk (vc_dir vc)) js \<and> sorted_wrt (<) js \<and>
    (\<forall>j \<in> set js. j \<le> vc_index vc) \<and> distinct (map chunk_name js)"
proof -
  from assms have "chunks_ok vc"
  proof (induction rule: video_run.induct)
    case (finish vc pid t by_cancel h)
    then show ?case using chunks_ok_end [of vc env by_cancel pid t h] by (metis prod.collapse)
  qed (auto simp: chunks_ok_begin, auto simp: chunks_ok_def new_video_def)
  then obtain js where js: "vc_chunks vc = map (local_chunk (vc_dir vc)) js" "sorted_wrt (<) js"
    "\<forall>j \<in> set js. j \<le> vc_index vc" unfolding chunks_ok_def by (metis less_imp_le order_refl)
  then have "distinct (map chunk_name js)"
    by (simp add: distinct_map strict_sorted_iff inj_on_def chunk_name_inj)
  with js show ?thesis by blast
qed

definition quiet_env :: capture_env where
  "quiet_env = (gone_env 1)\<lparr>ce_client := (ce_client (gone_env 1))\<lparr>run_oracle := (\<lambda>h cmd. Some [])\<rparr>\<rparr>"

theorem video_chunks_in_order_witness:
  "\<exists>vc. video_run quiet_env vc \<and> vc_chunks vc = [local_chunk ''/a'' 0] \<and> (\<exists>js. vc_chunks vc = map (local_chunk (vc_dir vc)) js)"
proof -
  let ?v = "new_video 1 ''/a'' ''s'' ''e''"
  let ?v1 = "fst (run_state (chunk_begin quiet_env ?v) [])"
  let ?v2 = "fst (run_state (chunk_end quiet_env False 4711 0 ?v1) [])"
  have 0: "video_run quiet_env ?v" by (rule video_run.fresh)
  have f: "vc_flight ?v = None" "\<not> vc_done ?v" by (simp_all add: new_video_def)
  have 1: "video_run quiet_env ?v1" by (rule video_run.start [OF 0 f(2,1)])
  have g: "vc_flight ?v1 = Some (4711, 0)" "\<not> vc_done ?v1" "vc_chunks ?v1 = []" "vc_dir ?v1 = ''/a''" "vc_index ?v1 = 0"
    by (simp_all add: chunk_begin_def quiet_env_def gone_env_def new_video_def)
  have 2: "video_run quiet_env ?v2" by (rule video_run.finish [OF 1 g(2,1)])
  have "vc_chunks ?v2 = [local_chunk ''/a'' 0]"
    using g by (simp add: chunk_end_def quiet_env_def gone_env_def Let_def)
  with 2 video_chunks_in_order [OF 2] show ?thesis by blast
qed

end
