(* ===== verification/Capture.thy ===== *)
theory Capture
  imports Video
begin

text \<open>
  The capture service of \<^verbatim>\<open>internal/capture/capture.go\<close>: one optional video, logcat and network capture
  per session. The recording loop is in Video; the tools, the clock and the file system are the
  environment \<open>capture_env\<close>. File operations are a log. \<open>StartNetwork\<close> holds no lock while it works, so
  it is two stretches: \<open>network_begin\<close> up to the proxy setting on the device, and \<open>network_register\<close>.
\<close>

record logcat_capture =
  lc_pid :: nat
  lc_path :: string
  lc_started :: time

record network_capture =
  nc_pid :: nat
  nc_serial :: string
  nc_port :: int
  nc_har :: string
  nc_started :: time

datatype file_op = FileCreate string | FileRename string string | FileWrite string "string list" | FileRemove string

record capture_service =
  cs_data :: string
  cs_videos :: "(string \<times> video_capture) list"
  cs_logcats :: "(string \<times> logcat_capture) list"
  cs_networks :: "(string \<times> network_capture) list"
  cs_next_port :: int
  cs_files :: "file_op list"

definition new_capture_service :: "string \<Rightarrow> capture_service" where
  "new_capture_service data = \<lparr>cs_data = data, cs_videos = [], cs_logcats = [], cs_networks = [],
     cs_next_port = 8889, cs_files = []\<rparr>"

definition session_dir :: "capture_service \<Rightarrow> string \<Rightarrow> string" where
  "session_dir svc sid = path_join [cs_data svc, ''artifacts'', sid]"

definition file_ops :: "file_op list \<Rightarrow> capture_service \<Rightarrow> capture_service" where
  "file_ops fs svc = svc\<lparr>cs_files := cs_files svc @ fs\<rparr>"

subsection \<open>Video\<close>

definition start_video :: "capture_env \<Rightarrow> string \<Rightarrow> string \<Rightarrow> capture_service \<Rightarrow> (bool \<times> capture_service) io" where
  "start_video env sid serial svc =
     (if map_of (cs_videos svc) sid \<noteq> None then State_Monad.return (True, svc)
      else if \<not> ce_mkdir env (session_dir svc sid) then State_Monad.return (False, svc)
      else do {
        now \<leftarrow> world_time env;
        State_Monad.return (True, svc\<lparr>cs_videos :=
          AList.update sid (new_video now (session_dir svc sid) sid serial) (cs_videos svc)\<rparr>) })"

definition concat_line :: "string \<Rightarrow> string" where
  "concat_line c = ''file '' @ CHR 0x27 # c @ [CHR 0x27, nl]"

text \<open>Several chunks: one video when \<^verbatim>\<open>ffmpeg\<close> is there and works, else the last chunk stands for all.\<close>

definition merge_chunks :: "capture_env \<Rightarrow> string list \<Rightarrow> (string \<times> file_op list) io" where
  "merge_chunks env chunks =
     (let dir = path_dir (hd chunks); list_path = path_join [dir, ''.concat.txt''];
          final = path_join [dir, ''video.mp4'']
      in case ce_lookpath env ''ffmpeg'' of
           None \<Rightarrow> State_Monad.return (last chunks, [])
         | Some ffmpeg \<Rightarrow>
             if \<not> ce_create env list_path then State_Monad.return (last chunks, [])
             else do {
               out \<leftarrow> run_cmd (ce_client env)
                 [ffmpeg, ''-y'', ''-f'', ''concat'', ''-safe'', ''0'', ''-i'', list_path, ''-c'', ''copy'', final];
               State_Monad.return (case out of
                   None \<Rightarrow> (last chunks, [FileWrite list_path (map concat_line chunks), FileRemove list_path])
                 | Some _ \<Rightarrow> (final, [FileWrite list_path (map concat_line chunks)] @ map FileRemove chunks @
                     [FileRemove list_path])) })"

definition save_video :: "capture_env \<Rightarrow> string list \<Rightarrow> (string \<times> file_op list) io" where
  "save_video env chunks =
     (case chunks of
        [] \<Rightarrow> State_Monad.return ([], [])
      | [c] \<Rightarrow>
          (let final = path_join [path_dir c, ''video.mp4'']
           in State_Monad.return (if ce_rename env c final then (final, [FileRename c final]) else (c, [])))
      | _ \<Rightarrow> merge_chunks env chunks)"

definition stop_video :: "capture_env \<Rightarrow> bool \<Rightarrow> string \<Rightarrow> capture_service \<Rightarrow> (string \<times> capture_service) io" where
  "stop_video env by_cancel sid svc =
     (case map_of (cs_videos svc) sid of
        None \<Rightarrow> State_Monad.return ([], svc)
      | Some vc0 \<Rightarrow> do {
          vc \<leftarrow> finish_loop env by_cancel vc0;
          (path, ops) \<leftarrow> save_video env (vc_chunks vc);
          State_Monad.return (path, file_ops ops (svc\<lparr>cs_videos := AList.delete sid (cs_videos svc)\<rparr>)) })"

subsection \<open>Logcat\<close>

definition start_logcat :: "capture_env \<Rightarrow> string \<Rightarrow> string \<Rightarrow> capture_service \<Rightarrow> (bool \<times> capture_service) io" where
  "start_logcat env sid serial svc =
     (let path = path_join [session_dir svc sid, ''logcat.txt'']; c = ce_client env
      in if map_of (cs_logcats svc) sid \<noteq> None then State_Monad.return (True, svc)
         else if \<not> ce_mkdir env (session_dir svc sid) then State_Monad.return (False, svc)
         else if \<not> ce_create env path then State_Monad.return (False, svc)
         else do {
           out \<leftarrow> run_cmd c (on_dev c serial [''logcat'', ''-c'']);
           pid \<leftarrow> start_cmd c (on_dev c serial [''logcat'', ''-b'', ''all'', ''-v'', ''epoch'']);
           now \<leftarrow> world_time env;
           State_Monad.return (case pid of
               None \<Rightarrow> (False, file_ops [FileCreate path] svc)
             | Some p \<Rightarrow> (True, file_ops [FileCreate path] (svc\<lparr>cs_logcats :=
                 AList.update sid \<lparr>lc_pid = p, lc_path = path, lc_started = now\<rparr> (cs_logcats svc)\<rparr>))) })"

definition stop_logcat :: "capture_env \<Rightarrow> string \<Rightarrow> capture_service \<Rightarrow> (string \<times> capture_service) io" where
  "stop_logcat env sid svc =
     (case map_of (cs_logcats svc) sid of
        None \<Rightarrow> State_Monad.return ([], svc)
      | Some lc \<Rightarrow> do {
          k \<leftarrow> signal_proc (ce_client env) (lc_pid lc) ''SIGKILL'';
          State_Monad.return (lc_path lc, svc\<lparr>cs_logcats := AList.delete sid (cs_logcats svc)\<rparr>) })"

subsection \<open>Network\<close>

definition str_lower :: "string \<Rightarrow> string" where
  "str_lower s = map (\<lambda>ch. let n = (of_char ch :: nat) in if 65 \<le> n \<and> n \<le> 90 then char_of (n + 32) else ch) s"

definition subject_hash_old :: "capture_env \<Rightarrow> string \<Rightarrow> string option io" where
  "subject_hash_old env cert = do {
     out \<leftarrow> run_cmd (ce_client env)
       [''openssl'', ''x509'', ''-inform'', ''PEM'', ''-subject_hash_old'', ''-noout'', ''-in'', cert];
     State_Monad.return (map_option trim_space out) }"

definition push_ca :: "capture_env \<Rightarrow> string \<Rightarrow> string \<Rightarrow> string \<Rightarrow> unit io" where
  "push_ca env serial ca hash =
     (let c = ce_client env; target = ''/system/etc/security/cacerts/'' @ hash @ ''.0''; tmp = ''/sdcard/'' @ hash @ ''.0''
      in do {
        pushed \<leftarrow> run_cmd c (on_dev c serial [''push'', ca, tmp]);
        if pushed = None then State_Monad.return ()
        else do {
          cp \<leftarrow> run_cmd c (on_dev c serial [''shell'', ''cp'', tmp, target, ''&&'', ''chmod'', ''644'', target]);
          State_Monad.return () } })"

definition remount_and_push :: "capture_env \<Rightarrow> string \<Rightarrow> string \<Rightarrow> string \<Rightarrow> unit io" where
  "remount_and_push env serial ca hash =
     (let c = ce_client env
      in do {
        root \<leftarrow> run_cmd c (on_dev c serial [''root'']);
        if (case root of None \<Rightarrow> True | Some out \<Rightarrow> contains_str out ''production builds'')
        then State_Monad.return ()
        else do {
          w \<leftarrow> run_cmd c (on_dev c serial [''wait-for-device'']);
          rw \<leftarrow> run_cmd c (on_dev c serial [''remount'']);
          if (case rw of None \<Rightarrow> True | Some out \<Rightarrow> \<not> contains_str (str_lower out) ''remount succeeded'')
          then State_Monad.return ()
          else push_ca env serial ca hash } })"

definition install_mitm_ca :: "capture_env \<Rightarrow> string \<Rightarrow> string \<Rightarrow> unit io" where
  "install_mitm_ca env serial ca = do {
     hash \<leftarrow> subject_hash_old env ca;
     case hash of
       None \<Rightarrow> State_Monad.return ()
     | Some hs \<Rightarrow> do {
         ls \<leftarrow> run_cmd (ce_client env) (on_dev (ce_client env) serial
           [''shell'', ''ls'', ''/system/etc/security/cacerts/'' @ hs @ ''.0'']);
         if ls \<noteq> None then State_Monad.return () else remount_and_push env serial ca hs } }"

text \<open>The host's own certificate, made by a short run of \<^verbatim>\<open>mitmdump\<close>. When that cannot be started,
  \<^verbatim>\<open>gen.Process\<close> is nil and killing it panics: the result is \<open>False\<close>.\<close>

definition ensure_ca :: "capture_env \<Rightarrow> string \<Rightarrow> string \<Rightarrow> bool io" where
  "ensure_ca env mitmdump ca = do {
     there \<leftarrow> world_stat env ca;
     if there \<noteq> None then State_Monad.return True
     else do {
       pid \<leftarrow> start_cmd (ce_client env) [mitmdump, ''-q'', ''--listen-port'', ''0''];
       case pid of
         None \<Rightarrow> State_Monad.return False
       | Some p \<Rightarrow> do { k \<leftarrow> signal_proc (ce_client env) p ''SIGKILL''; State_Monad.return True } } }"

definition take_proxy_port :: "capture_service \<Rightarrow> int \<times> capture_service" where
  "take_proxy_port svc =
     (cs_next_port svc, svc\<lparr>cs_next_port := if 8999 < cs_next_port svc + 1 then 8889 else cs_next_port svc + 1\<rparr>)"

datatype network_start = NetRunning | NetFailed | NetPanic | NetReady network_capture

text \<open>From the port to the proxy setting on the device.\<close>

definition launch_proxy :: "capture_env \<Rightarrow> string \<Rightarrow> string \<Rightarrow> string \<Rightarrow> int \<Rightarrow> network_start io" where
  "launch_proxy env mitmdump har serial port =
     (let c = ce_client env
      in do {
        pid \<leftarrow> start_cmd c [mitmdump, ''--listen-host'', ''0.0.0.0'', ''--listen-port'', itoa port,
          ''--set'', ''hardump='' @ har, ''-q''];
        case pid of
          None \<Rightarrow> State_Monad.return NetFailed
        | Some p \<Rightarrow> do {
            out \<leftarrow> run_cmd c (on_dev c serial
              [''shell'', ''settings'', ''put'', ''global'', ''http_proxy'', ''10.0.2.2:'' @ itoa port]);
            if out = None then do { k \<leftarrow> signal_proc c p ''SIGKILL''; State_Monad.return NetFailed }
            else do {
              now \<leftarrow> world_time env;
              State_Monad.return (NetReady \<lparr>nc_pid = p, nc_serial = serial, nc_port = port, nc_har = har,
                nc_started = now\<rparr>) } } })"

definition network_begin ::
  "capture_env \<Rightarrow> string \<Rightarrow> string \<Rightarrow> capture_service \<Rightarrow> (network_start \<times> capture_service) io" where
  "network_begin env sid serial svc =
     (if map_of (cs_networks svc) sid \<noteq> None then State_Monad.return (NetRunning, svc)
      else case ce_lookpath env ''mitmdump'' of
        None \<Rightarrow> State_Monad.return (NetFailed, svc)
      | Some mitmdump \<Rightarrow> (let ca = ce_home env @ ''/.mitmproxy/mitmproxy-ca-cert.pem'' in do {
          ok \<leftarrow> ensure_ca env mitmdump ca;
          if \<not> ok then State_Monad.return (NetPanic, svc)
          else do {
            u \<leftarrow> install_mitm_ca env serial ca;
            if \<not> ce_mkdir env (session_dir svc sid) then State_Monad.return (NetFailed, svc)
            else (let (port, svc1) = take_proxy_port svc
                  in do {
                    r \<leftarrow> launch_proxy env mitmdump (path_join [session_dir svc sid, ''network.har'']) serial port;
                    State_Monad.return (r, svc1) }) } }))"

definition network_register :: "string \<Rightarrow> network_capture \<Rightarrow> capture_service \<Rightarrow> capture_service" where
  "network_register sid nc svc = svc\<lparr>cs_networks := AList.update sid nc (cs_networks svc)\<rparr>"

definition start_network ::
  "capture_env \<Rightarrow> string \<Rightarrow> string \<Rightarrow> capture_service \<Rightarrow> (network_start \<times> capture_service) io" where
  "start_network env sid serial svc = do {
     (r, svc1) \<leftarrow> network_begin env sid serial svc;
     State_Monad.return (r, case r of NetReady nc \<Rightarrow> network_register sid nc svc1 | _ \<Rightarrow> svc1) }"

definition stop_network :: "capture_env \<Rightarrow> string \<Rightarrow> capture_service \<Rightarrow> (string \<times> capture_service) io" where
  "stop_network env sid svc =
     (let c = ce_client env; svc1 = svc\<lparr>cs_networks := AList.delete sid (cs_networks svc)\<rparr>
      in case map_of (cs_networks svc) sid of
           None \<Rightarrow> State_Monad.return ([], svc)
         | Some nc \<Rightarrow> do {
             out \<leftarrow> run_cmd c (on_dev c (nc_serial nc) [''shell'', ''settings'', ''delete'', ''global'', ''http_proxy'']);
             i \<leftarrow> signal_proc c (nc_pid nc) ''SIGINT'';
             w \<leftarrow> signal_proc c (nc_pid nc) ''wait'';
             k \<leftarrow> (if w = SigOk then State_Monad.return SigOk else signal_proc c (nc_pid nc) ''SIGKILL'');
             har \<leftarrow> world_stat env (nc_har nc);
             State_Monad.return (if har = None then [] else nc_har nc, svc1) })"

definition stop_all :: "capture_env \<Rightarrow> bool \<Rightarrow> string \<Rightarrow> capture_service \<Rightarrow> capture_service io" where
  "stop_all env by_cancel sid svc = do {
     (v, svc1) \<leftarrow> stop_video env by_cancel sid svc;
     (l, svc2) \<leftarrow> stop_logcat env sid svc1;
     (n, svc3) \<leftarrow> stop_network env sid svc2;
     State_Monad.return svc3 }"

subsection \<open>Which devices are touched\<close>

text \<open>A command that names no device: a tool of the host, or a signal to a process.\<close>

definition no_device :: "cmd \<Rightarrow> bool" where
  "no_device cmd \<longleftrightarrow> (case cmd of a # b # rest \<Rightarrow> b \<noteq> ''-s'' | _ \<Rightarrow> True)"

definition host_or :: "adb_client \<Rightarrow> string set \<Rightarrow> cmd \<Rightarrow> bool" where
  "host_or c S cmd \<longleftrightarrow> no_device cmd \<or> (\<exists>s \<in> S. for_dev c s cmd)"

lemma host_or_dev: "s \<in> S \<Longrightarrow> host_or c S (on_dev c s args)"
  by (auto simp: host_or_def for_dev_def on_dev_def)

lemma host_or_kill: "host_or c S [''kill'', sig, itoa_nat pid] \<longleftrightarrow>
    sig \<noteq> ''-s'' \<or> (\<exists>s \<in> S. for_dev c s [''kill'', sig, itoa_nat pid])"
  by (simp add: host_or_def no_device_def)

lemma issues_host_dev [issues_intros]: "s \<in> S \<Longrightarrow> issues (host_or c S) (run_cmd c (on_dev c s args))"
  by (intro issues_run_cmd host_or_dev)

lemma issues_host_start [issues_intros]: "s \<in> S \<Longrightarrow> issues (host_or c S) (start_cmd c (on_dev c s args))"
  by (intro issues_start_cmd host_or_dev)

lemma issues_host_signal [issues_intros]: "sig \<noteq> ''-s'' \<Longrightarrow> issues (host_or c S) (signal_proc c pid sig)"
  by (intro issues_signal_proc) (simp add: host_or_kill)

lemma issues_host_tool [issues_intros]:
  "b \<noteq> ''-s'' \<Longrightarrow> issues (host_or c S) (run_cmd c (a # b # rest))"
  "b \<noteq> ''-s'' \<Longrightarrow> issues (host_or c S) (start_cmd c (a # b # rest))"
  by (intro issues_run_cmd, simp add: host_or_def no_device_def, intro issues_start_cmd, simp add: host_or_def no_device_def)

lemma issues_host_mono: "issues (host_or c S) m \<Longrightarrow> S \<subseteq> T \<Longrightarrow> issues (host_or c T) m"
  by (erule issues_mono) (auto simp: host_or_def)

lemma issues_chunk_end: "issues (host_or (ce_client env) {vc_serial vc}) (chunk_end env by_cancel pid t vc)"
  unfolding chunk_end_def interrupt_recording_def by (intro issues_intros) simp_all

lemma issues_chunk_begin: "issues (host_or (ce_client env) {vc_serial vc}) (chunk_begin env vc)"
  unfolding chunk_begin_def by (intro issues_intros) simp_all

lemma issues_finish_loop: "issues (host_or (ce_client env) {vc_serial vc}) (finish_loop env by_cancel vc)"
  using issues_chunk_end [of env "vc\<lparr>vc_cancelled := True\<rparr>"] issues_chunk_begin [of env "vc\<lparr>vc_cancelled := True\<rparr>"]
  by (auto simp: finish_loop_def Let_def issues_return split: option.split prod.split)

lemma issues_save_video: "issues (host_or (ce_client env) S) (save_video env chunks)"
  by (auto simp: save_video_def merge_chunks_def Let_def issues_return split: list.split option.split
      intro!: issues_intros)

lemma issues_install_ca: "issues (host_or (ce_client env) {serial}) (install_mitm_ca env serial ca)"
  unfolding install_mitm_ca_def subject_hash_old_def remount_and_push_def push_ca_def Let_def
  by (intro issues_intros) simp_all

subsection \<open>Stopping\<close>

lemma file_ops_fields [simp]:
  "cs_videos (file_ops fs svc) = cs_videos svc" "cs_logcats (file_ops fs svc) = cs_logcats svc"
  "cs_networks (file_ops fs svc) = cs_networks svc" "cs_next_port (file_ops fs svc) = cs_next_port svc"
  "cs_data (file_ops fs svc) = cs_data svc"
  by (simp_all add: file_ops_def)

text \<open>\<open>agrees\<close>: the same captures, port counter and directory, by session.\<close>

definition captures :: "capture_service \<Rightarrow> string \<Rightarrow> video_capture option \<times> logcat_capture option \<times> network_capture option" where
  "captures svc sid = (map_of (cs_videos svc) sid, map_of (cs_logcats svc) sid, map_of (cs_networks svc) sid)"

lemma stop_video_result:
  assumes "run_state (stop_video env by_cancel sid svc) h = ((path, svc'), h')"
  shows "map_of (cs_videos svc') = (map_of (cs_videos svc))(sid := None)" and "cs_logcats svc' = cs_logcats svc"
    and "cs_networks svc' = cs_networks svc" and "cs_next_port svc' = cs_next_port svc"
    and "map_of (cs_videos svc) sid = None \<Longrightarrow> path = [] \<and> svc' = svc \<and> h' = h"
  using assms by (auto simp: stop_video_def delete_conv' split: option.splits prod.splits)

lemma stop_logcat_result:
  assumes "run_state (stop_logcat env sid svc) h = ((path, svc'), h')"
  shows "map_of (cs_logcats svc') = (map_of (cs_logcats svc))(sid := None)" and "cs_videos svc' = cs_videos svc"
    and "cs_networks svc' = cs_networks svc" and "cs_next_port svc' = cs_next_port svc"
    and "map_of (cs_logcats svc) sid = None \<Longrightarrow> path = [] \<and> svc' = svc \<and> h' = h"
  using assms by (auto simp: stop_logcat_def delete_conv' split: option.splits prod.splits)

lemma stop_network_result:
  assumes "run_state (stop_network env sid svc) h = ((path, svc'), h')"
  shows "map_of (cs_networks svc') = (map_of (cs_networks svc))(sid := None)" and "cs_videos svc' = cs_videos svc"
    and "cs_logcats svc' = cs_logcats svc" and "cs_next_port svc' = cs_next_port svc"
    and "map_of (cs_networks svc) sid = None \<Longrightarrow> path = [] \<and> svc' = svc \<and> h' = h"
  using assms by (auto simp: stop_network_def delete_conv' Let_def split: option.splits prod.splits)

definition capture_serials :: "capture_service \<Rightarrow> string \<Rightarrow> string set" where
  "capture_serials svc sid =
     set_option (map_option vc_serial (map_of (cs_videos svc) sid)) \<union>
     set_option (map_option nc_serial (map_of (cs_networks svc) sid))"

lemma issues_stop_video:
  "issues (host_or (ce_client env) (capture_serials svc sid)) (stop_video env by_cancel sid svc)"
proof (cases "map_of (cs_videos svc) sid")
  case (Some vc)
  then have "{vc_serial vc} \<subseteq> capture_serials svc sid" by (simp add: capture_serials_def)
  with Some show ?thesis
    by (auto simp: stop_video_def split: prod.split intro!: issues_intros issues_save_video
        issues_host_mono [OF issues_finish_loop])
qed (simp add: stop_video_def issues_return)

lemma issues_stop_logcat: "issues (host_or (ce_client env) S) (stop_logcat env sid svc)"
  by (auto simp: stop_logcat_def split: option.split intro!: issues_intros)

lemma issues_stop_network:
  "issues (host_or (ce_client env) (capture_serials svc sid)) (stop_network env sid svc)"
  by (auto simp: stop_network_def capture_serials_def Let_def split: option.split intro!: issues_intros)

lemma issues_bind_run:
  assumes "issues P m" and "\<And>x h h'. run_state m h = (x, h') \<Longrightarrow> issues P (f x)"
  shows "issues P (State_Monad.bind m f)"
  unfolding issues_def
proof
  fix h
  obtain x h1 where m: "run_state m h = (x, h1)" by fastforce
  from issuesD [OF assms(1) m] obtain cs where cs: "h1 = h @ cs" "list_all P cs" by blast
  obtain ds where "snd (run_state (f x) h1) = h1 @ ds" "list_all P ds"
    using assms(2) [OF m] unfolding issues_def by blast
  with m cs show "\<exists>cs. snd (run_state (State_Monad.bind m f) h) = h @ cs \<and> list_all P cs"
    by (intro exI [of _ "cs @ ds"]) simp
qed

text \<open>Stopping all captures of a session removes exactly the session's own captures, whatever the
  tools answer; it sends commands only to the devices those captures record, apart from tools and
  signals on the host; and stopping again does nothing, with no command at all.\<close>

theorem stop_all_correct:
  "captures (fst (run_state (stop_all env by_cancel sid svc) h)) =
     (captures svc)(sid := (None, None, None)) \<and>
   cs_next_port (fst (run_state (stop_all env by_cancel sid svc) h)) = cs_next_port svc \<and>
   issues (host_or (ce_client env) (capture_serials svc sid)) (stop_all env by_cancel sid svc) \<and>
   run_state (stop_all env again sid (fst (run_state (stop_all env by_cancel sid svc) h))) h2 =
     (fst (run_state (stop_all env by_cancel sid svc) h), h2)"
proof -
  obtain v svc1 h1 where v: "run_state (stop_video env by_cancel sid svc) h = ((v, svc1), h1)" by (metis surj_pair)
  obtain l svc2 h2' where l: "run_state (stop_logcat env sid svc1) h1 = ((l, svc2), h2')" by (metis surj_pair)
  obtain n svc3 h3 where n: "run_state (stop_network env sid svc2) h2' = ((n, svc3), h3)" by (metis surj_pair)
  note r = stop_video_result [OF v] stop_logcat_result [OF l] stop_network_result [OF n]
  have e: "fst (run_state (stop_all env by_cancel sid svc) h) = svc3" by (simp add: stop_all_def v l n)
  have c: "captures svc3 = (captures svc)(sid := (None, None, None))"
    using r by (auto simp: captures_def fun_eq_iff)
  have z: "map_of (cs_videos svc3) sid = None" "map_of (cs_logcats svc3) sid = None"
    "map_of (cs_networks svc3) sid = None" using r by simp_all
  then have again: "run_state (stop_all env again sid svc3) h2 = (svc3, h2)"
    by (simp add: stop_all_def stop_video_def stop_logcat_def stop_network_def)
  have sub: "capture_serials svc'' sid \<subseteq> capture_serials svc sid"
    if "run_state (stop_video env by_cancel sid svc) g = ((x, svc'), g')"
      "run_state (stop_logcat env sid svc') k = ((y, svc''), k')" for g g' k k' x y svc' svc''
    using stop_video_result [OF that(1)] stop_logcat_result [OF that(2)] by (simp add: capture_serials_def)
  have "issues (host_or (ce_client env) (capture_serials svc sid)) (stop_all env by_cancel sid svc)"
    unfolding stop_all_def
    by (auto intro!: issues_bind_run issues_stop_video issues_stop_logcat issues_return
        issues_host_mono [OF issues_stop_network] dest: subsetD [OF sub] split: prod.split)
  with e c again r show ?thesis by simp
qed

subsection \<open>Starting\<close>

lemma issues_starts:
  "issues (host_or (ce_client env) {serial}) (start_video env sid serial svc)"
  "issues (host_or (ce_client env) {serial}) (start_logcat env sid serial svc)"
  "issues (host_or (ce_client env) {serial}) (start_network env sid serial svc)"
  by (auto simp: start_video_def start_logcat_def start_network_def network_begin_def ensure_ca_def launch_proxy_def
      take_proxy_port_def Let_def split: option.split prod.split intro!: issues_intros issues_install_ca)

lemma start_video_result:
  assumes "run_state (start_video env sid serial svc) h = ((ok, svc'), h')"
  shows "captures svc' = (captures svc)(sid := captures svc' sid)" and "ok \<longleftrightarrow> map_of (cs_videos svc') sid \<noteq> None"
    and "map_of (cs_videos svc) sid \<noteq> None \<Longrightarrow> ok \<and> svc' = svc \<and> h' = h"
  using assms by (auto simp: start_video_def captures_def fun_eq_iff update_conv' split: if_splits)

lemma start_logcat_result:
  assumes "run_state (start_logcat env sid serial svc) h = ((ok, svc'), h')"
  shows "captures svc' = (captures svc)(sid := captures svc' sid)" and "ok \<longleftrightarrow> map_of (cs_logcats svc') sid \<noteq> None"
    and "map_of (cs_logcats svc) sid \<noteq> None \<Longrightarrow> ok \<and> svc' = svc \<and> h' = h"
  using assms by (auto simp: start_logcat_def captures_def fun_eq_iff update_conv' Let_def
      split: if_splits option.splits)

lemma network_begin_result:
  assumes "run_state (network_begin env sid serial svc) h = ((r, svc'), h')"
  shows "cs_networks svc' = cs_networks svc" and "captures svc' = captures svc"
    and "r = NetRunning \<longleftrightarrow> map_of (cs_networks svc) sid \<noteq> None"
    and "map_of (cs_networks svc) sid \<noteq> None \<Longrightarrow> svc' = svc \<and> h' = h"
    and "r = NetReady nc \<Longrightarrow> nc_port nc = cs_next_port svc \<and> svc' = snd (take_proxy_port svc)"
  using assms by (auto simp: network_begin_def launch_proxy_def take_proxy_port_def captures_def fun_eq_iff Let_def
      split: if_splits option.splits prod.splits)

lemma start_network_result:
  assumes "run_state (start_network env sid serial svc) h = ((r, svc'), h')"
  shows "captures svc' = (captures svc)(sid := captures svc' sid)"
    and "r = NetRunning \<or> (\<exists>nc. r = NetReady nc) \<longleftrightarrow> map_of (cs_networks svc') sid \<noteq> None"
    and "map_of (cs_networks svc) sid \<noteq> None \<Longrightarrow> r = NetRunning \<and> svc' = svc \<and> h' = h"
proof -
  obtain svc1 where b: "run_state (network_begin env sid serial svc) h = ((r, svc1), h')" and
    e: "svc' = (case r of NetReady nc \<Rightarrow> network_register sid nc svc1 | _ \<Rightarrow> svc1)"
    using assms by (auto simp: start_network_def split: prod.splits)
  note n = network_begin_result [OF b]
  show "captures svc' = (captures svc)(sid := captures svc' sid)"
    using n(1,2) e by (cases r) (auto simp: captures_def network_register_def update_conv' fun_eq_iff)
  show "r = NetRunning \<or> (\<exists>nc. r = NetReady nc) \<longleftrightarrow> map_of (cs_networks svc') sid \<noteq> None"
    using n(1,3) e by (cases r) (auto simp: network_register_def update_conv')
  show "map_of (cs_networks svc) sid \<noteq> None \<Longrightarrow> r = NetRunning \<and> svc' = svc \<and> h' = h"
    using n(3,4) e by auto
qed

text \<open>A capture that is started is registered for its session exactly when the start reports success;
  other sessions keep theirs; starting what already runs changes nothing and runs no command; and apart
  from tools of the host only the session's device is addressed.\<close>

theorem starts_correct:
  assumes "run_state (start_video env sid serial svc) h = ((v_ok, svc1), h1)"
    and "run_state (start_logcat env sid serial svc1) h1 = ((l_ok, svc2), h2)"
    and "run_state (start_network env sid serial svc2) h2 = ((n, svc3), h3)"
  shows "captures svc3 = (captures svc)(sid := captures svc3 sid) \<and>
    (v_ok \<longleftrightarrow> map_of (cs_videos svc3) sid \<noteq> None) \<and>
    (l_ok \<longleftrightarrow> map_of (cs_logcats svc3) sid \<noteq> None) \<and>
    (n = NetRunning \<or> (\<exists>nc. n = NetReady nc) \<longleftrightarrow> map_of (cs_networks svc3) sid \<noteq> None) \<and>
    (\<exists>cs. h3 = h @ cs \<and> list_all (host_or (ce_client env) {serial}) cs) \<and>
    (map_of (cs_videos svc3) sid \<noteq> None \<longrightarrow> run_state (start_video env sid serial' svc3) g = ((True, svc3), g)) \<and>
    (map_of (cs_logcats svc3) sid \<noteq> None \<longrightarrow> run_state (start_logcat env sid serial' svc3) g = ((True, svc3), g)) \<and>
    (map_of (cs_networks svc3) sid \<noteq> None \<longrightarrow>
       run_state (start_network env sid serial' svc3) g = ((NetRunning, svc3), g))"
proof -
  note v = start_video_result [OF assms(1)]
  note l = start_logcat_result [OF assms(2)]
  note n = start_network_result [OF assms(3)]
  have lv: "cs_videos svc2 = cs_videos svc1"
    using assms(2) by (auto simp: start_logcat_def Let_def split: if_splits option.splits)
  have nv: "cs_videos svc3 = cs_videos svc2 \<and> cs_logcats svc3 = cs_logcats svc2"
    using assms(3) by (auto simp: start_network_def network_begin_def take_proxy_port_def network_register_def Let_def
        split: if_splits option.splits prod.splits network_start.splits)
  have "captures svc3 = (captures svc)(sid := captures svc3 sid)"
    using v(1) l(1) n(1) by (metis fun_upd_upd)
  moreover have "\<exists>cs. h3 = h @ cs \<and> list_all (host_or (ce_client env) {serial}) cs"
    using issuesD [OF issues_starts(1) assms(1)] issuesD [OF issues_starts(2) assms(2)]
      issuesD [OF issues_starts(3) assms(3)] by fastforce
  moreover have "run_state (start_video env sid serial' svc3) g = ((True, svc3), g)"
    if "map_of (cs_videos svc3) sid \<noteq> None" using that by (simp add: start_video_def)
  moreover have "run_state (start_logcat env sid serial' svc3) g = ((True, svc3), g)"
    if "map_of (cs_logcats svc3) sid \<noteq> None" using that by (simp add: start_logcat_def)
  moreover have "run_state (start_network env sid serial' svc3) g = ((NetRunning, svc3), g)"
    if "map_of (cs_networks svc3) sid \<noteq> None" using that by (simp add: start_network_def network_begin_def)
  ultimately show ?thesis using v(2) l(2) n(2) lv nv by metis
qed

theorem starts_correct_witness:
  "\<exists>svc1 svc2 svc3 h1 h2 h3 n. run_state (start_video quiet_env ''s'' ''e'' (new_capture_service ''/d'')) [] = ((True, svc1), h1) \<and>
     run_state (start_logcat quiet_env ''s'' ''e'' svc1) h1 = ((True, svc2), h2) \<and>
     run_state (start_network quiet_env ''s'' ''e'' svc2) h2 = ((n, svc3), h3) \<and>
     map_of (cs_videos svc3) ''s'' \<noteq> None \<and> map_of (cs_logcats svc3) ''s'' \<noteq> None"
proof -
  let ?svc = "new_capture_service ''/d''"
  obtain v svc1 h1 where v: "run_state (start_video quiet_env ''s'' ''e'' ?svc) [] = ((v, svc1), h1)" by (metis surj_pair)
  obtain l svc2 h2 where l: "run_state (start_logcat quiet_env ''s'' ''e'' svc1) h1 = ((l, svc2), h2)" by (metis surj_pair)
  obtain n svc3 h3 where n: "run_state (start_network quiet_env ''s'' ''e'' svc2) h2 = ((n, svc3), h3)" by (metis surj_pair)
  have v1: "v" "cs_logcats svc1 = []"
    using v by (auto simp: start_video_def new_capture_service_def quiet_env_def gone_env_def)
  have "l" using l v1(2) by (auto simp: start_logcat_def quiet_env_def gone_env_def Let_def)
  with v1(1) starts_correct [OF v l n]
  have "map_of (cs_videos svc3) ''s'' \<noteq> None \<and> map_of (cs_logcats svc3) ''s'' \<noteq> None" by simp
  moreover have "v = True" "l = True" using v1(1) \<open>l\<close> by simp_all
  ultimately show ?thesis using v l n by blast
qed

subsection \<open>Proxy ports\<close>

definition next_port_after :: "nat \<Rightarrow> capture_service \<Rightarrow> capture_service" where
  "next_port_after k = (snd \<circ> take_proxy_port) ^^ k"

lemma next_port_formula:
  assumes "8889 \<le> cs_next_port svc" and "cs_next_port svc \<le> 8999"
  shows "next_port_after k svc = svc\<lparr>cs_next_port := 8889 + (cs_next_port svc - 8889 + int k) mod 111\<rparr>"
proof (induction k)
  case 0
  then show ?case using assms by (simp add: next_port_after_def)
next
  case (Suc k)
  let ?x = "(cs_next_port svc - 8889 + int k) mod 111"
  have "(cs_next_port svc - 8889 + int (Suc k)) mod 111 = (?x + 1) mod 111"
    unfolding mod_add_left_eq by (simp add: ac_simps)
  moreover have "(?x + 1) mod 111 = (if 110 < ?x + 1 then 0 else ?x + 1)"
    using pos_mod_bound [of 111 "cs_next_port svc - 8889 + int k"]
      pos_mod_sign [of 111 "cs_next_port svc - 8889 + int k"] by (cases "?x = 110") auto
  moreover have "next_port_after (Suc k) svc = snd (take_proxy_port (next_port_after k svc))"
    by (simp add: next_port_after_def)
  ultimately show ?case by (auto simp: Suc take_proxy_port_def)
qed

lemma mod_rotate:
  fixes y :: int
  assumes "0 \<le> y" and "y < 111" and "k < 111"
  shows "(y + int k) mod 111 = y \<longleftrightarrow> k = 0"
proof (cases "y + int k < 111")
  case False
  then have "(y + int k) mod 111 = (y + int k - 111) mod 111" by (intro mod_pos_geq) simp_all
  also have "\<dots> = y + int k - 111" using False assms by (intro mod_pos_pos_trivial) simp_all
  finally show ?thesis using assms(3) False assms(2) by auto
qed (use assms in simp)

text \<open>The proxy ports rotate through 8889 to 8999. Up to 111 captures in a row get different ports, and
  the 112th gets the port of the first: the service does not look whether that one still runs.\<close>

theorem proxy_ports_rotate:
  assumes "8889 \<le> cs_next_port svc" and "cs_next_port svc \<le> 8999"
    and "run_state (network_begin env sid serial (next_port_after k svc)) h = ((NetReady nc, svc'), h')"
  shows "nc_port nc = 8889 + (cs_next_port svc - 8889 + int k) mod 111 \<and> svc' = next_port_after (Suc k) svc \<and>
    next_port_after 111 svc = svc \<and>
    (k < 111 \<longrightarrow> (nc_port nc = cs_next_port svc \<longleftrightarrow> k = 0)) \<and>
    (k = 111 \<longrightarrow> map_of (cs_networks svc) other = Some running \<longrightarrow> nc_port running = cs_next_port svc \<longrightarrow>
       nc_port nc = nc_port running \<and> map_of (cs_networks svc') other = Some running)"
proof -
  note f = next_port_formula [OF assms(1,2)]
  note b = network_begin_result [OF assms(3)]
  have p: "nc_port nc = 8889 + (cs_next_port svc - 8889 + int k) mod 111" using b(5) f by simp
  have s: "svc' = next_port_after (Suc k) svc" using b(5) by (simp add: next_port_after_def)
  have x: "0 \<le> cs_next_port svc - 8889" "cs_next_port svc - 8889 < 111" using assms(1,2) by simp_all
  have "(y + int 111) mod 111 = y" if "0 \<le> y" "y < 111" for y :: int using that by simp
  from this [OF x] have full: "(cs_next_port svc - 8889 + int 111) mod 111 = cs_next_port svc - 8889" .
  then have "next_port_after 111 svc = svc" unfolding f by simp
  moreover have "(cs_next_port svc - 8889 + int k) mod 111 = cs_next_port svc - 8889 \<longleftrightarrow> k = 0" if "k < 111"
    by (rule mod_rotate [OF x that])
  moreover have "nc_port nc = nc_port running \<and> map_of (cs_networks svc') other = Some running"
    if "k = 111" "map_of (cs_networks svc) other = Some running" "nc_port running = cs_next_port svc"
  proof -
    have "nc_port nc = nc_port running" using p full unfolding that(1,3) by linarith
    moreover have "cs_networks svc' = cs_networks svc" using b(1) by (simp add: f)
    ultimately show ?thesis using that(2) by simp
  qed
  ultimately show ?thesis using p s by fastforce
qed

definition proxy_env :: capture_env where
  "proxy_env = quiet_env\<lparr>ce_lookpath := (\<lambda>p. Some p), ce_stat := (\<lambda>h p. Some 1)\<rparr>"

definition one_proxy :: capture_service where
  "one_proxy = (new_capture_service ''/d'')\<lparr>cs_networks := [(''s'',
     \<lparr>nc_pid = 1, nc_serial = ''e'', nc_port = 8889, nc_har = ''h'', nc_started = 1\<rparr>)]\<rparr>"

theorem proxy_ports_rotate_witness:
  "\<exists>nc svc' h'. run_state (network_begin proxy_env ''t'' ''f'' (next_port_after 111 one_proxy)) [] = ((NetReady nc, svc'), h') \<and>
     nc_port nc = 8889 \<and> map_option nc_port (map_of (cs_networks svc') ''s'') = Some 8889"
proof -
  obtain x where x: "map_of (cs_networks one_proxy) ''s'' = Some x" "nc_port x = 8889" by (simp add: one_proxy_def)
  have p: "cs_next_port one_proxy = 8889" by (simp add: one_proxy_def new_capture_service_def)
  have f: "8889 \<le> cs_next_port one_proxy" "cs_next_port one_proxy \<le> 8999" by (simp_all add: p)
  have n: "cs_networks (next_port_after 111 one_proxy) = cs_networks one_proxy" by (simp add: next_port_formula [OF f])
  obtain r svc' h' where b: "run_state (network_begin proxy_env ''t'' ''f'' (next_port_after 111 one_proxy)) [] = ((r, svc'), h')"
    by (metis surj_pair)
  have "map_of (cs_networks (next_port_after 111 one_proxy)) ''t'' = None"
    unfolding n by (simp add: one_proxy_def)
  with b obtain nc where r: "r = NetReady nc"
    by (auto simp: network_begin_def ensure_ca_def install_mitm_ca_def subject_hash_old_def take_proxy_port_def
        launch_proxy_def proxy_env_def quiet_env_def gone_env_def Let_def split: prod.splits)
  from proxy_ports_rotate [where other = "''s''" and running = x, OF f(1,2) b [unfolded r]] x p
  have "nc_port nc = 8889 \<and> map_of (cs_networks svc') ''s'' = Some x" by (elim conjE) simp
  with b r x(2) show ?thesis by auto
qed

text \<open>A session that is stopped while its network capture starts leaves the proxy behind: the capture is
  registered after the stop, and nothing stops it any more.\<close>

lemma late_network_survives:
  assumes "run_state (network_begin env sid serial svc) h = ((NetReady nc, svc1), h1)"
    and "run_state (stop_all env by_cancel sid svc1) h2 = (svc2, h3)"
  shows "map_of (cs_networks (network_register sid nc svc2)) sid = Some nc"
  by (simp add: network_register_def update_conv')

end
