(* ===== verification/Artifacts.thy ===== *)
theory Artifacts
  imports Adb Paths
begin

text \<open>
  The files of \<^verbatim>\<open>internal/capture\<close>: what is kept under \<^verbatim>\<open>artifacts/<session>\<close>, how long
  (\<^verbatim>\<open>retention.go\<close>), how it is listed and addressed (\<^verbatim>\<open>List\<close>, \<^verbatim>\<open>ArtifactPath\<close> of \<^verbatim>\<open>capture.go\<close>), and the
  \<^verbatim>\<open>lineWriter\<close> that cuts a stream into lines. The artifacts directory is an association list from names
  to plain files and session directories; a root that does not exist is the empty list.
\<close>

record art_file =
  af_is_dir :: bool
  af_data :: string
  af_mtime :: time

datatype art_entry = TopFile | SessionDir "(string \<times> art_file) list"

type_synonym artifacts = "(string \<times> art_entry) list"

subsection \<open>Retention\<close>

text \<open>\<^verbatim>\<open>MkdirAll\<close> and \<^verbatim>\<open>WriteFile\<close>, with their errors dropped as the code drops them.\<close>

definition write_session_file :: "time \<Rightarrow> string \<Rightarrow> string \<Rightarrow> string \<Rightarrow> artifacts \<Rightarrow> artifacts" where
  "write_session_file now sid name data a =
     (let f = \<lparr>af_is_dir = False, af_data = data, af_mtime = now\<rparr>
      in case map_of a sid of
           None \<Rightarrow> AList.update sid (SessionDir [(name, f)]) a
         | Some TopFile \<Rightarrow> a
         | Some (SessionDir fs) \<Rightarrow>
             (case map_of fs name of
                None \<Rightarrow> AList.update sid (SessionDir (AList.update name f fs)) a
              | Some old \<Rightarrow> if af_is_dir old then a
                  else AList.update sid (SessionDir (AList.update name f fs)) a))"

definition set_retention_override :: "time \<Rightarrow> string \<Rightarrow> int \<Rightarrow> artifacts \<Rightarrow> artifacts" where
  "set_retention_override now sid hours a =
     (if hours \<le> 0 then a else write_session_file now sid ''.retention'' (itoa hours @ [nl]) a)"

definition retention_of :: "int \<Rightarrow> (string \<times> art_file) list \<Rightarrow> int" where
  "retention_of default_hours fs =
     (case map_of fs ''.retention'' of
        None \<Rightarrow> default_hours
      | Some f \<Rightarrow>
          if af_is_dir f then default_hours
          else (case atoi (trim_space (af_data f)) of None \<Rightarrow> default_hours | Some n \<Rightarrow> n))"

fun newest_from :: "time \<Rightarrow> (string \<times> art_file) list \<Rightarrow> time" where
  "newest_from newest [] = newest"
| "newest_from newest ((n, f) # fs) =
     newest_from (if newest < af_mtime f then af_mtime f else newest) fs"

definition most_recent_mtime :: "(string \<times> art_file) list \<Rightarrow> time" where
  "most_recent_mtime fs = newest_from 0 fs"

definition dir_expired :: "time \<Rightarrow> int \<Rightarrow> (string \<times> art_file) list \<Rightarrow> bool" where
  "dir_expired now default_hours fs =
     (let hours = retention_of default_hours fs
      in if hours < 0 then False
         else (let cutoff = now + dur_mul (- hours) hour_ns;
                   newest = most_recent_mtime fs
               in if newest = 0 then False else \<not> cutoff < newest))"

text \<open>\<open>rm\<close> is what \<^verbatim>\<open>RemoveAll\<close> leaves of a directory: nothing, or on failure some of it.\<close>

type_synonym remover = "string \<Rightarrow> (string \<times> art_file) list \<Rightarrow> (string \<times> art_file) list option"

definition sweep_entry :: "time \<Rightarrow> remover \<Rightarrow> int \<Rightarrow> string \<times> art_entry \<Rightarrow> (string \<times> art_entry) option" where
  "sweep_entry now rm default_hours e =
     (case e of
        (name, TopFile) \<Rightarrow> Some e
      | (name, SessionDir fs) \<Rightarrow>
          if dir_expired now default_hours fs
          then map_option (\<lambda>left. (name, SessionDir left)) (rm name fs) else Some e)"

definition sweep :: "time \<Rightarrow> remover \<Rightarrow> int \<Rightarrow> artifacts \<Rightarrow> artifacts" where
  "sweep now rm default_hours a = List.map_filter (sweep_entry now rm default_hours) a"

text \<open>The sweeper sweeps once at start and then at every tick, with a week for a missing default.\<close>

definition sweeper_hours :: "int \<Rightarrow> int" where
  "sweeper_hours default_hours = (if default_hours \<le> 0 then 24 * 7 else default_hours)"

definition run_sweeper :: "remover \<Rightarrow> int \<Rightarrow> time list \<Rightarrow> artifacts \<Rightarrow> artifacts" where
  "run_sweeper rm default_hours ticks a = fold (\<lambda>now. sweep now rm (sweeper_hours default_hours)) ticks a"

definition min_int :: "int \<Rightarrow> int \<Rightarrow> int" where
  "min_int a b = (if a < b then a else b)"

subsection \<open>Listing and addressing\<close>

record artifact_file =
  art_type :: string
  art_name :: string
  art_size :: nat
  art_url :: string

definition infer_type :: "string \<Rightarrow> string" where
  "infer_type filename =
     (if filename = ''video.mp4'' then ''video''
      else if filename = ''logcat.txt'' then ''logcat''
      else if filename = ''network.har'' \<or> filename = ''network.pcap'' then ''network''
      else if path_ext filename = ''.png'' then ''screenshot''
      else ''other'')"

definition artifact_list :: "string \<Rightarrow> artifacts \<Rightarrow> artifact_file list" where
  "artifact_list sid a =
     (case map_of a sid of
        Some (SessionDir fs) \<Rightarrow>
          List.map_filter (\<lambda>(n, f). if af_is_dir f then None
            else Some \<lparr>art_type = infer_type n, art_name = n, art_size = length (af_data f),
                       art_url = ''/api/v1/sessions/'' @ sid @ ''/artifacts/'' @ n\<rparr>) fs
      | _ \<Rightarrow> [])"

definition artifact_path :: "(string \<Rightarrow> bool) \<Rightarrow> string \<Rightarrow> string \<Rightarrow> string \<Rightarrow> string" where
  "artifact_path exists data_dir sid filename =
     (if path_base filename \<noteq> filename then []
      else (let p = path_join [data_dir, ''artifacts'', sid, filename]
            in if \<not> exists p then [] else p))"

subsection \<open>Lines of a stream\<close>

record line_writer =
  lw_buf :: string
  lw_lines :: "string list"

definition new_line_writer :: line_writer where
  "new_line_writer = \<lparr>lw_buf = [], lw_lines = []\<rparr>"

function drain_lines :: "string \<Rightarrow> string list \<times> string" where
  "drain_lines buf =
     (if nl \<notin> set buf then ([], buf)
      else (let line = takeWhile (\<lambda>b. b \<noteq> nl) buf;
                (rest, left) = drain_lines (tl (dropWhile (\<lambda>b. b \<noteq> nl) buf))
            in (if line \<noteq> [] then line # rest else rest, left)))"
  by pat_completeness auto
termination
proof (relation "measure length")
  fix buf :: string
  assume "\<not> nl \<notin> set buf"
  then have "dropWhile (\<lambda>b. b \<noteq> nl) buf \<noteq> []" by auto
  moreover have "length (dropWhile (\<lambda>b. b \<noteq> nl) buf) \<le> length buf" by (rule length_dropWhile_le)
  ultimately show "(tl (dropWhile (\<lambda>b. b \<noteq> nl) buf), buf) \<in> measure length"
    by (cases "dropWhile (\<lambda>b. b \<noteq> nl) buf") auto
qed simp

declare drain_lines.simps [simp del]

definition line_write :: "string \<Rightarrow> line_writer \<Rightarrow> nat \<times> line_writer" where
  "line_write p w =
     (let (lines, left) = drain_lines (lw_buf w @ p)
      in (length p, w\<lparr>lw_buf := left, lw_lines := lw_lines w @ lines\<rparr>))"

subsection \<open>The theorems\<close>

lemma drain_lines_split:
  "drain_lines buf = (filter (\<lambda>l. l \<noteq> []) (butlast (split_on nl buf)), last (split_on nl buf))"
proof (induction buf rule: drain_lines.induct)
  case (1 buf)
  show ?case
  proof (cases "nl \<in> set buf")
    case False
    then show ?thesis by (simp add: drain_lines.simps [of buf] split_on_none)
  next
    case True
    let ?line = "takeWhile (\<lambda>b. b \<noteq> nl) buf"
    let ?rest = "tl (dropWhile (\<lambda>b. b \<noteq> nl) buf)"
    from True have "dropWhile (\<lambda>b. b \<noteq> nl) buf = nl # ?rest"
      using hd_dropWhile [of "\<lambda>b. b \<noteq> nl" buf] by (cases "dropWhile (\<lambda>b. b \<noteq> nl) buf") auto
    then have "buf = ?line @ nl # ?rest" by (metis takeWhile_dropWhile_id)
    moreover have "nl \<notin> set ?line" by (auto dest: set_takeWhileD)
    ultimately have s: "split_on nl buf = ?line # split_on nl ?rest" by (metis split_on_append)
    with 1 True show ?thesis by (simp add: drain_lines.simps [of buf])
  qed
qed

lemma split_on_concat: "split_on c (xs @ ys) = butlast (split_on c xs) @ split_on c (last (split_on c xs) @ ys)"
proof (induction xs)
  case (Cons x xs)
  obtain w ws where w: "split_on c xs = w # ws" using split_on_ne [of c xs] by (cases "split_on c xs") auto
  show ?case
  proof (cases "x = c")
    case True
    with Cons w show ?thesis by simp
  next
    case False
    show ?thesis
    proof (cases ws)
      case Nil
      with Cons w False show ?thesis by simp
    next
      case (Cons v vs)
      then have "butlast (split_on c xs) = w # butlast ws" "last (split_on c xs) = last ws" using w by auto
      with Cons.IH False w Cons show ?thesis by simp
    qed
  qed
qed simp

text \<open>However a stream is cut into writes, the writer passes on exactly its complete lines that are
  not empty, in order, and holds back what follows the last newline.\<close>

theorem line_writer_chunking:
  "fold (\<lambda>p w. snd (line_write p w)) chunks new_line_writer =
     \<lparr>lw_buf = last (split_on nl (concat chunks)),
      lw_lines = filter (\<lambda>l. l \<noteq> []) (butlast (split_on nl (concat chunks)))\<rparr>"
proof (induction chunks rule: rev_induct)
  case Nil
  then show ?case by (simp add: new_line_writer_def)
next
  case (snoc p ps)
  let ?s = "split_on nl (concat ps)"
  have s: "split_on nl (concat ps @ p) = butlast ?s @ split_on nl (last ?s @ p)" by (rule split_on_concat)
  have "fold (\<lambda>p w. snd (line_write p w)) (ps @ [p]) new_line_writer =
      snd (line_write p (fold (\<lambda>p w. snd (line_write p w)) ps new_line_writer))" by simp
  then show ?case unfolding snoc by (simp add: line_write_def drain_lines_split s butlast_append)
qed

subsection \<open>Retention\<close>

lemma newest_from_le: "newest_from m fs \<le> b \<longleftrightarrow> m \<le> b \<and> (\<forall>(n, f) \<in> set fs. af_mtime f \<le> b)"
  by (induction m fs rule: newest_from.induct) auto

lemma newest_from_ge: "m \<le> newest_from m fs" "(n, f) \<in> set fs \<Longrightarrow> af_mtime f \<le> newest_from m fs"
  using newest_from_le [of m fs "newest_from m fs"] by auto

lemma map_of_map_filter_entry:
  assumes "\<And>k v k' v'. g (k, v) = Some (k', v') \<Longrightarrow> k' = k" and "distinct (map fst a)"
  shows "map_of (List.map_filter g a) k =
    (case map_of a k of None \<Rightarrow> None | Some v \<Rightarrow> map_option snd (g (k, v)))"
  using assms(2)
proof (induction a)
  case (Cons x a)
  obtain k1 v1 where x: "x = (k1, v1)" by (cases x)
  have "map_of a k1 = None" using Cons.prems x by (auto simp: map_of_eq_None_iff)
  with Cons x assms(1) [of k1 v1] show ?case
    by (cases "g (k1, v1)") (auto simp: map_filter_simps split: option.split)
qed (simp add: map_filter_simps)

lemma sweep_find:
  assumes "distinct (map fst a)"
  shows "map_of (sweep now rm d a) k =
    (case map_of a k of None \<Rightarrow> None | Some e \<Rightarrow> map_option snd (sweep_entry now rm d (k, e)))"
  unfolding sweep_def
  by (rule map_of_map_filter_entry [OF _ assms])
    (auto simp: sweep_entry_def split: art_entry.splits if_splits)

text \<open>The directory of a session after its retention was set.\<close>

definition overridable :: "string \<Rightarrow> artifacts \<Rightarrow> bool" where
  "overridable sid a \<longleftrightarrow> map_of a sid \<noteq> Some TopFile \<and>
     (\<forall>fs f. map_of a sid = Some (SessionDir fs) \<longrightarrow> map_of fs ''.retention'' = Some f \<longrightarrow> \<not> af_is_dir f)"

definition files_of :: "string \<Rightarrow> artifacts \<Rightarrow> (string \<times> art_file) list" where
  "files_of sid a = (case map_of a sid of Some (SessionDir fs) \<Rightarrow> fs | _ \<Rightarrow> [])"

lemma set_retention_override_result:
  assumes "0 < h" and "overridable sid a"
  shows "map_of (set_retention_override now sid h a) = (map_of a)(sid \<mapsto> SessionDir
    (AList.update ''.retention'' \<lparr>af_is_dir = False, af_data = itoa h @ [nl], af_mtime = now\<rparr> (files_of sid a)))"
proof (cases "map_of a sid")
  case None
  with assms show ?thesis
    by (simp add: set_retention_override_def write_session_file_def files_of_def update_conv')
next
  case (Some e)
  with assms obtain fs where e: "e = SessionDir fs" by (cases e) (auto simp: overridable_def)
  show ?thesis
  proof (cases "map_of fs ''.retention''")
    case None
    with Some e assms show ?thesis
      by (simp add: set_retention_override_def write_session_file_def files_of_def update_conv')
  next
    case (Some f)
    moreover from this \<open>map_of a sid = Some e\<close> e assms(2) have "\<not> af_is_dir f" by (auto simp: overridable_def)
    ultimately show ?thesis using \<open>map_of a sid = Some e\<close> e assms(1)
      by (simp add: set_retention_override_def write_session_file_def files_of_def update_conv')
  qed
qed

lemma retention_of_override:
  assumes "0 < h" and "h < 2 ^ 63"
  shows "retention_of d (AList.update ''.retention''
    \<lparr>af_is_dir = False, af_data = itoa h @ [nl], af_mtime = t\<rparr> fs) = h"
  using assms atoi_itoa [of h] by (simp add: retention_of_def update_conv' trim_space_itoa_newline nl_def)

lemma dur_mul_hours: "0 \<le> h \<Longrightarrow> h \<le> 2562047 \<Longrightarrow> dur_mul (- h) hour_ns = - (h * hour_ns)"
  unfolding dur_mul_def hour_ns_def by (subst wrap64_id) auto

lemma dur_mul_hours_wraps:
  assumes "2562048 \<le> h" and "h \<le> 5124095"
  shows "0 < dur_mul (- h) hour_ns"
proof -
  have "(- h * 3600000000000 + 2 ^ 63) mod 2 ^ 64 = (- h * 3600000000000 + 2 ^ 63 + 2 ^ 64) mod 2 ^ 64"
    by (rule mod_add_self2 [symmetric])
  also have "\<dots> = - h * 3600000000000 + 2 ^ 63 + 2 ^ 64"
    by (rule mod_pos_pos_trivial) (use assms in simp_all)
  finally show ?thesis using assms by (simp add: dur_mul_def hour_ns_def wrap64_mod)
qed

lemma ball_replaced:
  assumes "\<And>n g. (n, g) \<in> set xs \<longleftrightarrow> (if n = r then g = f else (n, g) \<in> set ys)"
  shows "(\<forall>(n, g) \<in> set xs. P g) \<longleftrightarrow> P f \<and> (\<forall>(n, g) \<in> set ys. n \<noteq> r \<longrightarrow> P g)"
proof
  assume l: "\<forall>(n, g) \<in> set xs. P g"
  then show "P f \<and> (\<forall>(n, g) \<in> set ys. n \<noteq> r \<longrightarrow> P g)"
  proof (intro conjI)
    show "P f" using l assms [of r f] by auto
    show "\<forall>(n, g) \<in> set ys. n \<noteq> r \<longrightarrow> P g"
    proof (clarify)
      fix n g
      assume "(n, g) \<in> set ys" "n \<noteq> r"
      with assms [of n g] l show "P g" by auto
    qed
  qed
next
  assume "P f \<and> (\<forall>(n, g) \<in> set ys. n \<noteq> r \<longrightarrow> P g)"
  then show "\<forall>(n, g) \<in> set xs. P g" by (auto simp: assms split: if_splits)
qed

lemma overridden_sweep:
  assumes "distinct (map fst a)" and "overridable sid a" and "0 < h" and "h < 2 ^ 63" and "0 < t"
    and "distinct (map fst (files_of sid a))"
  shows "map_of (sweep now rm d (set_retention_override t sid h a)) sid =
      (if t \<le> now + dur_mul (- h) hour_ns \<and>
          (\<forall>(n, f) \<in> set (files_of sid a). n \<noteq> ''.retention'' \<longrightarrow> af_mtime f \<le> now + dur_mul (- h) hour_ns)
       then map_option SessionDir (rm sid (files_of sid (set_retention_override t sid h a)))
       else map_of (set_retention_override t sid h a) sid)"
    and "k \<noteq> sid \<Longrightarrow> map_of (sweep now rm d (set_retention_override t sid h a)) k = map_of (sweep now rm d a) k"
proof -
  let ?f = "\<lparr>af_is_dir = False, af_data = itoa h @ [nl], af_mtime = t\<rparr>"
  let ?fs = "AList.update ''.retention'' ?f (files_of sid a)"
  let ?a = "set_retention_override t sid h a"
  note r = set_retention_override_result [OF assms(3,2), of t]
  have d: "distinct (map fst ?a)"
    using assms(1) by (auto simp: set_retention_override_def write_session_file_def Let_def distinct_update
        split: option.split art_entry.split)
  have f: "files_of sid ?a = ?fs" by (simp add: files_of_def r)
  have s: "(n, g) \<in> set ?fs \<longleftrightarrow> (if n = ''.retention'' then g = ?f else (n, g) \<in> set (files_of sid a))" for n g
    by (rule set_alist_update [OF assms(6)])
  have "t \<le> most_recent_mtime ?fs"
    unfolding most_recent_mtime_def using newest_from_ge(2) [of "''.retention''" ?f ?fs 0] s by simp
  then have "most_recent_mtime ?fs \<noteq> 0" using assms(5) by simp
  moreover have "most_recent_mtime ?fs \<le> b \<longleftrightarrow>
      t \<le> b \<and> (\<forall>(n, g) \<in> set (files_of sid a). n \<noteq> ''.retention'' \<longrightarrow> af_mtime g \<le> b)" for b
    unfolding most_recent_mtime_def newest_from_le ball_replaced [where f = ?f, OF s] using assms(5) by auto
  ultimately have e: "dir_expired now d ?fs \<longleftrightarrow> t \<le> now + dur_mul (- h) hour_ns \<and>
      (\<forall>(n, g) \<in> set (files_of sid a). n \<noteq> ''.retention'' \<longrightarrow> af_mtime g \<le> now + dur_mul (- h) hour_ns)"
    using assms(3) by (simp add: dir_expired_def retention_of_override [OF assms(3,4)] Let_def not_less)
  show "map_of (sweep now rm d ?a) sid =
      (if t \<le> now + dur_mul (- h) hour_ns \<and>
          (\<forall>(n, f) \<in> set (files_of sid a). n \<noteq> ''.retention'' \<longrightarrow> af_mtime f \<le> now + dur_mul (- h) hour_ns)
       then map_option SessionDir (rm sid (files_of sid ?a)) else map_of ?a sid)"
    unfolding sweep_find [OF d] f e [symmetric] by (simp add: r sweep_entry_def option.map_comp comp_def)
  show "map_of (sweep now rm d ?a) k = map_of (sweep now rm d a) k" if "k \<noteq> sid"
    unfolding sweep_find [OF d] sweep_find [OF assms(1)] using that by (simp add: r)
qed

text \<open>C22: a retention set for a session is what the sweeper goes by: up to 2562047 hours, the directory
  is removed at the first sweep at which every file in it, the file with the retention included, is at
  least that old; until then it stays as it is. The default and the other sessions are not affected.\<close>

theorem retention_honoured:
  assumes "distinct (map fst a)" and "overridable sid a" and "distinct (map fst (files_of sid a))"
    and "0 < h" and "h \<le> 2562047" and "0 < t"
  shows "map_of (sweep now rm d (set_retention_override t sid h a)) sid =
      (if t + h * hour_ns \<le> now \<and>
          (\<forall>(n, f) \<in> set (files_of sid a). n \<noteq> ''.retention'' \<longrightarrow> af_mtime f + h * hour_ns \<le> now)
       then map_option SessionDir (rm sid (files_of sid (set_retention_override t sid h a)))
       else map_of (set_retention_override t sid h a) sid) \<and>
    (\<forall>k. k \<noteq> sid \<longrightarrow> map_of (sweep now rm d (set_retention_override t sid h a)) k = map_of (sweep now rm d a) k)"
proof -
  have "x \<le> now + dur_mul (- h) hour_ns \<longleftrightarrow> x + h * hour_ns \<le> now" for x
    using dur_mul_hours [of h] assms(4,5) by auto
  with overridden_sweep [where now = now and rm = rm and d = d, OF assms(1,2,4) _ assms(6,3)] assms(5) show ?thesis by simp
qed

definition old_file :: "time \<Rightarrow> art_file" where
  "old_file t = \<lparr>af_is_dir = False, af_data = ''x'', af_mtime = t\<rparr>"

theorem retention_honoured_witness:
  "map_of (sweep (2 * hour_ns) (\<lambda>n fs. None) 168
     (set_retention_override 1 ''s'' 1 [(''s'', SessionDir [(''video.mp4'', old_file 5)])])) ''s'' = None"
  using retention_honoured [of "[(''s'', SessionDir [(''video.mp4'', old_file 5)])]" "''s''" 1 1 "2 * hour_ns" "\<lambda>n fs. None" 168]
  by (simp add: overridable_def files_of_def old_file_def hour_ns_def)

text \<open>Asking to keep artifacts longer than the range of a duration, from 2562048 to 5124095 hours, has
  them deleted by the next sweep: the product wraps, and the cutoff lies in the future.\<close>

theorem retention_overflow_deletes:
  assumes "distinct (map fst a)" and "overridable sid a" and "distinct (map fst (files_of sid a))"
    and "2562048 \<le> h" and "h \<le> 5124095" and "0 < t" and "t \<le> now"
    and "\<forall>(n, f) \<in> set (files_of sid a). af_mtime f \<le> now"
  shows "map_of (sweep now rm d (set_retention_override t sid h a)) sid =
    map_option SessionDir (rm sid (files_of sid (set_retention_override t sid h a)))"
proof -
  have "x \<le> now \<Longrightarrow> x \<le> now + dur_mul (- h) hour_ns" for x
    using dur_mul_hours_wraps [OF assms(4,5)] by simp
  with assms(7,8) have "t \<le> now + dur_mul (- h) hour_ns \<and>
      (\<forall>(n, f) \<in> set (files_of sid a). n \<noteq> ''.retention'' \<longrightarrow> af_mtime f \<le> now + dur_mul (- h) hour_ns)"
    by fastforce
  with overridden_sweep(1) [where h = h and now = now and rm = rm and d = d, OF assms(1,2) _ _ assms(6,3)] assms(4,5) show ?thesis by simp
qed

theorem retention_overflow_deletes_witness:
  "map_of (sweep 5 (\<lambda>n fs. None) 168
     (set_retention_override 5 ''s'' 3000000 [(''s'', SessionDir [(''video.mp4'', old_file 5)])])) ''s'' = None"
  using retention_overflow_deletes [of "[(''s'', SessionDir [(''video.mp4'', old_file 5)])]" "''s''" 3000000 5 5 "\<lambda>n fs. None" 168]
  by (simp add: overridable_def files_of_def old_file_def)

subsection \<open>Paths of artifacts\<close>

lemma path_join_comps:
  assumes "ws \<noteq> []" and "list_all plain_name ws" and "list_all (\<lambda>v. slash \<notin> set v) vs"
  shows "path_join (abs_path ws # vs) = abs_path (clean_comps True (ws @ vs))"
proof -
  have "join_with [slash] (us @ v # vs') = join_with [slash] us @ slash # join_with [slash] (v # vs')"
    if "us \<noteq> []" for us v vs'
    using that by (induction us rule: induct_list012) auto
  with assms(1) have cat: "join_with [slash] (abs_path ws # vs) = abs_path (ws @ vs)"
    by (cases vs) (simp_all add: abs_path_def)
  have "list_all (\<lambda>w. slash \<notin> set w) (ws @ vs)"
    using assms(2,3) by (auto simp: list_all_iff plain_name_def)
  then have "split_on slash (join_with [slash] (ws @ vs)) = ws @ vs"
    using assms(1) by (intro split_on_join) auto
  then have "path_clean (abs_path (ws @ vs)) = abs_path (clean_comps True (ws @ vs))"
    by (simp add: path_clean_def abs_path_def has_prefix_def)
  with cat show ?thesis by (simp add: path_join_def abs_path_def)
qed

lemma clean_comps_append:
  assumes "list_all plain_name us"
  shows "clean_comps r (us @ vs) = rev (foldl (clean_push r) (rev us) vs)"
proof -
  have "foldl (clean_push r) [] us = rev us"
    using clean_comps_plain [OF assms, of r] unfolding clean_comps_def rev_swap .
  then show ?thesis unfolding clean_comps_def foldl_append by (rule arg_cong)
qed

text \<open>A name that the client gives for an artifact of a session leads to the file of that name in the
  session's directory, or nowhere. Only three names are exceptions, for none of which the check of
  \<^verbatim>\<open>filepath.Base\<close> refuses: a dot or a slash leads to the directory itself, and two dots to the directory
  of all sessions. Nothing outside of that is reached.\<close>

theorem artifact_path_confined:
  assumes "ws \<noteq> []" and "list_all plain_name ws" and "plain_name sid"
    and "artifact_path exists (abs_path ws) sid f = p" and "p \<noteq> []"
  shows "exists p \<and>
    (plain_name f \<and> p = abs_path (ws @ [''artifacts'', sid, f]) \<or>
     f \<in> {''.'', ''/''} \<and> p = abs_path (ws @ [''artifacts'', sid]) \<or>
     f = ''..'' \<and> p = abs_path (ws @ [''artifacts'']))"
proof -
  from assms(4,5) have b: "path_base f = f" and p: "p = path_join [abs_path ws, ''artifacts'', sid, f]" "exists p"
    by (auto simp: artifact_path_def Let_def split: if_splits)
  have a: "plain_name ''artifacts''" by (simp add: plain_name_def slash_def)
  have pw: "list_all plain_name (ws @ [''artifacts'', sid])" using assms(2,3) a by simp
  have c: "clean_comps True ((ws @ [''artifacts'', sid]) @ vs) = rev (foldl (clean_push True) (rev (ws @ [''artifacts'', sid])) vs)"
    for vs
    by (rule clean_comps_append [OF pw])
  have pj: "path_join (abs_path ws # [''artifacts'', sid] @ vs) =
      abs_path (rev (foldl (clean_push True) (rev (ws @ [''artifacts'', sid])) vs))"
    if "list_all (\<lambda>v. slash \<notin> set v) vs" for vs
    using path_join_comps [OF assms(1,2), of "[''artifacts'', sid] @ vs"] c [of vs] a assms(3) that
    by (simp add: plain_name_def)
  from path_base_fixed_no_slash [OF b] show ?thesis
  proof
    assume f: "f = [slash]"
    have "path_join [abs_path ws, ''artifacts'', sid, [slash]] = path_join (abs_path ws # [''artifacts'', sid] @ [[], []])"
      by (simp add: path_join_def abs_path_def)
    then have "p = abs_path (ws @ [''artifacts'', sid])" using p(1) f pj [of "[[], []]"] by simp
    with f p(2) show ?thesis by (simp add: slash_def)
  next
    assume f: "slash \<notin> set f"
    have q: "p = abs_path (rev (clean_push True (rev (ws @ [''artifacts'', sid])) f))"
      using p(1) pj [of "[f]"] f by simp
    have "f \<noteq> []" using b by (auto simp: path_base_def)
    then consider "plain_name f" | "f = ''.''" | "f = ''..''" using f by (auto simp: plain_name_def)
    then show ?thesis
    proof cases
      case 1
      with q p(2) show ?thesis by (simp del: clean_push.simps)
    next
      case 2
      with q p(2) show ?thesis by simp
    next
      case 3
      moreover have "sid \<noteq> ''..''" using assms(3) by (simp add: plain_name_def)
      ultimately show ?thesis using q p(2) by simp
    qed
  qed
qed

theorem artifact_path_confined_witness:
  "artifact_path (\<lambda>p. True) ''/data'' ''s'' ''..'' = ''/data/artifacts''"
proof -
  have w: "abs_path [''data''] = ''/data''" by (simp add: abs_path_def slash_def)
  have n: "list_all plain_name [''data'']" "plain_name ''s''" by (simp_all add: plain_name_def slash_def)
  have "path_base ''..'' = ''..''" by (simp add: path_base_def strip_slashes_def slash_def)
  then have e: "artifact_path (\<lambda>p. True) ''/data'' ''s'' ''..'' = path_join [''/data'', ''artifacts'', ''s'', ''..'']"
    by (simp add: artifact_path_def)
  have "path_join [''/data'', ''artifacts'', ''s'', ''..''] \<noteq> []"
    by (simp add: path_join_def path_clean_def has_prefix_def slash_def)
  with artifact_path_confined [of "[''data'']" "''s''" "\<lambda>p. True" "''..''", OF _ n refl] e w show ?thesis
    by (simp add: plain_name_def abs_path_def slash_def)
qed

end
