(* ===== verification/Http.thy ===== *)
theory Http
  imports PoolOps
begin

text \<open>
  What the HTTP handlers of \<^verbatim>\<open>internal/api\<close> share: JSON values, responses, the look-up of a device by
  session or instance id, and the quoting of text for the shell of a device. A handler is given what
  decoding the body left in its request struct; decoding errors that the code drops need no case. The
  text of a tool's error is not kept: the message is then \<open>None\<close>. A float is kept as the texts that
  formatting it gives.
\<close>

record go_float =
  gf_f :: string
  gf_2f :: string
  gf_json :: string

datatype json = JStr string | JInt int | JBool bool | JNull | JFloat go_float
  | JList "json list" | JObj "(string \<times> json) list"

datatype body = Json json | ErrorBody string "string option" | Raw string string

text \<open>\<open>rs_removed\<close>: temporary files on the host that the handler deletes.\<close>

record response =
  rs_status :: int
  rs_body :: body
  rs_removed :: "string list"

definition json_response :: "int \<Rightarrow> (string \<times> json) list \<Rightarrow> response" where
  "json_response st kvs = \<lparr>rs_status = st, rs_body = Json (JObj kvs), rs_removed = []\<rparr>"

definition api_error :: "string \<Rightarrow> string option \<Rightarrow> int \<Rightarrow> response" where
  "api_error code message st = \<lparr>rs_status = st, rs_body = ErrorBody code message, rs_removed = []\<rparr>"

definition ok :: "(string \<times> json) list \<Rightarrow> response" where
  "ok kvs = json_response 200 kvs"

definition removing :: "string list \<Rightarrow> response \<Rightarrow> response" where
  "removing fs r = r\<lparr>rs_removed := rs_removed r @ fs\<rparr>"

subsection \<open>Which device a request means\<close>

definition find_serial :: "string \<Rightarrow> pool \<Rightarrow> string" where
  "find_serial ident p =
     (case List.find (\<lambda>s. snap_id s = ident \<or> snap_session s = ident) (st_instances (pool_status_of p)) of
        Some s \<Rightarrow> snap_serial s
      | None \<Rightarrow>
          (case get_instance ident p of
             None \<Rightarrow> []
           | Some i \<Rightarrow> (case inst_device i of None \<Rightarrow> [] | Some d \<Rightarrow> device_serial d)))"

definition with_serial :: "string \<Rightarrow> pool \<Rightarrow> string \<Rightarrow> (string \<Rightarrow> response io) \<Rightarrow> response io" where
  "with_serial message p ident act =
     (let serial = find_serial ident p
      in if serial = [] then State_Monad.return (api_error ''not_found'' (Some message) 404) else act serial)"

datatype device_cmd = Sh string | Emu string

fun issue_all :: "adb_client \<Rightarrow> string \<Rightarrow> device_cmd list \<Rightarrow> unit io" where
  "issue_all c s [] = State_Monad.return ()"
| "issue_all c s (Sh text # rest) = do { out \<leftarrow> adb_shell c s text; issue_all c s rest }"
| "issue_all c s (Emu text # rest) = do { out \<leftarrow> adb_emu_command c s text; issue_all c s rest }"

text \<open>The shape of most handlers: find the device, run commands whose answers do not matter, reply.\<close>

definition device_op :: "adb_client \<Rightarrow> pool \<Rightarrow> string \<Rightarrow> device_cmd list \<Rightarrow> (string \<times> json) list \<Rightarrow> response io" where
  "device_op c p ident cmds reply =
     with_serial ''not found'' p ident (\<lambda>s. do { u \<leftarrow> issue_all c s cmds; State_Monad.return (ok reply) })"

lemma only_dev_issue_all [issues_intros]: "only_dev c s (issue_all c s cmds)"
  by (induction c s cmds rule: issue_all.induct) (auto intro!: issues_intros)

text \<open>The serial found belongs to an instance with that id or with that session.\<close>

lemma find_serial_instance:
  assumes "find_serial ident p \<noteq> []"
  shows "\<exists>k i d. (k, i) \<in> set (p_instances p) \<and> inst_device i = Some d \<and> device_serial d = find_serial ident p \<and>
    (inst_id i = ident \<or> session_id i = ident \<or> k = ident)"
proof (cases "List.find (\<lambda>s. snap_id s = ident \<or> snap_session s = ident) (st_instances (pool_status_of p))")
  case None
  with assms obtain i d where "get_instance ident p = Some i" "inst_device i = Some d"
    "device_serial d = find_serial ident p"
    by (auto simp: find_serial_def split: option.splits)
  then show ?thesis by (auto simp: get_instance_def dest!: map_of_SomeD)
next
  case (Some s)
  from find_SomeD [OF this] have s: "s \<in> set (st_instances (pool_status_of p))" "snap_id s = ident \<or> snap_session s = ident"
    by blast+
  from s(1) obtain k i where i: "(k, i) \<in> set (p_instances p)" "s = instance_snapshot_of i"
    by (auto simp: pool_status_of_def Let_def)
  with assms Some obtain d where "inst_device i = Some d" "device_serial d = find_serial ident p"
    by (auto simp: find_serial_def instance_snapshot_of_def split: option.splits)
  with i s(2) show ?thesis by (auto simp: instance_snapshot_of_def)
qed

lemma with_serial_cases:
  "(find_serial ident p = [] \<Longrightarrow> P (State_Monad.return (api_error ''not_found'' (Some message) 404))) \<Longrightarrow>
   (find_serial ident p \<noteq> [] \<Longrightarrow> P (act (find_serial ident p))) \<Longrightarrow> P (with_serial message p ident act)"
  by (simp add: with_serial_def Let_def)

lemma only_dev_with_serial:
  assumes "only_dev c (find_serial ident p) (act (find_serial ident p))"
  shows "only_dev c (find_serial ident p) (with_serial message p ident act)"
  using assms by (simp add: with_serial_def Let_def issues_return)

subsection \<open>Quoting for the shell\<close>

definition quote :: char where "quote = CHR 0x27"
definition backslash :: char where "backslash = CHR 0x5C"

text \<open>\<^verbatim>\<open>strings.ReplaceAll(s, "'", `'\''`)\<close>\<close>

definition sh_escape :: "string \<Rightarrow> string" where
  "sh_escape s = concat (map (\<lambda>ch. if ch = quote then [quote, backslash, quote, quote] else [ch]) s)"

definition in_quotes :: "string \<Rightarrow> string" where
  "in_quotes s = quote # s @ [quote]"

text \<open>How a POSIX shell reads one argument: the specification that the quoting is for. \<open>None\<close> is an
  unfinished quotation. The characters that end or start something else in a shell stop the reading.\<close>

definition sh_special :: "char set" where
  "sh_special = set '' ;&|<>()$`*?[#~!{}'' \<union> {nl, CHR 0x09, CHR 0x22, backslash}"

fun sh_arg :: "bool \<Rightarrow> string \<Rightarrow> (string \<times> string) option" where
  "sh_arg True [] = None"
| "sh_arg False [] = Some ([], [])"
| "sh_arg True (x # xs) =
     (if x = quote then sh_arg False xs else map_option (\<lambda>(w, r). (x # w, r)) (sh_arg True xs))"
| "sh_arg False (x # xs) =
     (if x = quote then sh_arg True xs
      else if x = backslash then
        (case xs of [] \<Rightarrow> None | y # ys \<Rightarrow> map_option (\<lambda>(w, r). (y # w, r)) (sh_arg False ys))
      else if x \<in> sh_special then Some ([], x # xs)
      else map_option (\<lambda>(w, r). (x # w, r)) (sh_arg False xs))"

lemma sh_escape_simps [simp]:
  "sh_escape [] = []"
  "sh_escape (x # xs) = (if x = quote then [quote, backslash, quote, quote] else [x]) @ sh_escape xs"
  by (simp_all add: sh_escape_def)

lemma quote_neq [simp]: "backslash \<noteq> quote" "quote \<noteq> backslash" "quote \<noteq> CHR '' ''" "CHR '' '' \<noteq> quote"
  by (simp_all add: quote_def backslash_def)

lemma sh_arg_escaped: "sh_arg True (sh_escape s @ quote # rest) = map_option (\<lambda>(w, r). (s @ w, r)) (sh_arg False rest)"
proof (induction s)
  case Nil
  show ?case by (cases "sh_arg False rest") auto
next
  case (Cons x xs)
  then show ?case by (cases "sh_arg False rest") auto
qed

lemma sh_arg_blank: "sh_arg False (CHR '' '' # rest) = Some ([], CHR '' '' # rest)"
  by (simp add: sh_special_def backslash_def quote_def)

end
