(* ===== verification/DeviceApi.thy ===== *)
theory DeviceApi
  imports Http Paths
begin

text \<open>
  \<^verbatim>\<open>internal/api/handlers_device.go\<close>: the handlers that act on the device of a session, one definition
  each, under the name of the handler. Arguments are the adb client, the pool, the id in the URL and the
  decoded request; sleeps are left out. The background loop of \<^verbatim>\<open>GPSRoute\<close> is the separate \<open>gps_points\<close>.
\<close>

type_synonym handler = "adb_client \<Rightarrow> pool \<Rightarrow> string \<Rightarrow> response io"

subsection \<open>Location, network, power, appearance\<close>

definition geo_fix :: "go_float \<Rightarrow> go_float \<Rightarrow> string" where
  "geo_fix lng lat = ''geo fix '' @ gf_f lng @ '' '' @ gf_f lat"

definition set_gps :: "go_float \<Rightarrow> go_float \<Rightarrow> handler" where
  "set_gps lat lng c p ident = with_serial ''instance not found'' p ident (\<lambda>s. do {
     out \<leftarrow> adb_emu_command c s (geo_fix lng lat);
     let reply = [(''status'', JStr ''set''), (''lat'', JFloat lat), (''lng'', JFloat lng)];
     case out of
       Some _ \<Rightarrow> State_Monad.return (ok reply)
     | None \<Rightarrow> do {
         x \<leftarrow> adb_shell c s ''settings put secure location_providers_allowed +gps'';
         State_Monad.return (ok (reply @ [(''note'', JStr ''console unavailable, used shell fallback'')])) } })"

definition network_profiles :: "(string \<times> string) list" where
  "network_profiles = [(''2g'', ''gsm''), (''3g'', ''umts''), (''4g'', ''lte''), (''5g'', ''full''),
     (''wifi_slow'', ''full''), (''wifi_fast'', ''full''), (''offline'', ''off''), (''flaky'', ''full'')]"

definition set_network :: "string \<Rightarrow> handler" where
  "set_network prof c p ident = with_serial ''instance not found'' p ident (\<lambda>s.
     case map_of network_profiles prof of
       None \<Rightarrow> State_Monad.return (api_error ''invalid_profile'' (Some (''unknown: '' @ prof)) 400)
     | Some speed \<Rightarrow> do {
         u \<leftarrow> issue_all c s
           (if prof = ''offline'' then [Sh ''svc wifi disable'', Sh ''svc data disable'']
            else [Sh ''svc wifi enable'', Sh ''svc data enable'', Emu (''network speed '' @ speed)]);
         State_Monad.return (ok [(''status'', JStr ''set''), (''profile'', JStr prof)]) })"

definition battery_cmds :: "int \<Rightarrow> string \<Rightarrow> device_cmd list" where
  "battery_cmds level charging =
     (if 0 < level then [Emu (''power capacity '' @ itoa level)] else []) @
     (if charging = ''ac'' then [Emu ''power ac on'']
      else if charging = ''usb'' then [Emu ''power ac off'']
      else if charging = ''none'' then [Emu ''power ac off'', Emu ''power status discharging'']
      else [])"

definition set_battery :: "int \<Rightarrow> string \<Rightarrow> handler" where
  "set_battery level charging c p ident = with_serial ''instance not found'' p ident (\<lambda>s. do {
     u \<leftarrow> issue_all c s (battery_cmds level charging);
     State_Monad.return (ok [(''status'', JStr ''set''), (''level'', JInt level), (''charging'', JStr charging)]) })"

definition set_orientation :: "int \<Rightarrow> handler" where
  "set_orientation rotation c p ident = with_serial ''instance not found'' p ident (\<lambda>s. do {
     u \<leftarrow> issue_all c s [Sh ''settings put system accelerometer_rotation 0'',
       Sh (''settings put system user_rotation '' @ itoa rotation)];
     State_Monad.return (ok [(''status'', JStr ''set''), (''rotation'', JInt rotation)]) })"

definition set_locale :: "string \<Rightarrow> handler" where
  "set_locale loc c p ident = with_serial ''instance not found'' p ident (\<lambda>s. do {
     u \<leftarrow> issue_all c s [Sh (''setprop persist.sys.locale '' @ loc)];
     State_Monad.return (ok [(''status'', JStr ''set''), (''locale'', JStr loc)]) })"

definition set_dark_mode :: "bool option \<Rightarrow> bool option \<Rightarrow> handler" where
  "set_dark_mode dark dark_mode c p ident = with_serial ''instance not found'' p ident (\<lambda>s.
     let on = (case dark of Some d \<Rightarrow> d | None \<Rightarrow> (case dark_mode of Some d \<Rightarrow> d | None \<Rightarrow> False))
     in do {
       u \<leftarrow> issue_all c s [Sh (''cmd uimode night '' @ (if on then ''yes'' else ''no'')),
         Sh (''settings put secure ui_night_mode '' @ (if on then ''2'' else ''1''))];
       State_Monad.return (ok [(''status'', JStr ''set''), (''dark'', JBool on)]) })"

subsection \<open>Files from the client\<close>

text \<open>How a request brings a file: as a path on the host, or as a form, whose parsing and storing in a
  temporary file can fail at each step.\<close>

datatype upload = HostPath string
  | BadForm | FieldMissing | TempFailed | CopyFailed string | Stored string string nat

definition install_apk :: "upload \<Rightarrow> handler" where
  "install_apk up c p ident = with_serial ''instance not found'' p ident (\<lambda>s.
     let install = (\<lambda>path cleanup. do {
           done \<leftarrow> adb_install c s path True;
           State_Monad.return (removing cleanup
             (if done then ok [(''status'', JStr ''installed'')] else api_error ''install_failed'' None 500)) })
     in case up of
          BadForm \<Rightarrow> State_Monad.return (api_error ''bad_multipart'' None 400)
        | FieldMissing \<Rightarrow> State_Monad.return
            (api_error ''missing_apk'' (Some (''multipart field '' @ in_quotes ''apk'' @ '' is required'')) 400)
        | TempFailed \<Rightarrow> State_Monad.return (api_error ''tmp_failed'' None 500)
        | CopyFailed tmp \<Rightarrow> State_Monad.return (removing [tmp] (api_error ''copy_failed'' None 500))
        | Stored tmp filename n \<Rightarrow> install tmp [tmp]
        | HostPath path \<Rightarrow>
            if path = [] then State_Monad.return (api_error ''invalid_request''
              (Some (''either multipart '' @ in_quotes ''apk'' @ '' or JSON '' @ in_quotes ''path'' @ '' is required'')) 400)
            else install path [])"

definition lower_ascii :: "string \<Rightarrow> string" where
  "lower_ascii s = map (\<lambda>ch. let n = (of_char ch :: nat) in if 65 \<le> n \<and> n \<le> 90 then char_of (n + 32) else ch) s"

definition scan_media :: "string \<Rightarrow> string" where
  "scan_media path = ''am broadcast -a android.intent.action.MEDIA_SCANNER_SCAN_FILE -d file://'' @ path"

definition camera_push :: "int \<Rightarrow> string \<Rightarrow> string list \<Rightarrow> adb_client \<Rightarrow> string \<Rightarrow> response io" where
  "camera_push now path cleanup c s =
     (let e = lower_ascii (path_ext path);
          ext = (if e \<noteq> ''.jpg'' \<and> e \<noteq> ''.jpeg'' \<and> e \<noteq> ''.png'' then ''.jpg'' else e);
          target = ''/sdcard/DCIM/Camera/drizz_inject_'' @ itoa now @ ext
      in do {
        m \<leftarrow> adb_shell c s ''mkdir -p /sdcard/DCIM/Camera'';
        pushed \<leftarrow> adb_push c s path target;
        if \<not> pushed then State_Monad.return (removing cleanup (api_error ''push_failed'' None 500))
        else do {
          scan \<leftarrow> adb_shell c s (scan_media target);
          State_Monad.return (removing cleanup
            (ok [(''status'', JStr ''injected''), (''device_path'', JStr target)])) } })"

definition camera_inject :: "int \<Rightarrow> upload \<Rightarrow> handler" where
  "camera_inject now up c p ident = with_serial ''not found'' p ident (\<lambda>s.
     case up of
       BadForm \<Rightarrow> State_Monad.return (api_error ''bad_multipart'' None 400)
     | FieldMissing \<Rightarrow> State_Monad.return
         (api_error ''missing_image'' (Some (''multipart field '' @ in_quotes ''image'' @ '' is required'')) 400)
     | TempFailed \<Rightarrow> State_Monad.return (api_error ''tmp_failed'' None 500)
     | CopyFailed tmp \<Rightarrow> State_Monad.return (removing [tmp] (api_error ''copy_failed'' None 500))
     | Stored tmp filename n \<Rightarrow> camera_push now tmp [tmp] c s
     | HostPath path \<Rightarrow>
         if path = [] then State_Monad.return (api_error ''missing_image''
           (Some (''either multipart '' @ in_quotes ''image'' @ '' or JSON image_path is required'')) 400)
         else camera_push now path [] c s)"

definition media_dirs :: "string list" where
  "media_dirs = [''/sdcard/DCIM'', ''/sdcard/Pictures'', ''/sdcard/Movies'', ''/sdcard/Music'', ''/sdcard/Download'']"

definition upload_target :: "string \<Rightarrow> string \<Rightarrow> string" where
  "upload_target target filename =
     (if target = [] then ''/sdcard/Download/'' @ path_base filename else target)"

definition upload_file :: "string \<Rightarrow> string \<Rightarrow> upload \<Rightarrow> handler" where
  "upload_file form_target filename up c p ident = with_serial ''not found'' p ident (\<lambda>s.
     let target = upload_target form_target filename
     in case up of
          HostPath path \<Rightarrow> State_Monad.return (api_error ''bad_multipart'' None 400)
        | BadForm \<Rightarrow> State_Monad.return (api_error ''bad_multipart'' None 400)
        | FieldMissing \<Rightarrow> State_Monad.return
            (api_error ''missing_file'' (Some (''multipart field '' @ in_quotes ''file'' @ '' is required'')) 400)
        | TempFailed \<Rightarrow> State_Monad.return
            (if path_base filename = [] then api_error ''bad_filename'' (Some ''filename is empty'') 400
             else api_error ''tmp_failed'' None 500)
        | CopyFailed tmp \<Rightarrow> State_Monad.return
            (if path_base filename = [] then api_error ''bad_filename'' (Some ''filename is empty'') 400
             else removing [tmp] (api_error ''copy_failed'' None 500))
        | Stored tmp name n \<Rightarrow>
            if path_base filename = [] then State_Monad.return (api_error ''bad_filename'' (Some ''filename is empty'') 400)
            else do {
              m \<leftarrow> adb_shell c s (''mkdir -p '' @ path_dir target);
              pushed \<leftarrow> adb_push c s tmp target;
              if \<not> pushed then State_Monad.return (removing [tmp] (api_error ''push_failed'' None 500))
              else do {
                u \<leftarrow> issue_all c s (if list_ex (has_prefix target) media_dirs then [Sh (scan_media target)] else []);
                State_Monad.return (removing [tmp] (ok [(''status'', JStr ''uploaded''),
                  (''filename'', JStr (path_base filename)), (''size'', JInt (int n)), (''device_path'', JStr target)])) } })"

definition push_file :: "string \<Rightarrow> string \<Rightarrow> handler" where
  "push_file local_path device_path c p ident = with_serial ''not found'' p ident (\<lambda>s. do {
     pushed \<leftarrow> adb_push c s local_path device_path;
     State_Monad.return (if pushed then ok [(''status'', JStr ''pushed''), (''device_path'', JStr device_path)]
       else api_error ''push_failed'' None 500) })"

definition pull_file :: "string \<Rightarrow> string \<Rightarrow> handler" where
  "pull_file device_path local_path c p ident = with_serial ''not found'' p ident (\<lambda>s. do {
     pulled \<leftarrow> adb_pull c s device_path local_path;
     State_Monad.return (if pulled then ok [(''status'', JStr ''pulled''), (''local_path'', JStr local_path)]
       else api_error ''pull_failed'' None 500) })"

subsection \<open>Apps, notifications, clipboard\<close>

definition open_deeplink :: "string \<Rightarrow> handler" where
  "open_deeplink url c p ident = with_serial ''instance not found'' p ident (\<lambda>s. do {
     u \<leftarrow> issue_all c s [Sh (''am start -a android.intent.action.VIEW -d '' @ in_quotes url)];
     State_Monad.return (ok [(''status'', JStr ''opened''), (''url'', JStr url)]) })"

definition biometric_cmds :: "string \<Rightarrow> device_cmd list" where
  "biometric_cmds action =
     (if action = ''enroll'' then
        [Sh ''locksettings set-pin 1111'', Sh ''cmd fingerprint enroll''] @ replicate 6 (Emu ''finger touch 1'')
      else if action = ''fail'' then [Emu ''finger touch 0'']
      else [Emu ''finger touch 1''])"

definition biometric :: "string \<Rightarrow> handler" where
  "biometric action c p ident = device_op c p ident (biometric_cmds action)
     [(''status'', JStr ''triggered''),
      (''action'', JStr (if action = ''enroll'' \<or> action = ''fail'' then action else ''touch''))]"

definition permissions :: "string \<Rightarrow> string \<Rightarrow> bool \<Rightarrow> handler" where
  "permissions package permission grant c p ident =
     (let action = (if grant then ''grant'' else ''revoke'')
      in device_op c p ident [Sh (''pm '' @ action @ '' '' @ package @ '' '' @ permission)]
           [(''status'', JStr action), (''package'', JStr package), (''permission'', JStr permission)])"

definition clear_data :: "string \<Rightarrow> handler" where
  "clear_data package c p ident = device_op c p ident [Sh (''pm clear '' @ package)]
     [(''status'', JStr ''cleared''), (''package'', JStr package)]"

definition uninstall_app :: "string \<Rightarrow> handler" where
  "uninstall_app package c p ident = with_serial ''not found'' p ident (\<lambda>s. do {
     done \<leftarrow> adb_uninstall c s package;
     State_Monad.return (ok [(''status'', JStr ''uninstalled''), (''package'', JStr package)]) })"

definition set_timezone :: "string \<Rightarrow> handler" where
  "set_timezone tz c p ident = device_op c p ident [Sh (''setprop persist.sys.timezone '' @ tz)]
     [(''status'', JStr ''set''), (''timezone'', JStr tz)]"

definition notification_cmd :: "string \<Rightarrow> string \<Rightarrow> string \<Rightarrow> string" where
  "notification_cmd title tag text = ''cmd notification post -S bigtext -t '' @ in_quotes (sh_escape title) @ '' '' @
     in_quotes (sh_escape tag) @ '' '' @ in_quotes (sh_escape text)"

definition push_notification :: "string \<Rightarrow> string \<Rightarrow> string \<Rightarrow> handler" where
  "push_notification title text req_tag c p ident = with_serial ''not found'' p ident (\<lambda>s.
     if title = [] \<or> text = [] then
       State_Monad.return (api_error ''invalid_request'' (Some ''title and body are required'') 400)
     else (let tag = (if req_tag = [] then ''drizz'' else req_tag)
           in do {
             out \<leftarrow> adb_shell c s (notification_cmd title tag text);
             State_Monad.return (case out of
                 None \<Rightarrow> api_error ''notification_failed'' None 500
               | Some _ \<Rightarrow> ok [(''status'', JStr ''sent''), (''tag'', JStr tag), (''title'', JStr title)]) }))"

definition clipboard_cmd :: "string \<Rightarrow> string \<Rightarrow> string" where
  "clipboard_cmd uid text =
     ''cmd clipboard set-primary-clip -u '' @ uid @ '' --value '' @ in_quotes (sh_escape text)"

definition active_user :: "string option \<Rightarrow> string" where
  "active_user out =
     (case out of None \<Rightarrow> ''0'' | Some t \<Rightarrow> if trim_space t = [] then ''0'' else trim_space t)"

definition set_clipboard :: "string \<Rightarrow> handler" where
  "set_clipboard text c p ident = with_serial ''not found'' p ident (\<lambda>s. do {
     who \<leftarrow> adb_shell c s ''am get-current-user'';
     out \<leftarrow> adb_shell c s (clipboard_cmd (active_user who) text);
     if (case out of None \<Rightarrow> False
         | Some t \<Rightarrow> \<not> contains_str t ''Unknown command'' \<and> \<not> contains_str t ''not found'')
     then State_Monad.return (ok [(''status'', JStr ''set''), (''method'', JStr ''cmd_clipboard''),
       (''user'', JStr (active_user who))])
     else do {
       typed \<leftarrow> adb_shell c s (''input text '' @ in_quotes (sh_escape text));
       State_Monad.return (ok [(''status'', JStr ''set''), (''method'', JStr ''input_text_fallback'')]) } })"

subsection \<open>Sensors, sound, screen\<close>

definition font_scale :: "go_float \<Rightarrow> handler" where
  "font_scale f c p ident = device_op c p ident [Sh (''settings put system font_scale '' @ gf_2f f)]
     [(''status'', JStr ''set''), (''scale'', JFloat f)]"

definition shake :: handler where
  "shake c p ident = device_op c p ident
     [Emu ''sensor set acceleration 0:15:0'', Emu ''sensor set acceleration 0:0:9.8'']
     [(''status'', JStr ''shaken'')]"

definition sensor :: "string \<Rightarrow> string \<Rightarrow> handler" where
  "sensor name values c p ident = device_op c p ident [Emu (''sensor set '' @ name @ '' '' @ values)]
     [(''status'', JStr ''set''), (''sensor'', JStr name)]"

definition audio_inject :: "string \<Rightarrow> handler" where
  "audio_inject path c p ident = device_op c p ident [Emu (''audio inject '' @ path)]
     [(''status'', JStr ''injected'')]"

definition volume_cmds :: "string \<Rightarrow> int \<Rightarrow> device_cmd list" where
  "volume_cmds action level =
     (if action = ''up'' then [Sh ''input keyevent KEYCODE_VOLUME_UP'']
      else if action = ''down'' then [Sh ''input keyevent KEYCODE_VOLUME_DOWN'']
      else if action = ''mute'' then [Sh ''input keyevent KEYCODE_VOLUME_MUTE'']
      else if action = ''set'' then [Sh (''media volume --stream 3 --set '' @ itoa level)]
      else [])"

definition volume :: "string \<Rightarrow> int \<Rightarrow> handler" where
  "volume action level c p ident = device_op c p ident (volume_cmds action level)
     [(''status'', JStr ''set''), (''action'', JStr action)]"

definition lock_unlock :: "bool \<Rightarrow> handler" where
  "lock_unlock lock c p ident = device_op c p ident
     (if lock then [Sh ''input keyevent KEYCODE_SLEEP'']
      else [Sh ''input keyevent KEYCODE_WAKEUP'', Sh ''input swipe 540 1800 540 800 300''])
     [(''status'', JStr ''set''), (''locked'', JBool lock)]"

definition animations :: "bool \<Rightarrow> handler" where
  "animations enabled c p ident =
     (let scale = (if enabled then ''1.0'' else ''0.0'')
      in device_op c p ident
           [Sh (''settings put global window_animation_scale '' @ scale),
            Sh (''settings put global transition_animation_scale '' @ scale),
            Sh (''settings put global animator_duration_scale '' @ scale)]
           [(''status'', JStr ''set''), (''enabled'', JBool enabled)])"

text \<open>The reply of \<^verbatim>\<open>GPSRoute\<close>, and its background loop. The loop uses the context of the request, which
  the server cancels when the handler has returned: with a cancelled context no command is started.
  \<open>alive\<close> is how many points it reaches before that.\<close>

definition gps_delay :: "int \<Rightarrow> int" where
  "gps_delay ms = (if ms = 0 then 1000 else ms)"

definition gps_route :: "(go_float \<times> go_float) list \<Rightarrow> int \<Rightarrow> handler" where
  "gps_route points delay_ms c p ident = with_serial ''not found'' p ident (\<lambda>s.
     State_Monad.return (ok [(''status'', JStr ''started''), (''points'', JInt (int (length points))),
       (''delay_ms'', JInt (gps_delay delay_ms))]))"

fun gps_points :: "adb_client \<Rightarrow> string \<Rightarrow> nat \<Rightarrow> (go_float \<times> go_float) list \<Rightarrow> unit io" where
  "gps_points c s alive [] = State_Monad.return ()"
| "gps_points c s 0 (pt # pts) = gps_points c s 0 pts"
| "gps_points c s (Suc alive) ((lat, lng) # pts) = do {
     out \<leftarrow> adb_emu_command c s (geo_fix lng lat);
     gps_points c s alive pts }"

definition talkback_service :: string where
  "talkback_service =
     ''com.google.android.marvin.talkback/com.google.android.marvin.talkback.TalkBackService''"

definition accessibility :: "bool \<Rightarrow> handler" where
  "accessibility talkback c p ident = device_op c p ident
     (if talkback then [Sh (''settings put secure enabled_accessibility_services '' @ talkback_service),
                        Sh ''settings put secure accessibility_enabled 1'']
      else [Sh (''settings put secure enabled_accessibility_services '' @ [CHR 0x22, CHR 0x22]),
            Sh ''settings put secure accessibility_enabled 0''])
     [(''status'', JStr ''set''), (''talkback'', JBool talkback)]"

definition brightness :: "int \<Rightarrow> handler" where
  "brightness level c p ident = device_op c p ident
     [Sh ''settings put system screen_brightness_mode 0'',
      Sh (''settings put system screen_brightness '' @ itoa level)]
     [(''status'', JStr ''set''), (''level'', JInt level)]"

definition wifi_toggle :: "bool \<Rightarrow> handler" where
  "wifi_toggle enabled c p ident = device_op c p ident
     [Sh (if enabled then ''svc wifi enable'' else ''svc wifi disable'')]
     [(''status'', JStr ''set''), (''wifi'', JBool enabled)]"

definition launch_app :: "string \<Rightarrow> handler" where
  "launch_app package c p ident = device_op c p ident
     [Sh (''monkey -p '' @ package @ '' -c android.intent.category.LAUNCHER 1'')]
     [(''status'', JStr ''launched''), (''package'', JStr package)]"

definition force_stop :: "string \<Rightarrow> handler" where
  "force_stop package c p ident = device_op c p ident [Sh (''am force-stop '' @ package)]
     [(''status'', JStr ''stopped''), (''package'', JStr package)]"

definition press_key :: "string \<Rightarrow> handler" where
  "press_key keycode c p ident = device_op c p ident [Sh (''input keyevent '' @ keycode)]
     [(''status'', JStr ''pressed''), (''keycode'', JStr keycode)]"

subsection \<open>Questions\<close>

text \<open>An answer whose error is dropped reads as the empty string.\<close>

definition text_of :: "string option \<Rightarrow> json" where
  "text_of out = JStr (case out of None \<Rightarrow> [] | Some t \<Rightarrow> t)"

definition ask_shell :: "adb_client \<Rightarrow> pool \<Rightarrow> string \<Rightarrow> string \<Rightarrow> string \<Rightarrow> response io" where
  "ask_shell c p ident key text = with_serial ''not found'' p ident (\<lambda>s. do {
     out \<leftarrow> adb_shell c s text;
     State_Monad.return (ok [(key, text_of out)]) })"

definition get_ui_tree :: handler where
  "get_ui_tree c p ident = with_serial ''not found'' p ident (\<lambda>s. do {
     out \<leftarrow> adb_shell c s ''uiautomator dump /dev/tty'';
     State_Monad.return (case out of
         None \<Rightarrow> api_error ''ui_tree_failed'' None 500
       | Some t \<Rightarrow> ok [(''tree'', JStr t)]) })"

definition get_activity :: handler where
  "get_activity c p ident =
     ask_shell c p ident ''activity'' ''dumpsys activity activities | grep mResumedActivity''"

definition get_notifications :: handler where
  "get_notifications c p ident = ask_shell c p ident ''notifications''
     (''dumpsys notification --noredact | grep -A2 '' @ in_quotes ''NotificationRecord'' @ '' | head -30'')"

definition get_clipboard :: handler where
  "get_clipboard c p ident = ask_shell c p ident ''clipboard'' ''service call clipboard 2 s16 com.android.shell''"

definition keyboard_shown :: handler where
  "keyboard_shown c p ident = with_serial ''not found'' p ident (\<lambda>s. do {
     out \<leftarrow> adb_shell c s ''dumpsys input_method | grep mInputShown'';
     State_Monad.return (ok [(''shown'', JBool (case out of
         None \<Rightarrow> False | Some t \<Rightarrow> contains_str t ''mInputShown=true''))]) })"

definition get_package_info :: "string \<Rightarrow> handler" where
  "get_package_info pkg c p ident = with_serial ''not found'' p ident (\<lambda>s.
     if pkg = [] then State_Monad.return (api_error ''invalid_request'' (Some ''package param required'') 400)
     else do {
       out \<leftarrow> adb_shell c s (''dumpsys package '' @ pkg @ '' | head -20'');
       State_Monad.return (ok [(''package'', JStr pkg), (''info'', text_of out)]) })"

fun get_props :: "adb_client \<Rightarrow> string \<Rightarrow> (string \<times> string) list \<Rightarrow> (string \<times> json) list io" where
  "get_props c s [] = State_Monad.return []"
| "get_props c s ((key, prop) # rest) = do {
     out \<leftarrow> adb_get_prop c s prop; more \<leftarrow> get_props c s rest;
     State_Monad.return ((key, text_of out) # more) }"

fun get_shells :: "adb_client \<Rightarrow> string \<Rightarrow> (string \<times> string) list \<Rightarrow> (string \<times> json) list io" where
  "get_shells c s [] = State_Monad.return []"
| "get_shells c s ((key, text) # rest) = do {
     out \<leftarrow> adb_shell c s text; more \<leftarrow> get_shells c s rest;
     State_Monad.return ((key, text_of out) # more) }"

definition get_device_info :: handler where
  "get_device_info c p ident = with_serial ''not found'' p ident (\<lambda>s. do {
     props \<leftarrow> get_props c s [(''model'', ''ro.product.model''), (''brand'', ''ro.product.brand''),
       (''api_level'', ''ro.build.version.sdk''), (''android_version'', ''ro.build.version.release''),
       (''locale'', ''persist.sys.locale''), (''timezone'', ''persist.sys.timezone'')];
     rest \<leftarrow> get_shells c s [(''screen_size'', ''wm size''), (''density'', ''wm density''),
       (''battery'', ''dumpsys battery | grep level''), (''memory'', ''cat /proc/meminfo | head -3'')];
     State_Monad.return (ok (props @ rest @ [(''serial'', JStr s)])) })"

text \<open>\<^verbatim>\<open>Shell\<close> gives no output with an error.\<close>

definition exec_adb :: "string \<Rightarrow> handler" where
  "exec_adb command c p ident = with_serial ''instance not found'' p ident (\<lambda>s. do {
     out \<leftarrow> adb_shell c s command;
     State_Monad.return (case out of
         None \<Rightarrow> ok [(''output'', JStr []), (''error'', JNull)]
       | Some t \<Rightarrow> ok [(''output'', JStr t)]) })"

subsection \<open>The routes\<close>

datatype device_request =
    Gps go_float go_float | Network string | Battery int string | Orientation int | Locale string
  | Appearance "bool option" "bool option" | Install upload | Camera int upload | Upload string string upload
  | Push string string | Pull string string | Deeplink string | BiometricReq string
  | Permission string string bool | ClearData string | Uninstall string | Timezone string
  | Notification string string string | Clipboard string | FontScale go_float | Shake | Sensor string string
  | Audio string | Volume string int | Lock bool | Animations bool | GpsRoute "(go_float \<times> go_float) list" int
  | Accessibility bool | Brightness int | Wifi bool | Launch string | ForceStop string | Key string
  | UiTree | Activity | Notifications | ReadClipboard | Keyboard | PackageInfo string | DeviceInfo | Adb string

fun handle_device :: "device_request \<Rightarrow> handler" where
  "handle_device (Gps lat lng) = set_gps lat lng"
| "handle_device (Network prof) = set_network prof"
| "handle_device (Battery level charging) = set_battery level charging"
| "handle_device (Orientation r) = set_orientation r"
| "handle_device (Locale l) = set_locale l"
| "handle_device (Appearance d m) = set_dark_mode d m"
| "handle_device (Install up) = install_apk up"
| "handle_device (Camera now up) = camera_inject now up"
| "handle_device (Upload target name up) = upload_file target name up"
| "handle_device (Push l d) = push_file l d"
| "handle_device (Pull d l) = pull_file d l"
| "handle_device (Deeplink url) = open_deeplink url"
| "handle_device (BiometricReq action) = biometric action"
| "handle_device (Permission pkg perm grant) = permissions pkg perm grant"
| "handle_device (ClearData pkg) = clear_data pkg"
| "handle_device (Uninstall pkg) = uninstall_app pkg"
| "handle_device (Timezone tz) = set_timezone tz"
| "handle_device (Notification title text tag) = push_notification title text tag"
| "handle_device (Clipboard text) = set_clipboard text"
| "handle_device (FontScale f) = font_scale f"
| "handle_device Shake = shake"
| "handle_device (Sensor name vs) = sensor name vs"
| "handle_device (Audio path) = audio_inject path"
| "handle_device (Volume action level) = volume action level"
| "handle_device (Lock l) = lock_unlock l"
| "handle_device (Animations e) = animations e"
| "handle_device (GpsRoute pts ms) = gps_route pts ms"
| "handle_device (Accessibility t) = accessibility t"
| "handle_device (Brightness level) = brightness level"
| "handle_device (Wifi e) = wifi_toggle e"
| "handle_device (Launch pkg) = launch_app pkg"
| "handle_device (ForceStop pkg) = force_stop pkg"
| "handle_device (Key k) = press_key k"
| "handle_device UiTree = get_ui_tree"
| "handle_device Activity = get_activity"
| "handle_device Notifications = get_notifications"
| "handle_device ReadClipboard = get_clipboard"
| "handle_device Keyboard = keyboard_shown"
| "handle_device (PackageInfo pkg) = get_package_info pkg"
| "handle_device DeviceInfo = get_device_info"
| "handle_device (Adb cmd) = exec_adb cmd"

lemmas device_api_defs = set_gps_def set_network_def set_battery_def set_orientation_def set_locale_def
  set_dark_mode_def install_apk_def camera_inject_def upload_file_def push_file_def pull_file_def
  open_deeplink_def biometric_def permissions_def clear_data_def uninstall_app_def set_timezone_def
  push_notification_def set_clipboard_def font_scale_def shake_def sensor_def audio_inject_def volume_def
  lock_unlock_def animations_def gps_route_def accessibility_def brightness_def wifi_toggle_def launch_app_def
  force_stop_def press_key_def get_ui_tree_def get_activity_def get_notifications_def get_clipboard_def
  keyboard_shown_def get_package_info_def get_device_info_def exec_adb_def ask_shell_def device_op_def

lemma only_dev_gps_points [issues_intros]: "only_dev c s (gps_points c s alive pts)"
  by (induction c s alive pts rule: gps_points.induct) (auto intro!: issues_intros)

lemma only_dev_get_props [issues_intros]: "only_dev c s (get_props c s kps)"
  by (induction c s kps rule: get_props.induct) (auto intro!: issues_intros)

lemma only_dev_get_shells [issues_intros]: "only_dev c s (get_shells c s kps)"
  by (induction c s kps rule: get_shells.induct) (auto intro!: issues_intros)

lemma only_dev_camera_push [issues_intros]: "only_dev c s (camera_push now path cleanup c s)"
  by (auto simp: camera_push_def Let_def intro!: issues_intros)

text \<open>Every handler looks the device up first and then stays with it.\<close>

lemma handle_device_shape:
  "\<exists>message act. handle_device req c p ident = with_serial message p ident act \<and> (\<forall>s. only_dev c s (act s))"
proof (cases req)
  case (Install up)
  then show ?thesis by (cases up) (auto simp: install_apk_def Let_def intro!: exI issues_intros)
qed (auto simp: device_api_defs Let_def intro!: exI issues_intros split: upload.split option.split)

subsection \<open>The theorems\<close>

text \<open>C14: whatever a client asks of a device, every command that the request causes goes to the device
  the id stands for, which belongs to an instance with that id or that session; and when there is none,
  the answer is 404 and no command is run.\<close>

theorem device_requests_isolated:
  "only_dev c (find_serial ident p) (handle_device req c p ident) \<and>
   (find_serial ident p = [] \<longrightarrow>
      (\<exists>m. run_state (handle_device req c p ident) h = (api_error ''not_found'' (Some m) 404, h))) \<and>
   (find_serial ident p \<noteq> [] \<longrightarrow>
      (\<exists>k i d. (k, i) \<in> set (p_instances p) \<and> inst_device i = Some d \<and> device_serial d = find_serial ident p \<and>
         (inst_id i = ident \<or> session_id i = ident \<or> k = ident)))"
proof -
  obtain message act where a: "handle_device req c p ident = with_serial message p ident act" "\<And>s. only_dev c s (act s)"
    using handle_device_shape by blast
  have "run_state (handle_device req c p ident) h = (api_error ''not_found'' (Some message) 404, h)"
    if "find_serial ident p = []" using that by (simp add: a(1) with_serial_def)
  then show ?thesis
    using only_dev_with_serial [where act = act, OF a(2)] find_serial_instance [of ident p] unfolding a(1) by blast
qed

definition phone_pool :: "config \<Rightarrow> pool" where
  "phone_pool cfg = (new_pool cfg)\<lparr>p_instances := [(''a1'',
     \<lparr>inst_id = ''a1'', inst_node = [], display_info = [], profile_name = [], inst_state = StateAllocated,
      session_id = ''s1'', created_at = 0, allocated_at = None, last_activity = 0, last_healthy = 0,
      health_fails = 0, reserved = False, reserved_label = [],
      inst_device = Some (Usb (new_usb_device ''R58''))\<rparr>)]\<rparr>"

theorem device_requests_isolated_witness:
  "\<forall>cfg c. only_dev c ''R58'' (handle_device Shake c (phone_pool cfg) ''s1'') \<and>
     (\<exists>k i. (k, i) \<in> set (p_instances (phone_pool cfg)) \<and> session_id i = ''s1'') \<and>
     (\<exists>m. run_state (handle_device Shake c (phone_pool cfg) ''s2'') [] = (api_error ''not_found'' (Some m) 404, []))"
proof (intro allI)
  fix cfg c
  have s: "find_serial ''s1'' (phone_pool cfg) = ''R58''" "find_serial ''s2'' (phone_pool cfg) = []"
    by (simp_all add: find_serial_def phone_pool_def pool_status_of_def Let_def instance_snapshot_of_def
        get_instance_def new_usb_device_def)
  note one = device_requests_isolated [of c "''s1''" "phone_pool cfg" Shake "[]", unfolded s(1)]
  note two = device_requests_isolated [of c "''s2''" "phone_pool cfg" Shake "[]", unfolded s(2)]
  have "\<exists>k i. (k, i) \<in> set (p_instances (phone_pool cfg)) \<and> session_id i = ''s1''"
    by (simp add: phone_pool_def)
  with one two show "only_dev c ''R58'' (handle_device Shake c (phone_pool cfg) ''s1'') \<and>
     (\<exists>k i. (k, i) \<in> set (p_instances (phone_pool cfg)) \<and> session_id i = ''s1'') \<and>
     (\<exists>m. run_state (handle_device Shake c (phone_pool cfg) ''s2'') [] = (api_error ''not_found'' (Some m) 404, []))"
    by blast
qed

text \<open>The texts of a notification and of the clipboard reach the device as they were sent, whatever
  characters they hold: the shell there reads exactly the three arguments, or the one, and nothing is left
  over. The deep link is not escaped: after a quote in it, the rest of the URL is read by the shell as
  what follows the command, here a second command.\<close>

theorem shell_text_reaches_device:
  "(\<exists>r1 r2. sh_arg False (drop (length ''cmd notification post -S bigtext -t '') (notification_cmd title tag text)) =
        Some (title, CHR '' '' # r1) \<and>
      sh_arg False r1 = Some (tag, CHR '' '' # r2) \<and> sh_arg False r2 = Some (text, [])) \<and>
   sh_arg False (drop (length (''cmd clipboard set-primary-clip -u '' @ uid @ '' --value '')) (clipboard_cmd uid text)) =
     Some (text, []) \<and>
   (quote \<notin> set url \<longrightarrow>
      sh_arg False (in_quotes (url @ quote # '';'' @ command)) = Some (url, '';'' @ command @ [quote]))"
proof (intro conjI impI)
  have q: "sh_arg False (in_quotes (sh_escape s) @ rest) = map_option (\<lambda>(w, r). (s @ w, r)) (sh_arg False rest)"
    for s rest by (simp add: in_quotes_def sh_arg_escaped)
  let ?r2 = "in_quotes (sh_escape text)"
  let ?r1 = "in_quotes (sh_escape tag) @ CHR '' '' # ?r2"
  have "sh_arg False (in_quotes (sh_escape title) @ CHR '' '' # ?r1) = Some (title, CHR '' '' # ?r1)"
    by (simp only: q sh_arg_blank) simp
  moreover have "sh_arg False ?r1 = Some (tag, CHR '' '' # ?r2)" by (simp only: q sh_arg_blank) simp
  moreover have t: "sh_arg False ?r2 = Some (text, [])" using q [of "text" "[]"] by simp
  ultimately show "\<exists>r1 r2. sh_arg False (drop (length ''cmd notification post -S bigtext -t '')
        (notification_cmd title tag text)) = Some (title, CHR '' '' # r1) \<and>
      sh_arg False r1 = Some (tag, CHR '' '' # r2) \<and> sh_arg False r2 = Some (text, [])"
    by (intro exI [of _ ?r1] exI [of _ ?r2]) (simp add: notification_cmd_def)
  show "sh_arg False (drop (length (''cmd clipboard set-primary-clip -u '' @ uid @ '' --value '')) (clipboard_cmd uid text)) =
      Some (text, [])"
    using t by (simp add: clipboard_cmd_def)
  assume u: "quote \<notin> set url"
  have "sh_arg True (url @ quote # '';'' @ command @ [quote]) = Some (url, '';'' @ command @ [quote])"
    using u by (induction url) (auto simp: sh_special_def quote_def backslash_def)
  then show "sh_arg False (in_quotes (url @ quote # '';'' @ command)) = Some (url, '';'' @ command @ [quote])"
    by (simp add: in_quotes_def)
qed

theorem shell_text_reaches_device_witness:
  "sh_arg False (in_quotes (''app:a'' @ quote # '';'' @ ''reboot'')) = Some (''app:a'', '';'' @ ''reboot'' @ [quote])"
  using shell_text_reaches_device [where url = "''app:a''" and command = "''reboot''"] by (auto simp: quote_def)

text \<open>The background loop of a GPS route sends the points it reaches before the handler returns, in
  order, and drops the others: the commands run under the context of the request, which ends with it.\<close>

theorem gps_route_ends_with_request:
  "snd (run_state (gps_points c s alive pts) h) =
     h @ map (\<lambda>(lat, lng). on_dev c s [''emu'', geo_fix lng lat]) (take alive pts)"
  by (induction c s alive pts arbitrary: h rule: gps_points.induct) (auto simp: adb_emu_command_def)

end
