(* ===== verification/ServerApi.thy ===== *)
theory ServerApi
  imports FarmProps Store Artifacts DeviceApi
begin

text \<open>
  The HTTP handlers on sessions, the pool, snapshots, history and artifacts (\<^verbatim>\<open>internal/api\<close>:
  \<^verbatim>\<open>response.go\<close>, \<^verbatim>\<open>handlers_session.go\<close>, \<^verbatim>\<open>handlers_pool.go\<close>, \<^verbatim>\<open>handlers_snapshot.go\<close>,
  \<^verbatim>\<open>handlers_history.go\<close>, \<^verbatim>\<open>handlers_artifacts.go\<close>, \<^verbatim>\<open>middleware.go\<close>). A body that is the JSON form of a
  Go struct is that record. A request that is not answered (its client waits in the queue, or the broker
  hangs) has no reply.
\<close>

datatype api_body =
    BSession session | BReleased string | BSessions "session list" nat nat nat
  | BStatus pool_status | BAvailable nat string | BBooting instance_snapshot
  | BDevices "instance_snapshot list" nat | BReserved string string | BUnreserved string | BShutdown string
  | BHistory "session_row list" | BEventRows "event_row list"
  | BArtifacts string "session_capabilities option" "artifact_file list" nat | BFile string string
  | BError string | BEmpty

record reply =
  rp_status :: int
  rp_body :: api_body

definition answer :: "int \<Rightarrow> api_body \<Rightarrow> reply" where
  "answer st b = \<lparr>rp_status = st, rp_body = b\<rparr>"

definition fail_with :: "string \<Rightarrow> int \<Rightarrow> reply" where
  "fail_with code st = answer st (BError code)"

subsection \<open>Errors\<close>

fun map_pool_error :: "pool_error \<Rightarrow> int \<times> string" where
  "map_pool_error PoolExhausted = (503, ''pool_exhausted'')"
| "map_pool_error (InstanceNotFound k) = (404, ''instance_not_found'')"
| "map_pool_error e = (500, ''internal_error'')"

fun map_error :: "broker_error \<Rightarrow> int \<times> string" where
  "map_error (AllocFailed e) = map_pool_error e"
| "map_error (PoolReleaseFailed e) = map_pool_error e"
| "map_error (SessionNotFound sid) = (404, ''session_not_found'')"
| "map_error (SessionNotActive sid st) = (409, ''session_not_active'')"
| "map_error (QueueErr QueueFull) = (503, ''queue_full'')"
| "map_error (QueueErr QueueTimeout) = (504, ''queue_timeout'')"
| "map_error (QueueErr QueueCancelled) = (500, ''internal_error'')"
| "map_error NoProfilesConfigured = (500, ''internal_error'')"

definition error_reply :: "broker_error \<Rightarrow> reply" where
  "error_reply e = (case map_error e of (st, code) \<Rightarrow> fail_with code st)"

definition pool_error_reply :: "pool_error \<Rightarrow> reply" where
  "pool_error_reply e = (case map_pool_error e of (st, code) \<Rightarrow> fail_with code st)"

subsection \<open>Sessions\<close>

text \<open>\<open>None\<close> is a body that is not JSON.\<close>

definition post_session :: "broker_env \<Rightarrow> create_request option \<Rightarrow> broker \<Rightarrow> reply option \<times> broker" where
  "post_session env body b =
     (case body of
        None \<Rightarrow> (Some (fail_with ''invalid_request'' 400), b)
      | Some req0 \<Rightarrow>
          (let req = (if rq_source req0 = [] then req0\<lparr>rq_source := ''api''\<rparr> else req0)
           in case broker_create env req b of
                (Failed e, b1) \<Rightarrow> (Some (error_reply e), b1)
              | (Created s, b1) \<Rightarrow> (Some (answer 201 (BSession s)), b1)
              | (Waiting t, b1) \<Rightarrow> (None, b1)
              | (Hanging, b1) \<Rightarrow> (None, b1)))"

text \<open>The reply of a request that waited, from what its channel brings.\<close>

definition queued_reply :: "broker_error + session \<Rightarrow> reply" where
  "queued_reply r = (case r of Inl e \<Rightarrow> error_reply e | Inr s \<Rightarrow> answer 201 (BSession s))"

definition get_session_reply :: "string \<Rightarrow> broker \<Rightarrow> reply" where
  "get_session_reply sid b =
     (case get_session sid b of None \<Rightarrow> error_reply (SessionNotFound sid) | Some s \<Rightarrow> answer 200 (BSession s))"

definition delete_session :: "broker_env \<Rightarrow> string \<Rightarrow> broker \<Rightarrow> reply \<times> broker" where
  "delete_session env sid b =
     (case broker_release env sid b of
        (Some e, b1) \<Rightarrow> (error_reply e, b1)
      | (None, b1) \<Rightarrow> (answer 200 (BReleased sid), b1))"

definition list_sessions :: "broker \<Rightarrow> reply" where
  "list_sessions b = answer 200 (BSessions (broker_list b) (length (broker_list b)) (active_count b)
     (queue_depth (b_queue b)))"

subsection \<open>The pool\<close>

definition get_pool :: "pool \<Rightarrow> reply" where
  "get_pool p = answer 200 (BStatus (pool_status_of p))"

definition get_available :: "string \<Rightarrow> pool \<Rightarrow> reply" where
  "get_available prof p = answer 200 (BAvailable (pool_available prof p) prof)"

definition post_boot :: "pool_env \<Rightarrow> string option \<Rightarrow> pool \<Rightarrow> reply \<times> pool" where
  "post_boot env body p =
     (case body of
        None \<Rightarrow> (fail_with ''invalid_request'' 400, p)
      | Some avd \<Rightarrow>
          if avd = [] then (fail_with ''invalid_request'' 400, p)
          else (case boot_avd env avd p of
                  (Inl e, p1) \<Rightarrow> (pool_error_reply e, p1)
                | (Inr k, p1) \<Rightarrow>
                    (case get_instance k p1 of
                       None \<Rightarrow> (answer 200 BEmpty, p1)
                     | Some i \<Rightarrow> (answer 200 (BBooting (instance_snapshot_of i)), p1))))"

text \<open>\<^verbatim>\<open>strconv.ParseBool\<close>; the code drops its error, which leaves false.\<close>

definition parse_bool :: "string \<Rightarrow> bool" where
  "parse_bool v \<longleftrightarrow> v \<in> set [''1'', ''t'', ''T'', ''TRUE'', ''true'', ''True'']"

record device_query =
  dq_free :: string
  dq_state :: string
  dq_profile :: string
  dq_kind :: string
  dq_reserved :: string

fun kind_name :: "device_kind option \<Rightarrow> string" where
  "kind_name None = []"
| "kind_name (Some AndroidEmulator) = ''android_emulator''"
| "kind_name (Some AndroidUSB) = ''android_usb''"
| "kind_name (Some IOSSimulator) = ''ios_simulator''"
| "kind_name (Some IOSUSB) = ''ios_usb''"

definition device_matches :: "device_query \<Rightarrow> instance_snapshot \<Rightarrow> bool" where
  "device_matches q i =
     (if dq_free q \<noteq> [] \<and> parse_bool (dq_free q) \<and> (state_name (snap_state i) \<noteq> ''warm'' \<or> snap_reserved i) then False
      else if dq_state q \<noteq> [] \<and> state_name (snap_state i) \<noteq> dq_state q then False
      else if dq_profile q \<noteq> [] \<and> snap_profile i \<noteq> dq_profile q then False
      else if dq_kind q \<noteq> [] \<and> kind_name (snap_kind i) \<noteq> dq_kind q then False
      else if dq_reserved q \<noteq> [] \<and> snap_reserved i \<noteq> parse_bool (dq_reserved q) then False
      else True)"

definition get_devices :: "device_query \<Rightarrow> pool \<Rightarrow> reply" where
  "get_devices q p =
     (let out = filter (device_matches q) (st_instances (pool_status_of p))
      in answer 200 (BDevices out (length out)))"

text \<open>The store is optional, and its errors are dropped.\<close>

definition post_reserve :: "time \<Rightarrow> string \<Rightarrow> string \<Rightarrow> store option \<Rightarrow> pool \<Rightarrow> reply \<times> store option \<times> pool" where
  "post_reserve now k label st p =
     (case get_instance k p of
        None \<Rightarrow> (fail_with ''not_found'' 404, st, p)
      | Some i \<Rightarrow>
          (case reserve_instance k label p of
             (Some e, p1) \<Rightarrow> (fail_with ''reserve_failed'' 500, st, p1)
           | (None, p1) \<Rightarrow>
               (answer 200 (BReserved k label),
                (case (st, inst_device i) of
                   (Some s, Some d) \<Rightarrow> Some (set_reservation now (device_display_name d) label s)
                 | _ \<Rightarrow> st), p1)))"

definition delete_reserve :: "string \<Rightarrow> store option \<Rightarrow> pool \<Rightarrow> reply \<times> store option \<times> pool" where
  "delete_reserve k st p =
     (case get_instance k p of
        None \<Rightarrow> (fail_with ''not_found'' 404, st, p)
      | Some i \<Rightarrow>
          (case unreserve_instance k p of
             (Some e, p1) \<Rightarrow> (fail_with ''unreserve_failed'' 500, st, p1)
           | (None, p1) \<Rightarrow>
               (answer 200 (BUnreserved k),
                (case (st, inst_device i) of
                   (Some s, Some d) \<Rightarrow> Some (clear_reservation (device_display_name d) s)
                 | _ \<Rightarrow> st), p1)))"

definition post_shutdown :: "pool_env \<Rightarrow> string option \<Rightarrow> pool \<Rightarrow> reply \<times> pool" where
  "post_shutdown env body p =
     (case body of
        None \<Rightarrow> (fail_with ''invalid_request'' 400, p)
      | Some k \<Rightarrow>
          if k = [] then (fail_with ''invalid_request'' 400, p)
          else (case shutdown_instance env k p of
                  (Some e, p1) \<Rightarrow> (pool_error_reply e, p1)
                | (None, p1) \<Rightarrow> (answer 200 (BShutdown k), p1)))"

subsection \<open>Snapshots of emulators\<close>

definition snapshot_op :: "adb_client \<Rightarrow> pool \<Rightarrow> string \<Rightarrow> string \<Rightarrow> (string \<Rightarrow> (string \<times> json) list) \<Rightarrow> response io" where
  "snapshot_op c p ident command reply_of = with_serial ''instance not found'' p ident (\<lambda>s. do {
     out \<leftarrow> adb_emu_command c s command;
     State_Monad.return (case out of
         None \<Rightarrow> api_error ''snapshot_failed'' None 500
       | Some t \<Rightarrow> ok (reply_of t)) })"

definition named_snapshot ::
  "string \<Rightarrow> string \<Rightarrow> string option \<Rightarrow> adb_client \<Rightarrow> pool \<Rightarrow> string \<Rightarrow> response io" where
  "named_snapshot verb done body c p ident =
     (case body of
        None \<Rightarrow> State_Monad.return (api_error ''invalid_request'' (Some ''name is required'') 400)
      | Some name \<Rightarrow>
          if name = [] then State_Monad.return (api_error ''invalid_request'' (Some ''name is required'') 400)
          else snapshot_op c p ident (''avd snapshot '' @ verb @ '' '' @ name)
                 (\<lambda>_. [(''status'', JStr done), (''name'', JStr name)]))"

definition post_snapshot_save :: "string option \<Rightarrow> handler" where
  "post_snapshot_save body = named_snapshot ''save'' ''saved'' body"

definition post_snapshot_restore :: "string option \<Rightarrow> handler" where
  "post_snapshot_restore body = named_snapshot ''load'' ''restored'' body"

definition get_snapshots :: handler where
  "get_snapshots c p ident = snapshot_op c p ident ''avd snapshot list'' (\<lambda>t. [(''snapshots'', JStr t)])"

definition delete_snapshot :: "string \<Rightarrow> handler" where
  "delete_snapshot name c p ident = snapshot_op c p ident (''avd snapshot delete '' @ name)
     (\<lambda>_. [(''status'', JStr ''deleted''), (''name'', JStr name)])"

subsection \<open>History and artifacts\<close>

definition query_limit :: "int \<Rightarrow> string \<Rightarrow> int" where
  "query_limit dflt l =
     (if l = [] then dflt
      else case atoi l of None \<Rightarrow> dflt | Some n \<Rightarrow> if 0 < n then n else dflt)"

definition history_sessions :: "string \<Rightarrow> store option \<Rightarrow> reply" where
  "history_sessions limit st =
     (case st of
        None \<Rightarrow> answer 200 (BHistory [])
      | Some s \<Rightarrow> answer 200 (BHistory (session_history (query_limit 50 limit) s)))"

definition history_events :: "string \<Rightarrow> store option \<Rightarrow> reply" where
  "history_events limit st =
     (case st of
        None \<Rightarrow> answer 200 (BEventRows [])
      | Some s \<Rightarrow> answer 200 (BEventRows (recent_events (query_limit 100 limit) s)))"

definition list_artifacts :: "string \<Rightarrow> broker \<Rightarrow> artifacts \<Rightarrow> reply" where
  "list_artifacts ident b a =
     (let caps = (case get_session ident b of None \<Rightarrow> None | Some s \<Rightarrow> sess_caps s);
          files = artifact_list ident a
      in answer 200 (BArtifacts ident caps files (length files)))"

definition content_type :: "string \<Rightarrow> string" where
  "content_type name =
     (let e = path_ext name
      in if e = ''.mp4'' then ''video/mp4''
         else if e = ''.png'' then ''image/png''
         else if e = ''.jpg'' \<or> e = ''.jpeg'' then ''image/jpeg''
         else if e = ''.txt'' \<or> e = ''.log'' then ''text/plain; charset=utf-8''
         else if e = ''.har'' then ''application/json''
         else ''application/octet-stream'')"

text \<open>\<open>openable\<close>: whether the file can be opened for reading.\<close>

definition serve_artifact ::
  "(string \<Rightarrow> bool) \<Rightarrow> (string \<Rightarrow> bool) \<Rightarrow> string \<Rightarrow> string \<Rightarrow> string \<Rightarrow> reply" where
  "serve_artifact exists openable root ident name =
     (let path = artifact_path exists root ident name
      in if path = [] then fail_with ''not_found'' 404
         else if \<not> openable path then fail_with ''open_failed'' 500
         else answer 200 (BFile (content_type name) path))"

subsection \<open>Middleware\<close>

record http_request =
  hr_method :: string
  hr_request_id :: string

definition cors_headers :: "(string \<times> string) list" where
  "cors_headers = [(''Access-Control-Allow-Origin'', ''*''),
     (''Access-Control-Allow-Methods'', ''GET, POST, PUT, PATCH, DELETE, OPTIONS''),
     (''Access-Control-Allow-Headers'', ''Content-Type, Authorization, X-Request-ID, X-Group-Key'')]"

text \<open>A handler gets the headers set so far and either replies or panics; the headers stay set when it
  panics. The stack of \<^verbatim>\<open>NewServer\<close>: recovery around request ids around CORS; the logger in between only
  observes.\<close>

datatype 'r outcome = Replied int 'r | Panicked

type_synonym headers = "(string \<times> string) list"
type_synonym 'r http_handler = "http_request \<Rightarrow> headers \<Rightarrow> headers \<times> 'r outcome"

definition with_cors :: "api_body http_handler \<Rightarrow> api_body http_handler" where
  "with_cors next r hs =
     (let hs1 = hs @ cors_headers
      in if hr_method r = ''OPTIONS'' then (hs1, Replied 204 BEmpty) else next r hs1)"

definition with_request_id :: "string \<Rightarrow> api_body http_handler \<Rightarrow> api_body http_handler" where
  "with_request_id uuid next r hs =
     (let rid = (if hr_request_id r = [] then take 8 uuid else hr_request_id r)
      in next r (hs @ [(''X-Request-ID'', rid)]))"

definition with_recovery :: "api_body http_handler \<Rightarrow> api_body http_handler" where
  "with_recovery next r hs =
     (case next r hs of
        (hs1, Replied st x) \<Rightarrow> (hs1, Replied st x)
      | (hs1, Panicked) \<Rightarrow>
          (hs1 @ [(''Content-Type'', ''application/json'')], Replied 500 (BError ''internal_error'')))"

definition serve :: "string \<Rightarrow> api_body http_handler \<Rightarrow> http_request \<Rightarrow> headers \<times> api_body outcome" where
  "serve uuid handle r = with_recovery (with_request_id uuid (with_cors handle)) r []"

subsection \<open>Lemmas\<close>

lemma get_session_after_release:
  assumes "get_session sid b = Some s" and "session_is_active s"
  shows "get_session sid' (snd (broker_release env sid b)) =
      (if sid' = sid then Some (end_session SessionReleased (be_now env) s) else get_session sid' b)"
    "fst (broker_release env sid b) =
       map_option PoolReleaseFailed (fst (pool_release (be_pool env) (sess_instance s) (b_pool b)))"
  using assms by (auto simp: broker_release_def Let_def get_on_session split: prod.split)

lemma delete_session_twice:
  assumes "get_session sid b = Some s" and "session_is_active s"
    and "delete_session env sid b = (r, b')"
  shows "get_session_reply sid b' = answer 200 (BSession (end_session SessionReleased (be_now env) s))"
    "delete_session env' sid b' = (fail_with ''session_not_active'' 409, b')"
    "r = (case fst (pool_release (be_pool env) (sess_instance s) (b_pool b)) of
            None \<Rightarrow> answer 200 (BReleased sid) | Some e \<Rightarrow> pool_error_reply e)"
proof -
  have b': "b' = snd (broker_release env sid b)"
    using assms(3) by (auto simp: delete_session_def split: prod.splits option.splits)
  with get_session_after_release(1) [OF assms(1,2), of sid env]
  have g: "get_session sid b' = Some (end_session SessionReleased (be_now env) s)" by simp
  then show "get_session_reply sid b' = answer 200 (BSession (end_session SessionReleased (be_now env) s))"
    by (simp add: get_session_reply_def)
  show "delete_session env' sid b' = (fail_with ''session_not_active'' 409, b')"
    using g by (simp add: delete_session_def broker_release_def error_reply_def session_is_active_def)
  show "r = (case fst (pool_release (be_pool env) (sess_instance s) (b_pool b)) of
            None \<Rightarrow> answer 200 (BReleased sid) | Some e \<Rightarrow> pool_error_reply e)"
    using assms(3) get_session_after_release(2) [OF assms(1,2), of env]
    by (auto simp: delete_session_def error_reply_def pool_error_reply_def split: prod.splits option.splits)
qed

lemma error_status:
  "fst (map_pool_error e) \<in> {404, 500, 503}" "fst (map_error be) \<in> {404, 409, 500, 503, 504}"
proof -
  show p: "fst (map_pool_error e) \<in> {404, 500, 503}" for e by (cases e) simp_all
  show "fst (map_error be) \<in> {404, 409, 500, 503, 504}"
    by (cases be rule: map_error.cases) (use p in auto)
qed

lemma error_reply_status: "rp_status (error_reply e) \<in> {404, 409, 500, 503, 504}"
proof -
  obtain st code where "map_error e = (st, code)" by fastforce
  with error_status(2) [of e] show ?thesis by (simp add: error_reply_def fail_with_def answer_def)
qed

lemma post_session_created:
  assumes "post_session env (Some req) b = (Some r, b')" and "rp_status r = 201"
  shows "\<exists>s req'. r = answer 201 (BSession s) \<and> broker_create env req' b = (Created s, b')"
proof -
  let ?req = "if rq_source req = [] then req\<lparr>rq_source := ''api''\<rparr> else req"
  obtain c b1 where c: "broker_create env ?req b = (c, b1)" by fastforce
  show ?thesis
  proof (cases c)
    case (Failed e)
    with assms c have "rp_status (error_reply e) = 201" by (auto simp: post_session_def Let_def)
    with error_reply_status [of e] show ?thesis by auto
  qed (use assms c in \<open>auto simp: post_session_def Let_def\<close>)
qed

lemma broker_create_registers:
  assumes "broker_create env req b = (Created s, b')" and "pool_ok (b_pool b)"
  shows "get_session (sess_id s) b' = Some s" "session_is_active s"
  using assms by (auto elim!: broker_create_Created simp: create_session_result session_is_active_def)

lemma allocate_free_instance:
  assumes "pool_ok p" and "(k, i) \<in> set (p_instances p)" and "inst_state i = StateWarm" and "\<not> reserved i"
  shows "allocate_instance (inst_id i) m p = (Got k, on_inst k (\<lambda>_. i\<lparr>inst_state := StateAllocated\<rparr>) p)"
proof -
  have key: "inst_id j = k'" if "(k', j) \<in> set (p_instances p)" for k' j
    using assms(1) that by (auto simp: pool_ok_def get_instance_def)
  from assms(2) obtain k' j where f: "List.find (\<lambda>(k, j). inst_id j = inst_id i) (p_instances p) = Some (k', j)"
    by (cases "List.find (\<lambda>(k, j). inst_id j = inst_id i) (p_instances p)") (auto simp: find_None_iff)
  from find_SomeD [OF f] have m: "(k', j) \<in> set (p_instances p)" "inst_id j = inst_id i" by auto
  with key assms(2) have "k' = k" by metis
  have d: "distinct (map fst (p_instances p))" using assms(1) by (simp add: pool_ok_def)
  with m assms(2) \<open>k' = k\<close> have "j = i" by (metis map_of_is_SomeI option.inject)
  with f \<open>k' = k\<close> assms(3,4) show ?thesis by (simp add: allocate_instance_def transition_to_def)
qed

lemma get_devices_members:
  assumes "get_devices q p = answer 200 (BDevices out n)" and "snap \<in> set out"
  shows "\<exists>k i. (k, i) \<in> set (p_instances p) \<and> snap = instance_snapshot_of i \<and> device_matches q snap"
proof -
  from assms have "snap \<in> set (map (instance_snapshot_of \<circ> snd) (p_instances p))" "device_matches q snap"
    by (auto simp: get_devices_def answer_def Let_def pool_status_of_def)
  then show ?thesis by force
qed

text \<open>C13: every device that \<^verbatim>\<open>GET /devices?free=true\<close> lists can be had: while nothing else happens, asking
  for it by id is answered at once with 201 and a session on it, whoever asks, and no boot is needed.\<close>

theorem free_devices_are_available:
  assumes "farm_run u b" and "dq_free q = ''true''"
    and "get_devices q (b_pool b) = answer 200 (BDevices out n)" and "snap \<in> set out"
    and "snap_id snap \<noteq> []" and "rq_device_id req = snap_id snap"
  shows "\<exists>s b'. post_session env (Some req) b = (Some (answer 201 (BSession s)), b') \<and>
     sess_instance s = snap_id snap \<and> sess_state s = SessionActive \<and>
     p_hist (b_pool b') = p_hist (b_pool b)"
proof -
  let ?p = "b_pool b"
  have ok: "pool_ok ?p" by (rule farm_run_pool [OF assms(1)])
  obtain k i where i: "(k, i) \<in> set (p_instances ?p)" "snap = instance_snapshot_of i" "device_matches q snap"
    using get_devices_members [OF assms(3,4)] by blast
  have free: "inst_state i = StateWarm" "\<not> reserved i"
    using i(2,3) assms(2) state_name_inj [of "inst_state i" StateWarm]
    by (auto simp: device_matches_def parse_bool_def instance_snapshot_of_def split: if_splits)
  have k: "inst_id i = k" "get_instance k ?p = Some i"
    using ok i(1) by (auto simp: pool_ok_def get_instance_def)
  let ?i = "i\<lparr>inst_state := StateAllocated\<rparr>"
  let ?q = "on_inst k (\<lambda>_. ?i) ?p"
  have al: "allocate_with (be_pool env) opts ?p = (Got k, ?q)" if "opt_instance_id opts = k" for opts
    using allocate_free_instance [OF ok i(1) free] that k assms(5) i(2)
    by (simp add: allocate_with_def instance_snapshot_of_def)
  have gi: "get_instance k ?q = Some ?i" using k(2) by (simp add: get_on_inst)
  let ?sourced = "if rq_source req = [] then req\<lparr>rq_source := ''api''\<rparr> else req"
  let ?r = "if rq_platform ?sourced = [] then ?sourced\<lparr>rq_platform := ''android''\<rparr> else ?sourced"
  obtain s b' where c: "create_session_from_instance env ?i ?r (b\<lparr>b_pool := ?q\<rparr>) = (s, b')" by fastforce
  have id: "rq_device_id ?r = k" "rq_device_id ?r \<noteq> []"
    using assms(5,6) i(2) k(1) by (simp_all add: instance_snapshot_of_def)
  have "broker_create env ?sourced b = (Created s, b')"
    using al c gi id by (simp add: broker_create_def Let_def with_allocation_def)
  then have "post_session env (Some req) b = (Some (answer 201 (BSession s)), b')"
    by (simp only: post_session_def Let_def option.case) simp
  moreover have "sess_instance s = snap_id snap" "sess_state s = SessionActive" "p_hist (b_pool b') = p_hist ?p"
    using create_session_result [OF c] k(1) i(2) by (simp_all add: instance_snapshot_of_def on_inst_def)
  ultimately show ?thesis by blast
qed

definition free_query :: device_query where
  "free_query = \<lparr>dq_free = ''true'', dq_state = [], dq_profile = [], dq_kind = [], dq_reserved = []\<rparr>"

theorem free_devices_are_available_witness:
  "\<exists>b out n snap s b'. get_devices free_query (b_pool b) = answer 200 (BDevices out n) \<and> snap \<in> set out \<and>
     post_session small_benv (Some (sample_request\<lparr>rq_device_id := snap_id snap\<rparr>)) b =
       (Some (answer 201 (BSession s)), b') \<and> sess_instance s = ''0''"
proof -
  obtain b e i where b: "farm_run itoa_nat b" "get_instance ''0'' (b_pool b) = Some i" "eligible False i"
    by (rule roomless_farm) blast
  let ?snap = "instance_snapshot_of i"
  have "pool_ok (b_pool b)" by (rule farm_run_pool [OF b(1)])
  with b(2) have id: "snap_id ?snap = ''0''" by (simp add: pool_ok_def instance_snapshot_of_def)
  from b(2) have i: "i \<in> snd ` set (p_instances (b_pool b))"
    by (force simp: get_instance_def dest: map_of_SomeD)
  have m: "device_matches free_query ?snap"
    using b(3) by (auto simp: device_matches_def free_query_def parse_bool_def eligible_def instance_snapshot_of_def)
  let ?out = "filter (device_matches free_query) (st_instances (pool_status_of (b_pool b)))"
  from i m have "?snap \<in> set ?out" by (auto simp: pool_status_of_def Let_def)
  moreover have "get_devices free_query (b_pool b) = answer 200 (BDevices ?out (length ?out))"
    by (simp add: get_devices_def Let_def)
  ultimately obtain out n where o: "get_devices free_query (b_pool b) = answer 200 (BDevices out n)" "?snap \<in> set out"
    by blast
  have "dq_free free_query = ''true''" by (simp add: free_query_def)
  from free_devices_are_available [OF b(1) this o, of "sample_request\<lparr>rq_device_id := ''0''\<rparr>" small_benv] id
  obtain s b' where "post_session small_benv (Some (sample_request\<lparr>rq_device_id := snap_id ?snap\<rparr>)) b =
    (Some (answer 201 (BSession s)), b')" "sess_instance s = ''0''" by auto
  with o show ?thesis by blast
qed

text \<open>C12: a session over HTTP: what POST answers with 201, GET shows; DELETE answers 200, or the error of
  the pool when it could not give the device back, and in both cases the session is over: GET shows it
  released and a second DELETE is refused with 409 and changes nothing. An id nobody was given is 404.\<close>

theorem session_routes_correct:
  assumes "farm_run u b" and "post_session env (Some req) b = (Some r, b1)" and "rp_status r = 201"
  shows "\<exists>s. r = answer 201 (BSession s) \<and> get_session_reply (sess_id s) b1 = r\<lparr>rp_status := 200\<rparr> \<and>
     (\<forall>env1 env2 r2 b2. delete_session env1 (sess_id s) b1 = (r2, b2) \<longrightarrow>
        (rp_status r2 = 200 \<longleftrightarrow> fst (pool_release (be_pool env1) (sess_instance s) (b_pool b1)) = None) \<and>
        get_session_reply (sess_id s) b2 =
          answer 200 (BSession (end_session SessionReleased (be_now env1) s)) \<and>
        delete_session env2 (sess_id s) b2 = (fail_with ''session_not_active'' 409, b2)) \<and>
     (\<forall>sid. get_session sid b1 = None \<longrightarrow>
        get_session_reply sid b1 = fail_with ''session_not_found'' 404 \<and>
        delete_session env sid b1 = (fail_with ''session_not_found'' 404, b1))"
proof -
  obtain s req' where s: "r = answer 201 (BSession s)" "broker_create env req' b = (Created s, b1)"
    using post_session_created [OF assms(2,3)] by blast
  note g = broker_create_registers [OF s(2) farm_run_pool [OF assms(1)]]
  have "rp_status (pool_error_reply e) \<noteq> 200" for e
    by (cases e) (simp_all add: pool_error_reply_def fail_with_def answer_def)
  then have "(rp_status r2 = 200 \<longleftrightarrow> fst (pool_release (be_pool env1) (sess_instance s) (b_pool b1)) = None) \<and>
      get_session_reply (sess_id s) b2 =
        answer 200 (BSession (end_session SessionReleased (be_now env1) s)) \<and>
      delete_session env2 (sess_id s) b2 = (fail_with ''session_not_active'' 409, b2)"
    if "delete_session env1 (sess_id s) b1 = (r2, b2)" for env1 env2 r2 b2
    using delete_session_twice [OF g that] by (simp add: answer_def split: option.split)
  moreover have "get_session_reply sid b1 = fail_with ''session_not_found'' 404 \<and>
      delete_session env sid b1 = (fail_with ''session_not_found'' 404, b1)" if "get_session sid b1 = None" for sid
    using that by (simp add: get_session_reply_def delete_session_def broker_release_def error_reply_def)
  ultimately show ?thesis using s(1) g(1) by (auto simp: get_session_reply_def answer_def)
qed

theorem session_routes_correct_witness:
  "\<exists>s b1. post_session small_benv (Some sample_request)
       (new_broker small_config (new_pool small_config) True ''127.0.0.1'') = (Some (answer 201 (BSession s)), b1) \<and>
     get_session_reply (sess_id s) b1 = answer 200 (BSession s) \<and>
     delete_session small_benv (sess_id s) (snd (delete_session small_benv (sess_id s) b1)) =
       (fail_with ''session_not_active'' 409, snd (delete_session small_benv (sess_id s) b1))"
proof -
  let ?b = "new_broker small_config (new_pool small_config) True ''127.0.0.1''"
  obtain s b1 where c: "broker_create small_benv sample_request ?b = (Created s, b1)"
    using small_creation by blast
  have src: "rq_source sample_request \<noteq> []" by (simp add: sample_request_def)
  with c have p: "post_session small_benv (Some sample_request) ?b = (Some (answer 201 (BSession s)), b1)"
    by (simp add: post_session_def)
  obtain r2 b2 where d: "delete_session small_benv (sess_id s) b1 = (r2, b2)" by fastforce
  from session_routes_correct [OF farm_run.fresh p] d p show ?thesis
    by (auto simp: answer_def)
qed

text \<open>C15: a reservation over HTTP reaches the pool and the store together: after a 200 the instance
  carries the label, and whenever the stored reservations are applied again, to a restarted pool, say,
  every device with that name carries it; after DELETE none is given one. A 404 changes neither.\<close>

theorem reservations_over_restarts:
  assumes "reservations_ok st" and "get_instance k p = Some i" and "inst_device i = Some d"
  shows "(\<exists>st' p'. post_reserve now k label (Some st) p = (answer 200 (BReserved k label), Some st', p') \<and>
       get_instance k p' = Some (reserve label i) \<and>
       (\<forall>q k' j e. get_instance k' q = Some j \<longrightarrow> inst_device j = Some e \<longrightarrow>
          device_display_name e = device_display_name d \<longrightarrow>
          get_instance k' (apply_reservations (load_reservations st') q) = Some (reserve label j))) \<and>
    (\<exists>st' p'. delete_reserve k (Some st) p = (answer 200 (BUnreserved k), Some st', p') \<and>
       get_instance k p' = Some (unreserve i) \<and>
       (\<forall>q k' j e. get_instance k' q = Some j \<longrightarrow> inst_device j = Some e \<longrightarrow>
          device_display_name e = device_display_name d \<longrightarrow>
          get_instance k' (apply_reservations (load_reservations st') q) = Some j)) \<and>
    (get_instance k2 p = None \<longrightarrow>
       post_reserve now k2 label (Some st) p = (fail_with ''not_found'' 404, Some st, p) \<and>
       delete_reserve k2 (Some st) p = (fail_with ''not_found'' 404, Some st, p))"
proof -
  let ?n = "device_display_name d"
  let ?r = "\<lparr>rs_avd = ?n, rs_label = label, rs_at = secs now\<rparr>"
  have set: "set_reservation now ?n label st = put_reservation ?r st"
    by (simp add: set_reservation_def put_reservation_def)
  have loaded: "map_of (load_reservations (set_reservation now ?n label st)) ?n = Some label"
    using load_reservations_find [OF reservation_table.inv_put [OF assms(1)], of ?r ?n]
      reservation_table.look_put [OF assms(1), of ?r ?n] by (simp add: set)
  have gone: "map_of (load_reservations (clear_reservation ?n st)) ?n = None"
    using load_reservations_find [OF reservation_table.inv_erase [OF assms(1)], of ?n ?n]
      reservation_table.look_erase [OF assms(1), of ?n ?n] by simp
  have applied: "get_instance k' (apply_reservations rs q) =
      Some (case map_of rs (device_display_name e) of None \<Rightarrow> j | Some l \<Rightarrow> reserve l j)"
    if "get_instance k' q = Some j" "inst_device j = Some e" for rs k' q j e
    using that by (simp add: get_instance_def apply_reservations_def map_of_map)
  show ?thesis
    using assms(2,3) loaded gone applied
    by (auto simp: post_reserve_def delete_reserve_def reserve_instance_def unreserve_instance_def get_on_inst)
qed

theorem reservations_over_restarts_witness:
  "\<exists>p i st'. get_instance ''0'' p = Some i \<and> \<not> reserved i \<and>
     fst (snd (post_reserve 0 ''0'' ''qa'' (Some new_store) p)) = Some st' \<and>
     get_instance ''0'' (apply_reservations (load_reservations st') p) = Some (reserve ''qa'' i)"
proof -
  obtain b e i where b: "farm_run itoa_nat b" "get_instance ''0'' (b_pool b) = Some i" "eligible False i"
    by (rule roomless_farm) blast
  have "pool_ok (b_pool b)" by (rule farm_run_pool [OF b(1)])
  then have "inst_device i \<noteq> None" using b(2) unfolding pool_ok_def by blast
  then obtain d where d: "inst_device i = Some d" by blast
  have "reservations_ok new_store" by (simp add: reservations_ok_def new_store_def)
  from conjunct1 [OF reservations_over_restarts [OF this b(2) d, of 0 "''qa''"]] b(2) d obtain st' p' where
    "post_reserve 0 ''0'' ''qa'' (Some new_store) (b_pool b) = (answer 200 (BReserved ''0'' ''qa''), Some st', p')"
    "get_instance ''0'' (apply_reservations (load_reservations st') (b_pool b)) = Some (reserve ''qa'' i)"
    by blast
  moreover have "\<not> reserved i" using b(3) by (simp add: eligible_def)
  ultimately show ?thesis using b(2)
    by (intro exI [of _ "b_pool b"] exI [of _ i] exI [of _ st']) simp
qed

end
