(* ===== verification/Timeline.thy ===== *)
theory Timeline
  imports BrokerProps Store Artifacts
begin

text \<open>
  \<^verbatim>\<open>internal/api/handlers_timeline.go\<close>: the playback timeline of a session, merged from the events of the
  store, the captured logcat, the HAR file of the proxy and the names of the screenshots. Strings are
  bytes. What Go's \<^verbatim>\<open>time\<close> and \<^verbatim>\<open>json\<close> packages and the database driver make of a text is the argument
  \<open>time_lib\<close>, about which nothing is assumed; the JSON number \<^verbatim>\<open>relative_s\<close> is kept as nanoseconds.
\<close>

record har_entry =
  he_started :: string
  he_millis :: int
  he_method :: string
  he_url :: string
  he_status :: int

text \<open>\<open>tl_parse\<close> and \<open>tl_parse_in\<close> take the layout first; the second parses in the zone of the session's
  start. \<open>tl_stored\<close> is the text the driver returns for a stored time, \<open>tl_har\<close> the decoded file.\<close>

record time_lib =
  tl_parse :: "string \<Rightarrow> string \<Rightarrow> time option"
  tl_parse_in :: "string \<Rightarrow> string \<Rightarrow> time option"
  tl_format :: "time \<Rightarrow> string"
  tl_year :: "time \<Rightarrow> int"
  tl_stored :: "int \<Rightarrow> string"
  tl_har :: "string \<Rightarrow> har_entry list option"

record timeline_event =
  te_time :: string
  te_rel :: duration
  te_type :: string
  te_level :: string
  te_message :: string
  te_url :: string
  te_status :: int
  te_method :: string
  te_millis :: int

text \<open>\<^verbatim>\<open>Time.Sub\<close> stops at the bounds of a duration.\<close>

definition time_sub :: "time \<Rightarrow> time \<Rightarrow> duration" where
  "time_sub a b = max (- (2 ^ 63)) (min (2 ^ 63 - 1) (a - b))"

definition plain_event :: "time_lib \<Rightarrow> time \<Rightarrow> time \<Rightarrow> string \<Rightarrow> string \<Rightarrow> string \<Rightarrow> timeline_event" where
  "plain_event lib t0 ts ty level message =
     \<lparr>te_time = tl_format lib ts, te_rel = time_sub ts t0, te_type = ty, te_level = level, te_message = message,
      te_url = [], te_status = 0, te_method = [], te_millis = 0\<rparr>"

subsection \<open>The store\<close>

definition rfc3339_nano :: string where "rfc3339_nano = ''2006-01-02T15:04:05.999999999Z07:00''"
definition rfc3339 :: string where "rfc3339 = ''2006-01-02T15:04:05Z07:00''"
definition sql_datetime :: string where "sql_datetime = ''2006-01-02 15:04:05''"

fun first_layout :: "time_lib \<Rightarrow> string list \<Rightarrow> string \<Rightarrow> time option" where
  "first_layout lib [] s = None"
| "first_layout lib (l # ls) s = (case tl_parse lib l s of Some t \<Rightarrow> Some t | None \<Rightarrow> first_layout lib ls s)"

definition parse_store_time :: "time_lib \<Rightarrow> string \<Rightarrow> time option" where
  "parse_store_time lib s = first_layout lib [rfc3339_nano, rfc3339, sql_datetime, rfc3339, sql_datetime] s"

definition level_from_lifecycle :: "string \<Rightarrow> string" where
  "level_from_lifecycle t =
     (if t = ''session_timed_out'' \<or> t = ''session_error'' \<or> t = ''instance_error'' then ''warn'' else ''info'')"

definition lifecycle_events :: "time_lib \<Rightarrow> time \<Rightarrow> string \<Rightarrow> store option \<Rightarrow> timeline_event list" where
  "lifecycle_events lib t0 sid st =
     (case st of
        None \<Rightarrow> []
      | Some s \<Rightarrow> List.map_filter (\<lambda>e. map_option
          (\<lambda>ts. plain_event lib t0 ts ''lifecycle'' (level_from_lifecycle (ev_type e)) (ev_type e))
          (parse_store_time lib (tl_stored lib (ev_created e)))) (events_for_session sid s))"

fun first_parsed :: "time_lib \<Rightarrow> string \<Rightarrow> session_row list \<Rightarrow> time option" where
  "first_parsed lib sid [] = None"
| "first_parsed lib sid (r # rs) =
     (if row_id r \<noteq> sid then first_parsed lib sid rs
      else case parse_store_time lib (tl_stored lib (row_created r)) of
             Some t \<Rightarrow> Some t | None \<Rightarrow> first_parsed lib sid rs)"

definition session_start :: "time_lib \<Rightarrow> string \<Rightarrow> broker \<Rightarrow> store option \<Rightarrow> time option" where
  "session_start lib sid b st =
     (case get_session sid b of
        Some s \<Rightarrow> Some (sess_created s)
      | None \<Rightarrow> (case st of None \<Rightarrow> None | Some s \<Rightarrow> first_parsed lib sid (session_history 200 s)))"

subsection \<open>Logcat\<close>

text \<open>\<^verbatim>\<open>bufio.Scanner\<close> with a buffer of one megabyte: the lines without their line ends, or \<open>None\<close> when one
  of them does not fit, in which case the caller drops all of them.\<close>

definition max_line :: nat where "max_line = 1048576"

definition drop_cr :: "string \<Rightarrow> string" where
  "drop_cr l = (if l \<noteq> [] \<and> last l = CHR 0x0D then butlast l else l)"

definition scan_lines :: "string \<Rightarrow> string list option" where
  "scan_lines s =
     (let ls = split_on nl s; ls1 = (if last ls = [] then butlast ls else ls)
      in if list_ex (\<lambda>l. max_line \<le> length l) ls1 then None else Some (map drop_cr ls1))"

text \<open>\<^verbatim>\<open>strings.Index\<close>\<close>

fun str_index :: "string \<Rightarrow> string \<Rightarrow> nat option" where
  "str_index [] p = (if p = [] then Some 0 else None)"
| "str_index (x # xs) p = (if has_prefix (x # xs) p then Some 0 else map_option Suc (str_index xs p))"

definition ellipsis :: string where "ellipsis = [CHR 0xE2, CHR 0x80, CHR 0xA6]"

definition cut_text :: "nat \<Rightarrow> string \<Rightarrow> string" where
  "cut_text n s = (if n < length s then take n s @ ellipsis else s)"

text \<open>The two time formats, each giving the time and the rest of the line. The nanoseconds are a 64-bit
  product.\<close>

definition epoch_stamp :: "string \<Rightarrow> (time \<times> string) option" where
  "epoch_stamp l =
     (let w = takeWhile (\<lambda>c. c \<noteq> CHR '' '') l; rest = drop (length w + 1) l;
          s = takeWhile (\<lambda>c. c \<noteq> CHR ''.'') w
      in if w = l \<or> CHR ''.'' \<notin> set w then None
         else case (atoi s, atoi (drop (length s + 1) w)) of
                (Some sec, Some ms) \<Rightarrow>
                  if 1000000000 < sec then Some (sec * second_ns + dur_mul ms 1000000, rest) else None
              | _ \<Rightarrow> None)"

definition threadtime_stamp :: "time_lib \<Rightarrow> time \<Rightarrow> string \<Rightarrow> (time \<times> string) option" where
  "threadtime_stamp lib t0 l =
     (if length l < 18 then None
      else map_option (\<lambda>ts. (ts, drop 18 l))
             (tl_parse_in lib ''2006 01-02 15:04:05.000'' (itoa (tl_year lib t0) @ '' '' @ take 18 l)))"

definition line_level :: "string \<Rightarrow> string option" where
  "line_level rest =
     (if contains_str rest '' E '' then Some ''error''
      else if contains_str rest '' W '' then Some ''warn'' else None)"

definition line_message :: "string \<Rightarrow> string" where
  "line_message rest =
     cut_text 400 (case str_index rest '': '' of
       Some (Suc i) \<Rightarrow> trim_space (drop (i + 3) rest) | _ \<Rightarrow> rest)"

definition logcat_line :: "time_lib \<Rightarrow> time \<Rightarrow> string \<Rightarrow> timeline_event option" where
  "logcat_line lib t0 raw =
     (let l = dropWhile (\<lambda>c. c = CHR '' '') raw
      in if length l < 15 then None
         else case (case epoch_stamp l of Some x \<Rightarrow> Some x | None \<Rightarrow> threadtime_stamp lib t0 l) of
                None \<Rightarrow> None
              | Some (ts, rest) \<Rightarrow>
                  if rest = [] then None
                  else map_option (\<lambda>level. plain_event lib t0 ts ''logcat'' level (line_message rest))
                         (line_level rest))"

definition parse_logcat :: "time_lib \<Rightarrow> time \<Rightarrow> string \<Rightarrow> timeline_event list option" where
  "parse_logcat lib t0 data = map_option (List.map_filter (logcat_line lib t0)) (scan_lines data)"

subsection \<open>Network and screenshots\<close>

definition har_event :: "time_lib \<Rightarrow> time \<Rightarrow> har_entry \<Rightarrow> timeline_event option" where
  "har_event lib t0 e =
     map_option (\<lambda>ts. \<lparr>te_time = tl_format lib ts, te_rel = time_sub ts t0, te_type = ''network'',
        te_level = (if 400 \<le> he_status e then ''error'' else if 300 \<le> he_status e then ''warn'' else ''info''),
        te_message = he_method e @ '' '' @ cut_text 80 (he_url e), te_url = he_url e,
        te_status = he_status e, te_method = he_method e, te_millis = he_millis e\<rparr>)
       (first_layout lib [rfc3339_nano, rfc3339] (he_started e))"

definition parse_har :: "time_lib \<Rightarrow> time \<Rightarrow> string \<Rightarrow> timeline_event list option" where
  "parse_har lib t0 data = map_option (List.map_filter (har_event lib t0)) (tl_har lib data)"

definition screenshot_event :: "time_lib \<Rightarrow> time \<Rightarrow> string \<times> art_file \<Rightarrow> timeline_event option" where
  "screenshot_event lib t0 = (\<lambda>(name, f).
     if \<not> has_prefix name ''screenshot_'' \<or> path_ext name \<noteq> ''.png'' then None
     else (let stamp = trim_suffix (trim_prefix name ''screenshot_'') ''.png'';
               ts = (case tl_parse_in lib ''20060102_150405'' stamp of Some t \<Rightarrow> t | None \<Rightarrow> af_mtime f)
           in Some ((plain_event lib t0 ts ''screenshot'' [] name)\<lparr>te_url := name\<rparr>)))"

definition parse_screenshots :: "time_lib \<Rightarrow> time \<Rightarrow> (string \<times> art_file) list \<Rightarrow> timeline_event list" where
  "parse_screenshots lib t0 files = List.map_filter (screenshot_event lib t0) files"

subsection \<open>The handler\<close>

text \<open>A file that is missing, is a directory or does not parse adds nothing.\<close>

definition read_events ::
  "string \<Rightarrow> (string \<Rightarrow> timeline_event list option) \<Rightarrow> (string \<times> art_file) list \<Rightarrow> timeline_event list" where
  "read_events name parse files =
     (case map_of files name of
        None \<Rightarrow> []
      | Some f \<Rightarrow> if af_is_dir f then [] else (case parse (af_data f) of None \<Rightarrow> [] | Some es \<Rightarrow> es))"

definition gather_events ::
  "time_lib \<Rightarrow> time \<Rightarrow> string \<Rightarrow> store option \<Rightarrow> (string \<times> art_file) list \<Rightarrow> timeline_event list" where
  "gather_events lib t0 sid st files =
     lifecycle_events lib t0 sid st @ read_events ''logcat.txt'' (parse_logcat lib t0) files @
     read_events ''network.har'' (parse_har lib t0) files @ parse_screenshots lib t0 files"

record timeline_reply =
  tr_session :: string
  tr_started :: string
  tr_video :: string
  tr_dir :: string
  tr_events :: "timeline_event list"
  tr_total :: nat

text \<open>\<open>sorter\<close> stands for \<^verbatim>\<open>sort.Slice\<close>, which promises an order but not a stable one. \<open>None\<close> is a 404.\<close>

definition get_timeline ::
  "(timeline_event list \<Rightarrow> timeline_event list) \<Rightarrow> time_lib \<Rightarrow> string \<Rightarrow> broker \<Rightarrow> store option \<Rightarrow> artifacts \<Rightarrow>
   timeline_reply option" where
  "get_timeline sorter lib sid b st a =
     (case session_start lib sid b st of
        None \<Rightarrow> None
      | Some t0 \<Rightarrow>
          (let events = sorter (filter (\<lambda>e. 0 \<le> te_rel e) (gather_events lib t0 sid st (files_of sid a)))
           in Some \<lparr>tr_session = sid, tr_started = tl_format lib t0,
                    tr_video = ''/api/v1/sessions/'' @ sid @ ''/artifacts/video.mp4'',
                    tr_dir = ''/api/v1/sessions/'' @ sid @ ''/artifacts'',
                    tr_events = events, tr_total = length events\<rparr>))"

subsection \<open>Reading back a logcat\<close>

text \<open>A line as \<^verbatim>\<open>adb logcat -v epoch\<close> prints it: the time, padded to a column, with milliseconds; process,
  thread, level and tag (\<open>le_head\<close>); and the message.\<close>

record log_entry =
  le_pad :: nat
  le_sec :: int
  le_ms :: nat
  le_head :: string
  le_text :: string

definition three_digits :: "nat \<Rightarrow> string" where
  "three_digits n = [digit_char (n div 100), digit_char (n div 10 mod 10), digit_char (n mod 10)]"

definition log_rest :: "log_entry \<Rightarrow> string" where
  "log_rest e = le_head e @ '': '' @ le_text e"

definition log_line :: "log_entry \<Rightarrow> string" where
  "log_line e = replicate (le_pad e) (CHR '' '') @ itoa (le_sec e) @ ''.'' @ three_digits (le_ms e) @ '' '' @ log_rest e"

definition log_entry_ok :: "log_entry \<Rightarrow> bool" where
  "log_entry_ok e \<longleftrightarrow> 1000000000 < le_sec e \<and> le_sec e < 2 ^ 63 \<and> le_ms e < 1000 \<and> le_head e \<noteq> [] \<and>
     str_index (le_head e @ '': '') '': '' = Some (length (le_head e)) \<and> nl \<notin> set (le_head e) \<and>
     nl \<notin> set (le_text e) \<and> trim_space (le_text e) = le_text e \<and> le_text e \<noteq> [] \<and>
     length (le_text e) \<le> 400 \<and> length (log_line e) < max_line"

lemma digit_neq: "c \<in> digit_char ` {..<10} \<Longrightarrow> c \<noteq> CHR ''.'' \<and> c \<noteq> CHR '' '' \<and> c \<noteq> nl"
proof -
  assume "c \<in> digit_char ` {..<10}"
  then obtain d where d: "d < 10" "c = digit_char d" by auto
  then have "d \<in> {0, 1, 2, 3, 4, 5, 6, 7, 8, 9}" by auto
  then show ?thesis by (auto simp: d(2) nl_def)
qed

lemma itoa_nat_length: "10 ^ k \<le> n \<Longrightarrow> k < length (itoa_nat n)"
proof (induction k arbitrary: n)
  case (Suc k)
  then have "10 ^ k \<le> n div 10" using div_le_mono [of "10 * 10 ^ k" n 10] by simp
  moreover from this have "\<not> n < 10" using div_less [of n 10] by (cases "n < 10") simp_all
  ultimately show ?case using Suc.IH [of "n div 10"] by (subst itoa_nat.simps) simp
qed simp

lemma three_digits_props:
  assumes "n < 1000"
  shows "atoi (three_digits n) = Some (int n)" "set (three_digits n) \<subseteq> digit_char ` {..<10}"
proof -
  have d: "n div 100 < 10" "n div 10 mod 10 < 10" "n mod 10 < 10" using assms by auto
  have "n div 100 = n div 10 div 10" by (simp add: div_mult2_eq [symmetric])
  then have "10 * (n div 100) + n div 10 mod 10 = n div 10" by (metis mult_div_mod_eq)
  then have v: "10 * (10 * (n div 100) + n div 10 mod 10) + n mod 10 = n" by (metis mult_div_mod_eq)
  show "atoi (three_digits n) = Some (int n)"
    using d assms digit_char_props [OF d(1)] v [unfolded distrib_left]
    by (simp add: atoi_def three_digits_def Let_def add.assoc)
  show "set (three_digits n) \<subseteq> digit_char ` {..<10}" using d by (auto simp: three_digits_def)
qed

lemma itoa_digits: "0 \<le> i \<Longrightarrow> c \<in> set (itoa i) \<Longrightarrow> c \<in> digit_char ` {..<10}"
  using itoa_nat_digits by (auto simp: itoa_def)

lemma str_index_append:
  "str_index (h @ p) p = Some (length h) \<Longrightarrow> str_index (h @ p @ s) p = Some (length h)"
proof (induction h)
  case Nil
  then show ?case by (cases p; cases s) (auto simp: has_prefix_def)
next
  case (Cons x h)
  have "has_prefix (x # h @ p @ s) p = has_prefix (x # h @ p) p"
    using take_append [of "length p" "x # h @ p" s] by (simp add: has_prefix_def)
  with Cons show ?case by (auto split: if_splits)
qed

lemma takeWhile_stop: "\<forall>x \<in> set xs. P x \<Longrightarrow> \<not> P y \<Longrightarrow> takeWhile P (xs @ y # ys) = xs"
  by (induction xs) auto

lemma epoch_stamp_line:
  assumes "1000000000 < sec" and "sec < 2 ^ 63" and "ms < 1000"
  shows "epoch_stamp (itoa sec @ ''.'' @ three_digits ms @ '' '' @ rest) =
    Some (sec * second_ns + int ms * 1000000, rest)"
proof -
  let ?w = "itoa sec @ CHR ''.'' # three_digits ms"
  have ds: "\<forall>c \<in> set (itoa sec). c \<noteq> CHR ''.'' \<and> c \<noteq> CHR '' ''"
    using itoa_digits [of sec] digit_neq assms(1) by fastforce
  have dm: "\<forall>c \<in> set (three_digits ms). c \<noteq> CHR '' ''"
    using three_digits_props(2) [OF assms(3)] digit_neq by fastforce
  have w: "takeWhile (\<lambda>c. c \<noteq> CHR '' '') (?w @ CHR '' '' # rest) = ?w"
    by (rule takeWhile_stop) (use ds dm in auto)
  have s: "takeWhile (\<lambda>c. c \<noteq> CHR ''.'') ?w = itoa sec"
    by (rule takeWhile_stop) (use ds in auto)
  have "dur_mul (int ms) 1000000 = int ms * 1000000"
    using assms(3) by (simp add: dur_mul_def wrap64_id)
  with w s assms three_digits_props(1) [OF assms(3)] atoi_itoa [of sec] show ?thesis
    by (simp add: epoch_stamp_def Let_def)
qed

lemma line_message_rest:
  assumes "log_entry_ok e"
  shows "line_message (log_rest e) = le_text e"
proof -
  obtain n where n: "length (le_head e) = Suc n" using assms by (cases "le_head e") (auto simp: log_entry_ok_def)
  have "str_index (log_rest e) '': '' = Some (length (le_head e))"
    using assms str_index_append [of "le_head e" "'': ''" "le_text e"] by (simp add: log_entry_ok_def log_rest_def)
  with n have "line_message (log_rest e) = cut_text 400 (trim_space (drop (n + 3) (log_rest e)))"
    by (simp add: line_message_def)
  also have "drop (n + 3) (log_rest e) = le_text e" using n by (simp add: log_rest_def)
  finally show ?thesis using assms by (simp add: log_entry_ok_def cut_text_def)
qed

definition log_event :: "time_lib \<Rightarrow> time \<Rightarrow> log_entry \<Rightarrow> timeline_event option" where
  "log_event lib t0 e = map_option
     (\<lambda>level. plain_event lib t0 (le_sec e * second_ns + int (le_ms e) * 1000000) ''logcat'' level (le_text e))
     (line_level (log_rest e))"

lemma logcat_line_entry:
  assumes "log_entry_ok e"
  shows "logcat_line lib t0 (log_line e) = log_event lib t0 e"
proof -
  let ?l = "itoa (le_sec e) @ ''.'' @ three_digits (le_ms e) @ '' '' @ log_rest e"
  have s: "1000000000 < le_sec e" "le_sec e < 2 ^ 63" "le_ms e < 1000" using assms by (simp_all add: log_entry_ok_def)
  have hd: "\<exists>c cs. ?l = c # cs \<and> c \<noteq> CHR '' ''"
    using itoa_digits [of "le_sec e"] digit_neq s(1) by (cases "itoa (le_sec e)") fastforce+
  have blanks: "dropWhile (\<lambda>c. c = b) (replicate n b @ c # cs) = c # cs" if "c \<noteq> b" for n b c and cs :: string
    using that by (induction n) simp_all
  from hd have trim: "dropWhile (\<lambda>c. c = CHR '' '') (log_line e) = ?l"
    unfolding log_line_def using blanks by metis
  have "10 < length (itoa (le_sec e)) + 1" using itoa_nat_length [of 9 "nat (le_sec e)"] s(1) by (simp add: itoa_def)
  then have len: "15 \<le> length ?l" by (simp add: three_digits_def)
  have ne: "log_rest e \<noteq> []" by (simp add: log_rest_def)
  show ?thesis
    using len ne by (simp only: logcat_line_def Let_def trim epoch_stamp_line [OF s] log_event_def)
      (simp add: line_message_rest [OF assms])
qed

lemma split_on_lines:
  "\<forall>l \<in> set ls. c \<notin> set l \<Longrightarrow> split_on c (concat (map (\<lambda>l. l @ [c]) ls) @ s) = ls @ split_on c s"
  by (induction ls) (simp_all add: split_on_append)

lemma log_line_nl:
  assumes "log_entry_ok e"
  shows "nl \<notin> set (log_line e)"
proof -
  have "nl \<notin> set (itoa (le_sec e))" "nl \<notin> set (three_digits (le_ms e))"
    using assms itoa_digits [of "le_sec e" nl] three_digits_props(2) [of "le_ms e"] digit_neq [of nl]
    by (auto simp: log_entry_ok_def)
  moreover have "nl \<noteq> CHR '' ''" "nl \<noteq> CHR ''.''" "nl \<noteq> CHR '':''" by (simp_all add: nl_def)
  ultimately show ?thesis using assms by (auto simp: log_line_def log_rest_def log_entry_ok_def)
qed

lemma drop_cr_line:
  assumes "log_entry_ok e"
  shows "drop_cr (log_line e) = log_line e"
proof -
  have t: "le_text e \<noteq> []" "trim_space (le_text e) = le_text e" using assms by (simp_all add: log_entry_ok_def)
  have "rev (le_text e) = dropWhile is_space (rev (dropWhile is_space (le_text e)))"
    using t(2) unfolding trim_space_def by (metis rev_rev_ident)
  with t(1) have "\<not> is_space (hd (rev (le_text e)))" by (metis hd_dropWhile rev_is_Nil_conv)
  with t(1) have "last (le_text e) \<noteq> CHR 0x0D" by (auto simp: hd_rev is_space_def)
  with t(1) show ?thesis by (simp add: drop_cr_def log_line_def log_rest_def)
qed

text \<open>The logcat of a session is read back: of a file of lines as adb prints them, whatever their
  padding, each line becomes the event with its exact time and its message, in order, exactly when it has
  the mark of an error or a warning, which is looked for in the whole line, message and tag included. One
  line of a megabyte, wherever it stands, and none of the file's lines is shown.\<close>

theorem logcat_read_back:
  assumes "\<forall>e \<in> set es. log_entry_ok e"
  shows "parse_logcat lib t0 (concat (map (\<lambda>e. log_line e @ [nl]) es)) = Some (List.map_filter (log_event lib t0) es) \<and>
    (max_line \<le> length l \<longrightarrow> nl \<notin> set l \<longrightarrow> nl \<notin> set later \<longrightarrow>
       parse_logcat lib t0 (concat (map (\<lambda>e. log_line e @ [nl]) es) @ l @ nl # later) = None)"
proof -
  let ?ls = "map log_line es"
  have nls: "\<forall>l \<in> set ?ls. nl \<notin> set l" using assms log_line_nl by auto
  have data: "concat (map (\<lambda>e. log_line e @ [nl]) es) = concat (map (\<lambda>l. l @ [nl]) ?ls)" by (simp add: comp_def)
  have "\<forall>l \<in> set ?ls. length l < max_line" using assms by (auto simp: log_entry_ok_def)
  then have "scan_lines (concat (map (\<lambda>e. log_line e @ [nl]) es)) = Some (map drop_cr ?ls)"
    unfolding data using split_on_lines [OF nls, of "[]"] by (auto simp: scan_lines_def Let_def list_ex_iff not_le)
  also have "map drop_cr ?ls = ?ls" using assms drop_cr_line by simp
  finally have "parse_logcat lib t0 (concat (map (\<lambda>e. log_line e @ [nl]) es)) =
      Some (List.map_filter (logcat_line lib t0) ?ls)" by (simp add: parse_logcat_def)
  also have "List.map_filter (logcat_line lib t0) ?ls = List.map_filter (log_event lib t0) es"
    using assms by (induction es) (auto simp: logcat_line_entry split: option.split)
  finally have 1: "parse_logcat lib t0 (concat (map (\<lambda>e. log_line e @ [nl]) es)) =
      Some (List.map_filter (log_event lib t0) es)" .
  have 2: "parse_logcat lib t0 (concat (map (\<lambda>e. log_line e @ [nl]) es) @ l @ nl # later) = None"
    if "max_line \<le> length l" "nl \<notin> set l" "nl \<notin> set later"
  proof -
    have s: "split_on nl (concat (map (\<lambda>e. log_line e @ [nl]) es) @ l @ nl # later) = ?ls @ [l] @ [later]"
      unfolding data split_on_lines [OF nls] using that(2,3) by (simp add: split_on_append split_on_none)
    have "l \<in> set (if last (?ls @ [l] @ [later]) = [] then butlast (?ls @ [l] @ [later]) else ?ls @ [l] @ [later])"
      by (simp add: butlast_append)
    with that(1) show ?thesis
      unfolding parse_logcat_def scan_lines_def Let_def s list_ex_iff by auto
  qed
  show ?thesis using 1 2 by blast
qed

definition sample_entry :: log_entry where
  "sample_entry = \<lparr>le_pad = 9, le_sec = 1729795316, le_ms = 197, le_head = '' 812  812 E app'', le_text = ''boom''\<rparr>"

theorem logcat_read_back_witness:
  "\<forall>lib t0. parse_logcat lib t0 (log_line sample_entry @ [nl]) =
     Some [plain_event lib t0 1729795316197000000 ''logcat'' ''error'' ''boom'']"
proof (intro allI)
  fix lib t0
  have i: "itoa 1729795316 = ''1729795316''" by (simp add: itoa_def itoa_nat.simps)
  have "log_entry_ok sample_entry"
    by (simp add: log_entry_ok_def sample_entry_def has_prefix_def nl_def trim_space_def is_space_def log_line_def
        log_rest_def three_digits_def i max_line_def)
  moreover have "log_event lib t0 sample_entry = Some (plain_event lib t0 1729795316197000000 ''logcat'' ''error'' ''boom'')"
    by (simp add: log_event_def sample_entry_def line_level_def log_rest_def has_prefix_def second_ns_def)
  ultimately show "parse_logcat lib t0 (log_line sample_entry @ [nl]) =
     Some [plain_event lib t0 1729795316197000000 ''logcat'' ''error'' ''boom'']"
    using logcat_read_back [of "[sample_entry]" lib t0] by simp
qed

text \<open>The timeline of a session that is live, or among the newest 200 of the store, holds every event
  of its four sources that did not happen before the session began, each as often as its sources give it
  and nothing else, in the order of their times, whatever \<^verbatim>\<open>sort.Slice\<close> does with equal ones; for any other
  session it is a 404. A source that is missing or broken leaves the others as they are.\<close>

theorem timeline_correct:
  assumes "\<And>es. mset (sorter es) = mset es \<and> sorted (map te_rel (sorter es))"
  shows "(\<forall>s. get_session sid b = Some s \<longrightarrow> session_start lib sid b st = Some (sess_created s)) \<and>
    (get_session sid b = None \<longrightarrow> (\<forall>s. st = Some s \<longrightarrow> sid \<notin> row_id ` set (session_history 200 s)) \<longrightarrow>
       get_timeline sorter lib sid b st a = None) \<and>
    (\<forall>t0. session_start lib sid b st = Some t0 \<longrightarrow>
       (\<exists>r. get_timeline sorter lib sid b st a = Some r \<and> tr_started r = tl_format lib t0 \<and>
          sorted (map te_rel (tr_events r)) \<and> tr_total r = length (tr_events r) \<and>
          mset (tr_events r) = filter_mset (\<lambda>e. 0 \<le> te_rel e)
            (mset (lifecycle_events lib t0 sid st) +
             mset (read_events ''logcat.txt'' (parse_logcat lib t0) (files_of sid a)) +
             mset (read_events ''network.har'' (parse_har lib t0) (files_of sid a)) +
             mset (parse_screenshots lib t0 (files_of sid a)))))"
proof (intro conjI allI impI)
  show "session_start lib sid b st = Some (sess_created s)" if "get_session sid b = Some s" for s
    using that by (simp add: session_start_def)
  have "first_parsed lib sid rs = None" if "sid \<notin> row_id ` set rs" for rs
    using that by (induction rs) auto
  then show "get_timeline sorter lib sid b st a = None"
    if "get_session sid b = None" "\<forall>s. st = Some s \<longrightarrow> sid \<notin> row_id ` set (session_history 200 s)"
    using that by (simp add: get_timeline_def session_start_def split: option.split)
  fix t0 assume "session_start lib sid b st = Some t0"
  with assms show "\<exists>r. get_timeline sorter lib sid b st a = Some r \<and> tr_started r = tl_format lib t0 \<and>
      sorted (map te_rel (tr_events r)) \<and> tr_total r = length (tr_events r) \<and>
      mset (tr_events r) = filter_mset (\<lambda>e. 0 \<le> te_rel e)
        (mset (lifecycle_events lib t0 sid st) +
         mset (read_events ''logcat.txt'' (parse_logcat lib t0) (files_of sid a)) +
         mset (read_events ''network.har'' (parse_har lib t0) (files_of sid a)) +
         mset (parse_screenshots lib t0 (files_of sid a)))"
    by (simp add: get_timeline_def Let_def gather_events_def mset_filter add.assoc)
qed

definition sample_lib :: time_lib where
  "sample_lib = \<lparr>tl_parse = \<lambda>l s. None, tl_parse_in = \<lambda>l s. None, tl_format = itoa, tl_year = \<lambda>t. 2024,
     tl_stored = itoa, tl_har = \<lambda>s. None\<rparr>"

theorem timeline_correct_witness:
  "\<exists>(b :: broker) s a r. get_session ''s'' b = Some s \<and>
     get_timeline (sort_key te_rel) sample_lib ''s'' b None a = Some r \<and> sorted (map te_rel (tr_events r)) \<and>
     map te_message (tr_events r) = [''screenshot_b.png'', ''screenshot_a.png'']"
proof -
  let ?shot = "\<lambda>t. \<lparr>af_is_dir = False, af_data = [], af_mtime = t\<rparr>"
  let ?a = "[(''s'', SessionDir [(''screenshot_a.png'', ?shot 9), (''screenshot_b.png'', ?shot 7),
     (''screenshot_c.png'', ?shot (-1))])]"
  let ?b = small_broker
  have b: "get_session ''s'' ?b = Some small_session" "sess_created small_session = 0"
    by (simp_all add: small_broker_def get_session_def small_session_def)
  have k: "mset (sort_key te_rel es) = mset es \<and> sorted (map te_rel (sort_key te_rel es))" for es by simp
  note t = timeline_correct [where sorter = "sort_key te_rel" and sid = "''s''" and b = ?b and lib = sample_lib and
      st = None and a = ?a, OF k]
  have st: "session_start sample_lib ''s'' ?b None = Some 0" using t b by metis
  then obtain r where r: "get_timeline (sort_key te_rel) sample_lib ''s'' ?b None ?a = Some r"
    "sorted (map te_rel (tr_events r))" using t by blast
  have "map te_message (tr_events r) = [''screenshot_b.png'', ''screenshot_a.png'']"
    using r(1) st by (auto simp: get_timeline_def Let_def gather_events_def lifecycle_events_def read_events_def
        files_of_def parse_screenshots_def screenshot_event_def has_prefix_def sample_lib_def plain_event_def
        time_sub_def path_ext_def slash_def)
  with r b(1) show ?thesis
    by (intro exI [of _ ?b] exI [of _ small_session] exI [of _ ?a] exI [of _ r]) (intro conjI)
qed

end
