(* ===== verification/Recording.thy ===== *)
theory Recording
  imports ServerApi "HOL-Library.List_Lexorder" "HOL-Library.Char_ord"
begin

text \<open>
  \<^verbatim>\<open>internal/api/handlers_recording.go\<close>: recordings and packet captures on demand, screenshots, and the
  files under \<^verbatim>\<open>artifacts\<close>. The recordings in progress are keyed by instance; the handlers on files see
  the artifacts directory, whose listing is in the order of the names. What \<^verbatim>\<open>adb pull\<close> puts there is the
  environment's. A time formatted into a file name is the argument \<open>stamp\<close>; a query parameter that is not
  given is empty; sleeps are left out.
\<close>

record recording =
  rec_pid :: nat
  rec_local :: string
  rec_device :: string
  rec_serial :: string
  rec_started :: time

record recorder =
  rc_dir :: string
  rc_active :: "(string \<times> recording) list"
  rc_files :: artifacts
  rc_elsewhere :: "string \<Rightarrow> (string \<times> art_file) list option"

text \<open>\<open>rc_elsewhere\<close>: the directories outside of \<^verbatim>\<open>artifacts\<close>, by path.\<close>

definition new_recorder ::
  "string \<Rightarrow> artifacts \<Rightarrow> (string \<Rightarrow> (string \<times> art_file) list option) \<Rightarrow> recorder" where
  "new_recorder dir a elsewhere = \<lparr>rc_dir = dir, rc_active = [], rc_files = a, rc_elsewhere = elsewhere\<rparr>"

definition find_device :: "string \<Rightarrow> pool \<Rightarrow> string \<times> string" where
  "find_device ident p =
     (case List.find (\<lambda>s. snap_id s = ident \<or> snap_session s = ident) (st_instances (pool_status_of p)) of
        Some s \<Rightarrow> (snap_serial s, snap_id s)
      | None \<Rightarrow>
          (case get_instance ident p of
             None \<Rightarrow> ([], [])
           | Some i \<Rightarrow> (case inst_device i of None \<Rightarrow> ([], []) | Some d \<Rightarrow> (device_serial d, ident))))"

definition artifacts_dir :: "recorder \<Rightarrow> string \<Rightarrow> string" where
  "artifacts_dir rc k = path_join [rc_dir rc, ''artifacts'', k]"

definition make_dir :: "string \<Rightarrow> artifacts \<Rightarrow> artifacts" where
  "make_dir k a = (case map_of a k of None \<Rightarrow> AList.update k (SessionDir []) a | Some e \<Rightarrow> a)"

definition instance_missing :: response where
  "instance_missing = api_error ''not_found'' (Some ''instance not found'') 404"

subsection \<open>Recordings\<close>

definition recording_start ::
  "adb_client \<Rightarrow> string \<Rightarrow> time \<Rightarrow> pool \<Rightarrow> string \<Rightarrow> recorder \<Rightarrow> (response \<times> recorder) io" where
  "recording_start c stamp now p ident rc =
     (let (serial, k) = find_device ident p
      in if serial = [] then State_Monad.return (instance_missing, rc)
         else if map_of (rc_active rc) k \<noteq> None
         then State_Monad.return (api_error ''already_recording'' (Some ''already recording'') 409, rc)
         else
           (let name = ''rec_'' @ stamp @ ''.mp4'';
                on_device = ''/sdcard/'' @ name;
                rc1 = rc\<lparr>rc_files := make_dir k (rc_files rc)\<rparr>
            in do {
              pid \<leftarrow> start_cmd c (on_dev c serial [''shell'', ''screenrecord'', ''--time-limit'', ''180'', on_device]);
              State_Monad.return (case pid of
                None \<Rightarrow> (api_error ''recording_failed'' None 500, rc1)
              | Some n \<Rightarrow>
                  (ok [(''status'', JStr ''recording''), (''filename'', JStr name)],
                   rc1\<lparr>rc_active := AList.update k \<lparr>rec_pid = n, rec_local = path_join [artifacts_dir rc k, name],
                         rec_device = on_device, rec_serial = serial, rec_started = now\<rparr> (rc_active rc1)\<rparr>)) }))"

text \<open>\<open>dur_text\<close> is \<^verbatim>\<open>Duration.String\<close>. Cancelling the context kills the process.\<close>

definition recording_stop ::
  "adb_client \<Rightarrow> (duration \<Rightarrow> string) \<Rightarrow> time \<Rightarrow> pool \<Rightarrow> string \<Rightarrow> recorder \<Rightarrow> (response \<times> recorder) io" where
  "recording_stop c dur_text now p ident rc =
     (let k = snd (find_device ident p)
      in case map_of (rc_active rc) k of
           None \<Rightarrow> State_Monad.return (api_error ''not_recording'' (Some ''no recording in progress'') 404, rc)
         | Some r \<Rightarrow> do {
             killed \<leftarrow> signal_proc c (rec_pid r) ''SIGKILL'';
             pulled \<leftarrow> adb_pull c (rec_serial r) (rec_device r) (rec_local r);
             out \<leftarrow> adb_shell c (rec_serial r) (''rm '' @ rec_device r);
             State_Monad.return
               (ok [(''status'', JStr ''stopped''), (''duration'', JStr (dur_text (now - rec_started r))),
                    (''file'', JStr (path_base (rec_local r)))],
                rc\<lparr>rc_active := AList.delete k (rc_active rc)\<rparr>) })"

subsection \<open>Files\<close>

datatype file_answer = SendFile string string | Reply response

text \<open>\<^verbatim>\<open>os.ReadDir\<close> of \<^verbatim>\<open>artifacts/<k>\<close>; two dots and the like lead elsewhere.\<close>

definition read_dir :: "string \<Rightarrow> recorder \<Rightarrow> (string \<times> art_file) list option" where
  "read_dir k rc =
     map_option (sort_key fst)
       (if \<not> plain_name k then rc_elsewhere rc (artifacts_dir rc k)
        else (case map_of (rc_files rc) k of Some (SessionDir fs) \<Rightarrow> Some fs | _ \<Rightarrow> None))"

text \<open>The last name with the extension, as the loops over the sorted listing leave it.\<close>

definition latest_with :: "string \<Rightarrow> (string \<times> art_file) list \<Rightarrow> string option" where
  "latest_with ext fs =
     fold (\<lambda>(n, f) latest. if path_ext n = ext then Some n else latest) fs None"

definition owner_dir :: "pool \<Rightarrow> string \<Rightarrow> string" where
  "owner_dir p ident = (let k = snd (find_device ident p) in if k = [] then ident else k)"

definition send_latest :: "string \<Rightarrow> string \<Rightarrow> string \<Rightarrow> pool \<Rightarrow> string \<Rightarrow> recorder \<Rightarrow> file_answer" where
  "send_latest ext ty message p ident rc =
     (let k = owner_dir p ident;
          entries = (case read_dir k rc of None \<Rightarrow> [] | Some fs \<Rightarrow> fs)
      in case latest_with ext entries of
           None \<Rightarrow> Reply (api_error ''not_found'' (Some message) 404)
         | Some n \<Rightarrow> SendFile ty (path_join [artifacts_dir rc k, n]))"

definition recording_download :: "pool \<Rightarrow> string \<Rightarrow> recorder \<Rightarrow> file_answer" where
  "recording_download = send_latest ''.mp4'' ''video/mp4'' ''no recordings''"

definition har_download :: "pool \<Rightarrow> string \<Rightarrow> recorder \<Rightarrow> file_answer" where
  "har_download = send_latest ''.pcap'' ''application/vnd.tcpdump.pcap'' ''no captures''"

definition file_entry :: "(time \<Rightarrow> string) \<Rightarrow> string \<times> art_file \<Rightarrow> (string \<times> json) list" where
  "file_entry fmt = (\<lambda>(n, f). [(''name'', JStr n), (''size'', JInt (int (length (af_data f)))),
     (''time'', JStr (fmt (af_mtime f)))])"

definition recording_list :: "(time \<Rightarrow> string) \<Rightarrow> pool \<Rightarrow> string \<Rightarrow> recorder \<Rightarrow> response" where
  "recording_list fmt p ident rc =
     (let k = owner_dir p ident;
          entries = (case read_dir k rc of None \<Rightarrow> [] | Some fs \<Rightarrow> fs)
      in ok [(''files'', if entries = [] then JNull else JList (map (JObj \<circ> file_entry fmt) entries)),
             (''recording'', JBool (map_of (rc_active rc) k \<noteq> None))])"

subsection \<open>Screenshots and logs\<close>

definition screenshots_refused :: "string \<Rightarrow> broker option \<Rightarrow> bool" where
  "screenshots_refused ident b =
     (case b of None \<Rightarrow> False
      | Some br \<Rightarrow> (case get_session ident br of None \<Rightarrow> False
          | Some s \<Rightarrow> (case sess_caps s of None \<Rightarrow> False | Some caps \<Rightarrow> \<not> capture_screenshots caps)))"

definition screenshot ::
  "adb_client \<Rightarrow> string \<Rightarrow> time \<Rightarrow> broker option \<Rightarrow> pool \<Rightarrow> string \<Rightarrow> recorder \<Rightarrow> (response \<times> recorder) io" where
  "screenshot c stamp now b p ident rc =
     (if screenshots_refused ident b then State_Monad.return
        (api_error ''capability_disabled'' (Some ''session was created with capture_screenshots=false'') 403, rc)
      else
        (let serial = fst (find_device ident p)
         in if serial = [] then State_Monad.return (instance_missing, rc)
            else do {
              png \<leftarrow> adb_screencap c serial;
              State_Monad.return (case png of
                None \<Rightarrow> (api_error ''screenshot_failed'' None 500, rc)
              | Some data \<Rightarrow>
                  (\<lparr>rs_status = 200, rs_body = Raw ''image/png'' data, rs_removed = []\<rparr>,
                   rc\<lparr>rc_files := write_session_file now ident (''screenshot_'' @ stamp @ ''.png'') data
                         (rc_files rc)\<rparr>)) }))"

definition get_logcat :: "string \<Rightarrow> handler" where
  "get_logcat wanted c p ident =
     (let serial = fst (find_device ident p)
      in if serial = [] then State_Monad.return instance_missing
         else do {
           out \<leftarrow> adb_shell c serial (''logcat -d -t '' @ (if wanted = [] then ''500'' else wanted));
           State_Monad.return (case out of
             None \<Rightarrow> api_error ''logcat_failed'' None 500
           | Some t \<Rightarrow> \<lparr>rs_status = 200, rs_body = Raw ''text/plain'' t, rs_removed = []\<rparr>) })"

subsection \<open>Packet captures\<close>

definition har_start :: "adb_client \<Rightarrow> pool \<Rightarrow> string \<Rightarrow> recorder \<Rightarrow> (response \<times> recorder) io" where
  "har_start c p ident rc =
     (let (serial, k) = find_device ident p
      in if serial = [] then State_Monad.return (instance_missing, rc)
         else do {
           out \<leftarrow> adb_shell c serial ''nohup tcpdump -i any -w /sdcard/capture.pcap &'';
           State_Monad.return (ok [(''status'', JStr ''capturing'')],
             rc\<lparr>rc_files := make_dir k (rc_files rc)\<rparr>) })"

definition har_stop :: "adb_client \<Rightarrow> string \<Rightarrow> pool \<Rightarrow> string \<Rightarrow> recorder \<Rightarrow> response io" where
  "har_stop c stamp p ident rc =
     (let (serial, k) = find_device ident p; name = ''capture_'' @ stamp @ ''.pcap''
      in if serial = [] then State_Monad.return instance_missing
         else do {
           out \<leftarrow> adb_shell c serial ''pkill tcpdump'';
           pulled \<leftarrow> adb_pull c serial ''/sdcard/capture.pcap'' (path_join [artifacts_dir rc k, name]);
           gone \<leftarrow> adb_shell c serial ''rm /sdcard/capture.pcap'';
           State_Monad.return (ok [(''status'', JStr ''stopped''), (''file'', JStr name)]) })"

subsection \<open>Permanent addresses of artifacts\<close>

text \<open>\<^verbatim>\<open>http.ServeFile\<close> refuses a request whose URL has a segment of two dots; the URL is without
  escapes here. The data directory is absolute.\<close>

definition has_dot_dot :: "string \<Rightarrow> bool" where
  "has_dot_dot url \<longleftrightarrow> ''..'' \<in> set (concat (map (split_on (CHR 0x5C)) (split_on slash url)))"

definition serve_file :: "string \<Rightarrow> string \<Rightarrow> file_answer" where
  "serve_file url path =
     (if has_dot_dot url then Reply \<lparr>rs_status = 400, rs_body = Raw ''text/plain; charset=utf-8'' ''invalid URL path'',
                                      rs_removed = []\<rparr>
      else SendFile [] path)"

definition artifact_url :: "string \<Rightarrow> string \<Rightarrow> string" where
  "artifact_url ident file = ''/api/v1/artifacts/'' @ ident @ ''/'' @ file"

definition serve_permanent :: "(time \<Rightarrow> string) \<Rightarrow> string \<Rightarrow> string \<Rightarrow> recorder \<Rightarrow> file_answer" where
  "serve_permanent fmt ident file rc =
     (if file = [] then
        (case read_dir ident rc of
           None \<Rightarrow> Reply (api_error ''not_found'' (Some ''no artifacts'') 404)
         | Some fs \<Rightarrow> Reply (ok [(''artifacts'', if fs = [] then JNull else
             JList (map (\<lambda>(n, f). JObj (file_entry fmt (n, f) @ [(''url'', JStr (artifact_url ident n))])) fs))]))
      else
        (let full = path_join [rc_dir rc, ''artifacts'', ident, file];
             parent = artifacts_dir rc ident
         in if \<not> has_prefix full parent then Reply (api_error ''forbidden'' (Some ''invalid path'') 403)
            else serve_file (artifact_url ident file) full))"

subsection \<open>Properties\<close>

lemma delete_update_new: "map_of m k = None \<Longrightarrow> AList.delete k (AList.update k v m) = m"
proof (induction m)
  case (Cons x m)
  then have "fst x \<noteq> k" "map_of m k = None" by (auto split: if_splits)
  with Cons.IH show ?case by (cases x) (simp add: AList.delete_eq)
qed (simp add: AList.delete_eq)

lemma recording_start_result:
  assumes "find_device ident p = (serial, k)" and "serial \<noteq> []" and "map_of (rc_active rc) k = None"
    and "run_state (recording_start c stamp now p ident rc) h = ((r, rc1), h1)" and "rs_status r = 200"
  shows "\<exists>n. start_oracle c h (on_dev c serial [''shell'', ''screenrecord'', ''--time-limit'', ''180'',
      ''/sdcard/rec_'' @ stamp @ ''.mp4'']) = Some n \<and>
    rc1 = rc\<lparr>rc_files := make_dir k (rc_files rc),
      rc_active := AList.update k \<lparr>rec_pid = n, rec_local = path_join [artifacts_dir rc k, ''rec_'' @ stamp @ ''.mp4''],
        rec_device = ''/sdcard/rec_'' @ stamp @ ''.mp4'', rec_serial = serial, rec_started = now\<rparr> (rc_active rc)\<rparr>"
  using assms by (auto simp: recording_start_def Let_def api_error_def split: option.splits)

text \<open>A recording belongs to the device, not to the session. Once started it is the only one of its
  instance: another start there, by whatever id, is refused without a command. Stopping it under any id
  that then leads to the instance kills the process, pulls the file and removes it from the device it was
  started on, whatever happened to the pool, and leaves no trace in the list. But the id of a session
  that has ended leads nowhere: the recording cannot be stopped under it, stays listed, and the next
  session on that device cannot record.\<close>

theorem recordings_by_instance:
  assumes "find_device ident p = (serial, k)" and "serial \<noteq> []" and "map_of (rc_active rc) k = None"
    and "map_of (rc_active rc) [] = None" and "k \<noteq> []"
    and "run_state (recording_start c stamp now p ident rc) h = ((r, rc1), h1)" and "rs_status r = 200"
  shows "(find_device other q = (serial', k) \<longrightarrow> serial' \<noteq> [] \<longrightarrow>
      run_state (recording_start c stamp' now' q other rc1) g =
        ((api_error ''already_recording'' (Some ''already recording'') 409, rc1), g)) \<and>
    (snd (find_device other q) = k \<longrightarrow>
      (\<exists>pid rc2. run_state (recording_stop c dt now' q other rc1) g =
         ((ok [(''status'', JStr ''stopped''), (''duration'', JStr (dt (now' - now))),
               (''file'', JStr (path_base (path_join [artifacts_dir rc k, ''rec_'' @ stamp @ ''.mp4''])))], rc2),
          g @ [[''kill'', ''SIGKILL'', itoa_nat pid],
               on_dev c serial [''pull'', ''/sdcard/rec_'' @ stamp @ ''.mp4'',
                 path_join [artifacts_dir rc k, ''rec_'' @ stamp @ ''.mp4'']],
               on_dev c serial [''shell'', ''rm /sdcard/rec_'' @ stamp @ ''.mp4'']]) \<and>
         rc_active rc2 = rc_active rc)) \<and>
    (find_device ident q = ([], []) \<longrightarrow>
      run_state (recording_stop c dt now' q ident rc1) g =
        ((api_error ''not_recording'' (Some ''no recording in progress'') 404, rc1), g))"
proof -
  from recording_start_result [OF assms(1,2,3,6,7)] obtain n where
    rc1: "rc1 = rc\<lparr>rc_files := make_dir k (rc_files rc),
      rc_active := AList.update k \<lparr>rec_pid = n, rec_local = path_join [artifacts_dir rc k, ''rec_'' @ stamp @ ''.mp4''],
        rec_device = ''/sdcard/rec_'' @ stamp @ ''.mp4'', rec_serial = serial, rec_started = now\<rparr> (rc_active rc)\<rparr>"
    by blast
  have a: "map_of (rc_active rc1) k \<noteq> None" "map_of (rc_active rc1) [] = None"
    using assms(4,5) by (simp_all add: rc1 update_conv')
  show ?thesis
    using a by (intro conjI impI) (auto simp: recording_start_def recording_stop_def Let_def rc1 update_conv'
        delete_update_new [OF assms(3)] adb_pull_def adb_shell_def)
qed

definition phone_of :: "string \<Rightarrow> pool" where
  "phone_of sid = one_pool StateAllocated sid (Usb (new_usb_device ''R58''))"

lemma find_phone:
  "find_device ''a'' (phone_of sid) = (''R58'', ''a'')" "find_device sid (phone_of sid) = (''R58'', ''a'')"
  "ident \<noteq> ''a'' \<Longrightarrow> ident \<noteq> sid \<Longrightarrow> find_device ident (phone_of sid) = ([], [])"
  by (simp_all add: find_device_def phone_of_def one_pool_def pool_status_of_def Let_def instance_snapshot_of_def
      one_instance_def new_instance_def new_usb_device_def get_instance_def)

theorem recordings_by_instance_witness:
  "\<exists>c rc r rc1 h1. run_state (recording_start c ''t0'' 5 (phone_of ''s'') ''s'' rc) [] = ((r, rc1), h1) \<and> rs_status r = 200 \<and>
     run_state (recording_stop c itoa 9 (phone_of ''u'') ''s'' rc1) h1 =
       ((api_error ''not_recording'' (Some ''no recording in progress'') 404, rc1), h1) \<and>
     run_state (recording_start c ''t1'' 9 (phone_of ''u'') ''u'' rc1) h1 =
       ((api_error ''already_recording'' (Some ''already recording'') 409, rc1), h1)"
proof -
  let ?c = "quiet_client\<lparr>start_oracle := \<lambda>h cmd. Some 7\<rparr>"
  let ?rc = "new_recorder ''/d'' [] (\<lambda>p. None)"
  obtain r rc1 h1 where st: "run_state (recording_start ?c ''t0'' 5 (phone_of ''s'') ''s'' ?rc) [] = ((r, rc1), h1)"
    by (metis surj_pair)
  have "rs_status r = 200"
    using st by (simp add: recording_start_def find_phone(2) new_recorder_def ok_def json_response_def Let_def) auto
  note t = recordings_by_instance [where k = "''a''" and serial = "''R58''", OF find_phone(2) _ _ _ _ st this]
  have e: "map_of (rc_active ?rc) k = None" for k by (simp add: new_recorder_def)
  have "find_device ''u'' (phone_of ''u'') = (''R58'', ''a'')" "find_device ''s'' (phone_of ''u'') = ([], [])"
    using find_phone(2) [of "''u''"] find_phone(3) [of "''s''" "''u''"] by simp_all
  with t [where q = "phone_of ''u''" and other = "''u''" and serial' = "''R58''" and stamp' = "''t1''" and now' = 9 and
      dt = itoa and g = h1] e st \<open>rs_status r = 200\<close> show ?thesis
    by (intro exI [of _ ?c] exI [of _ ?rc] exI [of _ r] exI [of _ rc1] exI [of _ h1]) simp
qed

subsection \<open>What permanent addresses reach\<close>

lemma split_on_no_sep: "w \<in> set (split_on c s) \<Longrightarrow> c \<notin> set w"
  by (induction c s arbitrary: w rule: split_on.induct) (auto split: if_splits list.splits)

lemma join_with_append: "us \<noteq> [] \<Longrightarrow> vs \<noteq> [] \<Longrightarrow>
    join_with sep (us @ vs) = join_with sep us @ sep @ join_with sep vs"
  by (induction us rule: induct_list012; cases vs) auto

lemma join_split_on: "join_with [c] (split_on c s) = s"
proof (induction s)
  case (Cons x s)
  obtain w ws where "split_on c s = w # ws" by (cases "split_on c s") auto
  with Cons show ?case by (cases ws) auto
qed simp

lemma path_join_split:
  assumes "us \<noteq> []" and "hd us \<noteq> []"
  shows "path_join (us @ [file]) = path_join (us @ split_on slash file)"
proof -
  from assms obtain u us' where us: "us = u # us'" "u \<noteq> []" by (cases us) auto
  have "join_with [slash] (us @ [file]) = join_with [slash] (us @ split_on slash file)"
    using assms(1) by (simp add: join_with_append join_split_on)
  then show ?thesis by (simp add: path_join_def us)
qed

lemma clean_comps_no_dots:
  "''..'' \<notin> set vs \<Longrightarrow> clean_comps r vs = filter (\<lambda>w. w \<noteq> [] \<and> w \<noteq> ''.'') vs"
proof -
  assume v: "''..'' \<notin> set vs"
  have "foldl (clean_push r) st vs = rev (filter (\<lambda>w. w \<noteq> [] \<and> w \<noteq> ''.'') vs) @ st" for st
    using v by (induction vs arbitrary: st) auto
  then show ?thesis by (simp add: clean_comps_def)
qed

lemma dot_dot_segment: "''..'' \<in> set (split_on slash url) \<Longrightarrow> has_dot_dot url"
  by (force simp: has_dot_dot_def)

text \<open>Whatever segments and dots a client puts into a permanent address, the file that is sent lies
  under \<^verbatim>\<open>artifacts\<close>, and in the directory of the session in the address when that is a name at all. It is
  \<^verbatim>\<open>http.ServeFile\<close> that sees to it: the prefix that the handler compares has no separator at its end, so
  it alone would let \<^verbatim>\<open>ab\<close> read the directory \<^verbatim>\<open>abc\<close>. A listing passes neither: with two dots it shows the
  data directory.\<close>

theorem permanent_addresses_confined:
  assumes "ws \<noteq> []" and "list_all plain_name ws" and "rc_dir rc = abs_path ws"
    and "slash \<notin> set ident" and "ident \<noteq> []" and "file \<noteq> []"
    and "serve_permanent fmt ident file rc = SendFile ty path"
  shows "(\<exists>vs. path = abs_path (ws @ ''artifacts'' # vs) \<and> list_all plain_name vs \<and>
       (plain_name ident \<longrightarrow> (\<exists>us. vs = ident # us))) \<and>
    has_prefix (path_join [rc_dir rc, ''artifacts'', ''ab'', ''../abc/x'']) (artifacts_dir rc ''ab'') \<and>
    (\<forall>fs. rc_elsewhere rc (rc_dir rc) = Some fs \<longrightarrow> fs \<noteq> [] \<longrightarrow>
       serve_permanent fmt ''..'' [] rc = Reply (ok [(''artifacts'',
         JList (map (\<lambda>(n, f). JObj (file_entry fmt (n, f) @ [(''url'', JStr (artifact_url ''..'' n))]))
           (sort_key fst fs)))]))"
proof (intro conjI allI impI)
  let ?url = "artifact_url ident file" and ?vs = "''artifacts'' # ident # split_on slash file"
  let ?keep = "\<lambda>w. w \<noteq> [] \<and> w \<noteq> ''.''"
  from assms(6,7) have p: "path = path_join [rc_dir rc, ''artifacts'', ident, file]" "\<not> has_dot_dot ?url"
    by (simp_all add: serve_permanent_def serve_file_def Let_def split: if_splits)
  have "split_on slash ?url = split_on slash ''/api/v1/artifacts'' @ split_on slash ident @ split_on slash file"
    using split_on_append_sep [of slash "''/api/v1/artifacts''" "ident @ slash # file"]
      split_on_append_sep [of slash ident "file"] by (simp add: artifact_url_def slash_def)
  with p(2) dot_dot_segment have dd: "''..'' \<notin> set (split_on slash ident)" "''..'' \<notin> set (split_on slash file)"
    by auto
  then have i: "ident \<noteq> ''..''" using assms(4) by (auto simp: split_on_none slash_def)
  have sl: "list_all (\<lambda>v. slash \<notin> set v) ?vs"
    using assms(4) split_on_no_sep by (auto simp: list_all_iff slash_def)
  have "path = path_join (abs_path ws # ?vs)"
    using path_join_split [of "[abs_path ws, ''artifacts'', ident]" "file"] by (simp add: p(1) assms(3) abs_path_def)
  also have "\<dots> = abs_path (clean_comps True (ws @ ?vs))" by (rule path_join_comps [OF assms(1,2) sl])
  also have "clean_comps True (ws @ ?vs) = filter ?keep (ws @ ?vs)"
    using assms(2) dd(2) i by (intro clean_comps_no_dots) (auto simp: list_all_iff plain_name_def)
  also have "\<dots> = ws @ ''artifacts'' # filter ?keep (ident # split_on slash file)"
    using assms(2) by (simp add: list_all_iff plain_name_def filter_id_conv)
  finally have path: "path = abs_path (ws @ ''artifacts'' # filter ?keep (ident # split_on slash file))" .
  moreover have "list_all plain_name (filter ?keep (ident # split_on slash file))"
    using assms(4) i dd(2) split_on_no_sep by (auto simp: list_all_iff plain_name_def)
  moreover have "plain_name ident \<Longrightarrow> \<exists>us. filter ?keep (ident # split_on slash file) = ident # us"
    by (simp add: plain_name_def)
  ultimately show "\<exists>vs. path = abs_path (ws @ ''artifacts'' # vs) \<and> list_all plain_name vs \<and>
      (plain_name ident \<longrightarrow> (\<exists>us. vs = ident # us))" by blast
  have under: "path_join (abs_path ws # vs') = abs_path (rev (foldl (clean_push True) (rev ws) vs'))"
    if "list_all (\<lambda>v. slash \<notin> set v) vs'" for vs'
    by (simp add: path_join_comps [OF assms(1,2) that] clean_comps_append [OF assms(2)])
  have "path_join [rc_dir rc, ''artifacts'', ''ab'', ''../abc/x''] =
      path_join (abs_path ws # [''artifacts'', ''ab'', ''..'', ''abc'', ''x''])"
    using path_join_split [of "[abs_path ws, ''artifacts'', ''ab'']" "''../abc/x''"]
    by (simp add: assms(3) abs_path_def slash_def)
  also have "\<dots> = abs_path (ws @ [''artifacts'', ''abc'', ''x''])"
    by (subst under) (simp_all add: slash_def)
  finally have child: "path_join [rc_dir rc, ''artifacts'', ''ab'', ''../abc/x''] =
      abs_path (ws @ [''artifacts'', ''abc'', ''x''])" .
  have "artifacts_dir rc ''ab'' = abs_path (ws @ [''artifacts'', ''ab''])"
    unfolding artifacts_dir_def assms(3) by (subst under) (simp_all add: slash_def)
  then show "has_prefix (path_join [rc_dir rc, ''artifacts'', ''ab'', ''../abc/x'']) (artifacts_dir rc ''ab'')"
    using assms(1) by (simp add: child abs_path_def join_with_append has_prefix_def)
  fix fs :: "(string \<times> art_file) list" assume fs: "rc_elsewhere rc (rc_dir rc) = Some fs" "fs \<noteq> []"
  have "artifacts_dir rc ''..'' = rc_dir rc"
    unfolding artifacts_dir_def assms(3) by (subst under) (simp_all add: slash_def)
  moreover have "sort_key fst fs \<noteq> []" using fs(2) by (metis length_0_conv length_sort)
  ultimately show "serve_permanent fmt ''..'' [] rc = Reply (ok [(''artifacts'',
         JList (map (\<lambda>(n, f). JObj (file_entry fmt (n, f) @ [(''url'', JStr (artifact_url ''..'' n))]))
           (sort_key fst fs)))])"
    using fs(1) by (simp add: serve_permanent_def read_dir_def plain_name_def)
qed

theorem permanent_addresses_confined_witness:
  "\<exists>rc path vs. serve_permanent itoa ''s1'' ''a//b.mp4'' rc = SendFile [] path \<and>
     path = abs_path ([''d''] @ ''artifacts'' # vs) \<and> list_all plain_name vs \<and> (\<exists>us. vs = ''s1'' # us)"
proof -
  let ?rc = "new_recorder (abs_path [''d'']) [] (\<lambda>p. None)"
  obtain path where p: "serve_permanent itoa ''s1'' ''a//b.mp4'' ?rc = SendFile [] path"
    by (simp add: serve_permanent_def serve_file_def Let_def artifacts_dir_def new_recorder_def path_join_def
        path_clean_def clean_comps_def has_prefix_def abs_path_def slash_def has_dot_dot_def artifact_url_def)
  have c: "[''d''] \<noteq> []" "list_all plain_name [''d'']" "rc_dir ?rc = abs_path [''d'']" "slash \<notin> set ''s1''"
    "''s1'' \<noteq> []" "''a//b.mp4'' \<noteq> []" "plain_name ''s1''"
    by (simp_all add: plain_name_def new_recorder_def slash_def)
  from permanent_addresses_confined [OF c(1-6) p] c(7) obtain vs where
    "path = abs_path ([''d''] @ ''artifacts'' # vs)" "list_all plain_name vs" "\<exists>us. vs = ''s1'' # us" by blast
  with p show ?thesis by blast
qed

end
