(* ===== verification/Hub.thy ===== *)
theory Hub
  imports FarmProps ServerApi "HOL-Library.Word"
begin

text \<open>
  \<^verbatim>\<open>internal/api/handlers_appium.go\<close>: the WebDriver hub under \<^verbatim>\<open>/wd/hub\<close>. It creates a session from the
  capabilities of a client, forwards the rest of them to the Appium server of that session, and from then
  on relays requests to it under the id that Appium gave. Between a request to Appium and its answer
  anything can happen to the broker, so the handlers are split there; \<open>hub_create\<close> is the composition one
  caller sees. What Appium answers, what decoding JSON gives and the truncation of a float are functions
  of the environment. \<^verbatim>\<open>strings.EqualFold\<close> is on ASCII. Error texts of other parts are not kept.
\<close>

subsection \<open>Capabilities\<close>

type_synonym caps = "(string \<times> json) list"

text \<open>A decoded JSON object: the last of equal keys counts.\<close>

fun obj_get :: "string \<Rightarrow> json \<Rightarrow> json option" where
  "obj_get k (JObj kvs) = map_of (rev kvs) k"
| "obj_get k _ = None"

record wd_request =
  wd_always :: caps
  wd_first :: "caps list"
  wd_desired :: "caps option"

definition pick_caps :: "wd_request \<Rightarrow> caps" where
  "pick_caps req = (if wd_always req \<noteq> [] then wd_always req
     else case wd_desired req of Some d \<Rightarrow> d | None \<Rightarrow> [])"

fun as_string :: "json \<Rightarrow> string" where
  "as_string (JStr s) = s" | "as_string _ = []"

fun as_bool :: "json \<Rightarrow> bool" where
  "as_bool (JBool b) = b"
| "as_bool (JStr s) = (lower_ascii s = ''true'' \<or> s = ''1'')"
| "as_bool _ = False"

text \<open>\<^verbatim>\<open>fmt.Sscanf(n, "%d", &out)\<close>: blanks, a sign, digits; what follows is not looked at.\<close>

definition scan_int :: "string \<Rightarrow> int" where
  "scan_int s =
     (let t = dropWhile (\<lambda>c. is_space c \<and> c \<noteq> nl) s;
          sign = takeWhile (\<lambda>c. c = CHR ''-'' \<or> c = CHR ''+'') (take 1 t);
          num = takeWhile (\<lambda>c. digit_val c \<noteq> None) (drop (length sign) t)
      in case atoi (sign @ num) of None \<Rightarrow> 0 | Some n \<Rightarrow> n)"

fun as_int :: "(go_float \<Rightarrow> int) \<Rightarrow> json \<Rightarrow> int" where
  "as_int trunc (JInt n) = n"
| "as_int trunc (JFloat x) = trunc x"
| "as_int trunc (JStr s) = scan_int s"
| "as_int trunc _ = 0"

definition hub_request :: create_request where
  "hub_request = \<lparr>rq_platform = [], rq_profile = [], rq_client_id = [], rq_client_name = [],
     rq_source = ''appium-compat'', rq_labels = [], rq_timeout_min = 0, rq_device_id = [], rq_avd_name = [],
     rq_caps = Some \<lparr>record_video = False, capture_logcat = False, capture_screenshots = True,
                     capture_network = False, retention_hours = 0\<rparr>\<rparr>"

definition on_caps :: "(session_capabilities \<Rightarrow> session_capabilities) \<Rightarrow> create_request \<Rightarrow> create_request" where
  "on_caps f r = r\<lparr>rq_caps := map_option f (rq_caps r)\<rparr>"

definition set_drizz_cap :: "(go_float \<Rightarrow> int) \<Rightarrow> string \<Rightarrow> json \<Rightarrow> create_request \<Rightarrow> create_request" where
  "set_drizz_cap trunc name v r =
     (if name = ''profile'' then r\<lparr>rq_profile := as_string v\<rparr>
      else if name = ''device_id'' then r\<lparr>rq_device_id := as_string v\<rparr>
      else if name = ''avd_name'' then r\<lparr>rq_avd_name := as_string v\<rparr>
      else if name = ''timeout_minutes'' then r\<lparr>rq_timeout_min := as_int trunc v\<rparr>
      else if name = ''record_video'' then on_caps (\<lambda>c. c\<lparr>record_video := as_bool v\<rparr>) r
      else if name = ''capture_logcat'' then on_caps (\<lambda>c. c\<lparr>capture_logcat := as_bool v\<rparr>) r
      else if name = ''capture_screenshots'' then on_caps (\<lambda>c. c\<lparr>capture_screenshots := as_bool v\<rparr>) r
      else if name = ''capture_network'' then on_caps (\<lambda>c. c\<lparr>capture_network := as_bool v\<rparr>) r
      else if name = ''retention_hours'' then on_caps (\<lambda>c. c\<lparr>retention_hours := as_int trunc v\<rparr>) r
      else r)"

definition drizz_name :: "string \<Rightarrow> string option" where
  "drizz_name k = (if has_prefix k ''drizz:'' then Some (drop 6 k) else None)"

definition cap_step :: "(go_float \<Rightarrow> int) \<Rightarrow> string \<times> json \<Rightarrow> create_request \<Rightarrow> create_request" where
  "cap_step trunc = (\<lambda>(k, v) r. case drizz_name k of None \<Rightarrow> r | Some n \<Rightarrow> set_drizz_cap trunc n v r)"

text \<open>The loop over the map of capabilities, in the order of the list.\<close>

definition extract_drizz_caps :: "(go_float \<Rightarrow> int) \<Rightarrow> caps \<Rightarrow> create_request \<times> caps" where
  "extract_drizz_caps trunc caps =
     (let r = fold (cap_step trunc) caps hub_request;
          clean = filter (\<lambda>(k, v). drizz_name k = None) caps;
          ios = (case map_of clean ''platformName'' of Some (JStr s) \<Rightarrow> lower_ascii s = ''ios'' | _ \<Rightarrow> False)
      in (if rq_profile r = [] \<and> rq_device_id r = [] \<and> rq_avd_name r = []
          then r\<lparr>rq_platform := (if ios then ''ios'' else ''android'')\<rparr> else r, clean))"

subsection \<open>Driver ports\<close>

record session_ports =
  system_port :: int
  chromedriver_port :: int
  mjpeg_port :: int

definition sid_hash :: "string \<Rightarrow> 32 word" where
  "sid_hash sid = foldl (\<lambda>h ch. h * 31 + of_nat (of_char ch)) 0 sid"

definition derive_ports :: "string \<Rightarrow> session_ports" where
  "derive_ports sid =
     (let h = sid_hash sid
      in \<lparr>system_port = 8200 + uint (h mod 100), chromedriver_port = 9515 + uint (h div 100 mod 100),
          mjpeg_port = 7810 + uint (h div 10000 mod 100)\<rparr>)"

definition add_cap :: "string \<Rightarrow> int \<Rightarrow> caps \<Rightarrow> caps" where
  "add_cap k n caps = (if map_of caps k = None then caps @ [(k, JInt n)] else caps)"

definition with_driver_ports :: "string \<Rightarrow> caps \<Rightarrow> caps" where
  "with_driver_ports sid caps =
     (let ps = derive_ports sid
      in add_cap ''appium:mjpegServerPort'' (mjpeg_port ps)
           (add_cap ''appium:chromedriverPort'' (chromedriver_port ps)
             (add_cap ''appium:systemPort'' (system_port ps) caps)))"

subsection \<open>The hub\<close>

record hub =
  hub_sids :: "(string \<times> string) list"

definition new_hub :: hub where "new_hub = \<lparr>hub_sids = []\<rparr>"

datatype wd_body = WdError string | Relayed string | WdJson json

type_synonym wd_reply = "int \<times> wd_body"

definition wd_error :: "int \<Rightarrow> string \<Rightarrow> wd_reply" where
  "wd_error st message = (st, WdError message)"

text \<open>A request to Appium: method, URL and body. The answer is its status and body, or none.\<close>

datatype payload = NewSession caps | Stream string

record hub_env =
  hx_broker :: broker_env
  hx_upstream :: "string \<Rightarrow> string \<Rightarrow> payload \<Rightarrow> (int \<times> string) option"
  hx_decode :: "string \<Rightarrow> json option"
  hx_trunc :: "go_float \<Rightarrow> int"

definition hub_status :: json where
  "hub_status = JObj [(''value'', JObj [(''ready'', JBool True), (''message'', JStr ''drizz-farm Appium-compat ready''),
     (''build'', JObj [(''version'', JStr ''0.1.22'')])])]"

definition hub_sessions :: "hub \<Rightarrow> json" where
  "hub_sessions hb = JObj [(''value'', JList (map (\<lambda>(a, d). JObj [(''id'', JStr a), (''drizz_id'', JStr d),
     (''capabilities'', JObj [])]) (hub_sids hb)))]"

definition drizz_session_id :: "string \<Rightarrow> hub \<Rightarrow> wd_reply" where
  "drizz_session_id sid hb =
     (case map_of (hub_sids hb) sid of
        None \<Rightarrow> wd_error 404 ''unknown appium session id''
      | Some d \<Rightarrow> (200, WdJson (JObj [(''appium_session_id'', JStr sid), (''drizz_session_id'', JStr d)])))"

text \<open>A field that is not there is the empty string; one of another type is an error of the decoder.\<close>

definition string_field :: "json option \<Rightarrow> string option" where
  "string_field v = (case v of None \<Rightarrow> Some [] | Some JNull \<Rightarrow> Some [] | Some (JStr s) \<Rightarrow> Some s | _ \<Rightarrow> None)"

definition w3c_session_id :: "json \<Rightarrow> string option" where
  "w3c_session_id j =
     (case j of
        JNull \<Rightarrow> Some []
      | JObj kvs \<Rightarrow> (case obj_get ''value'' j of
            None \<Rightarrow> Some [] | Some JNull \<Rightarrow> Some []
          | Some (JObj vs) \<Rightarrow> string_field (obj_get ''sessionId'' (JObj vs))
          | _ \<Rightarrow> None)
      | _ \<Rightarrow> None)"

definition wd_session_id :: "json option \<Rightarrow> string" where
  "wd_session_id body =
     (case body of
        None \<Rightarrow> []
      | Some j \<Rightarrow>
          (case w3c_session_id j of
             Some (ch # s) \<Rightarrow> ch # s
           | _ \<Rightarrow> (case j of
                 JObj kvs \<Rightarrow> (case string_field (obj_get ''sessionId'' j) of Some s \<Rightarrow> s | None \<Rightarrow> [])
               | _ \<Rightarrow> [])))"

definition proxy_base :: "session \<Rightarrow> string" where
  "proxy_base s = trim_right_slash
     (if conn_appium_local (sess_conn s) = [] then conn_appium_url (sess_conn s)
      else conn_appium_local (sess_conn s))"

definition drop_session :: "broker_env \<Rightarrow> session \<Rightarrow> broker \<Rightarrow> broker" where
  "drop_session env s b = snd (broker_release env (sess_id s) b)"

text \<open>After the request to Appium; \<open>resp\<close> is what came back.\<close>

definition hub_answer ::
  "hub_env \<Rightarrow> session \<Rightarrow> (int \<times> string) option \<Rightarrow> hub \<Rightarrow> broker \<Rightarrow> wd_reply \<times> hub \<times> broker" where
  "hub_answer env s resp hb b =
     (case resp of
        None \<Rightarrow> (wd_error 502 ''appium upstream'', hb, drop_session (hx_broker env) s b)
      | Some (st, body) \<Rightarrow>
          if st < 200 \<or> 300 \<le> st then ((st, Relayed body), hb, drop_session (hx_broker env) s b)
          else (let sid = wd_session_id (hx_decode env body)
                in if sid = [] then (wd_error 500 ''appium returned no sessionId'', hb, drop_session (hx_broker env) s b)
                   else ((st, Relayed body), hb\<lparr>hub_sids := AList.update sid (sess_id s) (hub_sids hb)\<rparr>, b)))"

definition hub_session ::
  "hub_env \<Rightarrow> caps \<Rightarrow> session \<Rightarrow> hub \<Rightarrow> broker \<Rightarrow> wd_reply \<times> hub \<times> broker" where
  "hub_session env clean s hb b =
     (if conn_appium_url (sess_conn s) = []
      then (wd_error 500 ''drizz session has no appium_url'', hb, drop_session (hx_broker env) s b)
      else hub_answer env s (hx_upstream env ''POST'' (proxy_base s @ ''/session'')
             (NewSession (with_driver_ports (sess_id s) clean))) hb b)"

definition hub_create ::
  "hub_env \<Rightarrow> wd_request option \<Rightarrow> hub \<Rightarrow> broker \<Rightarrow> wd_reply option \<times> hub \<times> broker" where
  "hub_create env body hb b =
     (case body of
        None \<Rightarrow> (Some (wd_error 400 ''invalid session body''), hb, b)
      | Some req \<Rightarrow>
          (let (dreq, clean) = extract_drizz_caps (hx_trunc env) (pick_caps req)
           in case broker_create (hx_broker env) dreq b of
                (Failed e, b1) \<Rightarrow> (Some (wd_error 500 ''drizz allocate''), hb, b1)
              | (Created s, b1) \<Rightarrow> (case hub_session env clean s hb b1 of (r, h1, b2) \<Rightarrow> (Some r, h1, b2))
              | (Waiting t, b1) \<Rightarrow> (None, hb, b1)
              | (Hanging, b1) \<Rightarrow> (None, hb, b1)))"

subsection \<open>Relaying\<close>

record wd_call =
  wc_method :: string
  wc_path :: string
  wc_query :: string
  wc_body :: string

definition upstream_path :: "string \<Rightarrow> string" where
  "upstream_path path = (let p = trim_prefix path ''/wd/hub'' in if p = [] then [slash] else p)"

text \<open>Where a request for the Appium session \<open>sid\<close> goes, with the session it belongs to.\<close>

definition proxy_target :: "string \<Rightarrow> wd_call \<Rightarrow> hub \<Rightarrow> broker \<Rightarrow> wd_reply + (string \<times> string)" where
  "proxy_target sid call hb b =
     (case map_of (hub_sids hb) sid of
        None \<Rightarrow> Inl (wd_error 404 (''unknown session '' @ sid))
      | Some d \<Rightarrow>
          (case get_session d b of
             None \<Rightarrow> Inl (wd_error 404 (''session has no appium url: '' @ sid))
           | Some s \<Rightarrow>
               if conn_appium_url (sess_conn s) = []
               then Inl (wd_error 404 (''session has no appium url: '' @ sid))
               else Inr (d, proxy_base s @ upstream_path (wc_path call) @
                          (if wc_query call = [] then [] else CHR ''?'' # wc_query call))))"

definition is_session_delete :: "string \<Rightarrow> wd_call \<Rightarrow> bool" where
  "is_session_delete sid call \<longleftrightarrow> wc_method call = ''DELETE'' \<and>
     trim_right_slash (upstream_path (wc_path call)) = ''/session/'' @ sid"

definition proxy_answer ::
  "hub_env \<Rightarrow> string \<Rightarrow> wd_call \<Rightarrow> string \<Rightarrow> (int \<times> string) option \<Rightarrow> hub \<Rightarrow> broker \<Rightarrow> wd_reply \<times> hub \<times> broker" where
  "proxy_answer env sid call d resp hb b =
     (case resp of
        None \<Rightarrow> (wd_error 502 ''appium upstream'', hb, b)
      | Some (st, body) \<Rightarrow>
          if is_session_delete sid call
          then ((st, Relayed body), hb\<lparr>hub_sids := AList.delete sid (hub_sids hb)\<rparr>,
                snd (broker_release (hx_broker env) d b))
          else ((st, Relayed body), hb, b))"

definition hub_proxy :: "hub_env \<Rightarrow> string \<Rightarrow> wd_call \<Rightarrow> hub \<Rightarrow> broker \<Rightarrow> wd_reply \<times> hub \<times> broker" where
  "hub_proxy env sid call hb b =
     (case proxy_target sid call hb b of
        Inl r \<Rightarrow> (r, hb, b)
      | Inr (d, url) \<Rightarrow>
          proxy_answer env sid call d (hx_upstream env (wc_method call) url (Stream (wc_body call))) hb b)"

subsection \<open>Reading capabilities\<close>

text \<open>The specification: each field from its own capability, whatever the order of the map.\<close>

definition drizz_cap :: "(json \<Rightarrow> 'a) \<Rightarrow> 'a \<Rightarrow> string \<Rightarrow> (string \<rightharpoonup> json) \<Rightarrow> 'a" where
  "drizz_cap f dflt name m = (case m (''drizz:'' @ name) of None \<Rightarrow> dflt | Some v \<Rightarrow> f v)"

definition requested :: "(go_float \<Rightarrow> int) \<Rightarrow> (string \<rightharpoonup> json) \<Rightarrow> create_request" where
  "requested trunc m = \<lparr>rq_platform = [], rq_profile = drizz_cap as_string [] ''profile'' m, rq_client_id = [],
     rq_client_name = [], rq_source = ''appium-compat'', rq_labels = [],
     rq_timeout_min = drizz_cap (as_int trunc) 0 ''timeout_minutes'' m,
     rq_device_id = drizz_cap as_string [] ''device_id'' m, rq_avd_name = drizz_cap as_string [] ''avd_name'' m,
     rq_caps = Some \<lparr>record_video = drizz_cap as_bool False ''record_video'' m,
       capture_logcat = drizz_cap as_bool False ''capture_logcat'' m,
       capture_screenshots = drizz_cap as_bool True ''capture_screenshots'' m,
       capture_network = drizz_cap as_bool False ''capture_network'' m,
       retention_hours = drizz_cap (as_int trunc) 0 ''retention_hours'' m\<rparr>\<rparr>"

lemma drizz_name_iff: "drizz_name k = Some n \<longleftrightarrow> k = ''drizz:'' @ n"
  by (auto simp: drizz_name_def has_prefix_iff)

lemma drizz_cap_upd: "drizz_cap f x name (m(k \<mapsto> v)) = (if drizz_name k = Some name then f v else drizz_cap f x name m)"
  by (simp add: drizz_cap_def drizz_name_iff)

lemma cap_step_requested: "cap_step trunc (k, v) (requested trunc m) = requested trunc (m(k \<mapsto> v))"
proof (cases "drizz_name k")
  case (Some n)
  then show ?thesis
    by (simp add: cap_step_def set_drizz_cap_def on_caps_def) (simp add: requested_def drizz_cap_upd)
qed (simp add: cap_step_def requested_def drizz_cap_upd)

lemma fold_cap_step:
  "fold (cap_step trunc) caps (requested trunc m) = requested trunc (fold (\<lambda>(k, v) m. m(k \<mapsto> v)) caps m)"
  by (induction caps arbitrary: m) (auto simp: cap_step_requested)

lemma fold_map_of: "distinct (map fst xs) \<Longrightarrow> fold (\<lambda>(k, v) m. m(k \<mapsto> v)) xs m = m ++ map_of xs"
proof (induction xs arbitrary: m)
  case (Cons x xs)
  then have "map_of xs (fst x) = None" by (simp add: map_of_eq_None_iff)
  then have m: "m(fst x \<mapsto> snd x) ++ map_of xs = m ++ map_of (x # xs)"
    by (auto simp: map_add_def fun_eq_iff split: option.split)
  have "fold (\<lambda>(k, v) m. m(k \<mapsto> v)) (x # xs) m =
      fold (\<lambda>(k, v) m. m(k \<mapsto> v)) xs (m(fst x \<mapsto> snd x))" by (cases x) simp
  also have "\<dots> = m(fst x \<mapsto> snd x) ++ map_of xs" by (rule Cons.IH) (use Cons.prems in simp)
  also note m
  finally show ?case .
qed simp

definition default_platform :: "caps \<Rightarrow> create_request \<Rightarrow> create_request" where
  "default_platform clean r =
     (if rq_profile r = [] \<and> rq_device_id r = [] \<and> rq_avd_name r = []
      then r\<lparr>rq_platform := (if (case map_of clean ''platformName'' of Some (JStr s) \<Rightarrow> lower_ascii s = ''ios'' | _ \<Rightarrow> False)
                            then ''ios'' else ''android'')\<rparr> else r)"

lemma extract_requested:
  assumes "distinct (map fst caps)"
  shows "extract_drizz_caps trunc caps =
    (default_platform (filter (\<lambda>(k, v). drizz_name k = None) caps) (requested trunc (map_of caps)),
     filter (\<lambda>(k, v). drizz_name k = None) caps)"
proof -
  have "hub_request = requested trunc Map.empty"
    by (simp add: hub_request_def requested_def drizz_cap_def)
  with fold_cap_step [of trunc caps Map.empty] fold_map_of [OF assms, of Map.empty]
  have "fold (cap_step trunc) caps hub_request = requested trunc (map_of caps)" by (metis empty_map_add)
  then show ?thesis by (simp add: extract_drizz_caps_def default_platform_def Let_def)
qed

text \<open>C25: the capabilities of a client are read the same in whatever order Go's map yields them: each
  field of the session request comes from its own \<^verbatim>\<open>drizz:\<close> capability, or its default; and Appium is
  forwarded exactly the others, unchanged. Of a request with \<^verbatim>\<open>firstMatch\<close> alternatives only, nothing is read.\<close>

theorem capabilities_read:
  assumes "distinct (map fst caps)" and "mset caps' = mset caps"
  shows "fst (extract_drizz_caps trunc caps') = fst (extract_drizz_caps trunc caps) \<and>
    mset (snd (extract_drizz_caps trunc caps')) = filter_mset (\<lambda>(k, v). drizz_name k = None) (mset caps) \<and>
    fst (extract_drizz_caps trunc caps) =
      default_platform (filter (\<lambda>(k, v). drizz_name k = None) caps) (requested trunc (map_of caps)) \<and>
    pick_caps \<lparr>wd_always = [], wd_first = alternatives, wd_desired = None\<rparr> = []"
proof -
  let ?clean = "filter (\<lambda>(k, v). drizz_name k = None)"
  have d: "distinct (map fst caps')"
    using assms mset_eq_imp_distinct_iff [of "map fst caps'" "map fst caps"] by (metis mset_map)
  have perm: "map_of (?clean xs) = map_of (?clean ys)" "map_of xs = map_of ys"
    if "mset xs = mset ys" "distinct (map fst xs)" "distinct (map fst ys)" for xs ys :: caps
  proof -
    have "set xs = set ys" using that(1) by (rule mset_eq_setD)
    then show "map_of xs = map_of ys" using map_of_inject_set [OF that(2,3)] by simp
    have "set (?clean xs) = set (?clean ys)" using \<open>set xs = set ys\<close> by auto
    then show "map_of (?clean xs) = map_of (?clean ys)"
      using map_of_inject_set [of "?clean xs" "?clean ys"] that(2,3) by (simp add: distinct_map_filter)
  qed
  from perm [OF assms(2) d assms(1)] show ?thesis
    using assms(2) by (simp add: extract_requested [OF d] extract_requested [OF assms(1)] default_platform_def
        mset_filter pick_caps_def)
qed

theorem capabilities_read_witness:
  "fst (extract_drizz_caps (\<lambda>x. 0) [(''drizz:retention_hours'', JStr '' 48h''), (''platformName'', JStr ''iOS'')]) =
     fst (extract_drizz_caps (\<lambda>x. 0) [(''platformName'', JStr ''iOS''), (''drizz:retention_hours'', JStr '' 48h'')]) \<and>
   rq_platform (default_platform [(''platformName'', JStr ''iOS'')] hub_request) = ''ios'' \<and> scan_int '' 48h'' = 48"
proof -
  have "scan_int '' 48h'' = 48"
    by (simp add: scan_int_def is_space_def nl_def digit_val_def atoi_def)
  moreover have "lower_ascii ''iOS'' = ''ios''" by (simp add: lower_ascii_def char_of_def bit_iff_odd)
  ultimately show ?thesis
    using capabilities_read [of "[(''platformName'', JStr ''iOS''), (''drizz:retention_hours'', JStr '' 48h'')]"
        "[(''drizz:retention_hours'', JStr '' 48h''), (''platformName'', JStr ''iOS'')]" "\<lambda>x. 0" "[]"]
    by (simp add: default_platform_def hub_request_def)
qed

text \<open>The driver ports of a session lie in three bands that do not meet each other or Appium's first
  port; but sessions share them: the two ids here, of the form that the broker draws, have all three in
  common, and among more than a hundred sessions some two have the same system port.\<close>

theorem driver_ports_bounded:
  "system_port (derive_ports sid) \<in> {8200..8299} \<and> chromedriver_port (derive_ports sid) \<in> {9515..9614} \<and>
   mjpeg_port (derive_ports sid) \<in> {7810..7909} \<and>
   derive_ports ''4c041b25-05a'' = derive_ports ''c1331daf-b94'' \<and>
   (100 < card sids \<longrightarrow> \<not> inj_on (\<lambda>s. system_port (derive_ports s)) sids)"
proof (intro conjI impI)
  have m: "0 \<le> uint (x mod 100 :: 32 word) \<and> uint (x mod 100 :: 32 word) \<le> 99" for x
    using uint_mod [of x 100] pos_mod_bound [of 100 "uint x"] by (simp add: uint_word_ariths(7))
  then show s: "system_port (derive_ports sid) \<in> {8200..8299}" "chromedriver_port (derive_ports sid) \<in> {9515..9614}"
    "mjpeg_port (derive_ports sid) \<in> {7810..7909}" for sid
    by (simp_all add: derive_ports_def Let_def)
  show "derive_ports ''4c041b25-05a'' = derive_ports ''c1331daf-b94''"
    by (simp add: derive_ports_def sid_hash_def Let_def)
  assume c: "100 < card sids"
  show "\<not> inj_on (\<lambda>s. system_port (derive_ports s)) sids"
  proof
    assume "inj_on (\<lambda>s. system_port (derive_ports s)) sids"
    moreover have "(\<lambda>s. system_port (derive_ports s)) ` sids \<subseteq> {8200..8299}" using s(1) by auto
    ultimately have "card sids \<le> card {8200..(8299::int)}" by (rule card_inj_on_le) simp
    with c show False by simp
  qed
qed

theorem driver_ports_bounded_witness:
  "\<not> inj_on (\<lambda>s. system_port (derive_ports s)) (itoa_nat ` {..100})"
proof -
  have "card (itoa_nat ` {..100}) = 101" by (subst card_image) (auto simp: inj_on_def)
  with driver_ports_bounded [of "[]" "itoa_nat ` {..100}"] show ?thesis by simp
qed

subsection \<open>Sessions of the hub\<close>

lemma with_allocation_sessions:
  assumes "with_allocation env req rp f b = (r, b1)" and "\<nexists>s. r = Created s"
    and "\<And>e c. b_sessions (snd (f e c)) = b_sessions c"
  shows "b_sessions b1 = b_sessions b"
proof -
  obtain a q where rp: "rp = (a, q)" by fastforce
  show ?thesis
  proof (cases a)
    case (Got k)
    with assms(1,2) rp show ?thesis
      by (cases "get_instance k q") (auto simp: with_allocation_def split: prod.splits)
  next
    case (Refused e)
    with assms(1) rp have "f e (b\<lparr>b_pool := q\<rparr>) = (r, b1)" by (simp add: with_allocation_def)
    with assms(3) [of e "b\<lparr>b_pool := q\<rparr>"] show ?thesis by simp
  next
    case Stuck
    with assms(1) rp show ?thesis by (auto simp: with_allocation_def)
  qed
qed

lemma broker_create_refused:
  assumes "broker_create env req b = (r, b1)" and "\<nexists>s. r = Created s"
  shows "leases b1 = leases b"
proof -
  have "b_sessions b1 = b_sessions b"
    using assms by (auto simp: broker_create_def Let_def enqueue_same split: if_splits
        dest!: with_allocation_sessions)
  then show ?thesis by (rule leases_cong)
qed

lemma broker_create_sessions:
  assumes "broker_create env req b = (Created s, b1)" and "pool_ok (b_pool b)"
  shows "get_session sid b1 = (if sid = sess_id s then Some s else get_session sid b)"
  using assms by (auto elim!: broker_create_Created simp: create_session_result(1))

lemma drop_session_leases:
  assumes "get_session (sess_id s) b = Some t" and "session_is_active t"
  shows "leases (drop_session env s b) = (leases b)(sess_id s := None)"
  using get_session_after_release(1) [OF assms]
  by (auto simp: drop_session_def leases_def fun_eq_iff session_is_active_def end_session_def)

lemma hub_answer_result:
  assumes "hub_answer env s resp hb b = (r, hb', b')" and "get_session (sess_id s) b = Some t" and "session_is_active t"
  shows "200 \<le> fst r \<and> fst r < 300 \<and> (\<exists>sid. sid \<noteq> [] \<and> hub_sids hb' = AList.update sid (sess_id s) (hub_sids hb)) \<and> b' = b \<or>
    hb' = hb \<and> leases b' = (leases b)(sess_id s := None)"
proof (cases resp)
  case None
  with assms drop_session_leases [OF assms(2,3)] show ?thesis by (auto simp: hub_answer_def)
next
  case (Some sb)
  then obtain st body where sb: "resp = Some (st, body)" by (cases sb) simp
  show ?thesis
  proof (cases "st < 200 \<or> 300 \<le> st")
    case True
    with assms(1) sb drop_session_leases [OF assms(2,3)] show ?thesis by (auto simp: hub_answer_def)
  next
    case False
    with assms(1) sb drop_session_leases [OF assms(2,3)] show ?thesis
      by (cases "wd_session_id (hx_decode env body) = []") (auto simp: hub_answer_def Let_def)
  qed
qed


definition px_request :: wd_request where
  "px_request = \<lparr>wd_always = [(''drizz:profile'', JStr ''px'')], wd_first = [], wd_desired = None\<rparr>"

definition silent_env :: hub_env where
  "silent_env = \<lparr>hx_broker = small_benv\<lparr>be_appium := Some (\<lambda>sid serial. Some (''http://h:4723/'', []))\<rparr>,
     hx_upstream = \<lambda>m u p. None, hx_decode = \<lambda>s. None, hx_trunc = \<lambda>x. 0\<rparr>"

lemma px_extracted:
  "extract_drizz_caps f (pick_caps px_request) = (hub_request\<lparr>rq_profile := ''px''\<rparr>, [])"
  by (simp add: extract_drizz_caps_def px_request_def pick_caps_def cap_step_def drizz_name_def has_prefix_def
      set_drizz_cap_def)

lemma px_creation:
  "\<exists>s b1. broker_create (hx_broker silent_env) (hub_request\<lparr>rq_profile := ''px''\<rparr>)
     (new_broker small_config (new_pool small_config) True ''h'') = (Created s, b1) \<and>
     conn_appium_url (sess_conn s) = ''http://h:4723/''"
proof -
  let ?b = "new_broker small_config (new_pool small_config) True ''h''"
  let ?r = "hub_request\<lparr>rq_profile := ''px'', rq_platform := ''android''\<rparr>"
  obtain q where a: "allocate_any small_env ''px'' False (new_pool small_config) = (Got ''0'', q)"
    using small_allocation by (metis prod.collapse)
  have "got_device False (Got ''0'', q) (new_pool small_config)"
    using allocate_any_got [OF pool_ok_new [of small_config], of False small_env "''px''"] a by simp
  then obtain i where i: "get_instance ''0'' q = Some i" by (auto simp: got_device_def)
  obtain s b1 where c: "create_session_from_instance (hx_broker silent_env) i ?r (?b\<lparr>b_pool := q\<rparr>) = (s, b1)"
    by fastforce
  have "broker_create (hx_broker silent_env) (hub_request\<lparr>rq_profile := ''px''\<rparr>) ?b = (Created s, b1)"
    using a i c by (simp add: broker_create_def hub_request_def Let_def allocate_def manual_caller_def
        silent_env_def small_benv_def new_broker_def with_allocation_def)
  moreover have "conn_appium_url (sess_conn s) = ''http://h:4723/''"
    using c by (auto simp: create_session_from_instance_def Let_def silent_env_def small_benv_def)
  ultimately show ?thesis by blast
qed




end
