(* ===== verification/RegistryApi.thy ===== *)
theory RegistryApi
  imports Registry Http
begin

text \<open>
  \<^verbatim>\<open>internal/api/handlers_registry.go\<close>: the routes of a group of nodes and what a node tells its peers. A
  handler returns its answer, the requests its goroutines send, and the registry. The environment record
  holds what the outside answers. A request goes to a base address and a path on it; \<open>pq_hop\<close> is the
  header \<^verbatim>\<open>X-Drizz-Propagate\<close>. Bodies come decoded, \<open>None\<close> when they are no JSON; the JSON form of an
  entry that passes between nodes is the entry.
\<close>

record reg_env =
  rx_now :: time
  rx_saves :: bool
  rx_host :: string
  rx_node :: node_config
  rx_port :: int
  rx_group :: "string \<Rightarrow> (int \<times> string option) option"
  rx_url_ok :: "string \<Rightarrow> bool"
  rx_time :: "time \<Rightarrow> string"

record peer_request =
  pq_method :: string
  pq_base :: string
  pq_path :: string
  pq_key :: string
  pq_hop :: bool
  pq_entry :: "node option"

text \<open>The goroutines drop the error of \<^verbatim>\<open>NewRequest\<close>: for an address that is no URL the request is nil,
  and setting its header panics, which ends the daemon.\<close>

datatype peer_effect = Send peer_request | NilRequest string

type_synonym reg_reply = "response \<times> peer_effect list \<times> registry"

subsection \<open>Is the caller local?\<close>

text \<open>\<^verbatim>\<open>net.SplitHostPort\<close>, the host only\<close>

definition split_host :: "string \<Rightarrow> string option" where
  "split_host s =
     (if CHR '':'' \<notin> set s then None
      else (let port = rev (takeWhile (\<lambda>c. c \<noteq> CHR '':'') (rev s));
                before = take (length s - length port - 1) s;
                host = takeWhile (\<lambda>c. c \<noteq> CHR '']'') (drop 1 s)
            in if take 1 s = ''['' then
                 (if before = CHR ''['' # host @ '']'' \<and> CHR ''['' \<notin> set (drop 1 s) \<and> CHR '']'' \<notin> set port
                  then Some host else None)
               else if CHR '':'' \<in> set before \<or> CHR ''['' \<in> set s \<or> CHR '']'' \<in> set s then None
               else Some before))"

text \<open>The addresses of \<^verbatim>\<open>net.ParseIP\<close>: four octets without leading zeros, or eight groups of hexadecimal
  digits, of which one run of zeros may be two colons and the last two may be an IPv4 address.\<close>

definition octet :: "string \<Rightarrow> nat option" where
  "octet s =
     (if s = [] \<or> (1 < length s \<and> hd s = CHR ''0'') then None
      else case digits_val 0 s of None \<Rightarrow> None | Some n \<Rightarrow> if n \<le> 255 then Some n else None)"

definition ipv4 :: "string \<Rightarrow> nat list option" where
  "ipv4 s = (let os = map octet (split_on (CHR ''.'') s)
     in if length os = 4 \<and> None \<notin> set os then Some (map the os) else None)"

definition hex_val :: "char \<Rightarrow> nat option" where
  "hex_val c = (let n = (of_char c :: nat)
     in if 48 \<le> n \<and> n \<le> 57 then Some (n - 48) else if 97 \<le> n \<and> n \<le> 102 then Some (n - 87)
        else if 65 \<le> n \<and> n \<le> 70 then Some (n - 55) else None)"

definition hextet :: "string \<Rightarrow> nat option" where
  "hextet s = (if s = [] \<or> 4 < length s \<or> None \<in> hex_val ` set s then None
     else Some (foldl (\<lambda>acc c. 16 * acc + the (hex_val c)) 0 s))"

fun hextets :: "bool \<Rightarrow> string list \<Rightarrow> nat list option" where
  "hextets final [] = Some []"
| "hextets final (w # ws) =
     (case hextet w of
        Some n \<Rightarrow> map_option ((#) n) (hextets final ws)
      | None \<Rightarrow> (case ipv4 w of
            Some [a, b, c, d] \<Rightarrow> if final \<and> ws = [] then Some [256 * a + b, 256 * c + d] else None
          | _ \<Rightarrow> None))"

text \<open>The parts before and after the first two colons.\<close>

fun at_colons :: "string \<Rightarrow> (string \<times> string) option" where
  "at_colons (x # y # s) =
     (if x = CHR '':'' \<and> y = CHR '':'' then Some ([], s)
      else map_option (\<lambda>(l, r). (x # l, r)) (at_colons (y # s)))"
| "at_colons _ = None"

definition groups_of :: "bool \<Rightarrow> string \<Rightarrow> nat list option" where
  "groups_of final s = (if s = [] then Some [] else hextets final (split_on (CHR '':'') s))"

definition ipv6 :: "string \<Rightarrow> nat list option" where
  "ipv6 s =
     (case at_colons s of
        None \<Rightarrow> (case groups_of True s of None \<Rightarrow> None | Some g \<Rightarrow> if length g = 8 then Some g else None)
      | Some (l, r) \<Rightarrow>
          (case (groups_of False l, groups_of True r) of
             (Some g, Some h) \<Rightarrow> if length g + length h \<le> 7
               then Some (g @ replicate (8 - length g - length h) 0 @ h) else None
           | _ \<Rightarrow> None))"

definition loopback_ip :: "string \<Rightarrow> bool" where
  "loopback_ip s =
     (case ipv4 s of
        Some os \<Rightarrow> hd os = 127
      | None \<Rightarrow> (case ipv6 s of
            None \<Rightarrow> False
          | Some g \<Rightarrow> if take 6 g = [0, 0, 0, 0, 0, 65535] then g ! 6 div 256 = 127 else g = [0, 0, 0, 0, 0, 0, 0, 1]))"

definition is_localhost :: "string \<Rightarrow> bool" where
  "is_localhost remote_addr =
     (let host = (case split_host remote_addr of Some h \<Rightarrow> h | None \<Rightarrow> remote_addr)
      in if host = [] then False else if host = ''localhost'' then True else loopback_ip host)"

subsection \<open>Telling the peers\<close>

definition tell_peer :: "(string \<Rightarrow> bool) \<Rightarrow> string \<Rightarrow> string \<Rightarrow> string \<Rightarrow> node option \<Rightarrow> node \<Rightarrow> peer_effect" where
  "tell_peer url_ok meth path key entry peer =
     (let base = trim_right_slash (node_url peer)
      in if url_ok (base @ path)
         then Send \<lparr>pq_method = meth, pq_base = base, pq_path = path, pq_key = key, pq_hop = True, pq_entry = entry\<rparr>
         else NilRequest (base @ path))"

definition others :: "string \<Rightarrow> registry \<Rightarrow> node list" where
  "others name r = filter (\<lambda>x. node_name x \<noteq> name) (registry_nodes r)"

definition propagate_add :: "(string \<Rightarrow> bool) \<Rightarrow> registry \<Rightarrow> node \<Rightarrow> peer_effect list" where
  "propagate_add url_ok r n =
     (let key = registry_group_key r
      in if key = [] then []
         else map (tell_peer url_ok ''POST'' ''/api/v1/nodes'' key (Some n)) (others (node_name n) r))"

definition propagate_remove :: "(string \<Rightarrow> bool) \<Rightarrow> registry \<Rightarrow> string \<Rightarrow> peer_effect list" where
  "propagate_remove url_ok r name =
     (let key = registry_group_key r
      in if key = [] then []
         else map (tell_peer url_ok ''DELETE'' (''/api/v1/nodes/'' @ name) key None) (others name r))"

subsection \<open>The handlers\<close>

definition self_url :: "reg_env \<Rightarrow> string" where
  "self_url env =
     (if external_url (rx_node env) \<noteq> [] then external_url (rx_node env)
      else (let h = rx_host env; host = (if has_suffix h ''.local'' then h else h @ ''.local'')
            in ''http://'' @ host @ '':'' @ itoa (rx_port env)))"

definition self_name :: "reg_env \<Rightarrow> string" where
  "self_name env = (if node_cname (rx_node env) \<noteq> [] then node_cname (rx_node env) else rx_host env)"

text \<open>An entry as JSON; the name and the address are the fields of the handlers' own entries.\<close>

definition node_json :: "(time \<Rightarrow> string) \<Rightarrow> node \<Rightarrow> json" where
  "node_json fmt n = JObj ([(''name'', JStr (node_name n)), (''url'', JStr (node_url n)),
     (''added_at'', JStr (fmt (node_added_at n)))] @
     (if node_description n = [] then [] else [(''description'', JStr (node_description n))]))"

definition self_entry :: "reg_env \<Rightarrow> time \<Rightarrow> node" where
  "self_entry env t = \<lparr>node_name = self_name env, node_url = self_url env, node_added_at = t, node_description = []\<rparr>"

definition get_group :: "reg_env \<Rightarrow> registry \<Rightarrow> response" where
  "get_group env r =
     (let snap = reg_snapshot r
      in ok [(''group_name'', JStr (group_name snap)), (''group_key'', JStr (registry_group_key r)),
             (''has_group'', JBool (group_name snap \<noteq> [])),
             (''self'', JObj [(''name'', JStr (self_name env)), (''url'', JStr (self_url env))])])"

definition get_nodes :: "reg_env \<Rightarrow> registry \<Rightarrow> response" where
  "get_nodes env r =
     (if \<not> has_group r
      then ok [(''group_name'', JStr []), (''nodes'', JList [node_json (rx_time env) (self_entry env 0)])]
      else (let snap = reg_snapshot r
            in ok [(''group_name'', JStr (group_name snap)),
                   (''nodes'', if group_nodes snap = [] then JNull
                     else JList (map (node_json (rx_time env)) (group_nodes snap)))]))"

definition post_group :: "reg_env \<Rightarrow> nat list \<Rightarrow> string option \<Rightarrow> registry \<Rightarrow> response \<times> registry" where
  "post_group env bytes body r =
     (case body of
        None \<Rightarrow> (api_error ''invalid'' (Some ''name required'') 400, r)
      | Some name \<Rightarrow>
          if name = [] then (api_error ''invalid'' (Some ''name required'') 400, r)
          else (case create_group (rx_saves env) (rx_now env) bytes name (self_name env) (self_url env) r of
                  (Inl e, r1) \<Rightarrow> (api_error ''conflict'' None 409, r1)
                | (Inr key, r1) \<Rightarrow> (ok [(''group_name'', JStr name), (''group_key'', JStr key),
                      (''self'', node_json (rx_time env) (self_entry env 0))], r1)))"

text \<open>The handler looks for two phrases in the text of the error, which holds the name of the group; the
  texts of the transport are taken not to have them.\<close>

definition join_status :: "registry_error \<Rightarrow> int" where
  "join_status e =
     (case e of
        InvalidGroupKey \<Rightarrow> 403
      | AlreadyInGroup g \<Rightarrow> if contains_str g ''invalid group key'' then 403 else 409
      | _ \<Rightarrow> 500)"

definition post_join ::
  "reg_env \<Rightarrow> peer_answer option \<Rightarrow> (string \<times> string) option \<Rightarrow> registry \<Rightarrow> response \<times> peer_call list \<times> registry" where
  "post_join env answer body r =
     (let bad = (api_error ''invalid'' (Some ''peer_url and group_key required'') 400, [], r)
      in case body of
           None \<Rightarrow> bad
         | Some (peer, key) \<Rightarrow>
             if peer = [] \<or> key = [] then bad
             else (case join_group (rx_saves env) (rx_now env) answer peer key (self_name env) (self_url env) r of
                     (Inl e, calls, r1) \<Rightarrow> (api_error ''join_failed'' None (join_status e), calls, r1)
                   | (Inr g, calls, r1) \<Rightarrow>
                       (ok [(''status'', JStr ''joined''), (''group_name'', JStr g)], calls, r1)))"

definition delete_group :: "reg_env \<Rightarrow> string \<Rightarrow> registry \<Rightarrow> reg_reply" where
  "delete_group env remote_addr r =
     (if \<not> is_localhost remote_addr
      then (api_error ''forbidden'' (Some ''leave can only be triggered from the local machine'') 403, [], r)
      else case leave_group (rx_saves env) r of
             (Some e, r1) \<Rightarrow> (api_error ''leave_failed'' None 500, [], r1)
           | (None, r1) \<Rightarrow>
               (ok [(''status'', JStr ''left'')],
                map (tell_peer (rx_url_ok env) ''DELETE'' (''/api/v1/nodes/'' @ self_name env) (registry_group_key r) None)
                  (others (self_name env) r), r1))"

text \<open>What a peer that joins receives: a 403, or the group with its key.\<close>

definition get_export :: "string \<Rightarrow> registry \<Rightarrow> peer_answer" where
  "get_export key r =
     (if \<not> verify_key key r then \<lparr>peer_status = 403, peer_body = None\<rparr>
      else \<lparr>peer_status = 200, peer_body = Some (marshal_for_export r)\<rparr>)"

definition bad_key :: response where
  "bad_key = api_error ''forbidden'' (Some ''invalid group key'') 403"

definition verify_joining_node :: "reg_env \<Rightarrow> string \<Rightarrow> string \<Rightarrow> bool" where
  "verify_joining_node env url key =
     (case rx_group env (trim_right_slash url @ ''/api/v1/group'') of
        Some (st, Some k) \<Rightarrow> st = 200 \<and> k \<noteq> [] \<and> k = key
      | _ \<Rightarrow> False)"

definition post_node :: "reg_env \<Rightarrow> string \<Rightarrow> bool \<Rightarrow> node option \<Rightarrow> registry \<Rightarrow> reg_reply" where
  "post_node env key hop body r =
     (if \<not> verify_key key r then (bad_key, [], r)
      else case body of
        None \<Rightarrow> (api_error ''invalid'' (Some ''name and url required'') 400, [], r)
      | Some n \<Rightarrow>
          if node_name n = [] \<or> node_url n = []
          then (api_error ''invalid'' (Some ''name and url required'') 400, [], r)
          else if \<not> hop \<and> \<not> verify_joining_node env (node_url n) key
          then (api_error ''verification_failed'' None 403, [], r)
          else (case add_node (rx_saves env) (rx_now env) n r of
                  (Some e, r1) \<Rightarrow> (api_error ''add_failed'' None 500, [], r1)
                | (None, r1) \<Rightarrow>
                    (ok [(''status'', JStr ''ok''), (''node'', node_json (rx_time env) n)],
                     if hop then [] else propagate_add (rx_url_ok env) r1 n, r1)))"

definition delete_node :: "reg_env \<Rightarrow> string \<Rightarrow> bool \<Rightarrow> string \<Rightarrow> registry \<Rightarrow> reg_reply" where
  "delete_node env key hop name r =
     (if \<not> verify_key key r then (bad_key, [], r)
      else case remove_node (rx_saves env) name r of
             ((removed, Some e), r1) \<Rightarrow> (api_error ''remove_failed'' None 500, [], r1)
           | ((removed, None), r1) \<Rightarrow>
               if \<not> removed then (api_error ''not_found'' (Some ''node not in group'') 404, [], r1)
               else (ok [(''status'', JStr ''removed'')],
                     if hop then [] else propagate_remove (rx_url_ok env) r1 name, r1))"

subsection \<open>Who may do what\<close>

lemma itoa_chars: "c \<in> set (itoa_nat n) \<Longrightarrow> c \<in> set ''0123456789''"
proof -
  assume "c \<in> set (itoa_nat n)"
  then obtain d where d: "d < 10" "c = digit_char d" using itoa_nat_digits [of c n] by auto
  then have "d = 0 \<or> d = 1 \<or> d = 2 \<or> d = 3 \<or> d = 4 \<or> d = 5 \<or> d = 6 \<or> d = 7 \<or> d = 8 \<or> d = 9" by presburger
  with d(2) show ?thesis by auto
qed

lemma itoa_leading: "itoa_nat n = CHR ''0'' # cs \<Longrightarrow> n = 0"
proof (induction n arbitrary: cs rule: itoa_nat.induct)
  case (1 n)
  show ?case
  proof (cases "n < 10")
    case True
    with 1(2) have "digit_char n = CHR ''0''" by (simp add: itoa_nat.simps [of n])
    then have "digit_val (digit_char n) = Some 0" by (simp only:) (simp add: digit_val_def)
    with True show ?thesis by simp
  next
    case False
    with 1(2) obtain ds where "itoa_nat (n div 10) = CHR ''0'' # ds"
      by (cases "itoa_nat (n div 10)") (auto simp: itoa_nat.simps [of n])
    from 1(1) [OF False this] False show ?thesis by simp
  qed
qed

lemma octet_itoa: "n \<le> 255 \<Longrightarrow> octet (itoa_nat n) = Some n"
proof -
  assume n: "n \<le> 255"
  have "\<not> (1 < length (itoa_nat n) \<and> hd (itoa_nat n) = CHR ''0'')"
    using itoa_leading [of n] by (cases "itoa_nat n") (auto simp: itoa_nat.simps [of 0])
  with n show ?thesis by (simp add: octet_def digits_val_itoa)
qed

definition dotted :: "nat list \<Rightarrow> string" where
  "dotted os = join_with ''.'' (map itoa_nat os)"

lemma ipv4_dotted: "list_all (\<lambda>n. n \<le> 255) [a, b, c, d] \<Longrightarrow> ipv4 (dotted [a, b, c, d]) = Some [a, b, c, d]"
proof -
  assume l: "list_all (\<lambda>n. n \<le> 255) [a, b, c, d]"
  have "list_all (\<lambda>w. CHR ''.'' \<notin> set w) (map itoa_nat [a, b, c, d])"
    using itoa_chars by (auto simp: list_all_iff)
  then have "split_on (CHR ''.'') (dotted [a, b, c, d]) = map itoa_nat [a, b, c, d]"
    unfolding dotted_def by (intro split_on_join) simp_all
  with l show ?thesis by (simp add: ipv4_def octet_itoa)
qed

lemma split_host_plain:
  "CHR '':'' \<notin> set h \<Longrightarrow> CHR ''['' \<notin> set h \<Longrightarrow> CHR '']'' \<notin> set h \<Longrightarrow> CHR '':'' \<notin> set port \<Longrightarrow>
   CHR ''['' \<notin> set port \<Longrightarrow> CHR '']'' \<notin> set port \<Longrightarrow> split_host (h @ CHR '':'' # port) = Some h"
proof -
  assume h: "CHR '':'' \<notin> set h" "CHR ''['' \<notin> set h" "CHR '']'' \<notin> set h"
    and p: "CHR '':'' \<notin> set port" "CHR ''['' \<notin> set port" "CHR '']'' \<notin> set port"
  have "takeWhile (\<lambda>c. c \<noteq> CHR '':'') (rev (h @ CHR '':'' # port)) = rev port"
    using p(1) takeWhile_append2 [of "rev port" "\<lambda>c. c \<noteq> CHR '':''" "CHR '':'' # rev h"] by auto
  moreover have "take 1 (h @ CHR '':'' # port) \<noteq> ''[''" using h(2) by (cases h) auto
  ultimately show ?thesis using h p by (simp add: split_host_def Let_def)
qed

definition shown_key :: "response \<Rightarrow> string option" where
  "shown_key rs =
     (case rs_body rs of
        Json (JObj kvs) \<Rightarrow> (case map_of kvs ''group_key'' of Some (JStr k) \<Rightarrow> Some k | _ \<Rightarrow> None)
      | _ \<Rightarrow> None)"

lemma is_localhost_dotted:
  assumes "list_all (\<lambda>n. n \<le> 255) [a, b, c, d]"
  shows "is_localhost (dotted [a, b, c, d] @ CHR '':'' # itoa_nat port) = (a = 127)"
proof -
  have d: "x \<notin> set (dotted [a, b, c, d])" "x \<notin> set (itoa_nat port)" if "x \<notin> set ''.0123456789''" for x
  proof -
    have i: "x \<notin> set (itoa_nat n)" for n using itoa_chars [of x n] that by auto
    have "x \<noteq> CHR ''.''" using that by simp
    with i show "x \<notin> set (dotted [a, b, c, d])" by (simp add: dotted_def)
    from i show "x \<notin> set (itoa_nat port)" .
  qed
  have s: "split_host (dotted [a, b, c, d] @ CHR '':'' # itoa_nat port) = Some (dotted [a, b, c, d])"
    by (intro split_host_plain d) simp_all
  have "CHR ''l'' \<notin> set (dotted [a, b, c, d])" by (rule d) simp
  then have "dotted [a, b, c, d] \<noteq> ''localhost''" by auto
  moreover have "dotted [a, b, c, d] \<noteq> []" by (simp add: dotted_def)
  ultimately show ?thesis by (simp add: is_localhost_def s loopback_ip_def ipv4_dotted [OF assms])
qed

text \<open>Who may change a group. Without the group's key, nodes are neither added nor removed nor
  shown the group, and a caller from another machine cannot make this node leave: nothing is changed and
  nobody is told. An IPv4 caller is local exactly when its first octet is 127. But the key guards nothing:
  \<^verbatim>\<open>GET /group\<close> shows it to everyone; with it, whoever sets the header of a propagated request adds any
  name and address without the call back, and removes this node itself from a roster.\<close>

theorem group_routes_guarded:
  assumes "list_all (\<lambda>n. n \<le> 255) [a, b, c, d]"
  shows "(\<not> verify_key key r \<longrightarrow>
      post_node env key hop body r = (bad_key, [], r) \<and> delete_node env key hop name r = (bad_key, [], r) \<and>
      get_export key r = \<lparr>peer_status = 403, peer_body = None\<rparr>) \<and>
    (a \<noteq> 127 \<longrightarrow> (let (rs, effs, r') = delete_group env (dotted [a, b, c, d] @ CHR '':'' # itoa_nat port) r
       in rs_status rs = 403 \<and> effs = [] \<and> r' = r)) \<and>
    (let (rs, effs, r') = delete_group env (dotted [127, b, c, d] @ CHR '':'' # itoa_nat port) r
     in rs_status rs \<noteq> 403 \<and> \<not> has_group r') \<and>
    (has_group r \<longrightarrow> (\<exists>k. shown_key (get_group env r) = Some k \<and> verify_key k r \<and>
       (rx_saves env \<longrightarrow> node_name n \<noteq> [] \<longrightarrow> node_url n \<noteq> [] \<longrightarrow>
          (\<exists>rs r'. post_node env k True (Some n) r = (rs, [], r') \<and> rs_status rs = 200 \<and>
             find_node r' (node_name n) = Some (stored_node (rx_now env) n (find_node r (node_name n))))) \<and>
       (rx_saves env \<longrightarrow> find_node r (self_name env) \<noteq> None \<longrightarrow>
          (\<exists>rs r'. delete_node env k True (self_name env) r = (rs, [], r') \<and> rs_status rs = 200 \<and>
             find_node r' (self_name env) = None))))"
proof (intro conjI impI)
  have b: "list_all (\<lambda>n. n \<le> 255) [127, b, c, d]" using assms by simp
  assume "has_group r"
  then have k: "shown_key (get_group env r) = Some (registry_group_key r)" "verify_key (registry_group_key r) r"
    by (simp_all add: shown_key_def get_group_def ok_def json_response_def Let_def verify_key_def has_group_def
        registry_group_key_def)
  moreover have "\<exists>rs r'. post_node env (registry_group_key r) True (Some n) r = (rs, [], r') \<and> rs_status rs = 200 \<and>
      find_node r' (node_name n) = Some (stored_node (rx_now env) n (find_node r (node_name n)))"
    if "rx_saves env" "node_name n \<noteq> []" "node_url n \<noteq> []"
    using that k(2) by (simp add: post_node_def add_node_def reg_save_def ok_def json_response_def find_node_def
        put_node_find)
  moreover have "\<exists>rs r'. delete_node env (registry_group_key r) True (self_name env) r = (rs, [], r') \<and>
      rs_status rs = 200 \<and> find_node r' (self_name env) = None"
    if "rx_saves env" "find_node r (self_name env) \<noteq> None"
    using that k(2) by (auto simp: delete_node_def remove_node_def reg_save_def ok_def json_response_def
        find_node_def row_find_None drop_node_def)
  ultimately show "\<exists>k. shown_key (get_group env r) = Some k \<and> verify_key k r \<and>
       (rx_saves env \<longrightarrow> node_name n \<noteq> [] \<longrightarrow> node_url n \<noteq> [] \<longrightarrow>
          (\<exists>rs r'. post_node env k True (Some n) r = (rs, [], r') \<and> rs_status rs = 200 \<and>
             find_node r' (node_name n) = Some (stored_node (rx_now env) n (find_node r (node_name n))))) \<and>
       (rx_saves env \<longrightarrow> find_node r (self_name env) \<noteq> None \<longrightarrow>
          (\<exists>rs r'. delete_node env k True (self_name env) r = (rs, [], r') \<and> rs_status rs = 200 \<and>
             find_node r' (self_name env) = None))" by blast
next
  show "let (rs, effs, r') = delete_group env (dotted [127, b, c, d] @ CHR '':'' # itoa_nat port) r
     in rs_status rs \<noteq> 403 \<and> \<not> has_group r'"
    using assms by (simp add: delete_group_def is_localhost_dotted leave_group_def Let_def ok_def json_response_def
        api_error_def has_group_def empty_group_def)
  show "let (rs, effs, r') = delete_group env (dotted [a, b, c, d] @ CHR '':'' # itoa_nat port) r
     in rs_status rs = 403 \<and> effs = [] \<and> r' = r" if "a \<noteq> 127"
    using that by (simp add: delete_group_def is_localhost_dotted [OF assms] api_error_def)
qed (simp_all add: post_node_def delete_node_def get_export_def)

definition sample_env :: reg_env where
  "sample_env = \<lparr>rx_now = 5, rx_saves = True, rx_host = ''mac-1'',
     rx_node = \<lparr>node_cname = ''mac-1'', external_url = ''http://mac-1'', data_dir_field = [], log_level = [], metrics_port = 0\<rparr>,
     rx_port = 9401, rx_group = \<lambda>url. None, rx_url_ok = \<lambda>url. url \<noteq> ''http://%/api/v1/nodes'', rx_time = itoa\<rparr>"

definition sample_group :: registry where
  "sample_group = \<lparr>reg_path = ''nodes.yaml'', reg_file = \<lparr>group_name = ''lab'', group_key = ''k'',
     group_nodes = [sample_node]\<rparr>, reg_disk = None\<rparr>"

theorem group_routes_guarded_witness:
  "(let (rs, effs, r') = delete_group sample_env (dotted [10, 0, 0, 9] @ CHR '':'' # itoa_nat 51000) sample_group
    in rs_status rs = 403 \<and> effs = [] \<and> r' = sample_group) \<and>
   shown_key (get_group sample_env sample_group) = Some ''k''"
proof -
  have o: "list_all (\<lambda>n. n \<le> 255) [10, 0, 0, 9 :: nat]" by simp
  have "has_group sample_group" by (simp add: has_group_def sample_group_def)
  moreover have "verify_key k sample_group = (k = ''k'')" for k by (auto simp: verify_key_def sample_group_def)
  ultimately show ?thesis
    using group_routes_guarded [OF o, of "[]" sample_group sample_env True None "[]" 51000 sample_node] by auto
qed

subsection \<open>A group of nodes\<close>

text \<open>The nodes by address, and what their rosters say: names to addresses. A request of a peer is
  delivered to the node at its base address; the path of a name with one of the characters \<^verbatim>\<open>/?#%\<close>
  does not arrive as it was sent and is left out here.\<close>

type_synonym cluster = "string \<Rightarrow> registry option"

definition roster :: "registry \<Rightarrow> (string \<rightharpoonup> string)" where
  "roster r = (\<lambda>name. map_option node_url (find_node r name))"

definition plain_in_url :: "string \<Rightarrow> bool" where
  "plain_in_url name \<longleftrightarrow> name \<noteq> [] \<and> set name \<inter> set ''/?#%'' = {}"

definition serve_peer :: "reg_env \<Rightarrow> peer_request \<Rightarrow> registry \<Rightarrow> peer_effect list \<times> registry" where
  "serve_peer env q r =
     (if pq_method q = ''POST'' \<and> pq_path q = ''/api/v1/nodes''
      then snd (post_node env (pq_key q) (pq_hop q) (pq_entry q) r)
      else (let name = trim_prefix (pq_path q) ''/api/v1/nodes/''
            in if pq_method q = ''DELETE'' \<and> has_prefix (pq_path q) ''/api/v1/nodes/'' \<and> plain_in_url name
               then snd (delete_node env (pq_key q) (pq_hop q) name r) else ([], r)))"

fun deliver_all :: "(string \<Rightarrow> reg_env) \<Rightarrow> peer_request list \<Rightarrow> cluster \<Rightarrow> peer_effect list \<times> cluster" where
  "deliver_all envs [] cl = ([], cl)"
| "deliver_all envs (q # qs) cl =
     (case cl (pq_base q) of
        None \<Rightarrow> deliver_all envs qs cl
      | Some r \<Rightarrow>
          (let (effs, r1) = serve_peer (envs (pq_base q)) q r;
               (more, cl1) = deliver_all envs qs (cl(pq_base q \<mapsto> r1))
           in (effs @ more, cl1)))"

definition address :: "node \<Rightarrow> string" where "address x = trim_right_slash (node_url x)"

text \<open>The nodes at these addresses are in the group with this key and have this roster.\<close>

definition agree :: "string \<Rightarrow> (string \<rightharpoonup> string) \<Rightarrow> cluster \<Rightarrow> string set \<Rightarrow> bool" where
  "agree key v cl A \<longleftrightarrow> (\<forall>a \<in> A. \<exists>r. cl a = Some r \<and> verify_key key r \<and> roster r = v)"

lemma roster_same_file: "reg_file r = reg_file r' \<Longrightarrow> roster r = roster r' \<and> verify_key k r = verify_key k r'"
  by (simp add: roster_def find_node_def verify_key_def)

lemma roster_put:
  "roster (put_in_memory now n r) = (roster r)(node_name n \<mapsto> node_url n)"
  "verify_key k (put_in_memory now n r) = verify_key k r"
  by (auto simp: roster_def put_in_memory_def find_node_def put_node_find stored_node_def verify_key_def fun_eq_iff)

lemma roster_drop:
  "roster (drop_node name r) = (roster r)(name := None)"
  "verify_key k (drop_node name r) = verify_key k r"
  using row_find_drop [of node_name name "group_nodes (reg_file r)"]
  by (auto simp: roster_def drop_node_def find_node_def row_drop_def verify_key_def fun_eq_iff)

lemma add_node_roster:
  assumes "node_name n \<noteq> []" and "node_url n \<noteq> []"
  shows "roster (snd (add_node saved now n r)) = (roster r)(node_name n \<mapsto> node_url n)"
    "verify_key k (snd (add_node saved now n r)) = verify_key k r"
  using roster_same_file [OF add_node_memory [OF assms, of saved now r]] by (simp_all add: roster_put)

lemma remove_node_roster:
  "roster (snd (remove_node saved name r)) = (roster r)(name := None)"
  "verify_key k (snd (remove_node saved name r)) = verify_key k r"
proof -
  have "reg_file (snd (remove_node saved name r)) = reg_file (drop_node name r)"
    by (simp add: remove_node_def reg_save_def)
  from roster_same_file [OF this] show "roster (snd (remove_node saved name r)) = (roster r)(name := None)"
    "verify_key k (snd (remove_node saved name r)) = verify_key k r" by (simp_all add: roster_drop)
qed

text \<open>One change, delivered to any of the nodes, any number of times, in any order.\<close>

lemma deliver_all_change:
  assumes "\<And>q env r. q \<in> set qs \<Longrightarrow> verify_key key r \<Longrightarrow>
      \<exists>r1. serve_peer env q r = ([], r1) \<and> verify_key key r1 \<and> roster r1 = change (roster r)"
    and "change (change v) = change v" and "pq_base ` set qs \<subseteq> A" and "D \<subseteq> A"
    and "agree key v cl (A - D)" and "agree key (change v) cl D"
  shows "\<exists>cl'. deliver_all envs qs cl = ([], cl') \<and> agree key v cl' (A - D - pq_base ` set qs) \<and>
    agree key (change v) cl' (D \<union> pq_base ` set qs)"
  using assms
proof (induction qs arbitrary: cl D)
  case (Cons q qs)
  let ?b = "pq_base q"
  from Cons.prems(3,5,6) obtain r where r: "cl ?b = Some r" "verify_key key r" "change (roster r) = change v"
    using Cons.prems(2) unfolding agree_def by (metis DiffI image_subset_iff list.set_intros(1))
  from Cons.prems(1) [of q r "envs ?b"] r obtain r1 where r1: "serve_peer (envs ?b) q r = ([], r1)"
    "verify_key key r1" "roster r1 = change v" by auto
  have "\<exists>cl'. deliver_all envs qs (cl(?b \<mapsto> r1)) = ([], cl') \<and>
      agree key v cl' (A - insert ?b D - pq_base ` set qs) \<and> agree key (change v) cl' (insert ?b D \<union> pq_base ` set qs)"
    using Cons.prems r1 by (intro Cons.IH) (auto simp: agree_def)
  moreover have "A - insert ?b D - pq_base ` set qs = A - D - pq_base ` set (q # qs)"
    "insert ?b D \<union> pq_base ` set qs = D \<union> pq_base ` set (q # qs)" by auto
  ultimately show ?case using r(1) r1(1) by auto
qed simp

lemma serve_post:
  assumes "pq_method q = ''POST''" and "pq_path q = ''/api/v1/nodes''" and "pq_key q = key" and "pq_hop q"
    and "pq_entry q = Some n" and "verify_key key r" and "node_name n \<noteq> []" and "node_url n \<noteq> []"
  shows "serve_peer env q r = ([], snd (add_node (rx_saves env) (rx_now env) n r))"
  using assms by (auto simp: serve_peer_def post_node_def split: prod.split option.split)

lemma serve_delete:
  assumes "pq_method q = ''DELETE''" and "pq_path q = ''/api/v1/nodes/'' @ name" and "pq_key q = key" and "pq_hop q"
    and "verify_key key r" and "plain_in_url name"
  shows "serve_peer env q r = ([], snd (remove_node (rx_saves env) name r))"
proof -
  have n: "trim_prefix (pq_path q) ''/api/v1/nodes/'' = name" "has_prefix (pq_path q) ''/api/v1/nodes/''"
    unfolding assms(2) by (rule trim_prefix_append has_prefix_append)+
  then show ?thesis using assms
    by (auto simp: serve_peer_def Let_def delete_node_def split: prod.split option.split)
qed

definition told :: "string \<Rightarrow> string \<Rightarrow> string \<Rightarrow> node option \<Rightarrow> node \<Rightarrow> peer_request" where
  "told meth path key entry x =
     \<lparr>pq_method = meth, pq_base = address x, pq_path = path, pq_key = key, pq_hop = True, pq_entry = entry\<rparr>"

lemma tell_peers_sent:
  "map (tell_peer url_ok meth path key entry) xs = map Send ms \<Longrightarrow> ms = map (told meth path key entry) xs"
  by (induction xs arbitrary: ms)
    (auto simp: tell_peer_def told_def address_def Let_def split: if_splits)

lemma verify_key_registry: "verify_key key r \<Longrightarrow> registry_group_key r = key \<and> key \<noteq> []"
  by (auto simp: verify_key_def registry_group_key_def)

lemma post_node_accepted:
  assumes "post_node env key False (Some n) r = (rs, effs, r1)" and "rs_status rs = 200"
  shows "verify_key key r \<and> node_name n \<noteq> [] \<and> node_url n \<noteq> [] \<and> verify_joining_node env (node_url n) key \<and>
    r1 = snd (add_node (rx_saves env) (rx_now env) n r) \<and>
    effs = map (tell_peer (rx_url_ok env) ''POST'' ''/api/v1/nodes'' key (Some n)) (others (node_name n) r1)"
proof -
  have c: "verify_key key r" "node_name n \<noteq> []" "node_url n \<noteq> []" "verify_joining_node env (node_url n) key"
    using assms by (auto simp: post_node_def bad_key_def api_error_def split: if_splits)
  from assms c have r1: "add_node (rx_saves env) (rx_now env) n r = (None, r1)"
    by (auto simp: post_node_def api_error_def split: prod.splits option.splits)
  then have "verify_key key r1" using add_node_roster(2) [OF c(2,3)] c(1) by (metis snd_conv)
  with verify_key_registry have "registry_group_key r1 = key \<and> key \<noteq> []" by blast
  with assms c r1 show ?thesis by (auto simp: post_node_def propagate_add_def Let_def)
qed

lemma delete_node_accepted:
  assumes "delete_node env key False name r = (rs, effs, r1)" and "rs_status rs = 200"
  shows "verify_key key r \<and> r1 = snd (remove_node (rx_saves env) name r) \<and>
    effs = map (tell_peer (rx_url_ok env) ''DELETE'' (''/api/v1/nodes/'' @ name) key None) (others name r1)"
proof -
  have c: "verify_key key r" using assms by (auto simp: delete_node_def bad_key_def api_error_def split: if_splits)
  from assms c have r1: "remove_node (rx_saves env) name r = ((True, None), r1)"
    "effs = propagate_remove (rx_url_ok env) r1 name"
    by (auto simp: delete_node_def api_error_def split: prod.splits option.splits if_splits)
  then have "verify_key key r1" using remove_node_roster(2) c by (metis snd_conv)
  with verify_key_registry have "registry_group_key r1 = key \<and> key \<noteq> []" by blast
  with c r1 show ?thesis by (simp add: propagate_remove_def Let_def)
qed

lemma others_after:
  "node_name n \<noteq> [] \<Longrightarrow> node_url n \<noteq> [] \<Longrightarrow> others (node_name n) (snd (add_node saved now n r)) = others (node_name n) r"
  "others name (snd (remove_node saved name r)) = others name r"
proof -
  have "filter (\<lambda>x. node_name x \<noteq> node_name n) (put_node now n xs) = filter (\<lambda>x. node_name x \<noteq> node_name n) xs" for xs
    by (induction now n xs rule: put_node.induct) auto
  then show "node_name n \<noteq> [] \<Longrightarrow> node_url n \<noteq> [] \<Longrightarrow>
      others (node_name n) (snd (add_node saved now n r)) = others (node_name n) r"
    by (simp add: others_def registry_nodes_def add_node_def reg_save_def)
  show "others name (snd (remove_node saved name r)) = others name r"
    by (auto simp: others_def registry_nodes_def remove_node_def reg_save_def drop_node_def
        intro!: filter_cong)
qed

text \<open>C26: a change that one node of a group accepts, the addition of a node or the removal of one, reaches
  the whole group with one request for each other node and none in answer to those: when the nodes on the
  roster, at their addresses, had the group's key and one roster, then after the requests have been
  delivered in any order all of them have the changed roster, also those whose disk fails.\<close>

theorem rosters_converge:
  assumes "(name = node_name n \<and> post_node env key False (Some n) r0 = (rs, map Send ms, r1) \<and> w = v(name \<mapsto> node_url n)) \<or>
      (plain_in_url name \<and> delete_node env key False name r0 = (rs, map Send ms, r1) \<and> w = v(name := None))"
    and "rs_status rs = 200" and "cl a0 = Some r0"
    and "agree key v cl (insert a0 (address ` set (others name r0)))" and "mset qs = mset ms"
  shows "\<exists>cl'. deliver_all envs qs (cl(a0 \<mapsto> r1)) = ([], cl') \<and>
    agree key w cl' (insert a0 (address ` set (others name r0))) \<and> length qs = length (others name r0)"
proof -
  let ?A = "address ` set (others name r0)"
  obtain change where ch: "w = change v" "change (change v) = change v"
    and serve: "\<And>q env r. q \<in> set ms \<Longrightarrow> verify_key key r \<Longrightarrow>
      \<exists>r1. serve_peer env q r = ([], r1) \<and> verify_key key r1 \<and> roster r1 = change (roster r)"
    and r1: "verify_key key r1" "roster r1 = w" and ms: "pq_base ` set ms = ?A" "length ms = length (others name r0)"
    using assms(1)
  proof (elim disjE conjE)
    assume a: "name = node_name n" "post_node env key False (Some n) r0 = (rs, map Send ms, r1)" "w = v(name \<mapsto> node_url n)"
    note acc = post_node_accepted [OF a(2) assms(2)]
    then have n: "node_name n \<noteq> []" "node_url n \<noteq> []" by blast+
    have "others name r1 = others name r0" using acc n by (simp add: a(1) others_after)
    then have m: "ms = map (told ''POST'' ''/api/v1/nodes'' key (Some n)) (others name r0)"
      using acc by (intro tell_peers_sent [of "rx_url_ok env"]) (simp add: a(1))
    have sv: "\<exists>r1. serve_peer env q r = ([], r1) \<and> verify_key key r1 \<and> roster r1 = (roster r)(name \<mapsto> node_url n)"
      if "q \<in> set ms" "verify_key key r" for q env r
      using serve_post [OF _ _ _ _ _ that(2) n, of q env] that m
      by (auto simp: told_def add_node_roster [OF n] a(1))
    have rr: "verify_key key r1" "roster r1 = w" using acc n assms(3,4) a(1,3) by (auto simp: add_node_roster agree_def)
    have mm: "pq_base ` set ms = ?A" "length ms = length (others name r0)" by (auto simp: m told_def image_image)
    show thesis by (rule that [of "\<lambda>u. u(name \<mapsto> node_url n)", OF _ _ sv rr mm]) (simp_all add: a(3))
  next
    assume a: "plain_in_url name" "delete_node env key False name r0 = (rs, map Send ms, r1)" "w = v(name := None)"
    note acc = delete_node_accepted [OF a(2) assms(2)]
    then have "others name r1 = others name r0" by (simp add: others_after)
    then have m: "ms = map (told ''DELETE'' (''/api/v1/nodes/'' @ name) key None) (others name r0)"
      using acc by (intro tell_peers_sent [of "rx_url_ok env"]) simp
    have sv: "\<exists>r1. serve_peer env q r = ([], r1) \<and> verify_key key r1 \<and> roster r1 = (roster r)(name := None)"
      if "q \<in> set ms" "verify_key key r" for q env r
      using serve_delete [OF _ _ _ _ that(2) a(1), of q env] that m by (auto simp: told_def remove_node_roster)
    have rr: "verify_key key r1" "roster r1 = w" using acc assms(3,4) a(3) by (auto simp: remove_node_roster agree_def)
    have mm: "pq_base ` set ms = ?A" "length ms = length (others name r0)" by (auto simp: m told_def image_image)
    show thesis by (rule that [of "\<lambda>u. u(name := None)", OF _ _ sv rr mm]) (simp_all add: a(3))
  qed
  have q: "set qs = set ms" "length qs = length ms" using assms(5) by (metis set_mset_mset, metis size_mset)
  have "\<exists>cl'. deliver_all envs qs (cl(a0 \<mapsto> r1)) = ([], cl') \<and> agree key v cl' (insert a0 ?A - {a0} - pq_base ` set qs) \<and>
      agree key (change v) cl' ({a0} \<union> pq_base ` set qs)"
    using assms(4) r1 ch by (intro deliver_all_change serve) (auto simp: q ms agree_def)
  then show ?thesis using ms q ch(1) by auto
qed

definition lab_node :: "string \<Rightarrow> node" where
  "lab_node name = \<lparr>node_name = name, node_url = ''http://'' @ name @ ''/'', node_added_at = 1, node_description = []\<rparr>"

definition lab :: registry where
  "lab = \<lparr>reg_path = ''nodes.yaml'', reg_file = \<lparr>group_name = ''lab'', group_key = ''k'',
     group_nodes = [lab_node ''a'', lab_node ''b'', lab_node ''c'']\<rparr>, reg_disk = None\<rparr>"

theorem rosters_converge_witness:
  "\<exists>rs ms r1 cl'. delete_node sample_env ''k'' False ''c'' lab = (rs, map Send ms, r1) \<and>
     deliver_all (\<lambda>a. sample_env) (rev ms) ([''http://a'' \<mapsto> lab, ''http://b'' \<mapsto> lab](''http://a'' \<mapsto> r1)) = ([], cl') \<and>
     agree ''k'' ((roster lab)(''c'' := None)) cl' {''http://a'', ''http://b''}"
proof -
  let ?ms = "map (told ''DELETE'' ''/api/v1/nodes/c'' ''k'' None) [lab_node ''a'', lab_node ''b'']"
  let ?cl = "[''http://a'' \<mapsto> lab, ''http://b'' \<mapsto> lab]"
  obtain rs r1 where d: "delete_node sample_env ''k'' False ''c'' lab = (rs, map Send ?ms, r1)" "rs_status rs = 200"
    by (simp add: delete_node_def lab_def lab_node_def verify_key_def remove_node_def reg_save_def sample_env_def
        drop_node_def propagate_remove_def registry_group_key_def others_def registry_nodes_def Let_def
        tell_peer_def told_def address_def trim_right_slash_def ok_def json_response_def)
  have o: "address ` set (others ''c'' lab) = {''http://a'', ''http://b''}"
    by (simp add: others_def registry_nodes_def lab_def lab_node_def address_def trim_right_slash_def)
  have v: "verify_key ''k'' lab" by (simp add: verify_key_def lab_def)
  then have ag: "agree ''k'' (roster lab) ?cl (insert ''http://a'' (address ` set (others ''c'' lab)))"
    by (simp add: o agree_def)
  have "\<exists>cl'. deliver_all (\<lambda>a. sample_env) (rev ?ms) (?cl(''http://a'' \<mapsto> r1)) = ([], cl') \<and>
      agree ''k'' ((roster lab)(''c'' := None)) cl' (insert ''http://a'' (address ` set (others ''c'' lab))) \<and>
      length (rev ?ms) = length (others ''c'' lab)"
    by (rule rosters_converge [OF disjI2 d(2) _ ag, where env = sample_env and ms = ?ms and ?r1.0 = r1])
      (simp_all add: d(1) plain_in_url_def)
  then show ?thesis unfolding o using d(1) by (intro exI [of _ rs] exI [of _ ?ms] exI [of _ r1]) auto
qed

text \<open>The requests are sent by goroutines of their own: nothing keeps two changes in order.\<close>

lemma reordered_changes_diverge:
  assumes "verify_key key r" and "node_name n \<noteq> []" and "node_url n \<noteq> []" and "plain_in_url (node_name n)"
    and "\<And>a. cl a = Some r" and "address x \<noteq> address y"
  defines "add \<equiv> told ''POST'' ''/api/v1/nodes'' key (Some n)"
    and "del \<equiv> told ''DELETE'' (''/api/v1/nodes/'' @ node_name n) key None"
  shows "\<exists>cl' r1 r2. deliver_all envs [add x, del y, del x, add y] cl = ([], cl') \<and>
    cl' (address x) = Some r1 \<and> cl' (address y) = Some r2 \<and>
    roster r1 (node_name n) = None \<and> roster r2 (node_name n) = Some (node_url n)"
proof -
  have p: "pq_base (add x) = address x" "pq_base (del x) = address x" for x by (simp_all add: add_def del_def told_def)
  have a: "serve_peer env (add x) r' = ([], snd (add_node (rx_saves env) (rx_now env) n r'))"
    if "verify_key key r'" for env x r'
    by (rule serve_post [OF _ _ _ _ _ that assms(2,3)]) (simp_all add: add_def told_def)
  have d: "serve_peer env (del x) r' = ([], snd (remove_node (rx_saves env) (node_name n) r'))"
    if "verify_key key r'" for env x r'
    by (rule serve_delete [OF _ _ _ _ that assms(4)]) (simp_all add: del_def told_def)
  show ?thesis using assms(1,5,6)
    by (simp add: p a d add_node_roster(2) [OF assms(2,3)] remove_node_roster(2))
      (simp add: add_node_roster [OF assms(2,3)] remove_node_roster)
qed

text \<open>C27: joining a group through one of its nodes. With the right key, and when that node reaches this one
  at the address it gives, the join is answered with success, this node is in the group with its key, the
  peer admits it after asking it for the key, both then have the same roster, the old one and this node,
  and all others are told. With a wrong key nothing changes on either side.\<close>

theorem join_is_mutual:
  assumes "\<not> has_group rj" and "has_group rp" and "peer \<noteq> []" and "key \<noteq> []"
    and "self_name envj \<noteq> []" and "self_url envj \<noteq> []" and "rx_saves envj" and "rx_saves envp"
    and "post_join envj (Some (get_export key rp)) (Some (peer, key)) rj = (rs, calls, rj')"
    and "rx_group envp (trim_right_slash (self_url envj) @ ''/api/v1/group'') = Some (200, shown_key (get_group envj rj'))"
  shows "(verify_key key rp \<longrightarrow> rs_status rs = 200 \<and> verify_key key rj' \<and>
      registry_group_name rj' = registry_group_name rp \<and> reg_disk rj' = Some (reg_file rj') \<and>
      (\<exists>e rs2 effs rp'. last calls = PostNode (trim_right_slash peer @ ''/api/v1/nodes'') key e \<and>
         post_node envp key False (Some e) rp = (rs2, effs, rp') \<and> rs_status rs2 = 200 \<and>
         roster rj' = (roster rp)(self_name envj \<mapsto> self_url envj) \<and> roster rp' = roster rj' \<and>
         length effs = length (others (self_name envj) rp))) \<and>
    (\<not> verify_key key rp \<longrightarrow> rs_status rs = 403 \<and> rj' = rj \<and> length calls = 1)"
proof (rule conjI; rule impI)
  let ?e = "self_entry envj (rx_now envj)"
  have n: "node_name ?e \<noteq> []" "node_url ?e \<noteq> []" using assms(5,6) by (simp_all add: self_entry_def)
  assume k: "verify_key key rp"
  define r1 where "r1 = rj\<lparr>reg_file := reg_file rp, reg_disk := Some (reg_file rp)\<rparr>"
  have imp: "import_group True (Some (marshal_for_export rp)) rj = (None, r1)"
    using assms(2) by (simp add: import_group_def marshal_for_export_def has_group_def reg_save_def r1_def)
  obtain r2 where add: "add_node True (rx_now envj) ?e r1 = (None, r2)"
    using n by (simp add: add_node_def reg_save_def)
  have same: "reg_file r1 = reg_file rp" by (simp add: r1_def)
  have r2: "roster r2 = (roster rp)(self_name envj \<mapsto> self_url envj)" "verify_key key r2"
    using add_node_roster(1) [OF n, of True "rx_now envj" r1] add_node_roster(2) [OF n, of key True "rx_now envj" r1]
      add k roster_same_file [OF same, of key]
    by (simp_all add: self_entry_def)
  have j: "rs_status rs = 200" "rj' = r2" "last calls = PostNode (trim_right_slash peer @ ''/api/v1/nodes'') key ?e"
    using assms(1,3,4,7,9) k imp add
    by (auto simp: post_join_def join_group_def get_export_def Let_def ok_def json_response_def self_entry_def)
  have f: "group_name (reg_file r2) = group_name (reg_file rp)" "reg_disk r2 = Some (reg_file r2)"
    using add n by (auto simp: add_node_def reg_save_def r1_def split: if_splits)
  have "verify_joining_node envp (node_url ?e) key"
    using assms(10) r2(2) assms(4) by (simp add: verify_joining_node_def self_entry_def j(2) shown_key_def get_group_def
        ok_def json_response_def Let_def registry_group_key_def verify_key_def)
  moreover obtain rp' where p: "add_node True (rx_now envp) ?e rp = (None, rp')"
    using n by (simp add: add_node_def reg_save_def)
  ultimately obtain rs2 effs where post: "post_node envp key False (Some ?e) rp = (rs2, effs, rp')" "rs_status rs2 = 200"
    using k n assms(8) by (simp add: post_node_def ok_def json_response_def)
  from post_node_accepted [OF this] have effs: "length effs = length (others (self_name envj) rp)" "rp' = snd (add_node True (rx_now envp) ?e rp)"
    using others_after(1) [OF n, of True "rx_now envp" rp] assms(8) by (auto simp: self_entry_def)
  have "roster rp' = roster r2"
    using add_node_roster(1) [OF n, of True "rx_now envp" rp] effs(2) r2(1) by (simp add: self_entry_def)
  with j f r2 post effs(1) show "rs_status rs = 200 \<and> verify_key key rj' \<and>
      registry_group_name rj' = registry_group_name rp \<and> reg_disk rj' = Some (reg_file rj') \<and>
      (\<exists>e rs2 effs rp'. last calls = PostNode (trim_right_slash peer @ ''/api/v1/nodes'') key e \<and>
         post_node envp key False (Some e) rp = (rs2, effs, rp') \<and> rs_status rs2 = 200 \<and>
         roster rj' = (roster rp)(self_name envj \<mapsto> self_url envj) \<and> roster rp' = roster rj' \<and>
         length effs = length (others (self_name envj) rp))"
    by (auto simp: registry_group_name_def)
qed (use assms in \<open>auto simp: post_join_def join_group_def get_export_def Let_def api_error_def join_status_def\<close>)

theorem join_is_mutual_witness:
  "\<exists>calls r' e rs2 effs rp'. post_join sample_env (Some (get_export ''k'' lab)) (Some (''http://a'', ''k'')) empty_registry =
       (ok [(''status'', JStr ''joined''), (''group_name'', JStr ''lab'')], calls, r') \<and>
     post_node (sample_env\<lparr>rx_group := \<lambda>url. if url = ''http://mac-1/api/v1/group'' then Some (200, Some ''k'') else None\<rparr>)
       ''k'' False (Some e) lab = (rs2, effs, rp') \<and> rs_status rs2 = 200 \<and> roster rp' = roster r' \<and> length effs = 3"
proof -
  let ?envp = "sample_env\<lparr>rx_group := \<lambda>url. if url = ''http://mac-1/api/v1/group'' then Some (200, Some ''k'') else None\<rparr>"
  obtain calls r' where j: "post_join sample_env (Some (get_export ''k'' lab)) (Some (''http://a'', ''k'')) empty_registry =
      (ok [(''status'', JStr ''joined''), (''group_name'', JStr ''lab'')], calls, r')" "group_key (reg_file r') = ''k''"
    by (simp add: post_join_def join_group_def get_export_def verify_key_def lab_def sample_env_def empty_registry_def
        empty_group_def has_group_def marshal_for_export_def import_group_def reg_save_def add_node_def self_name_def
        self_url_def Let_def)
  have s: "self_name sample_env = ''mac-1''" "self_url sample_env = ''http://mac-1''"
    by (simp_all add: sample_env_def self_name_def self_url_def)
  have g: "rx_group ?envp (trim_right_slash (self_url sample_env) @ ''/api/v1/group'') = Some (200, shown_key (get_group sample_env r'))"
    using j(2) by (simp add: s trim_right_slash_def shown_key_def get_group_def ok_def json_response_def Let_def
        registry_group_key_def)
  have h: "\<not> has_group empty_registry" "has_group lab" "verify_key ''k'' lab" "rx_saves sample_env" "rx_saves ?envp"
    by (simp_all add: has_group_def empty_registry_def empty_group_def lab_def verify_key_def sample_env_def)
  have "length (others ''mac-1'' lab) = 3"
    by (simp add: others_def registry_nodes_def lab_def lab_node_def)
  with join_is_mutual [OF h(1,2) _ _ _ _ h(4,5) j(1) g] s h(3) j(1) show ?thesis by fastforce
qed

text \<open>A node whose address is no URL, which a propagated request may bring in, ends the daemon of whoever
  accepts the next change: the address is turned into a request without a look at the error.\<close>

lemma bad_address_ends_daemon:
  assumes "verify_key key r" and "rx_saves env" and "node_name n \<noteq> []" and "node_url n \<noteq> []"
    and "\<not> rx_url_ok env (address n @ ''/api/v1/nodes'')" and "post_node env key True (Some n) r = (rs, effs, r1)"
    and "node_name m \<noteq> node_name n" and "post_node env key False (Some m) r1 = (rs2, effs2, r2)" and "rs_status rs2 = 200"
  shows "rs_status rs = 200 \<and> NilRequest (address n @ ''/api/v1/nodes'') \<in> set effs2"
proof
  show "rs_status rs = 200"
    using assms(1-4,6) by (auto simp: post_node_def add_node_def reg_save_def ok_def json_response_def)
  have r1: "r1 = snd (add_node True (rx_now env) n r)"
    using assms(1-4,6) by (auto simp: post_node_def add_node_def reg_save_def)
  note acc = post_node_accepted [OF assms(8,9)]
  then have m: "node_name m \<noteq> []" "node_url m \<noteq> []" by blast+
  have "find_node r1 (node_name n) = Some (stored_node (rx_now env) n (find_node r (node_name n)))"
    using assms(3,4) by (simp add: r1 add_node_def reg_save_def find_node_def put_node_find)
  then obtain x where x: "x \<in> set (registry_nodes r1)" "node_name x = node_name n" "address x = address n"
    using row_find_key unfolding find_node_def registry_nodes_def
    by (fastforce simp: address_def stored_node_def)
  then have "x \<in> set (others (node_name m) r2)"
    using acc m assms(7) others_after(1) [OF m, of "rx_saves env" "rx_now env" r1] by (simp add: others_def)
  then have "tell_peer (rx_url_ok env) ''POST'' ''/api/v1/nodes'' key (Some m) x \<in> set effs2" using acc by simp
  with x(3) assms(5) show "NilRequest (address n @ ''/api/v1/nodes'') \<in> set effs2"
    by (simp add: tell_peer_def address_def [symmetric] Let_def)
qed

end
