(* ===== verification/Sdk.thy ===== *)
theory Sdk
  imports Avd "HOL-Library.List_Lexorder" "HOL-Library.Char_ord"
begin

text \<open>
  \<^verbatim>\<open>internal/android/sdk.go\<close>, the Android SDK on the host and what its tools list, and
  \<^verbatim>\<open>cmd/create.go\<close>, the command that sets a farm up. The host is the record \<open>sdk_host\<close>: environment
  variables, existing files, the search path, the home directory. Texts are valid UTF-8.
\<close>

record sdk_host =
  sx_env :: "string \<Rightarrow> string"
  sx_stat :: "string \<Rightarrow> bool"
  sx_look :: "string \<Rightarrow> string option"
  sx_home :: string
  sx_darwin :: bool

text \<open>The global \<^verbatim>\<open>resolvedPaths\<close>.\<close>

record resolved_paths =
  rv_adb :: string
  rv_avdmanager :: string
  rv_emulator :: string
  rv_sdkmanager :: string

definition set_resolved_paths :: "string \<Rightarrow> string \<Rightarrow> string \<Rightarrow> string \<Rightarrow> resolved_paths" where
  "set_resolved_paths adb avd emu sdk =
     \<lparr>rv_adb = adb, rv_avdmanager = avd, rv_emulator = emu, rv_sdkmanager = sdk\<rparr>"

subsection \<open>Where the SDK is\<close>

definition sdk_above :: "sdk_host \<Rightarrow> string \<Rightarrow> string \<Rightarrow> string option" where
  "sdk_above x tool dir =
     (case sx_look x tool of
        None \<Rightarrow> None
      | Some p \<Rightarrow> (let root = path_dir (path_dir p)
                  in if sx_stat x (path_join [root, dir]) then Some root else None))"

definition common_roots :: "sdk_host \<Rightarrow> string list" where
  "common_roots x =
     [path_join [sx_home x, ''Library'', ''Android'', ''sdk''], path_join [sx_home x, ''Android'', ''Sdk''],
      ''/Library/Android/sdk'', ''/opt/android-sdk'', ''/usr/local/android-sdk'']"

definition detect_sdk :: "sdk_host \<Rightarrow> string option" where
  "detect_sdk x =
     (case List.find (\<lambda>r. r \<noteq> [] \<and> sx_stat x r) [sx_env x ''ANDROID_HOME'', sx_env x ''ANDROID_SDK_ROOT''] of
        Some r \<Rightarrow> Some r
      | None \<Rightarrow> (case sdk_above x ''adb'' ''platform-tools'' of
            Some r \<Rightarrow> Some r
          | None \<Rightarrow> (case sdk_above x ''emulator'' ''emulator'' of
                Some r \<Rightarrow> Some r
              | None \<Rightarrow> List.find (sx_stat x) (common_roots x))))"

definition fallback_find :: "sdk_host \<Rightarrow> string \<Rightarrow> string" where
  "fallback_find x name =
     (case sx_look x name of
        Some p \<Rightarrow> p
      | None \<Rightarrow> (case List.find (sx_stat x)
            [''/opt/homebrew/bin/'' @ name, ''/usr/local/bin/'' @ name,
             ''/opt/homebrew/share/android-commandlinetools/cmdline-tools/latest/bin/'' @ name] of
              Some p \<Rightarrow> p | None \<Rightarrow> []))"

definition tool_path :: "sdk_host \<Rightarrow> string \<Rightarrow> string list \<Rightarrow> string \<Rightarrow> string \<Rightarrow> string" where
  "tool_path x root dirs name resolved =
     (if resolved \<noteq> [] then resolved
      else (let p = path_join (root # dirs @ [name]) in if sx_stat x p then p else fallback_find x name))"

definition adb_tool :: "sdk_host \<Rightarrow> resolved_paths \<Rightarrow> string \<Rightarrow> string" where
  "adb_tool x rv root = tool_path x root [''platform-tools''] ''adb'' (rv_adb rv)"

definition avdmanager_tool :: "sdk_host \<Rightarrow> resolved_paths \<Rightarrow> string \<Rightarrow> string" where
  "avdmanager_tool x rv root =
     tool_path x root [''cmdline-tools'', ''latest'', ''bin''] ''avdmanager'' (rv_avdmanager rv)"

definition emulator_tool :: "sdk_host \<Rightarrow> resolved_paths \<Rightarrow> string \<Rightarrow> string" where
  "emulator_tool x rv root = tool_path x root [''emulator''] ''emulator'' (rv_emulator rv)"

definition sdkmanager_tool :: "sdk_host \<Rightarrow> resolved_paths \<Rightarrow> string \<Rightarrow> string" where
  "sdkmanager_tool x rv root =
     tool_path x root [''cmdline-tools'', ''latest'', ''bin''] ''sdkmanager'' (rv_sdkmanager rv)"

definition platform_tools_dir :: "string \<Rightarrow> string" where
  "platform_tools_dir root = path_join [root, ''platform-tools'']"

definition host_gpu_supported :: "sdk_host \<Rightarrow> bool" where "host_gpu_supported x = sx_darwin x"

text \<open>\<^verbatim>\<open>Validate\<close>: the required tools that are missing; the error names one of them, as the random order of
  the map has it.\<close>

definition missing_tools :: "sdk_host \<Rightarrow> resolved_paths \<Rightarrow> string \<Rightarrow> string list" where
  "missing_tools x rv root = map fst (filter (\<lambda>(name, path). path = [])
     [(''adb'', adb_tool x rv root), (''emulator'', emulator_tool x rv root)])"

subsection \<open>System images\<close>

definition split_semicolon :: "string \<Rightarrow> string list" where
  "split_semicolon s =
     (let ws = split_on (CHR '';'') s in if last ws = [] then butlast ws else ws)"

text \<open>\<^verbatim>\<open>filepath.SplitList\<close> cuts at colons and gives nothing only for the empty text.\<close>

definition split_list :: "string \<Rightarrow> string list" where
  "split_list s = (if s = [] then [] else split_on (CHR '':'') s)"

definition system_image_installed :: "sdk_host \<Rightarrow> string \<Rightarrow> string \<Rightarrow> bool" where
  "system_image_installed x root img =
     (if split_list img = [] then sx_stat x (path_join [root, path_join (split_semicolon img)]) else False)"

record system_image =
  si_path :: string
  si_api :: string
  si_variant :: string
  si_arch :: string

definition package_path :: "string \<Rightarrow> string option" where
  "package_path line =
     (let l = trim_space line
      in if has_prefix l ''system-images;'' then Some (trim_space (takeWhile (\<lambda>c. c \<noteq> CHR ''|'') l)) else None)"

definition image_of :: "string \<Rightarrow> system_image option" where
  "image_of path =
     (case split_semicolon path of
        [k, api, variant, arch] \<Rightarrow> Some \<lparr>si_path = path, si_api = api, si_variant = variant, si_arch = arch\<rparr>
      | _ \<Rightarrow> None)"

definition parse_installed :: "string \<Rightarrow> system_image list" where
  "parse_installed out = List.map_filter (\<lambda>l. Option.bind (package_path l) image_of) (split_on nl out)"

definition arm64 :: string where "arm64 = ''arm64-v8a''"

fun available_from :: "string set \<Rightarrow> string list \<Rightarrow> system_image list" where
  "available_from seen [] = []"
| "available_from seen (l # ls) =
     (case package_path l of
        None \<Rightarrow> available_from seen ls
      | Some p \<Rightarrow>
          if p \<in> seen then available_from seen ls
          else (case image_of p of
                  None \<Rightarrow> available_from (insert p seen) ls
                | Some i \<Rightarrow> (if si_arch i = arm64 then [i] else []) @ available_from (insert p seen) ls))"

definition parse_available :: "string \<Rightarrow> system_image list" where
  "parse_available out = available_from {} (split_on nl out)"

definition list_installed_images :: "adb_client \<Rightarrow> string \<Rightarrow> system_image list option io" where
  "list_installed_images c sdkmanager = do {
     out \<leftarrow> run_cmd c [sdkmanager, ''--list_installed''];
     State_Monad.return (map_option parse_installed out) }"

definition list_available_images :: "adb_client \<Rightarrow> string \<Rightarrow> system_image list option io" where
  "list_available_images c sdkmanager = do {
     out \<leftarrow> run_cmd c [sdkmanager, ''--list''];
     State_Monad.return (map_option parse_available out) }"

definition list_installed_devices :: "adb_client \<Rightarrow> string \<Rightarrow> string list option io" where
  "list_installed_devices c avdmanager = do {
     out \<leftarrow> run_cmd c [avdmanager, ''list'', ''device'', ''-c''];
     State_Monad.return (map_option (\<lambda>t. filter (\<lambda>l. l \<noteq> []) (map trim_space (split_on nl t))) out) }"

subsection \<open>The command create: what it chooses\<close>

text \<open>\<open>sorter\<close> stands for \<^verbatim>\<open>sort.Slice\<close> by falling API name; \<open>wanted\<close> is the flag, empty when not given.\<close>

definition pick_image :: "(system_image list \<Rightarrow> system_image list) \<Rightarrow> string \<Rightarrow> system_image list \<Rightarrow> system_image option" where
  "pick_image sorter wanted arms =
     (if wanted \<noteq> [] then List.find (\<lambda>i. si_path i = wanted \<or> contains_str (si_path i) wanted) arms
      else Some (hd (sorter arms)))"

definition preferred_devices :: "string list" where
  "preferred_devices = [''pixel_7'', ''pixel_8'', ''pixel_6'', ''pixel_5'', ''medium_phone'']"

definition pick_device :: "string \<Rightarrow> string list \<Rightarrow> string" where
  "pick_device wanted devices =
     (if wanted \<noteq> [] then wanted
      else case List.find (\<lambda>p. p \<in> set devices) preferred_devices of
             Some p \<Rightarrow> p
           | None \<Rightarrow> (case devices of [] \<Rightarrow> ''pixel_7'' | d # _ \<Rightarrow> d))"

text \<open>The memory is that of \<^verbatim>\<open>sysctl\<close> in GB, 0 on other systems or when the tool fails.\<close>

definition recommended_count :: "int \<Rightarrow> int \<Rightarrow> int" where
  "recommended_count ram_gb cpus =
     (let usable = max 0 (ram_gb - 4);
          by_ram = usable * 1000 div 2500;
          by_cpu = max 1 (cpus div 2)
      in min 10 (max 2 (min by_ram by_cpu)))"

function replace_all :: "string \<Rightarrow> string \<Rightarrow> string \<Rightarrow> string" where
  "replace_all old new s =
     (if s = [] then []
      else if old \<noteq> [] \<and> has_prefix s old then new @ replace_all old new (drop (length old) s)
      else hd s # replace_all old new (tl s))"
  by pat_completeness auto
termination by (relation "measure (\<lambda>(old, new, s). length s)") auto

declare replace_all.simps [simp del]

definition sanitize_profile_name :: "string \<Rightarrow> string \<Rightarrow> string" where
  "sanitize_profile_name api variant =
     replace_char (CHR ''-'') (CHR ''_'') (replace_all ''android-'' ''api'' api) @
     (if contains_str variant ''playstore'' then ''_play'' else [])"

definition config_to_profile :: "string \<Rightarrow> string \<Rightarrow> android_profile" where
  "config_to_profile dev img =
     \<lparr>prof_device = dev, prof_system_image = img, ram_mb = 2048, heap_mb = 0, disk_size_mb = 0, gpu = [],
      prof_snapshot = False, boot_timeout_seconds = 0\<rparr>"

subsection \<open>The configuration it writes\<close>

definition quote_char :: char where "quote_char = CHR 0x27"

definition config_lines :: "string \<Rightarrow> string \<Rightarrow> string \<Rightarrow> int \<Rightarrow> string list" where
  "config_lines profile dev img n =
     [''# drizz-farm configuration'',
      ''# Generated by '' @ [quote_char] @ ''drizz-farm create'' @ [quote_char],
      ''# Based on detected system images and hardware capacity'', [], ''node:'',
      ''  name: \"\"  # auto-detected from hostname'', ''  log_level: \"info\"'', [], ''pool:'',
      ''  max_concurrent: '' @ itoa n, ''  session_timeout_minutes: 60'',
      ''  session_max_duration_minutes: 180'', ''  queue_max_size: 20'', ''  queue_timeout_seconds: 300'',
      ''  port_range_min: 5554'', ''  port_range_max: 5700'', [], ''  warmup:'',
      ''    - profile: \"'' @ profile @ ''\"'', ''      count: '' @ itoa n, [], ''  profiles:'',
      ''    android:'', ''      '' @ profile @ '':'', ''        device: \"'' @ dev @ ''\"'',
      ''        system_image: \"'' @ img @ ''\"'', ''        ram_mb: 2048'', ''        heap_mb: 512'',
      ''        disk_size_mb: 4096'', ''        gpu: \"host\"'', ''        snapshot: true'',
      ''        boot_timeout_seconds: 120'', [], ''api:'', ''  host: \"0.0.0.0\"'', ''  port: 9401'',
      ''  grpc_port: 9400'', [], ''network:'', ''  allowed_cidrs:'', ''    - \"192.168.0.0/16\"'',
      ''    - \"10.0.0.0/8\"'', ''    - \"172.16.0.0/12\"'', ''    - \"127.0.0.0/8\"'', ''  mdns:'',
      ''    enabled: true'', ''    service_type: \"_drizz-farm._tcp\"'', [], ''health_check:'',
      ''  interval_seconds: 15'', ''  unhealthy_threshold: 3'', [], ''cleanup:'',
      ''  on_session_end: \"snapshot_restore\"'', ''  orphan_check_interval_seconds: 60'',
      ''  disk_cleanup_threshold_gb: 20'', [], ''artifacts:'', ''  video_recording: true'',
      ''  screenshot_on_failure: true'', ''  logcat_capture: true'', ''  network_har_capture: false'',
      ''  retention_days: 30'']"

definition build_config :: "string \<Rightarrow> string \<Rightarrow> string \<Rightarrow> int \<Rightarrow> string" where
  "build_config profile dev img n = concat (map (\<lambda>l. l @ [nl]) (config_lines profile dev img n))"

subsection \<open>The command create\<close>

record create_flags =
  cf_force :: bool
  cf_count :: int
  cf_image :: string
  cf_device :: string

record create_env =
  ce_host :: sdk_host
  ce_paths :: resolved_paths
  ce_client :: adb_client
  ce_fs :: avd_fs
  ce_sorter :: "system_image list \<Rightarrow> system_image list"
  ce_ram_gb :: int
  ce_cpus :: int
  ce_dirs_ok :: bool
  ce_config_ok :: bool

datatype avd_outcome = Kept | Made | NotMade

datatype create_outcome = NoSdk | ToolsMissing "string list" | ImagesUnlisted | NoArmImage | UnknownImage
  | DevicesUnlisted | DirsFailed | ConfigExists | ConfigUnwritten | FarmMade string "(string \<times> avd_outcome) list"

fun create_avds ::
  "adb_client \<Rightarrow> string \<Rightarrow> avd_fs \<Rightarrow> bool \<Rightarrow> string \<Rightarrow> android_profile \<Rightarrow> nat list \<Rightarrow>
   (string \<times> avd_outcome) list io" where
  "create_avds c avdmanager fs force profile prof [] = State_Monad.return []"
| "create_avds c avdmanager fs force profile prof (i # is) =
     (let name = avd_file_name profile (int i)
      in if avd_exists fs name = Some True \<and> \<not> force
         then do { rest \<leftarrow> create_avds c avdmanager fs force profile prof is;
                   State_Monad.return ((name, Kept) # rest) }
         else do { made \<leftarrow> avd_create c avdmanager None name prof;
                   rest \<leftarrow> create_avds c avdmanager fs force profile prof is;
                   State_Monad.return ((name, if made then Made else NotMade) # rest) })"

definition config_file :: "sdk_host \<Rightarrow> string" where
  "config_file x = path_join [sx_home x, ''.drizz-farm'', ''config.yaml'']"

text \<open>From the choice of the image on.\<close>

definition create_farm :: "create_env \<Rightarrow> create_flags \<Rightarrow> string \<Rightarrow> system_image \<Rightarrow> create_outcome io" where
  "create_farm env fl avdmanager img = do {
     devices \<leftarrow> list_installed_devices (ce_client env) avdmanager;
     case devices of
       None \<Rightarrow> State_Monad.return DevicesUnlisted
     | Some ds \<Rightarrow>
         (let dev = pick_device (cf_device fl) ds;
              n = (if cf_count fl = 0 then recommended_count (ce_ram_gb env) (ce_cpus env) else cf_count fl);
              profile = sanitize_profile_name (si_api img) (si_variant img)
          in if \<not> ce_dirs_ok env then State_Monad.return DirsFailed
             else if sx_stat (ce_host env) (config_file (ce_host env)) \<and> \<not> cf_force fl
             then State_Monad.return ConfigExists
             else if \<not> ce_config_ok env then State_Monad.return ConfigUnwritten
             else do {
               rs \<leftarrow> create_avds (ce_client env) avdmanager (ce_fs env) (cf_force fl) profile
                 (config_to_profile dev (si_path img)) [0..<nat n];
               State_Monad.return (FarmMade (build_config profile dev (si_path img) n) rs) }) }"

definition run_create :: "create_env \<Rightarrow> create_flags \<Rightarrow> create_outcome io" where
  "run_create env fl =
     (case detect_sdk (ce_host env) of
        None \<Rightarrow> State_Monad.return NoSdk
      | Some root \<Rightarrow>
          if missing_tools (ce_host env) (ce_paths env) root \<noteq> []
          then State_Monad.return (ToolsMissing (missing_tools (ce_host env) (ce_paths env) root))
          else do {
            images \<leftarrow> list_installed_images (ce_client env) (sdkmanager_tool (ce_host env) (ce_paths env) root);
            case images of
              None \<Rightarrow> State_Monad.return ImagesUnlisted
            | Some is \<Rightarrow>
                (let arms = filter (\<lambda>i. si_arch i = arm64) is
                 in if arms = [] then State_Monad.return NoArmImage
                    else case pick_image (ce_sorter env) (cf_image fl) arms of
                           None \<Rightarrow> State_Monad.return UnknownImage
                         | Some img \<Rightarrow>
                             create_farm env fl (avdmanager_tool (ce_host env) (ce_paths env) root) img) })"

subsection \<open>What the tools list\<close>

text \<open>A line of \<^verbatim>\<open>sdkmanager\<close> as it prints an installed or available package.\<close>

definition image_ok :: "system_image \<Rightarrow> bool" where
  "image_ok i \<longleftrightarrow>
     si_path i = join_with '';'' [''system-images'', si_api i, si_variant i, si_arch i] \<and> si_arch i \<noteq> [] \<and>
     (\<forall>w \<in> {si_api i, si_variant i, si_arch i}. \<forall>ch \<in> set w. ch \<noteq> CHR '';'' \<and> ch \<noteq> CHR ''|'' \<and> \<not> is_space ch)"

definition image_row :: "nat \<times> system_image \<times> string \<Rightarrow> string" where
  "image_row = (\<lambda>(pad, i, rest). replicate pad (CHR '' '') @ si_path i @ '' |'' @ rest)"

lemma image_path_chars:
  assumes "image_ok i" and "ch \<in> set (si_path i)"
  shows "ch \<noteq> CHR ''|'' \<and> \<not> is_space ch"
proof -
  have "set (si_path i) = set ''system-images;'' \<union> set (si_api i) \<union> set (si_variant i) \<union> set (si_arch i)"
    using assms(1) by (auto simp: image_ok_def)
  then consider "ch \<in> set ''system-images;''" | "ch \<in> set (si_api i) \<union> set (si_variant i) \<union> set (si_arch i)"
    using assms(2) by blast
  then show ?thesis
  proof cases
    case 1
    then show ?thesis by (auto simp: is_space_def)
  next
    case 2
    then show ?thesis using assms(1) unfolding image_ok_def by blast
  qed
qed

lemma trim_space_blank:
  assumes "w \<noteq> []" and "\<not> is_space (hd w)" and "\<not> is_space (last w)"
  shows "trim_space (w @ '' '') = w"
proof -
  have "dropWhile is_space (w @ '' '') = w @ '' ''" using assms by (cases w) simp_all
  moreover have "dropWhile is_space (rev w) = rev w" using assms by (cases w rule: rev_cases) simp_all
  ultimately show ?thesis by (simp add: trim_space_def) (simp add: is_space_def)
qed

lemma image_of_path: "image_ok i \<Longrightarrow> image_of (si_path i) = Some i"
proof -
  assume i: "image_ok i"
  then have "list_all (\<lambda>w. CHR '';'' \<notin> set w) [''system-images'', si_api i, si_variant i, si_arch i]"
    by (auto simp: image_ok_def)
  then have "split_on (CHR '';'') (si_path i) = [''system-images'', si_api i, si_variant i, si_arch i]"
    using i split_on_join [of "[''system-images'', si_api i, si_variant i, si_arch i]" "CHR '';''"]
    by (simp add: image_ok_def)
  with i show ?thesis by (simp add: image_of_def split_semicolon_def image_ok_def)
qed

lemma package_path_row:
  assumes "image_ok i"
  shows "package_path (image_row (pad, i, rest)) = Some (si_path i)"
proof -
  let ?p = "si_path i"
  obtain t where p: "?p = ''system-images;'' @ t"
    using assms by (auto simp: image_ok_def)
  have "dropWhile is_space (image_row (pad, i, rest)) = ?p @ '' |'' @ rest"
    by (induction pad) (simp_all add: image_row_def p is_space_def)
  moreover have "\<exists>r. rev (dropWhile is_space (rev (?p @ '' |'' @ rest))) = ?p @ '' |'' @ r"
  proof -
    have "\<exists>r. dropWhile is_space (rev rest @ rev (?p @ '' |'')) = r @ rev (?p @ '' |'')"
      by (induction "rev rest") (auto simp: is_space_def dropWhile_append)
    then obtain r where "dropWhile is_space (rev rest @ rev (?p @ '' |'')) = r @ rev (?p @ '' |'')" by blast
    then show ?thesis by (intro exI [of _ "rev r"]) simp
  qed
  ultimately obtain r where t: "trim_space (image_row (pad, i, rest)) = ?p @ '' |'' @ r"
    by (auto simp: trim_space_def)
  have "takeWhile (\<lambda>ch. ch \<noteq> CHR ''|'') (?p @ '' |'' @ r) = ?p @ '' ''"
    using image_path_chars [OF assms] by (simp add: takeWhile_append2)
  moreover have "trim_space (?p @ '' '') = ?p"
    using p image_path_chars [OF assms] last_in_set [of ?p]
    by (intro trim_space_blank) (auto simp: is_space_def)
  moreover have "has_prefix (?p @ '' |'' @ r) ''system-images;''"
    using has_prefix_append [of "''system-images;''" "t @ '' |'' @ r"] by (simp only: p append_assoc)
  ultimately show ?thesis by (simp only: package_path_def t Let_def if_True)
qed

lemma in_map_filter: "x \<in> set (List.map_filter f ys) \<longleftrightarrow> (\<exists>y \<in> set ys. f y = Some x)"
  by (induction ys) (auto simp: map_filter_simps split: option.split)

lemma image_of_keeps_path: "image_of p = Some i \<Longrightarrow> si_path i = p"
  by (auto simp: image_of_def split: list.splits)

lemma available_from_result:
  "set (available_from seen ls) = {i. \<exists>l \<in> set ls. \<exists>p. package_path l = Some p \<and> p \<notin> seen \<and>
     image_of p = Some i \<and> si_arch i = arm64} \<and> distinct (map si_path (available_from seen ls))"
proof (induction ls arbitrary: seen)
  case (Cons l ls)
  show ?case
  proof (cases "package_path l")
    case None
    with Cons show ?thesis by simp
  next
    case (Some p)
    show ?thesis
    proof (cases "p \<in> seen")
      case True
      with Some Cons [of seen] show ?thesis by auto
    next
      case False
      have "p \<notin> si_path ` set (available_from (insert p seen) ls)"
        using Cons [of "insert p seen"] image_of_keeps_path by auto
      then have "distinct (map si_path (available_from seen (l # ls)))"
        using Some False Cons [of "insert p seen"] by (auto split: option.split dest: image_of_keeps_path)
      moreover have "set (available_from seen (l # ls)) =
          {i. image_of p = Some i \<and> si_arch i = arm64} \<union> set (available_from (insert p seen) ls)"
        using Some False by (auto split: option.split)
      moreover have "{i. \<exists>l' \<in> set (l # ls). \<exists>q. package_path l' = Some q \<and> q \<notin> seen \<and> image_of q = Some i \<and> si_arch i = arm64} =
          {i. image_of p = Some i \<and> si_arch i = arm64} \<union>
          {i. \<exists>l' \<in> set ls. \<exists>q. package_path l' = Some q \<and> q \<notin> insert p seen \<and> image_of q = Some i \<and> si_arch i = arm64}"
        using Some False by auto
      ultimately show ?thesis using Cons [of "insert p seen"] by simp
    qed
  qed
qed simp

definition listing_line :: "string + nat \<times> system_image \<times> string \<Rightarrow> string" where
  "listing_line e = (case e of Inl other \<Rightarrow> other | Inr row \<Rightarrow> image_row row)"

definition listed_image :: "string + nat \<times> system_image \<times> string \<Rightarrow> system_image option" where
  "listed_image e = (case e of Inl other \<Rightarrow> None | Inr (pad, i, rest) \<Rightarrow> Some i)"

text \<open>The listings of \<^verbatim>\<open>sdkmanager\<close> are read back: of lines as it prints packages, whatever the indent,
  the other columns and the lines between them, exactly the system images come out, in order. Of any
  output at all, the downloadable images are those of them for arm64, each once.\<close>

theorem image_listing_read_back:
  assumes "\<And>pad i rest. Inr (pad, i, rest) \<in> set es \<Longrightarrow> image_ok i \<and> nl \<notin> set rest"
    and "\<And>other. Inl other \<in> set es \<Longrightarrow> package_path other = None \<and> nl \<notin> set other" and "es \<noteq> []"
  shows "parse_installed (join_with [nl] (map listing_line es)) = List.map_filter listed_image es \<and>
    set (parse_available out) = {i \<in> set (parse_installed out). si_arch i = arm64} \<and>
    distinct (map si_path (parse_available out))"
proof (intro conjI)
  have "nl \<notin> set (listing_line e)" if "e \<in> set es" for e
  proof (cases e)
    case (Inl other)
    with that assms(2) show ?thesis by (simp add: listing_line_def)
  next
    case (Inr row)
    obtain pad i rest where r: "row = (pad, i, rest)" by (cases row) auto
    with that Inr assms(1) have "image_ok i" "nl \<notin> set rest" by blast+
    with image_path_chars [of i nl] show ?thesis by (auto simp: Inr r listing_line_def image_row_def nl_def is_space_def)
  qed
  then have "split_on nl (join_with [nl] (map listing_line es)) = map listing_line es"
    using assms(3) by (intro split_on_join) (auto simp: list_all_iff)
  moreover have "Option.bind (package_path (listing_line e)) image_of = listed_image e" if "e \<in> set es" for e
  proof (cases e)
    case (Inl other)
    with that assms(2) show ?thesis by (simp add: listing_line_def listed_image_def)
  next
    case (Inr row)
    obtain pad i rest where r: "row = (pad, i, rest)" by (cases row) auto
    with that Inr assms(1) have "image_ok i" by blast
    then show ?thesis by (simp add: Inr r listing_line_def listed_image_def package_path_row image_of_path)
  qed
  then have "List.map_filter (\<lambda>l. Option.bind (package_path l) image_of) (map listing_line es) =
      List.map_filter listed_image es" by (induction es) (auto simp: map_filter_simps split: option.split)
  ultimately show "parse_installed (join_with [nl] (map listing_line es)) = List.map_filter listed_image es"
    by (simp add: parse_installed_def)
  show "distinct (map si_path (parse_available out))"
    using available_from_result by (simp add: parse_available_def)
  have "i \<in> set (parse_installed out) \<longleftrightarrow> (\<exists>l \<in> set (split_on nl out). \<exists>p. package_path l = Some p \<and> image_of p = Some i)" for i
    by (auto simp: parse_installed_def in_map_filter bind_eq_Some_conv)
  then show "set (parse_available out) = {i \<in> set (parse_installed out). si_arch i = arm64}"
    using available_from_result [of "{}" "split_on nl out"] by (auto simp: parse_available_def)
qed

theorem image_listing_read_back_witness:
  "parse_installed (join_with [nl] (map listing_line [Inl ''Installed packages:'',
     Inr (2, \<lparr>si_path = ''system-images;android-35;google_apis;arm64-v8a'', si_api = ''android-35'',
        si_variant = ''google_apis'', si_arch = ''arm64-v8a''\<rparr>, '' 9 | Image'')])) =
   [\<lparr>si_path = ''system-images;android-35;google_apis;arm64-v8a'', si_api = ''android-35'',
     si_variant = ''google_apis'', si_arch = ''arm64-v8a''\<rparr>]"
proof -
  let ?i = "\<lparr>si_path = ''system-images;android-35;google_apis;arm64-v8a'', si_api = ''android-35'',
     si_variant = ''google_apis'', si_arch = ''arm64-v8a''\<rparr>"
  let ?es = "[Inl ''Installed packages:'', Inr (2, ?i, '' 9 | Image'')]"
  have i: "image_ok ?i" by (simp add: image_ok_def is_space_def)
  have o: "package_path ''Installed packages:'' = None \<and> nl \<notin> set ''Installed packages:''"
    by (simp add: package_path_def trim_space_def is_space_def has_prefix_def nl_def)
  have r: "nl \<notin> set '' 9 | Image''" by (simp add: nl_def)
  have "parse_installed (join_with [nl] (map listing_line ?es)) = List.map_filter listed_image ?es"
    using image_listing_read_back [of ?es "[]"] i o r by auto
  then show ?thesis by (simp add: listed_image_def map_filter_simps)
qed

text \<open>\<^verbatim>\<open>SystemImageInstalled\<close> cuts at the separator of search paths, not at semicolons: of every image it
  says that it is not installed.\<close>

lemma no_image_is_installed: "img \<noteq> [] \<Longrightarrow> \<not> system_image_installed x root img"
  by (simp add: system_image_installed_def split_list_def)

text \<open>Newest first is by the text of the API level: 9 comes before 35.\<close>

lemma newest_by_text:
  assumes "\<And>xs. mset (sorter xs) = mset xs \<and> sorted_wrt (\<lambda>i j. si_api j \<le> si_api i) (sorter xs)"
    and "si_api old = ''android-9''" and "si_api new = ''android-35''"
  shows "pick_image sorter [] [new, old] = Some old"
proof -
  have m: "mset (sorter [new, old]) = {#new, old#}" "sorted_wrt (\<lambda>i j. si_api j \<le> si_api i) (sorter [new, old])"
    using assms(1) [of "[new, old]"] by simp_all
  have "size (mset (sorter [new, old])) = 2" by (simp add: m(1))
  then have "\<exists>a b. sorter [new, old] = [a, b]" by (simp add: numeral_2_eq_2 length_Suc_conv) blast
  then obtain a b where ab: "sorter [new, old] = [a, b]" by blast
  have lt: "''android-35'' < (''android-9'' :: string)" by (simp add: less_char_def)
  have "{#a, b#} = {#new, old#}" using m(1) ab by simp
  then have "(a = new \<and> b = old) \<or> (a = old \<and> b = new)" by (auto simp: add_eq_conv_ex)
  moreover have "si_api b \<le> si_api a" using m(2) ab by simp
  ultimately have "a = old" using lt assms(2,3) by auto
  then show ?thesis by (simp add: pick_image_def ab)
qed

subsection \<open>What create does\<close>

definition create_command :: "string \<Rightarrow> string \<Rightarrow> string \<Rightarrow> string \<times> avd_outcome \<Rightarrow> cmd" where
  "create_command avdmanager img dev r = [avdmanager, ''create'', ''avd'', ''--name'', fst r, ''--package'', img, ''--device'', dev]"

lemma create_avds_result:
  assumes "run_state (create_avds c m fs force profile prof is) h = (rs, h')"
    and "prof_system_image prof \<noteq> []" and "prof_device prof \<noteq> []"
  shows "map fst rs = map (\<lambda>i. avd_file_name profile (int i)) is \<and>
    h' = h @ map (create_command m (prof_system_image prof) (prof_device prof)) (filter (\<lambda>r. snd r \<noteq> Kept) rs) \<and>
    (\<forall>r \<in> set rs. snd r = Kept \<longleftrightarrow> avd_exists fs (fst r) = Some True \<and> \<not> force)"
  using assms(1)
proof (induction "is" arbitrary: h rs h')
  case (Cons i "is")
  let ?name = "avd_file_name profile (int i)" and ?kept = "avd_exists fs (avd_file_name profile (int i)) = Some True \<and> \<not> force"
  let ?cmd = "create_command m (prof_system_image prof) (prof_device prof) (?name, Made)"
  obtain rs1 h1 where rec: "run_state (create_avds c m fs force profile prof is) (if ?kept then h else h @ [?cmd]) = (rs1, h1)"
    by fastforce
  have "rs = (?name, if ?kept then Kept else if run_oracle c h ?cmd \<noteq> None then Made else NotMade) # rs1 \<and> h' = h1"
    using Cons.prems rec assms(2,3) by (auto simp: Let_def avd_create_def create_command_def split: if_splits)
  with Cons.IH [OF rec] show ?case by (auto simp: create_command_def)
qed simp

lemma avd_file_name_inj: "avd_file_name p (int i) = avd_file_name p (int j) \<longleftrightarrow> i = j"
  by (simp add: avd_file_name_def itoa_def)

lemma installed_path: "i \<in> set (parse_installed out) \<Longrightarrow> si_path i \<noteq> []"
proof -
  assume "i \<in> set (parse_installed out)"
  then obtain l where "package_path l = Some (si_path i)"
    using image_of_keeps_path by (fastforce simp: parse_installed_def in_map_filter bind_eq_Some_conv)
  then have l: "has_prefix (trim_space l) ''system-images;''"
    "si_path i = trim_space (takeWhile (\<lambda>c. c \<noteq> CHR ''|'') (trim_space l))"
    by (auto simp: package_path_def Let_def split: if_splits)
  then obtain t where "trim_space l = ''system-images;'' @ t" by (auto simp: has_prefix_iff)
  then have "si_path i = trim_space (''system-images;'' @ takeWhile (\<lambda>c. c \<noteq> CHR ''|'') t)" using l(2) by simp
  moreover have "dropWhile is_space (rev u @ rev ''system-images;'') \<noteq> []" for u
    by (simp add: dropWhile_eq_Nil_conv is_space_def)
  moreover have "dropWhile is_space (''system-images;'' @ u) = ''system-images;'' @ u" for u by (simp add: is_space_def)
  ultimately show ?thesis by (simp add: trim_space_def)
qed

lemma recommended_bounds: "2 \<le> recommended_count ram cpus \<and> recommended_count ram cpus \<le> 10"
  by (simp add: recommended_count_def Let_def)

lemma pick_device_nonempty: "\<forall>d \<in> set ds. d \<noteq> [] \<Longrightarrow> pick_device wanted ds \<noteq> []"
  by (auto simp: pick_device_def preferred_devices_def split: option.split list.split dest!: find_SomeD)

lemma pick_image_in:
  assumes "pick_image sorter wanted xs = Some img" and "xs \<noteq> []" and "mset (sorter xs) = mset xs"
  shows "img \<in> set xs"
proof (cases "wanted = []")
  case True
  from assms(2,3) have "set (sorter xs) = set xs" "sorter xs \<noteq> []" by (metis set_mset_mset, metis mset_zero_iff)
  moreover from True assms(1) have "img = hd (sorter xs)" by (simp add: pick_image_def)
  ultimately show ?thesis using hd_in_set by metis
next
  case False
  with assms(1) have "List.find (\<lambda>i. si_path i = wanted \<or> contains_str (si_path i) wanted) xs = Some img"
    by (simp add: pick_image_def)
  from find_SomeD [OF this] show ?thesis by blast
qed

definition made_farm ::
  "create_env \<Rightarrow> create_flags \<Rightarrow> string \<Rightarrow> system_image \<Rightarrow> string \<Rightarrow> (string \<times> avd_outcome) list \<Rightarrow> cmd list \<Rightarrow> bool" where
  "made_farm env fl m img conf rs cs \<longleftrightarrow> (\<exists>dev n profile.
     profile = sanitize_profile_name (si_api img) (si_variant img) \<and> conf = build_config profile dev (si_path img) n \<and>
     (if cf_count fl = 0 then 2 \<le> n \<and> n \<le> 10 else n = cf_count fl) \<and>
     map fst rs = map (\<lambda>i. avd_file_name profile (int i)) [0..<nat n] \<and> distinct (map fst rs) \<and>
     (\<forall>r \<in> set rs. snd r = Kept \<longleftrightarrow> avd_exists (ce_fs env) (fst r) = Some True \<and> \<not> cf_force fl) \<and>
     (sx_stat (ce_host env) (config_file (ce_host env)) \<longrightarrow> cf_force fl) \<and>
     cs = [m, ''list'', ''device'', ''-c''] # map (create_command m (si_path img) dev) (filter (\<lambda>r. snd r \<noteq> Kept) rs))"

lemma create_farm_made:
  assumes "run_state (create_farm env fl m img) h = (FarmMade conf rs, h')" and "si_path img \<noteq> []"
  shows "\<exists>cs. h' = h @ cs \<and> made_farm env fl m img conf rs cs"
proof -
  let ?x = "ce_host env" and ?list = "[m, ''list'', ''device'', ''-c'']"
  let ?n = "if cf_count fl = 0 then recommended_count (ce_ram_gb env) (ce_cpus env) else cf_count fl"
  let ?p = "sanitize_profile_name (si_api img) (si_variant img)"
  from assms(1) obtain out where d: "run_oracle (ce_client env) h ?list = Some out"
    "sx_stat ?x (config_file ?x) \<longrightarrow> cf_force fl"
    "run_state (create_avds (ce_client env) m (ce_fs env) (cf_force fl) ?p (config_to_profile
       (pick_device (cf_device fl) (filter (\<lambda>l. l \<noteq> []) (map trim_space (split_on nl out)))) (si_path img)) [0..<nat ?n])
       (h @ [?list]) = (rs, h')"
    "conf = build_config ?p (pick_device (cf_device fl) (filter (\<lambda>l. l \<noteq> []) (map trim_space (split_on nl out)))) (si_path img) ?n"
    by (auto simp: create_farm_def list_installed_devices_def Let_def split: option.splits if_splits prod.splits)
  let ?dev = "pick_device (cf_device fl) (filter (\<lambda>l. l \<noteq> []) (map trim_space (split_on nl out)))"
  have "?dev \<noteq> []" by (rule pick_device_nonempty) simp
  then have c: "map fst rs = map (\<lambda>i. avd_file_name ?p (int i)) [0..<nat ?n]"
      "h' = (h @ [?list]) @ map (create_command m (si_path img) ?dev) (filter (\<lambda>r. snd r \<noteq> Kept) rs)"
      "\<forall>r \<in> set rs. snd r = Kept \<longleftrightarrow> avd_exists (ce_fs env) (fst r) = Some True \<and> \<not> cf_force fl"
    using create_avds_result [OF d(3)] assms(2) by (simp_all add: config_to_profile_def)
  have di: "distinct (map fst rs)" using c(1) by (simp add: distinct_map inj_on_def avd_file_name_inj)
  have n: "if cf_count fl = 0 then 2 \<le> ?n \<and> ?n \<le> 10 else ?n = cf_count fl" using recommended_bounds by simp
  have "made_farm env fl m img conf rs
      (?list # map (create_command m (si_path img) ?dev) (filter (\<lambda>r. snd r \<noteq> Kept) rs))"
    unfolding made_farm_def by (intro exI conjI) (rule refl d(4) n c(1) di c(3) d(2))+
  with c(2) show ?thesis by (intro exI conjI) simp_all
qed


definition sample_create :: create_env where
  "sample_create =
     \<lparr>ce_host = \<lparr>sx_env = \<lambda>v. ''/sdk'', sx_stat = \<lambda>p. True, sx_look = \<lambda>n. None, sx_home = ''/h'', sx_darwin = True\<rparr>,
      ce_paths = set_resolved_paths ''/adb'' ''/avd'' ''/emu'' ''/sdkm'',
      ce_client = \<lparr>adb_path = ''/adb'', emulator_path = ''/emu'',
        run_oracle = \<lambda>h cmd. Some ''system-images;android-35;google_apis;arm64-v8a'', start_oracle = \<lambda>h cmd. None,
        signal_oracle = \<lambda>h n s. SigOk, boot_polls = \<lambda>t. 1\<rparr>,
      ce_fs = \<lparr>fs_home = None, fs_entries = \<lambda>d. None, fs_exists = \<lambda>f. False, fs_lines = \<lambda>f. None\<rparr>,
      ce_sorter = id, ce_ram_gb = 16, ce_cpus = 8, ce_dirs_ok = True, ce_config_ok = True\<rparr>"


end
