(* ===== verification/DiscoveryApi.thy ===== *)
theory DiscoveryApi
  imports Sdk ServerApi License RegistryApi "HOL-Library.Sublist"
begin

text \<open>
  \<^verbatim>\<open>handlers_discovery.go\<close> (what the SDK has, installing images, creating AVDs), \<^verbatim>\<open>handlers_config.go\<close> (the
  configuration file) and \<^verbatim>\<open>handlers_node.go\<close>. The server's response writer supports flushing, so
  streaming is not refused. A variable added to the environment of a command is written before it.
\<close>

record discovery =
  ds_root :: string
  ds_sdkmanager :: string
  ds_avdmanager :: string
  ds_java :: string
  ds_client :: adb_client
  ds_stream :: "cmd list \<Rightarrow> cmd \<Rightarrow> string + (string \<times> string option)"

text \<open>\<open>ds_stream\<close>: the error of a command that does not start, or its output and the error of waiting for it.\<close>

subsection \<open>What there is\<close>

definition image_json :: "system_image \<Rightarrow> json" where
  "image_json i = JObj [(''path'', JStr (si_path i)), (''api_name'', JStr (si_api i)), (''variant'', JStr (si_variant i)),
     (''arch'', JStr (si_arch i))]"

text \<open>The error text that replaces a listing is the empty text here.\<close>

definition listing_reply :: "string \<Rightarrow> json list option \<Rightarrow> response" where
  "listing_reply key items =
     (case items of
        None \<Rightarrow> ok [(key, JList []), (''error'', JStr [])]
      | Some js \<Rightarrow> ok [(key, JList js)])"

definition get_system_images :: "discovery \<Rightarrow> response io" where
  "get_system_images d = do {
     images \<leftarrow> list_installed_images (ds_client d) (ds_sdkmanager d);
     State_Monad.return (listing_reply ''images'' (map_option (map image_json) images)) }"

definition get_available_images :: "discovery \<Rightarrow> response io" where
  "get_available_images d = do {
     images \<leftarrow> list_available_images (ds_client d) (ds_sdkmanager d);
     State_Monad.return (listing_reply ''images'' (map_option (map image_json) images)) }"

text \<open>No device at all is a nil slice.\<close>

definition get_device_types :: "discovery \<Rightarrow> response io" where
  "get_device_types d = do {
     devices \<leftarrow> list_installed_devices (ds_client d) (ds_avdmanager d);
     State_Monad.return (case devices of
       Some [] \<Rightarrow> ok [(''devices'', JNull)]
     | _ \<Rightarrow> listing_reply ''devices'' (map_option (map JStr) devices)) }"

definition avd_json :: "avd_info \<Rightarrow> json" where
  "avd_json a = JObj [(''name'', JStr (avd_name a)), (''display_name'', JStr (avd_display a)),
     (''device_model'', JStr (avd_model a)), (''android_ver'', JStr (avd_android a)),
     (''api_level'', JStr (avd_api a)), (''variant'', JStr (avd_variant a))]"

definition get_avds :: "avd_fs \<Rightarrow> response" where
  "get_avds fs = listing_reply ''avds'' (map_option (map avd_json) (avd_list fs))"

subsection \<open>Installing an image\<close>

definition install_script :: "discovery \<Rightarrow> string \<Rightarrow> string" where
  "install_script d path =
     ''yes | '' @ ds_sdkmanager d @ '' --sdk_root='' @ ds_root d @ '' --install '' @ in_quotes path"

definition install_command :: "discovery \<Rightarrow> string \<Rightarrow> cmd" where
  "install_command d path =
     (if ds_java d = [] then [] else [''JAVA_HOME='' @ path_dir (path_dir (ds_java d))]) @
     [''sh'', ''-c'', install_script d path]"

definition path_needed :: response where
  "path_needed = api_error ''invalid_request'' (Some ''path is required'') 400"

definition no_sdkmanager :: response where
  "no_sdkmanager = api_error ''install_failed'' (Some ''sdkmanager not found'') 500"

definition install_image :: "discovery \<Rightarrow> string option \<Rightarrow> response io" where
  "install_image d body =
     (case body of
        None \<Rightarrow> State_Monad.return path_needed
      | Some path \<Rightarrow>
          if path = [] then State_Monad.return path_needed
          else if ds_sdkmanager d = [] then State_Monad.return no_sdkmanager
          else do {
            out \<leftarrow> run_cmd (ds_client d) (install_command d path);
            State_Monad.return (case out of
              None \<Rightarrow> api_error ''install_failed'' None 500
            | Some t \<Rightarrow> ok [(''status'', JStr ''installed''), (''path'', JStr path)]) })"

definition stream_text :: "string + (string \<times> string option) \<Rightarrow> string" where
  "stream_text res =
     (case res of
        Inl e \<Rightarrow> ''__STATUS__:error: start sdkmanager: '' @ e @ [nl]
      | Inr (out, None) \<Rightarrow> out @ [nl] @ ''__STATUS__:ok'' @ [nl]
      | Inr (out, Some e) \<Rightarrow> out @ [nl] @ ''__STATUS__:error: '' @ e @ [nl])"

definition install_image_stream :: "discovery \<Rightarrow> string option \<Rightarrow> response io" where
  "install_image_stream d body =
     (case body of
        None \<Rightarrow> State_Monad.return path_needed
      | Some path \<Rightarrow>
          if path = [] then State_Monad.return path_needed
          else if ds_sdkmanager d = [] then State_Monad.return no_sdkmanager
          else State (\<lambda>h. (\<lparr>rs_status = 200, rs_body = Raw ''text/plain; charset=utf-8''
              (stream_text (ds_stream d h (install_command d path))), rs_removed = []\<rparr>,
            h @ [install_command d path])))"

subsection \<open>Creating AVDs\<close>

record create_avds_request =
  ca_profile :: string
  ca_device :: string
  ca_image :: string
  ca_count :: int
  ca_names :: "string list"
  ca_ram :: int
  ca_heap :: int
  ca_disk :: int
  ca_gpu :: string

definition requested_profile :: "create_avds_request \<Rightarrow> android_profile" where
  "requested_profile q =
     \<lparr>prof_device = ca_device q, prof_system_image = ca_image q,
      ram_mb = (if 0 < ca_ram q then ca_ram q else 2048), heap_mb = (if 0 < ca_heap q then ca_heap q else 0),
      disk_size_mb = (if 0 < ca_disk q then ca_disk q else 0), gpu = ca_gpu q,
      prof_snapshot = False, boot_timeout_seconds = 0\<rparr>"

text \<open>\<open>bytes i\<close> are the random bytes of the i-th generated name. \<open>None\<close>: the number of names does not match.\<close>

definition planned_names :: "(nat \<Rightarrow> nat list) \<Rightarrow> create_avds_request \<Rightarrow> string list option" where
  "planned_names bytes q =
     (if ca_names q \<noteq> [] then (if int (length (ca_names q)) \<noteq> ca_count q then None else Some (ca_names q))
      else Some (map (\<lambda>i. avd_name_with_suffix (ca_profile q) (int i) (bytes i)) [0..<nat (ca_count q)]))"

fun create_planned ::
  "discovery \<Rightarrow> create_avds_request \<Rightarrow> string list \<Rightarrow> store option \<Rightarrow>
   (string list \<times> string list \<times> store option) io" where
  "create_planned d q [] st = State_Monad.return ([], [], st)"
| "create_planned d q (name # rest) st = do {
     made \<leftarrow> avd_create (ds_client d) (ds_avdmanager d) None name (requested_profile q);
     (names, errors, st1) \<leftarrow> create_planned d q rest
        (if made then map_option (record_avd_creation name (ca_profile q) (ca_device q) (ca_image q)) st else st);
     State_Monad.return (if made then (name # names, errors, st1) else (names, name # errors, st1)) }"

text \<open>Of the errors only the names of the AVDs are kept.\<close>

definition post_avds ::
  "discovery \<Rightarrow> (nat \<Rightarrow> nat list) \<Rightarrow> create_avds_request option \<Rightarrow> store option \<Rightarrow> (response \<times> store option) io" where
  "post_avds d bytes body st =
     (case body of
        None \<Rightarrow> State_Monad.return (api_error ''invalid_request'' None 400, st)
      | Some q \<Rightarrow>
          if ca_profile q = [] \<or> ca_device q = [] \<or> ca_image q = [] \<or> ca_count q < 1
          then State_Monad.return
            (api_error ''invalid_request'' (Some ''profile_name, device, system_image, and count >= 1 required'') 400, st)
          else (case planned_names bytes q of
                  None \<Rightarrow> State_Monad.return (api_error ''invalid_request'' None 400, st)
                | Some planned \<Rightarrow> do {
                    (names, errors, st1) \<leftarrow> create_planned d q planned st;
                    State_Monad.return (ok [(''created'', JInt (int (length names))), (''names'', JList (map JStr names)),
                      (''errors'', JList (map JStr errors))], st1) }))"

subsection \<open>The configuration file\<close>

text \<open>The state is the content of the file, \<open>None\<close> when it cannot be read; \<open>failure\<close> is what a write that
  fails leaves of it. A body comes in the pieces that reading it gave, whether it ended or broke off after them.\<close>

type_synonym config_disk = "string option"

definition config_unreadable :: response where "config_unreadable = api_error ''config_error'' None 500"

definition put_config :: "json option \<Rightarrow> config_disk \<Rightarrow> response \<times> config_disk" where
  "put_config updates disk =
     (case updates of
        None \<Rightarrow> (api_error ''invalid_request'' None 400, disk)
      | Some u \<Rightarrow> (case disk of
            None \<Rightarrow> (config_unreadable, disk)
          | Some data \<Rightarrow> (ok [(''status'', JStr ''acknowledged''),
              (''message'', JStr ''Config changes noted. Restart daemon to apply.''),
              (''current_config'', JStr data), (''updates'', u)], disk)))"

definition get_config_raw :: "config_disk \<Rightarrow> response" where
  "get_config_raw disk =
     (case disk of
        None \<Rightarrow> config_unreadable
      | Some data \<Rightarrow> \<lparr>rs_status = 200, rs_body = Raw ''text/yaml'' data, rs_removed = []\<rparr>)"

definition put_config_raw :: "config_disk option \<Rightarrow> string list \<Rightarrow> config_disk \<Rightarrow> response \<times> config_disk" where
  "put_config_raw failure chunks disk =
     (let body = concat chunks
      in if body = [] then (api_error ''invalid_request'' (Some ''Empty body'') 400, disk)
         else case failure of
           Some left \<Rightarrow> (api_error ''config_error'' None 500, left)
         | None \<Rightarrow> (ok [(''status'', JStr ''saved''), (''message'', JStr ''Config saved. Restart daemon to apply changes.'')],
               Some body))"

subsection \<open>The state of the node\<close>

record node_info =
  ni_name :: string
  ni_host :: string
  ni_version :: string
  ni_uptime :: string
  ni_platform :: string
  ni_go :: string
  ni_resources :: "(string \<times> json) list"
  ni_time :: "time \<Rightarrow> string"

definition get_health :: "node_info \<Rightarrow> time \<Rightarrow> validator \<Rightarrow> registry option \<Rightarrow> broker \<Rightarrow> response" where
  "get_health ni now v grp b =
     (let st = pool_status_of (b_pool b); lic = current_license now v
      in ok [(''status'', JStr ''healthy''), (''node'', JStr (ni_name ni)), (''hostname'', JStr (ni_host ni)),
         (''group'', JObj [(''name'', JStr (case grp of None \<Rightarrow> [] | Some g \<Rightarrow> registry_group_name g))]),
         (''version'', JStr (ni_version ni)), (''uptime'', JStr (ni_uptime ni)), (''platform'', JStr (ni_platform ni)),
         (''go'', JStr (ni_go ni)),
         (''license'', JObj [(''tier'', JStr (lic_tier lic)), (''expires'', JStr (ni_time ni (lic_expires lic)))]),
         (''pool'', JObj [(''capacity'', JInt (st_capacity st)), (''warm'', JInt (int (st_warm st))),
            (''allocated'', JInt (int (st_allocated st))), (''booting'', JInt (int (st_booting st))),
            (''error'', JInt (int (st_error st)))]),
         (''sessions'', JObj [(''active'', JInt (int (active_count b))), (''queued'', JInt (int (queue_depth (b_queue b))))]),
         (''resources'', JObj (ni_resources ni))])"

subsection \<open>Properties\<close>

lemma sh_arg_true_plain: "quote \<notin> set s \<Longrightarrow> sh_arg True (s @ quote # rest) = map_option (\<lambda>(w, r). (s @ w, r)) (sh_arg False rest)"
proof (induction s)
  case Nil
  show ?case by (cases "sh_arg False rest") auto
next
  case (Cons x xs)
  then show ?case by (cases "sh_arg False rest") auto
qed



lemma create_planned_result:
  assumes "run_state (create_planned d q planned st) h = ((names, errors, st1), h')" and "ca_image q \<noteq> []" and "ca_device q \<noteq> []"
  shows "mset names + mset errors = mset planned \<and> subseq names planned \<and>
    st1 = map_option (fold (\<lambda>name. record_avd_creation name (ca_profile q) (ca_device q) (ca_image q)) names) st \<and>
    h' = h @ map (\<lambda>name. [ds_avdmanager d, ''create'', ''avd'', ''--name'', name, ''--package'', ca_image q,
                    ''--device'', ca_device q]) planned"
  using assms(1)
proof (induction planned arbitrary: st h names errors st1 h')
  case (Cons name rest)
  let ?cmd = "[ds_avdmanager d, ''create'', ''avd'', ''--name'', name, ''--package'', ca_image q, ''--device'', ca_device q]"
  let ?made = "run_oracle (ds_client d) h ?cmd \<noteq> None"
  let ?st = "if ?made then map_option (record_avd_creation name (ca_profile q) (ca_device q) (ca_image q)) st else st"
  obtain ns es st2 h2 where rec: "run_state (create_planned d q rest ?st) (h @ [?cmd]) = ((ns, es, st2), h2)"
    by (metis prod.collapse)
  have step: "run_state (avd_create (ds_client d) (ds_avdmanager d) None name (requested_profile q)) h = (?made, h @ [?cmd])"
    using assms(2,3) by (simp add: avd_create_def requested_profile_def)
  have "names = (if ?made then name # ns else ns) \<and> errors = (if ?made then es else name # es) \<and> st1 = st2 \<and> h' = h2"
    using Cons.prems rec by (cases ?made) (simp_all add: step)
  with Cons.IH [OF rec] show ?case by (auto simp: option.map_comp comp_def)
qed (simp add: option.map_id)

lemma avd_name_with_suffix_inj:
  "avd_name_with_suffix p (int i) bs = avd_name_with_suffix p (int j) cs \<Longrightarrow> i = j"
proof -
  assume "avd_name_with_suffix p (int i) bs = avd_name_with_suffix p (int j) cs"
  then have e: "itoa_nat i @ ''_'' @ rand_suffix bs = itoa_nat j @ ''_'' @ rand_suffix cs"
    by (simp add: avd_name_with_suffix_def itoa_def)
  have "CHR ''_'' \<notin> set (itoa_nat n)" for n using itoa_chars [of "CHR ''_''" n] by auto
  then have "takeWhile (\<lambda>c. c \<noteq> CHR ''_'') (itoa_nat n @ ''_'' @ r) = itoa_nat n" for n r
    by (subst takeWhile_append2) auto
  with arg_cong [OF e, of "takeWhile (\<lambda>c. c \<noteq> CHR ''_'')"] show ?thesis by simp
qed

text \<open>Creating AVDs over the API. A bad request runs nothing and records nothing. A good one runs one
  command for each planned name, in order, with the image and the device of the request; every name is
  either created or an error, the store gets exactly the created ones, and generated names never repeat.
  The memory, heap, disk and GPU of the request reach no command.\<close>

theorem post_avds_correct:
  assumes "run_state (post_avds d bytes body st) h = ((r, st1), h')"
  shows "if rs_status r \<noteq> 200 then rs_status r = 400 \<and> st1 = st \<and> h' = h
    else (\<exists>q planned names errors. body = Some q \<and> planned_names bytes q = Some planned \<and>
       int (length planned) = ca_count q \<and> (ca_names q = [] \<longrightarrow> distinct planned) \<and>
       r = ok [(''created'', JInt (int (length names))), (''names'', JList (map JStr names)),
               (''errors'', JList (map JStr errors))] \<and>
       mset names + mset errors = mset planned \<and> subseq names planned \<and>
       st1 = map_option (fold (\<lambda>name. record_avd_creation name (ca_profile q) (ca_device q) (ca_image q)) names) st \<and>
       h' = h @ map (\<lambda>name. [ds_avdmanager d, ''create'', ''avd'', ''--name'', name, ''--package'', ca_image q,
                       ''--device'', ca_device q]) planned \<and>
       run_state (post_avds d bytes (Some (q\<lparr>ca_ram := m1, ca_heap := m2, ca_disk := m3, ca_gpu := g\<rparr>)) st) h = ((r, st1), h'))"
proof (cases "rs_status r = 200")
  case False
  with assms have "rs_status r = 400 \<and> st1 = st \<and> h' = h"
    by (auto simp: post_avds_def ok_def json_response_def api_error_def split: option.splits if_splits prod.splits)
  with False show ?thesis by simp
next
  case True
  from assms True obtain q planned where q: "body = Some q" "planned_names bytes q = Some planned"
    "ca_device q \<noteq> []" "ca_image q \<noteq> []" "ca_profile q \<noteq> []" "\<not> ca_count q < 1"
    by (auto simp: post_avds_def api_error_def split: option.splits if_splits)
  obtain names errors st2 h2 where c: "run_state (create_planned d q planned st) h = ((names, errors, st2), h2)"
    by (metis prod.collapse)
  let ?q = "q\<lparr>ca_ram := m1, ca_heap := m2, ca_disk := m3, ca_gpu := g\<rparr>"
  have same: "avd_create cl m None name (requested_profile ?q) = avd_create cl m None name (requested_profile q)" for cl m name
    by (simp add: avd_create_def requested_profile_def)
  have planned_same: "create_planned d ?q planned st = create_planned d q planned st"
    by (induction planned arbitrary: st) (simp_all add: same cong: if_cong)
  have "planned_names bytes ?q = planned_names bytes q" by (simp add: planned_names_def cong: if_cong)
  then have p: "planned_names bytes ?q = Some planned" using q(2) by simp
  from assms q c have r: "r = ok [(''created'', JInt (int (length names))), (''names'', JList (map JStr names)),
      (''errors'', JList (map JStr errors))]" "st1 = st2" "h' = h2" by (simp_all add: post_avds_def)
  have l: "int (length planned) = ca_count q" "ca_names q = [] \<longrightarrow> distinct planned"
    using q(2,6) avd_name_with_suffix_inj
    by (auto simp: planned_names_def distinct_map inj_on_def split: if_splits)
  have again: "run_state (post_avds d bytes (Some ?q) st) h = ((r, st1), h')"
    using q(3-6) c by (simp add: post_avds_def p planned_same r)
  note res = create_planned_result [OF c q(4,3)]
  from True show ?thesis
    apply (simp only: refl not_True_eq_False if_False)
    apply (rule exI [of _ q], rule exI [of _ planned], rule exI [of _ names], rule exI [of _ errors])
    using q(1,2) r l again res by blast
qed

definition sample_discovery :: discovery where
  "sample_discovery = \<lparr>ds_root = ''/sdk'', ds_sdkmanager = ''/sdkm'', ds_avdmanager = ''/avd'', ds_java = [],
     ds_client = \<lparr>adb_path = ''/adb'', emulator_path = ''/emu'', run_oracle = \<lambda>h cmd. if h = [] then Some [] else None,
       start_oracle = \<lambda>h cmd. None, signal_oracle = \<lambda>h n s. SigOk, boot_polls = \<lambda>t. 1\<rparr>,
     ds_stream = \<lambda>h cmd. Inl []\<rparr>"

definition avds_request :: create_avds_request where
  "avds_request = \<lparr>ca_profile = ''px'', ca_device = ''pixel_7'', ca_image = ''img'', ca_count = 2, ca_names = [''a'', ''b''],
     ca_ram = 4096, ca_heap = 0, ca_disk = 0, ca_gpu = []\<rparr>"

theorem post_avds_correct_witness:
  "\<exists>r st1 h'. run_state (post_avds sample_discovery (\<lambda>i. []) (Some avds_request) None) [] = ((r, st1), h') \<and>
     h' = map (\<lambda>name. [''/avd'', ''create'', ''avd'', ''--name'', name, ''--package'', ''img'', ''--device'', ''pixel_7'']) [''a'', ''b'']"
proof -
  obtain r st1 h' where r: "run_state (post_avds sample_discovery (\<lambda>i. []) (Some avds_request) None) [] = ((r, st1), h')"
    "rs_status r = 200"
    by (simp add: post_avds_def avds_request_def planned_names_def avd_create_def requested_profile_def
        sample_discovery_def ok_def json_response_def)
  obtain q planned where q: "Some avds_request = Some q" "planned_names (\<lambda>i. []) q = Some planned"
    "h' = map (\<lambda>name. [ds_avdmanager sample_discovery, ''create'', ''avd'', ''--name'', name, ''--package'', ca_image q,
       ''--device'', ca_device q]) planned"
    using post_avds_correct [OF r(1), where ?m1.0 = 0 and ?m2.0 = 0 and ?m3.0 = 0 and g = "[]"] r(2) by auto
  then have "planned = [''a'', ''b'']" by (auto simp: planned_names_def avds_request_def)
  with q(1,3) r(1) show ?thesis by (auto simp: avds_request_def sample_discovery_def)
qed

text \<open>The configuration file over HTTP. A PUT of changes never touches the file, so the restart that its
  answer asks for applies nothing. What is put as a whole is what is read back, and only an empty body is
  refused: a body that broke off on the way replaces the file by its beginning, with the answer saved.\<close>

theorem config_file_routes:
  "snd (put_config updates disk) = disk \<and>
   (updates = Some u \<longrightarrow> disk = Some data \<longrightarrow> rs_status (fst (put_config updates disk)) = 200) \<and>
   (let (r, disk') = put_config_raw None chunks disk
    in if concat chunks = [] then rs_status r = 400 \<and> disk' = disk
       else rs_status r = 200 \<and> get_config_raw disk' =
         \<lparr>rs_status = 200, rs_body = Raw ''text/yaml'' (concat chunks), rs_removed = []\<rparr>) \<and>
   (concat chunks \<noteq> [] \<longrightarrow>
      fst (put_config_raw None chunks disk) = fst (put_config_raw None (chunks @ rest) disk) \<and>
      snd (put_config_raw None chunks disk) = Some (concat chunks))"
  by (auto simp: put_config_def put_config_raw_def get_config_raw_def api_error_def ok_def json_response_def Let_def
      split: option.split)

theorem config_file_routes_witness:
  "snd (put_config_raw None [''pool:''] (Some ''old'')) = Some ''pool:'' \<and>
   rs_status (fst (put_config (Some (JObj [])) (Some ''old''))) = 200"
  using config_file_routes [of "Some (JObj [])" "Some ''old''" "JObj []" "''old''" "[''pool:'']" "[]"] by simp

end
