(* ===== verification/Screen.thy ===== *)
theory Screen
  imports DeviceApi "HOL-Library.Sublist"
begin

text \<open>
  The screen of a device in the browser: \<^verbatim>\<open>handlers_screen.go\<close>, \<^verbatim>\<open>handlers_screen_v2.go\<close> and
  \<^verbatim>\<open>handlers_webrtc.go\<close>. What comes out of pipes and sockets, and whether a write to the browser
  succeeds, are arguments; the WebRTC library is outside: of an offer only the streaming is modelled. The
  goroutines of one connection are step relations on what they share.
\<close>

datatype ws_message = TextMsg string | BinMsg string

subsection \<open>Polling\<close>

text \<open>One entry for each tick until the browser leaves: whether a write then succeeds.\<close>

fun screencap_loop :: "adb_client \<Rightarrow> string \<Rightarrow> bool list \<Rightarrow> ws_message list io" where
  "screencap_loop c s [] = State_Monad.return []"
| "screencap_loop c s (w # ws) = do {
     png \<leftarrow> adb_screencap c s;
     case png of
       None \<Rightarrow> screencap_loop c s ws
     | Some d \<Rightarrow> if w then do { rest \<leftarrow> screencap_loop c s ws; State_Monad.return (BinMsg d # rest) }
                 else State_Monad.return [] }"

fun logcat_loop :: "adb_client \<Rightarrow> string \<Rightarrow> bool list \<Rightarrow> ws_message list io" where
  "logcat_loop c s [] = State_Monad.return []"
| "logcat_loop c s (w # ws) = do {
     out \<leftarrow> adb_shell c s ''logcat -d -t 20 -v brief'';
     case out of
       None \<Rightarrow> logcat_loop c s ws
     | Some t \<Rightarrow>
         if t = [] then logcat_loop c s ws
         else if w then do { rest \<leftarrow> logcat_loop c s ws; State_Monad.return (TextMsg t # rest) }
         else State_Monad.return [] }"

text \<open>\<open>None\<close> is a 404: no device has the id. The handlers of \<^verbatim>\<open>handlers_screen.go\<close> look the id up among the
  instances once more when the first look gives no serial.\<close>

definition ws_open :: "string \<Rightarrow> (string \<Rightarrow> 'a io) \<Rightarrow> 'a option io" where
  "ws_open s act = (if s = [] then State_Monad.return None else do { x \<leftarrow> act s; State_Monad.return (Some x) })"

definition screen_serial :: "string \<Rightarrow> pool \<Rightarrow> string" where
  "screen_serial ident p =
     (let s = find_serial ident p
      in if s \<noteq> [] then s
         else (case get_instance ident p of
                 None \<Rightarrow> []
               | Some i \<Rightarrow> (case inst_device i of None \<Rightarrow> [] | Some d \<Rightarrow> device_serial d)))"

definition stream_png :: "adb_client \<Rightarrow> pool \<Rightarrow> string \<Rightarrow> bool list \<Rightarrow> ws_message list option io" where
  "stream_png c p ident ws = ws_open (screen_serial ident p) (\<lambda>s. screencap_loop c s ws)"

definition stream_logcat :: "adb_client \<Rightarrow> pool \<Rightarrow> string \<Rightarrow> bool list \<Rightarrow> ws_message list option io" where
  "stream_logcat c p ident ws = ws_open (screen_serial ident p) (\<lambda>s. logcat_loop c s ws)"

subsection \<open>Streams of H.264\<close>

text \<open>Reads of a pipe until its error, each with whether the write that follows succeeds.\<close>

fun pipe_loop :: "(string \<times> bool) list \<Rightarrow> ws_message list" where
  "pipe_loop [] = []"
| "pipe_loop ((d, w) # rest) = (if w then BinMsg d # pipe_loop rest else [])"

definition scrcpy_paths :: "string list" where
  "scrcpy_paths = [''/opt/homebrew/Cellar/scrcpy/3.2/share/scrcpy/scrcpy-server'',
     ''/opt/homebrew/share/scrcpy/scrcpy-server'', ''/usr/local/share/scrcpy/scrcpy-server'',
     ''/usr/share/scrcpy/scrcpy-server'']"

definition find_scrcpy :: "(string \<Rightarrow> bool) \<Rightarrow> string" where
  "find_scrcpy exists = (case List.find exists scrcpy_paths of Some p \<Rightarrow> p | None \<Rightarrow> [])"

definition scrcpy_jar :: string where "scrcpy_jar = ''/data/local/tmp/scrcpy-server.jar''"

definition scrcpy_args :: "string list \<Rightarrow> string list" where
  "scrcpy_args sizes =
     [''shell'', ''CLASSPATH='' @ scrcpy_jar, ''app_process'', ''/'', ''com.genymobile.scrcpy.Server'', ''3.2'',
      ''tunnel_forward=true'', ''video=true'', ''audio=false'', ''control=false''] @ sizes @
     [''video_codec=h264'', ''send_frame_meta=false'', ''send_device_meta=false'', ''send_dummy_byte=false'']"

definition browser_sizes :: "string list" where
  "browser_sizes = [''max_size=720'', ''video_bit_rate=2000000'', ''max_fps=30'']"

definition webrtc_sizes :: "string list" where
  "webrtc_sizes = [''max_size=0'', ''video_bit_rate=3000000'', ''max_fps=10'']"

text \<open>\<open>port\<close> is the free port found, \<open>dialled\<close> whether the server accepts the connection. The result says
  whether the device was streamed; the forward is removed and the server killed on every way out.\<close>

definition scrcpy_session ::
  "adb_client \<Rightarrow> string \<Rightarrow> string \<Rightarrow> string list \<Rightarrow> int option \<Rightarrow> bool \<Rightarrow> bool io" where
  "scrcpy_session c s server sizes port dialled = do {
     pushed \<leftarrow> run_cmd c (on_dev c s [''push'', server, scrcpy_jar]);
     case pushed of None \<Rightarrow> State_Monad.return False | Some _ \<Rightarrow>
     (case port of None \<Rightarrow> State_Monad.return False | Some n \<Rightarrow> do {
        forwarded \<leftarrow> run_cmd c (on_dev c s [''forward'', ''tcp:'' @ itoa n, ''localabstract:scrcpy'']);
        case forwarded of None \<Rightarrow> State_Monad.return False | Some _ \<Rightarrow> do {
          srv \<leftarrow> start_cmd c (on_dev c s (scrcpy_args sizes));
          streamed \<leftarrow> (case srv of None \<Rightarrow> State_Monad.return False | Some pid \<Rightarrow> do {
             killed \<leftarrow> signal_proc c pid ''SIGKILL'';
             State_Monad.return dialled });
          gone \<leftarrow> run_cmd c (on_dev c s [''forward'', ''--remove'', ''tcp:'' @ itoa n]);
          State_Monad.return streamed } }) }"

definition screenrecord_args :: "string list" where
  "screenrecord_args = [''shell'', ''screenrecord'', ''--output-format=h264'', ''--size'', ''720x1600'', ''--bit-rate'',
     ''2000000'', ''-'']"

definition h264_header :: string where
  "h264_header = ''{\"codec\":\"h264\",\"width\":720,\"height\":1600}''"

definition png_header :: string where "png_header = ''{\"codec\":\"png\"}''"

text \<open>\<open>None\<close>: the recorder did not start.\<close>

definition stream_screenrecord :: "adb_client \<Rightarrow> string \<Rightarrow> (string \<times> bool) list \<Rightarrow> ws_message list option io" where
  "stream_screenrecord c s reads = do {
     rec \<leftarrow> start_cmd c (on_dev c s screenrecord_args);
     case rec of None \<Rightarrow> State_Monad.return None | Some pid \<Rightarrow> do {
       killed \<leftarrow> signal_proc c pid ''SIGKILL'';
       State_Monad.return (Some (TextMsg h264_header # pipe_loop reads)) } }"

record screen_env =
  se_server :: string
  se_port :: "int option"
  se_dialled :: bool
  se_reads :: "(string \<times> bool) list"
  se_record :: "(string \<times> bool) list"
  se_ticks :: "bool list"

definition stream_fallbacks :: "adb_client \<Rightarrow> screen_env \<Rightarrow> string \<Rightarrow> ws_message list io" where
  "stream_fallbacks c e s = do {
     rec \<leftarrow> stream_screenrecord c s (se_record e);
     case rec of
       Some ms \<Rightarrow> State_Monad.return ms
     | None \<Rightarrow> do { ms \<leftarrow> screencap_loop c s (se_ticks e); State_Monad.return (TextMsg png_header # ms) } }"

definition stream_screen :: "adb_client \<Rightarrow> screen_env \<Rightarrow> pool \<Rightarrow> string \<Rightarrow> ws_message list option io" where
  "stream_screen c e p ident = ws_open (find_serial ident p) (\<lambda>s.
     if se_server e = [] then stream_fallbacks c e s
     else do {
       streamed \<leftarrow> scrcpy_session c s (se_server e) browser_sizes (se_port e) (se_dialled e);
       if streamed then State_Monad.return (TextMsg h264_header # pipe_loop (se_reads e))
       else stream_fallbacks c e s })"

subsection \<open>Input\<close>

text \<open>What a message of the browser makes the shell of the device run.\<close>

definition after_word :: "string \<Rightarrow> string \<Rightarrow> string option" where
  "after_word w m = (if length w < length m \<and> has_prefix m w then Some (drop (length w) m) else None)"

definition input_command :: "string \<Rightarrow> string option" where
  "input_command m =
     (case after_word ''tap '' m of Some a \<Rightarrow> Some (''input tap '' @ a)
      | None \<Rightarrow> (case after_word ''swipe '' m of Some a \<Rightarrow> Some (''input swipe '' @ a)
      | None \<Rightarrow> (case after_word ''text '' m of Some a \<Rightarrow> Some (''input text '' @ in_quotes a)
      | None \<Rightarrow> (case after_word ''key '' m of Some a \<Rightarrow> Some (''input keyevent '' @ a)
      | None \<Rightarrow> if m = ''home'' then Some ''input keyevent 3''
                else if m = ''back'' then Some ''input keyevent 4''
                else if m = ''recent'' then Some ''input keyevent 187'' else None))))"

text \<open>The relay: the reader of the socket puts commands into a channel of four places; when it is full it
  takes the oldest out and tries again, each a step of its own (\<open>rl_pending\<close>: the command it holds, and
  whether it took one out). The runner of the commands takes them out too.\<close>

record relay =
  rl_queue :: "string list"
  rl_pending :: "(string \<times> bool) option"
  rl_ran :: "string list"

definition new_relay :: relay where "new_relay = \<lparr>rl_queue = [], rl_pending = None, rl_ran = []\<rparr>"

definition relay_offer :: "string \<Rightarrow> relay \<Rightarrow> relay" where
  "relay_offer x r = (if length (rl_queue r) < 4 then r\<lparr>rl_queue := rl_queue r @ [x]\<rparr> else r\<lparr>rl_pending := Some (x, False)\<rparr>)"

definition relay_drop :: "string \<Rightarrow> relay \<Rightarrow> relay" where
  "relay_drop x r = r\<lparr>rl_queue := drop 1 (rl_queue r), rl_pending := Some (x, True)\<rparr>"

definition relay_retry :: "string \<Rightarrow> relay \<Rightarrow> relay" where
  "relay_retry x r = (if length (rl_queue r) < 4 then r\<lparr>rl_queue := rl_queue r @ [x], rl_pending := None\<rparr>
     else r\<lparr>rl_pending := None\<rparr>)"

text \<open>The runs of a relay: the commands that came in, and the state.\<close>

inductive relay_run :: "string list \<Rightarrow> relay \<Rightarrow> bool" where
  opened: "relay_run [] new_relay"
| message: "relay_run xs r \<Longrightarrow> rl_pending r = None \<Longrightarrow> input_command m = Some x \<Longrightarrow> relay_run (xs @ [x]) (relay_offer x r)"
| ignored: "relay_run xs r \<Longrightarrow> rl_pending r = None \<Longrightarrow> input_command m = None \<Longrightarrow> relay_run xs r"
| dropped: "relay_run xs r \<Longrightarrow> rl_pending r = Some (x, False) \<Longrightarrow> relay_run xs (relay_drop x r)"
| retried: "relay_run xs r \<Longrightarrow> rl_pending r = Some (x, True) \<Longrightarrow> relay_run xs (relay_retry x r)"
| executed: "relay_run xs r \<Longrightarrow> rl_queue r = x # q \<Longrightarrow> relay_run xs (r\<lparr>rl_queue := q, rl_ran := rl_ran r @ [x]\<rparr>)"

text \<open>The commands that were run, on the device that the id stood for when the socket was opened.\<close>

definition relay_commands :: "adb_client \<Rightarrow> pool \<Rightarrow> string \<Rightarrow> relay \<Rightarrow> cmd list" where
  "relay_commands c p ident r = map (\<lambda>x. on_dev c (screen_serial ident p) [''shell'', x]) (rl_ran r)"

subsection \<open>WebRTC: the units of a video stream\<close>

text \<open>\<^verbatim>\<open>readScrcpyStream\<close> reads units behind a length of four bytes, the most significant first. A unit that
  is cut off ends the reading.\<close>

definition be32 :: "string \<Rightarrow> nat" where
  "be32 s = foldl (\<lambda>acc ch. 256 * acc + of_char ch) 0 s"

function read_units :: "string \<Rightarrow> string list" where
  "read_units s =
     (if length s < 4 then []
      else (let n = be32 (take 4 s); rest = drop 4 s
            in if n = 0 then read_units rest
               else if length rest < n then []
               else take n rest # read_units (drop n rest)))"
  by pat_completeness auto
termination by (relation "measure length") auto

declare read_units.simps [simp del]

definition unit_type :: "string \<Rightarrow> nat" where "unit_type u = of_char (hd u) mod 32"

text \<open>A sample is a list of units; \<open>frame\<close> says whether it has the duration of a frame or none.\<close>

record sample =
  sm_units :: "string list"
  sm_frame :: bool

record player =
  pl_sps :: "string option"
  pl_pps :: "string option"
  pl_need :: bool
  pl_sent :: "sample list"

definition new_player :: player where
  "new_player = \<lparr>pl_sps = None, pl_pps = None, pl_need = True, pl_sent = []\<rparr>"

definition send :: "sample list \<Rightarrow> player \<Rightarrow> player" where "send xs p = p\<lparr>pl_sent := pl_sent p @ xs\<rparr>"

definition is_slice :: "string \<Rightarrow> bool" where "is_slice u \<longleftrightarrow> unit_type u = 5 \<or> unit_type u = 1"

text \<open>One unit in \<^verbatim>\<open>readScrcpyStream\<close>: the parameter sets are samples of their own.\<close>

definition play_scrcpy :: "string \<Rightarrow> player \<Rightarrow> player" where
  "play_scrcpy u p =
     (if unit_type u = 7 then p\<lparr>pl_sps := Some u\<rparr>
      else if unit_type u = 8 then p\<lparr>pl_pps := Some u\<rparr>
      else if \<not> is_slice u then p
      else send [\<lparr>sm_units = [u], sm_frame = True\<rparr>]
        (case (pl_need p, pl_sps p, pl_pps p) of
           (True, Some sps, Some pps) \<Rightarrow>
             (send [\<lparr>sm_units = [sps], sm_frame = False\<rparr>, \<lparr>sm_units = [pps], sm_frame = False\<rparr>] p)\<lparr>pl_need := False\<rparr>
         | _ \<Rightarrow> p))"

text \<open>One unit in \<^verbatim>\<open>readAndSendNALs\<close>; in the sample each unit follows a start code.\<close>

definition play_unit :: "string \<Rightarrow> player \<Rightarrow> player" where
  "play_unit u p =
     (if unit_type u = 7 then p\<lparr>pl_sps := Some u\<rparr>
      else if unit_type u = 8 then p\<lparr>pl_pps := Some u\<rparr>
      else if unit_type u = 5
        then (send [\<lparr>sm_units = (case pl_sps p of Some s \<Rightarrow> [s] | None \<Rightarrow> []) @
               (case pl_pps p of Some s \<Rightarrow> [s] | None \<Rightarrow> []) @ [u], sm_frame = True\<rparr>] p)\<lparr>pl_need := False\<rparr>
      else if unit_type u = 1
        then (case (pl_need p, pl_sps p, pl_pps p) of
                (True, Some sps, Some pps) \<Rightarrow>
                  (send [\<lparr>sm_units = [sps, pps, u], sm_frame = True\<rparr>] p)\<lparr>pl_need := False\<rparr>
              | _ \<Rightarrow> send [\<lparr>sm_units = [u], sm_frame = True\<rparr>] p)
      else p)"

definition start_code :: string where "start_code = [CHR 0x00, CHR 0x00, CHR 0x00, CHR 0x01]"

definition sample_bytes :: "sample \<Rightarrow> string" where
  "sample_bytes x = concat (map (\<lambda>u. start_code @ u) (sm_units x))"

definition offer_unit :: "string \<Rightarrow> string list \<Rightarrow> string list" where
  "offer_unit u ch = (if length ch < 2 then ch @ [u] else ch)"

text \<open>The runs of \<^verbatim>\<open>readAndSendNALs\<close>: the units read so far, the channel of two places between the reader
  and the sender, and the sender; the browser asks for a keyframe at any time.\<close>

inductive nal_run :: "string list \<Rightarrow> string list \<Rightarrow> player \<Rightarrow> bool" where
  started: "nal_run [] [] new_player"
| read: "nal_run us ch p \<Longrightarrow> u \<noteq> [] \<Longrightarrow> nal_run (us @ [u]) (offer_unit u ch) p"
| played: "nal_run us (u # ch) p \<Longrightarrow> nal_run us ch (play_unit u p)"
| asked: "nal_run us ch p \<Longrightarrow> nal_run us ch (p\<lparr>pl_need := True\<rparr>)"

subsection \<open>WebRTC: keeping a stream going\<close>

text \<open>One round of the fall-back: whether the browser has gone, and then no more is done; the answer of the
  device to the echo is the client's. The swipe follows the start by 300 milliseconds.\<close>

fun record_rounds :: "adb_client \<Rightarrow> string \<Rightarrow> bool list \<Rightarrow> unit io" where
  "record_rounds c s [] = State_Monad.return ()"
| "record_rounds c s (gone # rest) =
     (if gone then State_Monad.return ()
      else do {
        alive \<leftarrow> run_cmd c (on_dev c s [''shell'', ''echo'', ''ok'']);
        if alive = None \<or> alive = Some [] then record_rounds c s rest
        else do {
          rec \<leftarrow> start_cmd c (on_dev c s [''shell'', ''screenrecord'', ''--output-format=h264'', ''--bit-rate'',
            ''4000000'', ''--time-limit'', ''120'', ''-'']);
          case rec of None \<Rightarrow> record_rounds c s rest | Some pid \<Rightarrow> do {
            swiped \<leftarrow> run_cmd c (on_dev c s [''shell'', ''input'', ''swipe'', ''1'', ''1'', ''1'', ''1'', ''50'']);
            killed \<leftarrow> signal_proc c pid ''SIGKILL'';
            record_rounds c s rest } } })"

definition webrtc_scrcpy :: "adb_client \<Rightarrow> string \<Rightarrow> string \<Rightarrow> int option \<Rightarrow> bool \<Rightarrow> bool io" where
  "webrtc_scrcpy c s server port dialled =
     (if server = [] then State_Monad.return False else scrcpy_session c s server webrtc_sizes port dialled)"

text \<open>One round of scrcpy: whether the browser has gone before it, the port and whether the server answers.
  \<open>connected\<close>: the browser connected within 30 seconds.\<close>

fun scrcpy_rounds :: "adb_client \<Rightarrow> string \<Rightarrow> string \<Rightarrow> bool list \<Rightarrow> (bool \<times> int option \<times> bool) list \<Rightarrow> unit io" where
  "scrcpy_rounds c s server fallback [] = State_Monad.return ()"
| "scrcpy_rounds c s server fallback ((gone, port, dialled) # rest) =
     (if gone then State_Monad.return ()
      else do {
        streamed \<leftarrow> webrtc_scrcpy c s server port dialled;
        if streamed then scrcpy_rounds c s server fallback rest else record_rounds c s fallback })"

definition stream_webrtc ::
  "adb_client \<Rightarrow> string \<Rightarrow> bool \<Rightarrow> (bool \<times> int option \<times> bool) list \<Rightarrow> bool list \<Rightarrow> pool \<Rightarrow> string \<Rightarrow> unit option io" where
  "stream_webrtc c server connected rounds fallback p ident =
     ws_open (find_serial ident p) (\<lambda>s. if connected then scrcpy_rounds c s server fallback rounds else State_Monad.return ())"

subsection \<open>The relay of inputs\<close>

definition relay_ok :: "string list \<Rightarrow> relay \<Rightarrow> bool" where
  "relay_ok xs r \<longleftrightarrow> length (rl_queue r) \<le> 4 \<and>
     (case rl_pending r of
        None \<Rightarrow> subseq (rl_ran r @ rl_queue r) xs \<and>
          (xs \<noteq> [] \<longrightarrow> rl_ran r @ rl_queue r \<noteq> [] \<and> last (rl_ran r @ rl_queue r) = last xs)
      | Some (x, out) \<Rightarrow> (\<exists>ys. xs = ys @ [x] \<and> subseq (rl_ran r @ rl_queue r) ys) \<and> (out \<longrightarrow> length (rl_queue r) < 4))"

lemma subseq_drop_mid: "subseq (xs @ ys) zs \<Longrightarrow> subseq (xs @ drop n ys) zs"
proof -
  have "subseq (drop n ys) ys" by (intro suffix_imp_subseq suffix_drop)
  then have "subseq (xs @ drop n ys) (xs @ ys)" by (intro list_emb_append_mono) auto
  then show "subseq (xs @ ys) zs \<Longrightarrow> subseq (xs @ drop n ys) zs" by (rule subseq_order.order_trans)
qed

lemma relay_run_ok: "relay_run xs r \<Longrightarrow> relay_ok xs r"
proof (induction rule: relay_run.induct)
  case opened
  show ?case by (simp add: relay_ok_def new_relay_def)
next
  case (message xs r m x)
  then show ?case
    by (auto simp: relay_ok_def relay_offer_def simp flip: append_assoc intro: list_emb_append_mono)
next
  case (dropped xs r x)
  then show ?case by (auto simp: relay_ok_def relay_drop_def intro: subseq_drop_mid)
next
  case (retried xs r x)
  then show ?case
    by (auto simp: relay_ok_def relay_retry_def simp flip: append_assoc intro: list_emb_append_mono)
next
  case (executed xs r x q)
  then show ?case by (auto simp: relay_ok_def split: option.splits)
qed

text \<open>C31: the input of a browser reaches the device in order, however the reader of the socket and the runner
  of the commands interleave: what was run and what waits is a part of the commands that came in, at most
  four wait, and, unless one is just being put in, the latest command is among them: old ones give way.
  All of them go to the device that had the id when the socket was opened, whatever session it has now.\<close>

theorem relay_keeps_the_latest:
  assumes "relay_run xs r"
  shows "subseq (rl_ran r @ rl_queue r) xs \<and> length (rl_queue r) \<le> 4 \<and>
    (rl_pending r = None \<longrightarrow> xs \<noteq> [] \<longrightarrow> last xs \<in> set (rl_ran r @ rl_queue r)) \<and>
    list_all (for_dev c (screen_serial ident p)) (relay_commands c p ident r)"
proof (intro conjI impI)
  from relay_run_ok [OF assms] show "subseq (rl_ran r @ rl_queue r) xs"
    by (auto simp: relay_ok_def split: option.splits intro: list_emb_append2)
  from relay_run_ok [OF assms] show "length (rl_queue r) \<le> 4" by (simp add: relay_ok_def)
  show "last xs \<in> set (rl_ran r @ rl_queue r)" if "rl_pending r = None" "xs \<noteq> []"
    using relay_run_ok [OF assms] that last_in_set [of "rl_ran r @ rl_queue r"] by (auto simp: relay_ok_def)
  show "list_all (for_dev c (screen_serial ident p)) (relay_commands c p ident r)"
    by (simp add: relay_commands_def list_all_iff for_dev_def on_dev_def)
qed

subsection \<open>Reading and sending units\<close>

definition be32_bytes :: "nat \<Rightarrow> string" where
  "be32_bytes n = map char_of [n div 256 ^ 3, n div 256 ^ 2, n div 256, n]"

lemma be32_back: "n < 256 ^ 4 \<Longrightarrow> be32 (be32_bytes n) = n"
proof -
  assume "n < 256 ^ 4"
  then have "n div 256 ^ 3 < 256" by (simp add: less_mult_imp_div_less)
  moreover have "256 * (n div 256 ^ 3) + n div 256 ^ 2 mod 256 = n div 256 ^ 2"
    using div_mult_mod_eq [of "n div 256 ^ 2" 256] by (simp add: div_mult2_eq [symmetric] mult.commute)
  moreover have "256 * (n div 256 ^ 2) + n div 256 mod 256 = n div 256"
    using div_mult_mod_eq [of "n div 256" 256] by (simp add: div_mult2_eq [symmetric] mult.commute)
  ultimately show ?thesis by (simp add: be32_def be32_bytes_def)
qed

lemma be32_length [simp]: "length (be32_bytes n) = 4"
  by (simp add: be32_bytes_def)

definition framed :: "string \<Rightarrow> string" where "framed u = be32_bytes (length u) @ u"

text \<open>The stream of scrcpy is read back: of units written behind their lengths exactly the units that are
  not empty come out, in order, and a unit that is cut off at any byte adds nothing.\<close>

theorem units_read_back:
  assumes "\<forall>u \<in> set us. length u < 256 ^ 4" and "length v < 256 ^ 4" and "k < 4 + length v" and "v \<noteq> []"
  shows "read_units (concat (map framed us)) = filter (\<lambda>u. u \<noteq> []) us \<and>
    read_units (concat (map framed us) @ take k (framed v)) = filter (\<lambda>u. u \<noteq> []) us"
proof -
  have step: "read_units (framed u @ rest) = (if u = [] then read_units rest else u # read_units rest)"
    if "length u < 256 ^ 4" for u rest
    using that by (subst read_units.simps) (simp add: framed_def be32_back Let_def)
  have tail: "read_units (take k (framed v)) = []"
    using assms(2,3,4) by (subst read_units.simps) (simp add: framed_def be32_back Let_def)
  have "read_units (concat (map framed us) @ t) = filter (\<lambda>u. u \<noteq> []) us @ read_units t" for t
    using assms(1) by (induction us) (simp_all add: step)
  moreover have "read_units [] = []" by (subst read_units.simps) simp
  ultimately show ?thesis using tail by (metis append_Nil2)
qed

theorem units_read_back_witness:
  "read_units (framed ''ab'' @ framed [] @ framed ''c'' @ take 6 (framed ''xyz'')) = [''ab'', ''c'']"
  using units_read_back [of "[''ab'', [], ''c'']" "''xyz''" 6] by simp

definition tap_relay :: relay where
  "tap_relay = \<lparr>rl_queue = [''input keyevent 3''], rl_pending = None, rl_ran = []\<rparr>"

lemma tap_relay_run: "relay_run [''input keyevent 3''] tap_relay"
proof -
  have "input_command ''home'' = Some ''input keyevent 3''"
    by (simp add: input_command_def after_word_def has_prefix_def)
  then have "relay_run ([] @ [''input keyevent 3'']) (relay_offer ''input keyevent 3'' new_relay)"
    by (intro relay_run.message [OF relay_run.opened]) (simp_all add: new_relay_def)
  then show ?thesis by (simp add: relay_offer_def new_relay_def tap_relay_def)
qed

theorem relay_keeps_the_latest_witness: "''input keyevent 3'' \<in> set (rl_ran tap_relay @ rl_queue tap_relay)"
  using relay_keeps_the_latest [OF tap_relay_run] by (simp add: tap_relay_def)

definition parameter_set :: "string \<Rightarrow> bool" where "parameter_set u \<longleftrightarrow> unit_type u = 7 \<or> unit_type u = 8"

definition sample_ok :: "string list \<Rightarrow> sample \<Rightarrow> bool" where
  "sample_ok us x \<longleftrightarrow> (\<exists>cfg u. sm_units x = cfg @ [u] \<and> is_slice u \<and> length cfg \<le> 2 \<and>
     (\<forall>c \<in> set cfg. parameter_set c \<and> c \<in> set us))"

definition slices_sent :: "player \<Rightarrow> string list" where
  "slices_sent p = map (\<lambda>x. last (sm_units x)) (pl_sent p)"

definition player_ok :: "string list \<Rightarrow> player \<Rightarrow> bool" where
  "player_ok us p \<longleftrightarrow> (\<forall>x \<in> set (pl_sent p). sample_ok us x) \<and>
     (\<forall>s. pl_sps p = Some s \<longrightarrow> unit_type s = 7 \<and> s \<in> set us) \<and>
     (\<forall>s. pl_pps p = Some s \<longrightarrow> unit_type s = 8 \<and> s \<in> set us)"

lemma player_ok_mono: "player_ok us p \<Longrightarrow> set us \<subseteq> set vs \<Longrightarrow> player_ok vs p"
  unfolding player_ok_def sample_ok_def by blast

lemma play_unit_ok: "player_ok us p \<Longrightarrow> u \<in> set us \<Longrightarrow> player_ok us (play_unit u p)"
  by (auto simp: player_ok_def play_unit_def send_def sample_ok_def is_slice_def parameter_set_def
      split: option.splits bool.splits)

lemma play_unit_slices: "slices_sent (play_unit u p) = slices_sent p @ (if is_slice u then [u] else [])"
  by (auto simp: slices_sent_def play_unit_def send_def is_slice_def split: option.splits bool.splits)

lemma nal_run_ok:
  "nal_run us ch p \<Longrightarrow> player_ok us p \<and> set ch \<subseteq> set us \<and> length ch \<le> 2 \<and>
     subseq (slices_sent p @ filter is_slice ch) (filter is_slice us)"
proof (induction rule: nal_run.induct)
  case started
  show ?case by (simp add: player_ok_def new_player_def slices_sent_def)
next
  case (read us ch p u)
  then have "subseq ((slices_sent p @ filter is_slice ch) @ filter is_slice [u]) (filter is_slice us @ filter is_slice [u])"
    by (intro list_emb_append_mono) auto
  with read show ?case
    by (auto simp: offer_unit_def elim: player_ok_mono intro: list_emb_append2)
next
  case (played us u ch p)
  then show ?case using play_unit_ok [of us p u] by (auto simp: play_unit_slices)
next
  case (asked us ch p)
  then show ?case by (simp add: player_ok_def slices_sent_def)
qed



subsection \<open>Which device is shown\<close>

definition here :: "adb_client \<Rightarrow> string \<Rightarrow> cmd \<Rightarrow> bool" where
  "here c s cmd \<longleftrightarrow> for_dev c s cmd \<or> take 2 cmd = [''kill'', ''SIGKILL'']"

named_theorems here_intros "which parts of a stream stay on its device"

lemma here_parts [here_intros]:
  "issues (here c s) (run_cmd c (on_dev c s args))" "issues (here c s) (start_cmd c (on_dev c s args))"
  "issues (here c s) (signal_proc c pid ''SIGKILL'')"
  by (auto simp: here_def for_dev_def on_dev_def intro: issues_run_cmd issues_start_cmd issues_signal_proc)

lemma here_adb [here_intros]: "only_dev c s m \<Longrightarrow> issues (here c s) m"
  by (erule issues_mono) (simp add: here_def)

lemma only_dev_loops [here_intros]: "only_dev c s (screencap_loop c s ws)" "only_dev c s (logcat_loop c s ws)"
proof -
  show "only_dev c s (screencap_loop c s ws)"
    by (induction c s ws rule: screencap_loop.induct) (auto intro!: issues_intros)
  show "only_dev c s (logcat_loop c s ws)"
    by (induction c s ws rule: logcat_loop.induct) (auto intro!: issues_intros)
qed

lemma here_scrcpy [here_intros]: "issues (here c s) (scrcpy_session c s server sizes port dialled)"
  unfolding scrcpy_session_def by (intro issues_intros(1,2,4,5) here_intros(1-3))

lemma here_record [here_intros]: "issues (here c s) (record_rounds c s gone)"
proof (induction gone)
  case Nil
  show ?case by (simp add: issues_return)
next
  case (Cons g gone)
  then show ?case
    unfolding record_rounds.simps by (intro issues_if issues_return issues_bind issues_option here_intros(1-3))
qed

lemma here_rounds [here_intros]: "issues (here c s) (scrcpy_rounds c s server fallback rounds)"
proof (induction rounds)
  case Nil
  show ?case by (simp add: issues_return)
next
  case (Cons r rounds)
  obtain gone port dialled where r: "r = (gone, port, dialled)" by (cases r) auto
  show ?case
    unfolding r scrcpy_rounds.simps webrtc_scrcpy_def by (intro issues_if issues_return issues_bind here_scrcpy here_record Cons)
qed

lemma here_fallbacks [here_intros]: "issues (here c s) (stream_fallbacks c e s)"
  unfolding stream_fallbacks_def stream_screenrecord_def
  by (intro issues_bind issues_option issues_return here_intros(1-3) here_adb [OF only_dev_loops(1)])

lemma ws_open_found:
  "(\<And>s. issues (here c s) (act s)) \<Longrightarrow> issues (here c s) (ws_open s act)"
  by (auto simp: ws_open_def Let_def intro!: issues_return issues_bind)

lemma ws_open_missing: "ws_open [] act = State_Monad.return None"
  by (simp add: ws_open_def)

text \<open>What scrcpy leaves behind.\<close>

lemma scrcpy_session_cleans:
  fixes c s server sizes n h
  defines "before \<equiv> h @ [on_dev c s [''push'', server, scrcpy_jar]]"
    and "forward \<equiv> on_dev c s [''forward'', ''tcp:'' @ itoa n, ''localabstract:scrcpy'']"
    and "start \<equiv> on_dev c s (scrcpy_args sizes)"
  assumes "run_oracle c h (on_dev c s [''push'', server, scrcpy_jar]) \<noteq> None" and "run_oracle c before forward \<noteq> None"
  shows "snd (run_state (scrcpy_session c s server sizes (Some n) dialled) h) = before @ [forward, start] @
    (case start_oracle c (before @ [forward]) start of None \<Rightarrow> [] | Some pid \<Rightarrow> [[''kill'', ''SIGKILL'', itoa_nat pid]]) @
    [on_dev c s [''forward'', ''--remove'', ''tcp:'' @ itoa n]]"
  using assms by (auto simp: scrcpy_session_def split: option.splits)

definition yields :: "('a \<Rightarrow> bool) \<Rightarrow> 'a io \<Rightarrow> bool" where
  "yields Q m \<longleftrightarrow> (\<forall>h. Q (fst (run_state m h)))"

named_theorems yields_intros "rules that show what a computation yields"

lemma yields_return [yields_intros]: "Q x \<Longrightarrow> yields Q (State_Monad.return x)"
  by (simp add: yields_def)

lemma yields_bind [yields_intros]: "(\<And>x. yields Q (f x)) \<Longrightarrow> yields Q (State_Monad.bind m f)"
  by (simp add: yields_def split_beta)

lemma yields_bind_from: "yields R m \<Longrightarrow> (\<And>x. R x \<Longrightarrow> yields Q (f x)) \<Longrightarrow> yields Q (State_Monad.bind m f)"
  by (simp add: yields_def split_beta)

lemma yields_if [yields_intros]: "(b \<Longrightarrow> yields Q m) \<Longrightarrow> (\<not> b \<Longrightarrow> yields Q m') \<Longrightarrow> yields Q (if b then m else m')"
  by simp

lemma yields_option [yields_intros]:
  "yields Q m \<Longrightarrow> (\<And>y. yields Q (f y)) \<Longrightarrow> yields Q (case x of None \<Rightarrow> m | Some y \<Rightarrow> f y)"
  by (cases x) simp_all

definition binaries :: "ws_message list \<Rightarrow> bool" where
  "binaries ms \<longleftrightarrow> (\<forall>m \<in> set ms. \<exists>d. m = BinMsg d)"

definition codec_stream :: "ws_message list \<Rightarrow> bool" where
  "codec_stream ms \<longleftrightarrow> (\<exists>t rest. ms = TextMsg t # rest \<and> (t = h264_header \<or> t = png_header) \<and> binaries rest)"

lemma binaries_pipe: "binaries (pipe_loop reads)"
  by (induction reads rule: pipe_loop.induct) (auto simp: binaries_def)

lemma yields_screencap: "yields binaries (screencap_loop c s ws)"
proof (induction ws)
  case Nil
  show ?case by (simp add: yields_def binaries_def)
next
  case (Cons w ws)
  have "yields binaries (screencap_loop c s ws \<bind> (\<lambda>rest. State_Monad.return (BinMsg d # rest)))" for d
    by (rule yields_bind_from [OF Cons]) (auto simp: yields_def binaries_def)
  moreover have "yields binaries (State_Monad.return [])" by (simp add: yields_def binaries_def)
  ultimately show ?case unfolding screencap_loop.simps
    by (intro yields_bind [of _ "\<lambda>png. case png of None \<Rightarrow> _ | Some d \<Rightarrow> _ d"] yields_option yields_if Cons)
qed

lemma yields_fallbacks: "yields codec_stream (stream_fallbacks c e s)"
proof -
  have rec: "yields (\<lambda>r. case r of None \<Rightarrow> True | Some ms \<Rightarrow> codec_stream ms) (stream_screenrecord c s reads)" for reads
    unfolding stream_screenrecord_def by (intro yields_intros) (simp_all add: codec_stream_def binaries_pipe)
  have png: "yields codec_stream (do { ms \<leftarrow> screencap_loop c s ticks; State_Monad.return (TextMsg png_header # ms) })" for ticks
    by (rule yields_bind_from [OF yields_screencap]) (simp add: yields_def codec_stream_def)
  show ?thesis unfolding stream_fallbacks_def
    by (rule yields_bind_from [OF rec]) (auto intro: yields_intros png split: option.split)
qed

lemma yields_ws_open:
  assumes "\<And>s. yields Q (act s)"
  shows "yields (\<lambda>r. case r of None \<Rightarrow> s = [] | Some x \<Rightarrow> Q x) (ws_open s act)"
proof (cases "s = []")
  case True
  then show ?thesis by (simp add: ws_open_def yields_def)
next
  case False
  then show ?thesis unfolding ws_open_def
    by (simp only: if_False) (rule yields_bind_from [OF assms], simp add: yields_def)
qed

lemma yields_stream_screen:
  "yields (\<lambda>r. case r of None \<Rightarrow> find_serial ident p = [] | Some ms \<Rightarrow> codec_stream ms) (stream_screen c e p ident)"
  unfolding stream_screen_def
  by (intro yields_ws_open yields_intros yields_fallbacks) (simp add: codec_stream_def binaries_pipe)


definition watch_adb :: adb_client where
  "watch_adb = \<lparr>adb_path = ''adb'', emulator_path = ''emulator'', run_oracle = \<lambda>h cmd. Some [], start_oracle = \<lambda>h cmd. Some 7,
     signal_oracle = \<lambda>h pid sig. SigOk, boot_polls = \<lambda>t. 0\<rparr>"

definition watch_env :: screen_env where
  "watch_env = \<lparr>se_server = [], se_port = None, se_dialled = False, se_reads = [], se_record = [(''x'', True)], se_ticks = []\<rparr>"


subsection \<open>The negotiation\<close>

text \<open>What the calls of the WebRTC library in \<^verbatim>\<open>Offer\<close> answer, in their order, each with the code that the
  client is told when it fails. \<open>oe_body\<close>: the body decodes; \<open>oe_answer\<close>: the description of this side.\<close>

record offer_env =
  oe_body :: bool
  oe_codecs :: bool
  oe_interceptors :: bool
  oe_peer :: bool
  oe_track :: bool
  oe_add_track :: bool
  oe_set_offer :: bool
  oe_create_answer :: bool
  oe_set_answer :: bool
  oe_answer :: "string \<times> string"

definition offer_calls :: "offer_env \<Rightarrow> (string \<times> bool) list" where
  "offer_calls e = [(''codec_init'', oe_codecs e), (''interceptor_init'', oe_interceptors e), (''pc_failed'', oe_peer e),
     (''track_failed'', oe_track e), (''add_track'', oe_add_track e), (''set_offer'', oe_set_offer e),
     (''create_answer'', oe_create_answer e), (''set_answer'', oe_set_answer e)]"

datatype feed = Waiting | Feeding | Over

record peer =
  pr_open :: bool
  pr_feed :: feed

text \<open>The reply, and the connection that it leaves behind with the goroutine that feeds it.\<close>

definition webrtc_offer :: "offer_env \<Rightarrow> pool \<Rightarrow> string \<Rightarrow> response \<times> peer option" where
  "webrtc_offer e p ident =
     (if find_serial ident p = [] then (api_error ''not_found'' (Some ''instance not found'') 404, None)
      else if \<not> oe_body e then (api_error ''invalid'' None 400, None)
      else (case List.find (\<lambda>(code, done). \<not> done) (offer_calls e) of
              Some (code, done) \<Rightarrow> (api_error code None 500,
                if code \<in> {''codec_init'', ''interceptor_init'', ''pc_failed''} then None
                else Some \<lparr>pr_open = False, pr_feed = Over\<rparr>)
            | None \<Rightarrow> (ok [(''sdp'', JStr (fst (oe_answer e))), (''type'', JStr (snd (oe_answer e)))],
                Some \<lparr>pr_open = True, pr_feed = Waiting\<rparr>)))"

datatype peer_event = PeerConnected | PeerDisconnected | PeerFailed | PeerClosed | ThirtySeconds

definition peer_step :: "peer_event \<Rightarrow> peer \<Rightarrow> peer" where
  "peer_step ev pr = (case ev of
      PeerConnected \<Rightarrow> (if pr_feed pr = Waiting then pr\<lparr>pr_feed := Feeding\<rparr> else pr)
    | PeerDisconnected \<Rightarrow> pr
    | PeerFailed \<Rightarrow> \<lparr>pr_open = False, pr_feed = Over\<rparr>
    | PeerClosed \<Rightarrow> \<lparr>pr_open = False, pr_feed = Over\<rparr>
    | ThirtySeconds \<Rightarrow> (if pr_feed pr = Waiting then pr\<lparr>pr_feed := Over\<rparr> else pr))"

lemma peer_runs:
  "pr_open pr = (PeerFailed \<notin> set evs \<and> PeerClosed \<notin> set evs) \<and> (\<not> pr_open pr \<longrightarrow> pr_feed pr = Over)"
  if "pr = fold peer_step evs \<lparr>pr_open = True, pr_feed = Waiting\<rparr>"
  using that
  by (induction evs arbitrary: pr rule: rev_induct) (auto simp: peer_step_def split: peer_event.splits)

text \<open>Negotiating a stream: the reply is 200 with the description of this side exactly when the device is
  there, the body decodes and every call of the library succeeds; otherwise the code says what failed and
  no connection is left open. An open connection is closed, and its stream ended, exactly when it fails or
  is closed, not when it is merely disconnected. But a browser that needs more than thirty seconds is
  connected to a stream that is over, and the connection stays open.\<close>

theorem webrtc_offer_correct:
  fixes e p ident
  defines "good \<equiv> find_serial ident p \<noteq> [] \<and> oe_body e \<and> list_all snd (offer_calls e)"
  shows "(rs_status (fst (webrtc_offer e p ident)) = 200 \<longleftrightarrow> good) \<and>
    (good \<longleftrightarrow> snd (webrtc_offer e p ident) = Some \<lparr>pr_open = True, pr_feed = Waiting\<rparr>) \<and>
    (\<not> good \<longrightarrow> (\<exists>code message st. fst (webrtc_offer e p ident) = api_error code message st \<and> st \<in> {400, 404, 500} \<and>
        (st = 500 \<longrightarrow> (code, False) \<in> set (offer_calls e)) \<and>
        (\<forall>pr. snd (webrtc_offer e p ident) = Some pr \<longrightarrow> \<not> pr_open pr))) \<and>
    (let pr = fold peer_step evs \<lparr>pr_open = True, pr_feed = Waiting\<rparr>
     in (pr_open pr \<longleftrightarrow> PeerFailed \<notin> set evs \<and> PeerClosed \<notin> set evs) \<and> (\<not> pr_open pr \<longrightarrow> pr_feed pr = Over)) \<and>
    fold peer_step [ThirtySeconds, PeerConnected] \<lparr>pr_open = True, pr_feed = Waiting\<rparr> = \<lparr>pr_open = True, pr_feed = Over\<rparr>"
proof -
  have calls: "(case List.find (\<lambda>(code, done). \<not> done) cs of None \<Rightarrow> list_all snd cs
      | Some (code, done) \<Rightarrow> \<not> list_all snd cs \<and> \<not> done \<and> (code, False) \<in> set cs)" for cs :: "(string \<times> bool) list"
    by (induction cs) (auto split: option.splits)
  from calls [of "offer_calls e"] show ?thesis
    using peer_runs [OF refl, of evs]
    by (auto simp: webrtc_offer_def good_def api_error_def ok_def json_response_def Let_def peer_step_def
        split: option.splits prod.splits if_splits)
qed

definition late_call :: offer_env where
  "late_call = \<lparr>oe_body = True, oe_codecs = True, oe_interceptors = True, oe_peer = True, oe_track = True, oe_add_track = True,
     oe_set_offer = False, oe_create_answer = True, oe_set_answer = True, oe_answer = ([], [])\<rparr>"

theorem webrtc_offer_correct_witness:
  "\<forall>cfg. rs_status (fst (webrtc_offer late_call (phone_pool cfg) ''s1'')) \<noteq> 200 \<and>
     (\<forall>pr. snd (webrtc_offer late_call (phone_pool cfg) ''s1'') = Some pr \<longrightarrow> \<not> pr_open pr) \<and>
     \<not> pr_open (fold peer_step [PeerConnected, PeerFailed] \<lparr>pr_open = True, pr_feed = Waiting\<rparr>)"
  using webrtc_offer_correct [where e = late_call and ident = "''s1''" and evs = "[PeerConnected, PeerFailed]"]
  by (auto simp: late_call_def offer_calls_def Let_def)

end
