(* ===== verification/Routes.thy ===== *)
theory Routes
  imports ServerApi
begin

text \<open>
  The HTTP server (\<^verbatim>\<open>internal/api/routes.go\<close>, \<^verbatim>\<open>server.go\<close>, \<^verbatim>\<open>dashboard.go\<close>): the table of routes, what reaches
  which handler, and the dashboard behind all other paths. The router itself is a library: the locale \<open>chi_router\<close>
  says what its documentation promises for paths without empty segments, and \<open>first_route\<close> shows that it can be kept.
\<close>

subsection \<open>The table\<close>

text \<open>Method, pattern and handler; the method \<open>*\<close> is any.\<close>

type_synonym route = "string \<times> string \<times> string"

definition mounted :: "string \<Rightarrow> route list \<Rightarrow> route list" where
  "mounted base = map (\<lambda>(m, p, h). (m, base @ p, h))"

definition hub_routes :: "route list" where
  "hub_routes = [
    (''GET'', ''/wd/hub/status'', ''appH.Status''), (''GET'', ''/wd/hub/sessions'', ''appH.Sessions''),
    (''POST'', ''/wd/hub/session'', ''appH.Create''),
    (''GET'', ''/wd/hub/session/{sid}/drizz-session-id'', ''appH.DrizzSessionID''),
    (''*'', ''/wd/hub/session/{sid}/*'', ''appH.Proxy''), (''*'', ''/wd/hub/session/{sid}'', ''appH.Proxy'')]"

definition registry_routes :: "route list" where
  "registry_routes = [
    (''GET'', ''/nodes'', ''regH.List''), (''GET'', ''/group'', ''regH.GroupInfo''),
    (''POST'', ''/group'', ''regH.CreateGroup''), (''POST'', ''/group/join'', ''regH.JoinGroup''),
    (''DELETE'', ''/group'', ''regH.LeaveGroup''), (''GET'', ''/group/export'', ''regH.ExportGroup''),
    (''POST'', ''/nodes'', ''regH.AddNode''), (''DELETE'', ''/nodes/{name}'', ''regH.RemoveNode'')]"

definition session_routes :: "route list" where
  "session_routes = [
    (''POST'', ''/sessions'', ''sessH.Create''), (''GET'', ''/sessions'', ''sessH.List''),
    (''GET'', ''/sessions/{id}'', ''sessH.Get''), (''DELETE'', ''/sessions/{id}'', ''sessH.Release''),
    (''GET'', ''/pool'', ''poolH.Status''), (''GET'', ''/pool/available'', ''poolH.Available''),
    (''POST'', ''/pool/boot'', ''poolH.Boot''), (''POST'', ''/pool/shutdown'', ''poolH.Shutdown''),
    (''GET'', ''/devices'', ''poolH.Devices''), (''POST'', ''/devices/{id}/reserve'', ''poolH.Reserve''),
    (''DELETE'', ''/devices/{id}/reserve'', ''poolH.Unreserve''), (''GET'', ''/node/health'', ''nodeH.Health''),
    (''GET'', ''/sessions/{id}/screen'', ''screenH.StreamScreen''),
    (''POST'', ''/sessions/{id}/webrtc/offer'', ''webrtcH.Offer''),
    (''GET'', ''/sessions/{id}/input'', ''screenH.SendInput''),
    (''GET'', ''/sessions/{id}/logcat'', ''screenH.StreamLogcat'')]"

definition simulation_routes :: "route list" where
  "simulation_routes = [
    (''POST'', ''/sessions/{id}/gps'', ''devH.SetGPS''), (''POST'', ''/sessions/{id}/network'', ''devH.SetNetwork''),
    (''POST'', ''/sessions/{id}/battery'', ''devH.SetBattery''),
    (''POST'', ''/sessions/{id}/orientation'', ''devH.SetOrientation''),
    (''POST'', ''/sessions/{id}/locale'', ''devH.SetLocale''),
    (''POST'', ''/sessions/{id}/appearance'', ''devH.SetDarkMode''),
    (''POST'', ''/sessions/{id}/install'', ''devH.InstallAPK''),
    (''POST'', ''/sessions/{id}/uninstall'', ''devH.UninstallApp''),
    (''POST'', ''/sessions/{id}/clear-data'', ''devH.ClearData''),
    (''POST'', ''/sessions/{id}/deeplink'', ''devH.OpenDeeplink''),
    (''POST'', ''/sessions/{id}/permissions'', ''devH.Permissions''),
    (''POST'', ''/sessions/{id}/file/push'', ''devH.PushFile''),
    (''POST'', ''/sessions/{id}/file/pull'', ''devH.PullFile''),
    (''POST'', ''/sessions/{id}/files/upload'', ''devH.UploadFile''),
    (''POST'', ''/sessions/{id}/biometric'', ''devH.Biometric''),
    (''POST'', ''/sessions/{id}/camera'', ''devH.CameraInject''),
    (''POST'', ''/sessions/{id}/timezone'', ''devH.SetTimezone''),
    (''POST'', ''/sessions/{id}/push-notification'', ''devH.PushNotification''),
    (''POST'', ''/sessions/{id}/clipboard'', ''devH.Clipboard''),
    (''POST'', ''/sessions/{id}/font-scale'', ''devH.FontScale'')]"

definition control_routes :: "route list" where
  "control_routes = [
    (''POST'', ''/sessions/{id}/shake'', ''devH.Shake''), (''POST'', ''/sessions/{id}/sensor'', ''devH.Sensor''),
    (''POST'', ''/sessions/{id}/audio'', ''devH.AudioInject''), (''POST'', ''/sessions/{id}/volume'', ''devH.Volume''),
    (''POST'', ''/sessions/{id}/lock'', ''devH.LockUnlock''),
    (''POST'', ''/sessions/{id}/animations'', ''devH.Animations''),
    (''POST'', ''/sessions/{id}/gps-route'', ''devH.GPSRoute''),
    (''POST'', ''/sessions/{id}/accessibility'', ''devH.Accessibility''),
    (''POST'', ''/sessions/{id}/brightness'', ''devH.Brightness''),
    (''POST'', ''/sessions/{id}/wifi'', ''devH.WifiToggle''), (''POST'', ''/sessions/{id}/launch'', ''devH.LaunchApp''),
    (''POST'', ''/sessions/{id}/force-stop'', ''devH.ForceStop''),
    (''GET'', ''/sessions/{id}/ui-tree'', ''devH.GetUITree''),
    (''GET'', ''/sessions/{id}/activity'', ''devH.GetActivity''),
    (''GET'', ''/sessions/{id}/device-info'', ''devH.GetDeviceInfo''),
    (''GET'', ''/sessions/{id}/notifications'', ''devH.GetNotifications''),
    (''GET'', ''/sessions/{id}/clipboard/get'', ''devH.GetClipboard''),
    (''GET'', ''/sessions/{id}/keyboard'', ''devH.IsKeyboardShown''),
    (''GET'', ''/sessions/{id}/package-info'', ''devH.GetPackageInfo''),
    (''POST'', ''/sessions/{id}/key'', ''devH.PressKey''), (''POST'', ''/sessions/{id}/adb'', ''devH.ExecADB'')]"

definition artifact_routes :: "route list" where
  "artifact_routes = [
    (''POST'', ''/sessions/{id}/recording/start'', ''recH.Start''),
    (''POST'', ''/sessions/{id}/recording/stop'', ''recH.Stop''),
    (''GET'', ''/sessions/{id}/recording/download'', ''recH.Download''),
    (''GET'', ''/sessions/{id}/recordings'', ''recH.List''),
    (''POST'', ''/sessions/{id}/screenshot'', ''recH.Screenshot''),
    (''GET'', ''/sessions/{id}/logcat/download'', ''recH.GetLogcat''),
    (''GET'', ''/sessions/{id}/artifacts'', ''artH.List''),
    (''GET'', ''/sessions/{id}/artifacts/{filename}'', ''artH.Serve''),
    (''GET'', ''/sessions/{id}/timeline'', ''timelineH.Get''),
    (''POST'', ''/sessions/{id}/har/start'', ''recH.StartHAR''),
    (''POST'', ''/sessions/{id}/har/stop'', ''recH.StopHAR''),
    (''GET'', ''/sessions/{id}/har/download'', ''recH.DownloadHAR''),
    (''GET'', ''/artifacts/{id}/*'', ''recH.ServeArtifact'')]"

definition admin_routes :: "route list" where
  "admin_routes = [
    (''POST'', ''/sessions/{id}/snapshot/save'', ''snapH.Save''),
    (''POST'', ''/sessions/{id}/snapshot/restore'', ''snapH.Restore''),
    (''GET'', ''/sessions/{id}/snapshots'', ''snapH.List''),
    (''DELETE'', ''/sessions/{id}/snapshot/{name}'', ''snapH.Delete''), (''GET'', ''/config'', ''cfgH.GetConfig''),
    (''PUT'', ''/config'', ''cfgH.UpdateConfig''), (''GET'', ''/config/raw'', ''cfgH.GetConfigRaw''),
    (''PUT'', ''/config/raw'', ''cfgH.SaveConfigRaw''), (''GET'', ''/history/sessions'', ''histH.SessionHistory''),
    (''GET'', ''/history/events'', ''histH.Events'')]"

definition discovery_routes :: "route list" where
  "discovery_routes = [
    (''GET'', ''/system-images'', ''discH.SystemImages''), (''GET'', ''/available-images'', ''discH.AvailableImages''),
    (''POST'', ''/install-image'', ''discH.InstallImage''),
    (''POST'', ''/install-image-stream'', ''discH.InstallImageStream''), (''GET'', ''/devices'', ''discH.Devices''),
    (''GET'', ''/avds'', ''discH.AVDs''), (''POST'', ''/create-avds'', ''discH.CreateAVDs'')]"

definition farm_routes :: "route list" where
  "farm_routes = hub_routes @ mounted ''/api/v1'' (registry_routes @ session_routes @ simulation_routes @ control_routes @
     artifact_routes @ admin_routes @ mounted ''/discovery'' discovery_routes)"

subsection \<open>Patterns\<close>

datatype seg = Lit string | Param string | Wild

definition seg_of :: "string \<Rightarrow> seg" where
  "seg_of w =
     (if w = ''*'' then Wild
      else if w \<noteq> [] \<and> hd w = CHR ''{'' \<and> last w = CHR ''}'' then Param (butlast (tl w))
      else Lit w)"

definition segments :: "string \<Rightarrow> string list" where "segments p = tl (split_on slash p)"
definition pattern :: "string \<Rightarrow> seg list" where "pattern p = map seg_of (segments p)"

type_synonym params = "(string \<times> string) list"

fun binds :: "seg list \<Rightarrow> string list \<Rightarrow> params option" where
  "binds [] [] = Some []"
| "binds [Wild] (w # ws) = Some [(''*'', join_with [slash] (w # ws))]"
| "binds (Lit a # ps) (w # ws) = (if a = w then binds ps ws else None)"
| "binds (Param x # ps) (w # ws) = (if w = [] then None else map_option ((#) (x, w)) (binds ps ws))"
| "binds ps ws = None"

text \<open>\<open>p\<close> is tried before \<open>q\<close>: a text before a parameter before the rest.\<close>

fun tried_before :: "seg list \<Rightarrow> seg list \<Rightarrow> bool" where
  "tried_before (Lit a # p) (Lit b # q) = (a = b \<and> tried_before p q)"
| "tried_before (Param x # p) (Param y # q) = tried_before p q"
| "tried_before (Lit a # p) (Param y # q) = True"
| "tried_before (Lit a # p) (Wild # q) = True"
| "tried_before (Param x # p) (Wild # q) = True"
| "tried_before p q = False"

definition fits :: "string \<Rightarrow> route \<Rightarrow> bool" where
  "fits m r \<longleftrightarrow> fst r = ''*'' \<or> fst r = m"

definition route_binds :: "route \<Rightarrow> string \<Rightarrow> params option" where
  "route_binds r path = binds (pattern (fst (snd r))) (segments path)"

definition plain_path :: "string \<Rightarrow> bool" where
  "plain_path path \<longleftrightarrow> has_prefix path [slash] \<and> [] \<notin> set (segments path)"

datatype routed = Found string params | WrongMethod | NoRoute

locale chi_router =
  fixes rows :: "route list" and dispatch :: "string \<Rightarrow> string \<Rightarrow> routed"
  assumes found: "plain_path path \<Longrightarrow> dispatch m path = Found h ps \<Longrightarrow>
      \<exists>r \<in> set rows. fits m r \<and> route_binds r path = Some ps \<and> snd (snd r) = h \<and>
        (\<forall>q \<in> set rows. fits m q \<and> route_binds q path \<noteq> None \<longrightarrow>
           pattern (fst (snd q)) = pattern (fst (snd r)) \<or> tried_before (pattern (fst (snd r))) (pattern (fst (snd q))))"
    and missed: "plain_path path \<Longrightarrow> dispatch m path = WrongMethod \<Longrightarrow>
      (\<exists>r \<in> set rows. route_binds r path \<noteq> None) \<and> (\<forall>r \<in> set rows. route_binds r path \<noteq> None \<longrightarrow> \<not> fits m r)"
    and unknown: "plain_path path \<Longrightarrow> dispatch m path = NoRoute \<Longrightarrow> \<forall>r \<in> set rows. route_binds r path = None"

subsection \<open>No two routes for one request\<close>

fun overlap :: "seg list \<Rightarrow> seg list \<Rightarrow> bool" where
  "overlap (Lit a # p) (Lit b # q) = (if a = b then overlap p q else False)"
| "overlap (Wild # p) (y # q) = True"
| "overlap (x # p) (Wild # q) = True"
| "overlap (x # p) (y # q) = overlap p q"
| "overlap [] [] = True"
| "overlap p q = False"

lemma binds_overlap: "binds p ws = Some a \<Longrightarrow> binds q ws = Some b \<Longrightarrow> overlap p q"
proof (induction p ws arbitrary: q a b rule: binds.induct)
  case (2 w ws)
  then show ?case by (cases q) auto
next
  case (3 c ps w ws)
  then show ?case by (cases q rule: list.exhaust; cases "hd q") (auto split: if_splits)
next
  case (4 x ps w ws)
  then show ?case by (cases q rule: list.exhaust; cases "hd q") (auto split: if_splits)
qed (auto elim: binds.elims)

text \<open>For patterns of one length without a rest, from the end.\<close>

fun alike :: "seg list \<Rightarrow> seg list \<Rightarrow> bool" where
  "alike [] [] = True"
| "alike (Lit a # p) (Lit b # q) = (if a = b then alike p q else False)"
| "alike (x # p) (y # q) = alike p q"
| "alike p q = False"

lemma overlap_length: "overlap p q \<Longrightarrow> Wild \<notin> set p \<Longrightarrow> Wild \<notin> set q \<Longrightarrow> alike p q"
  by (induction p q rule: overlap.induct) (auto split: if_splits)

lemma alike_append: "length p = length p' \<Longrightarrow> alike (p @ r) (p' @ r') \<longleftrightarrow> alike p p' \<and> alike r r'"
  by (induction p p' rule: alike.induct) (auto split: if_splits)

lemma alike_length: "alike p q \<Longrightarrow> length p = length q"
  by (induction p q rule: alike.induct) (auto split: if_splits)

lemma alike_rev: "alike p q \<Longrightarrow> alike (rev p) (rev q)"
  by (induction p q rule: alike.induct) (auto simp: alike_append alike_length split: if_splits)

text \<open>A route as its method, whether it ends with a rest, its pattern backwards and itself.\<close>

type_synonym compiled_route = "string \<times> bool \<times> seg list"

definition compile_route :: "route \<Rightarrow> compiled_route" where
  "compile_route r = (case r of (m, p, h) \<Rightarrow> let q = pattern p in (m, Wild \<in> set q, rev q))"

definition clash :: "compiled_route \<Rightarrow> compiled_route \<Rightarrow> bool" where
  "clash r q =
     (case r of (m, wild, p) \<Rightarrow> case q of (m', wild', p') \<Rightarrow>
        if (if m = m' then True else if m = ''*'' then True else m' = ''*'')
        then (if wild then overlap (rev p) (rev p') else if wild' then overlap (rev p) (rev p') else alike p p')
        else False)"

lemma clash_if_both:
  assumes "fits m r" "fits m q" "route_binds r path \<noteq> None" "route_binds q path \<noteq> None"
  shows "clash (compile_route r) (compile_route q)"
proof -
  obtain a p h b p' h' where r: "r = (a, p, h)" and q: "q = (b, p', h')" by (cases r, cases q) auto
  from assms(3,4) have o: "overlap (pattern p) (pattern p')"
    by (auto simp: route_binds_def r q intro: binds_overlap)
  then have "Wild \<notin> set (pattern p) \<Longrightarrow> Wild \<notin> set (pattern p') \<Longrightarrow> alike (rev (pattern p)) (rev (pattern p'))"
    by (intro alike_rev overlap_length)
  with o assms(1,2) show ?thesis by (auto simp: clash_def compile_route_def r q fits_def Let_def)
qed

fun apart :: "compiled_route list \<Rightarrow> compiled_route list \<Rightarrow> bool" where
  "apart [] qs = True"
| "apart (r # rs) qs = (if list_ex (clash r) qs then False else apart rs qs)"

fun pairwise_apart :: "compiled_route list \<Rightarrow> bool" where
  "pairwise_apart [] = True"
| "pairwise_apart (r # rs) = (if list_ex (clash r) rs then False else pairwise_apart rs)"

lemma pairwise_append: "pairwise_apart (rs @ qs) \<longleftrightarrow> pairwise_apart rs \<and> pairwise_apart qs \<and> apart rs qs"
  by (induction rs) (auto simp: list_ex_iff)

lemma apart_append: "apart rs (qs @ qs') \<longleftrightarrow> apart rs qs \<and> apart rs qs'"
  by (induction rs) auto

abbreviation v1 :: "route list \<Rightarrow> compiled_route list" where "v1 rs \<equiv> map compile_route (mounted ''/api/v1'' rs)"

lemma blocks_apart:
  "pairwise_apart (v1 registry_routes)" "pairwise_apart (v1 session_routes)" "pairwise_apart (v1 simulation_routes)"
  "pairwise_apart (v1 control_routes)" "pairwise_apart (v1 artifact_routes)" "pairwise_apart (v1 admin_routes)"
  "pairwise_apart (v1 (mounted ''/discovery'' discovery_routes))"
  by code_simp+

lemma blocks_cross_1:
  "apart (v1 registry_routes) (v1 session_routes)" "apart (v1 registry_routes) (v1 simulation_routes)"
  "apart (v1 registry_routes) (v1 control_routes)" "apart (v1 registry_routes) (v1 artifact_routes)"
  "apart (v1 registry_routes) (v1 admin_routes)" "apart (v1 registry_routes) (v1 (mounted ''/discovery'' discovery_routes))"
  "apart (v1 session_routes) (v1 simulation_routes)" "apart (v1 session_routes) (v1 control_routes)"
  by code_simp+

lemma blocks_cross_2:
  "apart (v1 session_routes) (v1 artifact_routes)" "apart (v1 session_routes) (v1 admin_routes)"
  "apart (v1 session_routes) (v1 (mounted ''/discovery'' discovery_routes))"
  "apart (v1 simulation_routes) (v1 control_routes)" "apart (v1 simulation_routes) (v1 artifact_routes)"
  "apart (v1 simulation_routes) (v1 admin_routes)" "apart (v1 simulation_routes) (v1 (mounted ''/discovery'' discovery_routes))"
  by code_simp+

lemma blocks_cross_3:
  "apart (v1 control_routes) (v1 artifact_routes)" "apart (v1 control_routes) (v1 admin_routes)"
  "apart (v1 control_routes) (v1 (mounted ''/discovery'' discovery_routes))"
  "apart (v1 artifact_routes) (v1 admin_routes)" "apart (v1 artifact_routes) (v1 (mounted ''/discovery'' discovery_routes))"
  "apart (v1 admin_routes) (v1 (mounted ''/discovery'' discovery_routes))"
  by code_simp+

lemma v1_apart:
  "pairwise_apart (v1 (registry_routes @ session_routes @ simulation_routes @ control_routes @ artifact_routes @
     admin_routes @ mounted ''/discovery'' discovery_routes))"
  using blocks_apart blocks_cross_1 blocks_cross_2 blocks_cross_3
  by (simp add: mounted_def pairwise_append apart_append)

lemma overlap_wild [simp]: "overlap (y # q) (Wild # p)"
  by (cases y) auto

lemma overlap_sym: "overlap p q \<Longrightarrow> overlap q p"
  by (induction p q rule: overlap.induct) (auto split: if_splits)

lemma alike_sym: "alike p q \<Longrightarrow> alike q p"
  by (induction p q rule: alike.induct) (auto split: if_splits)

lemma clash_sym: "clash r q \<Longrightarrow> clash q r"
proof -
  assume c: "clash r q"
  obtain m wild p m' wild' p' where t: "r = (m, wild, p)" "q = (m', wild', p')" by (metis prod.collapse)
  have "overlap (rev p) (rev p') = overlap (rev p') (rev p)" "alike p p' = alike p' p"
    using overlap_sym alike_sym by blast+
  with c show "clash q r" unfolding t clash_def by (simp split: if_splits)
qed

lemma pairwise_apartD:
  "pairwise_apart (map f rs) \<Longrightarrow> r \<in> set rs \<Longrightarrow> q \<in> set rs \<Longrightarrow> r \<noteq> q \<Longrightarrow> \<not> clash (f r) (f q)"
  by (induction rs) (auto simp: list_ex_iff dest: clash_sym split: if_splits)

definition session_id_route :: route where
  "session_id_route = (''GET'', ''/wd/hub/session/{sid}/drizz-session-id'', ''appH.DrizzSessionID'')"
definition proxy_route :: route where "proxy_route = (''*'', ''/wd/hub/session/{sid}/*'', ''appH.Proxy'')"

lemma hub_clashes:
  "\<forall>r \<in> set hub_routes. \<forall>q \<in> set hub_routes. clash (compile_route r) (compile_route q) \<longrightarrow>
     r = q \<or> r = session_id_route \<and> q = proxy_route \<or> r = proxy_route \<and> q = session_id_route"
  by code_simp

text \<open>The first segment of a pattern.\<close>

definition begins_with :: "string \<Rightarrow> route \<Rightarrow> bool" where
  "begins_with w r \<longleftrightarrow> (case pattern (fst (snd r)) of Lit a # ps \<Rightarrow> a = w | _ \<Rightarrow> False)"

lemma begins_binds: "begins_with w r \<Longrightarrow> route_binds r path \<noteq> None \<Longrightarrow> hd (segments path) = w"
  by (cases "segments path") (auto simp: begins_with_def route_binds_def split: list.splits seg.splits if_splits)

lemma hub_begins: "\<forall>r \<in> set hub_routes. begins_with ''wd'' r" by code_simp

lemma v1_begins: "\<forall>r \<in> set (mounted ''/api/v1'' rs). begins_with ''api'' r"
  by (auto simp: begins_with_def mounted_def pattern_def segments_def seg_of_def slash_def split: list.split)

lemma one_route:
  assumes "r \<in> set farm_routes" "q \<in> set farm_routes" "fits m r" "fits m q"
    and "route_binds r path \<noteq> None" "route_binds q path \<noteq> None"
  shows "r = q \<or> r = session_id_route \<and> q = proxy_route \<or> r = proxy_route \<and> q = session_id_route"
proof -
  have c: "clash (compile_route r) (compile_route q)" by (rule clash_if_both) (use assms in auto)
  have h: "r \<in> set hub_routes \<longleftrightarrow> hd (segments path) = ''wd''" if "r \<in> set farm_routes" "route_binds r path \<noteq> None" for r
  proof
    show "hd (segments path) = ''wd''" if "r \<in> set hub_routes"
      using that \<open>route_binds r path \<noteq> None\<close> hub_begins begins_binds by blast
    show "r \<in> set hub_routes" if "hd (segments path) = ''wd''"
    proof (rule ccontr)
      assume "r \<notin> set hub_routes"
      with \<open>r \<in> set farm_routes\<close> have "begins_with ''api'' r"
        unfolding farm_routes_def set_append Un_iff using v1_begins by blast
      then have "hd (segments path) = ''api''" using \<open>route_binds r path \<noteq> None\<close> by (rule begins_binds)
      with that show False by simp
    qed
  qed
  show ?thesis
  proof (cases "hd (segments path) = ''wd''")
    case True
    with h assms c hub_clashes show ?thesis by blast
  next
    case False
    with h assms have "r \<notin> set hub_routes" "q \<notin> set hub_routes" by blast+
    with assms(1,2) c pairwise_apartD [OF v1_apart, of r q] show ?thesis
      unfolding farm_routes_def set_append Un_iff by blast
  qed
qed

text \<open>The forty-one routes of the device handlers all name the session or instance in their path.\<close>

lemma device_routes_named:
  "length (filter (\<lambda>r. has_prefix (snd (snd r)) ''devH.'') farm_routes) = 41"
  "\<forall>r \<in> set farm_routes. has_prefix (snd (snd r)) ''devH.'' \<longrightarrow> has_prefix (fst (snd r)) ''/api/v1/sessions/{id}/''"
  by code_simp+

subsection \<open>Dispatch\<close>

context chi_router begin

lemma only_route:
  assumes "plain_path path" "r \<in> set rows" "fits m r" "route_binds r path = Some ps"
    and "\<And>q. q \<in> set rows \<Longrightarrow> fits m q \<Longrightarrow> route_binds q path \<noteq> None \<Longrightarrow> q = r \<or>
      pattern (fst (snd q)) \<noteq> pattern (fst (snd r)) \<and> \<not> tried_before (pattern (fst (snd q))) (pattern (fst (snd r)))"
  shows "dispatch m path = Found (snd (snd r)) ps"
proof (cases "dispatch m path")
  case (Found h qs)
  obtain q where "q \<in> set rows" "fits m q" "route_binds q path = Some qs" "snd (snd q) = h"
    "pattern (fst (snd r)) = pattern (fst (snd q)) \<or> tried_before (pattern (fst (snd q))) (pattern (fst (snd r)))"
    using found [OF assms(1) Found] assms(2-4) by auto
  with assms(4,5) have "q = r" "qs = ps" by fastforce+
  with Found \<open>snd (snd q) = h\<close> show ?thesis by simp
qed (use missed unknown assms(1-4) in fastforce)+

lemma unknown_route: "plain_path path \<Longrightarrow> \<forall>r \<in> set rows. route_binds r path = None \<Longrightarrow> dispatch m path = NoRoute"
  using found [of path m] missed [of path m] by (cases "dispatch m path") fastforce+

end

definition first_route :: "route list \<Rightarrow> string \<Rightarrow> string \<Rightarrow> routed" where
  "first_route rows m path =
     (let bound = filter (\<lambda>r. route_binds r path \<noteq> None) rows;
          fit = filter (fits m) bound;
          exact = filter (\<lambda>r. Wild \<notin> set (pattern (fst (snd r)))) fit
      in case exact @ fit of
           r # rs \<Rightarrow> Found (snd (snd r)) (the (route_binds r path))
         | [] \<Rightarrow> if bound = [] then NoRoute else WrongMethod)"

lemma session_id_before: "tried_before (pattern (fst (snd session_id_route))) (pattern (fst (snd proxy_route)))"
  "Wild \<notin> set (pattern (fst (snd session_id_route)))" "Wild \<in> set (pattern (fst (snd proxy_route)))"
  "\<not> tried_before (pattern (fst (snd proxy_route))) (pattern (fst (snd session_id_route)))"
  by code_simp+

interpretation farm_router: chi_router farm_routes "first_route farm_routes"
proof
  fix path m h ps
  assume f: "first_route farm_routes m path = Found h ps"
  define fit where "fit = filter (fits m) (filter (\<lambda>r. route_binds r path \<noteq> None) farm_routes)"
  define exact where "exact = filter (\<lambda>r. Wild \<notin> set (pattern (fst (snd r)))) fit"
  from f obtain r rs where l: "exact @ fit = r # rs" and h: "h = snd (snd r)" "ps = the (route_binds r path)"
    unfolding first_route_def Let_def fit_def [symmetric] exact_def [symmetric]
    by (cases "exact @ fit") (simp_all split: if_splits)
  from l have "r \<in> set fit" by (cases exact) (auto simp: exact_def filter_eq_Cons_iff)
  then have r: "r \<in> set farm_routes" "fits m r" "route_binds r path = Some ps" "snd (snd r) = h"
    by (auto simp: fit_def h)
  have first: "\<forall>q \<in> set farm_routes. fits m q \<and> route_binds q path \<noteq> None \<longrightarrow> Wild \<in> set (pattern (fst (snd q)))"
    if "Wild \<in> set (pattern (fst (snd r)))"
  proof -
    have "exact = []" using l that by (cases exact) (auto simp: exact_def filter_eq_Cons_iff)
    then show ?thesis by (auto simp: exact_def fit_def filter_empty_conv)
  qed
  have "pattern (fst (snd q)) = pattern (fst (snd r)) \<or> tried_before (pattern (fst (snd r))) (pattern (fst (snd q)))"
    if "q \<in> set farm_routes" "fits m q" "route_binds q path \<noteq> None" for q
    using one_route [OF r(1) that(1) r(2) that(2) _ that(3)] r(3) first that session_id_before by auto
  with r show "\<exists>r \<in> set farm_routes. fits m r \<and> route_binds r path = Some ps \<and> snd (snd r) = h \<and>
      (\<forall>q \<in> set farm_routes. fits m q \<and> route_binds q path \<noteq> None \<longrightarrow>
         pattern (fst (snd q)) = pattern (fst (snd r)) \<or> tried_before (pattern (fst (snd r))) (pattern (fst (snd q))))"
    by blast
next
  fix path m
  assume "first_route farm_routes m path = WrongMethod"
  then show "(\<exists>r \<in> set farm_routes. route_binds r path \<noteq> None) \<and> (\<forall>r \<in> set farm_routes. route_binds r path \<noteq> None \<longrightarrow> \<not> fits m r)"
    by (fastforce simp: first_route_def Let_def filter_empty_conv split: list.splits if_splits)
next
  fix path m
  assume "first_route farm_routes m path = NoRoute"
  then show "\<forall>r \<in> set farm_routes. route_binds r path = None"
    by (fastforce simp: first_route_def Let_def filter_empty_conv split: list.splits if_splits)
qed

text \<open>Every route is reached by the paths that fit it, but for the proxy where the session id is asked for.\<close>

lemma route_reached:
  assumes "chi_router farm_routes d" "plain_path path" "route \<in> set farm_routes" "fits m route" "route_binds route path = Some ps"
    and "route = proxy_route \<Longrightarrow> m \<noteq> ''GET'' \<or> route_binds session_id_route path = None"
  shows "d m path = Found (snd (snd route)) ps"
proof (rule chi_router.only_route [OF assms(1-5)])
  show "q = route \<or> pattern (fst (snd q)) \<noteq> pattern (fst (snd route)) \<and>
      \<not> tried_before (pattern (fst (snd q))) (pattern (fst (snd route)))"
    if "q \<in> set farm_routes" "fits m q" "route_binds q path \<noteq> None" for q
    using one_route [of q route m path] that assms(3-6) session_id_before by (auto simp: session_id_route_def fits_def)
qed

subsection \<open>The server\<close>

text \<open>The dashboard: \<open>files\<close> is the file server of the library on the embedded files. The plain text that goes with a 404
  or a 405 counts as empty. A route answers with the handler of its name, which gets the parameters of the path.\<close>

definition dashboard :: "(string \<Rightarrow> api_body outcome) \<Rightarrow> string \<Rightarrow> api_body outcome" where
  "dashboard files path =
     (if has_prefix path ''/api/'' \<or> has_prefix path ''/ws/'' then Replied 404 BEmpty
      else if contains_str path ''.'' then files path
      else files ''/'')"

definition new_server ::
  "(string \<Rightarrow> string \<Rightarrow> routed) \<Rightarrow> (string \<Rightarrow> params \<Rightarrow> api_body http_handler) \<Rightarrow> (string \<Rightarrow> api_body outcome) \<Rightarrow>
   string \<Rightarrow> string \<Rightarrow> http_request \<Rightarrow> headers \<times> api_body outcome" where
  "new_server dispatch handlers files uuid path =
     serve uuid (\<lambda>r hs. case dispatch (hr_method r) path of
         Found h ps \<Rightarrow> handlers h ps r hs
       | WrongMethod \<Rightarrow> (hs, Replied 405 BEmpty)
       | NoRoute \<Rightarrow> (hs, dashboard files path))"

text \<open>The limits of the connection, in seconds. An answer that comes after the write timeout does not reach the client.\<close>

definition read_timeout :: duration where "read_timeout = 30 * second_ns"
definition write_timeout :: duration where "write_timeout = 60 * second_ns"
definition idle_timeout :: duration where "idle_timeout = 120 * second_ns"

definition delivered :: "duration \<Rightarrow> 'r option \<Rightarrow> 'r option" where
  "delivered elapsed r = (if elapsed < write_timeout then r else None)"

definition server_address :: "config \<Rightarrow> string" where
  "server_address c = api_host (cfg_api c) @ '':'' @ itoa (api_port (cfg_api c))"

lemma serve_value:
  "snd (serve uuid handle r) =
     (if hr_method r = ''OPTIONS'' then Replied 204 BEmpty
      else (case snd (handle r ((''X-Request-ID'', (if hr_request_id r = [] then take 8 uuid else hr_request_id r)) # cors_headers)) of
        Replied st x \<Rightarrow> Replied st x | Panicked \<Rightarrow> Replied 500 (BError ''internal_error'')))"
  by (auto simp: serve_def with_recovery_def with_request_id_def with_cors_def Let_def split: prod.split outcome.split)

text \<open>C39: What a request reaches, for every router that keeps what the documentation of the library promises. A path that
  fits a route is given to the handler of that route with the parameters of the path, whatever their values, and no two
  routes compete, but for the id of the session that the hub keeps from its proxy. Other methods on the path of a route
  are refused; OPTIONS is answered for every path; a panic is answered with 500. A path that is in no route is
  not found below the API and gets the dashboard elsewhere, so a hub path that the table does not know is answered with
  the page, whatever the method.\<close>

theorem routes_correct:
  assumes "chi_router farm_routes d" and "plain_path path"
  shows "(\<forall>route \<in> set farm_routes. \<forall>ps. hr_method r \<noteq> ''OPTIONS'' \<and> fits (hr_method r) route \<and> route_binds route path = Some ps \<and>
            (route = proxy_route \<longrightarrow> hr_method r \<noteq> ''GET'' \<or> route_binds session_id_route path = None) \<longrightarrow>
            d (hr_method r) path = Found (snd (snd route)) ps) \<and>
    (hr_method r \<noteq> ''OPTIONS'' \<and> (\<exists>route \<in> set farm_routes. route_binds route path \<noteq> None) \<and>
       (\<forall>route \<in> set farm_routes. route_binds route path \<noteq> None \<longrightarrow> \<not> fits (hr_method r) route) \<longrightarrow>
       snd (new_server d handlers files uuid path r) = Replied 405 BEmpty) \<and>
    (hr_method r = ''OPTIONS'' \<longrightarrow> snd (new_server d handlers files uuid path r) = Replied 204 BEmpty) \<and>
    snd (new_server d handlers files uuid path r) \<noteq> Panicked \<and>
    ((\<forall>route \<in> set farm_routes. route_binds route path = None) \<and> hr_method r \<noteq> ''OPTIONS'' \<longrightarrow>
       (has_prefix path ''/api/'' \<longrightarrow> snd (new_server d handlers files uuid path r) = Replied 404 BEmpty) \<and>
       (\<not> has_prefix path ''/api/'' \<and> \<not> has_prefix path ''/ws/'' \<and> \<not> contains_str path ''.'' \<and> files ''/'' = Replied 200 page \<longrightarrow>
          snd (new_server d handlers files uuid path r) = Replied 200 page))"
proof (intro conjI impI ballI allI)
  fix route ps
  assume h: "route \<in> set farm_routes" "hr_method r \<noteq> ''OPTIONS'' \<and> fits (hr_method r) route \<and> route_binds route path = Some ps \<and>
     (route = proxy_route \<longrightarrow> hr_method r \<noteq> ''GET'' \<or> route_binds session_id_route path = None)"
  then show "d (hr_method r) path = Found (snd (snd route)) ps"
    using route_reached [OF assms] by blast
next
  assume wrong: "hr_method r \<noteq> ''OPTIONS'' \<and> (\<exists>route \<in> set farm_routes. route_binds route path \<noteq> None) \<and>
       (\<forall>route \<in> set farm_routes. route_binds route path \<noteq> None \<longrightarrow> \<not> fits (hr_method r) route)"
  have "d (hr_method r) path = WrongMethod"
  proof (cases "d (hr_method r) path")
    case (Found h ps)
    from chi_router.found [OF assms this] wrong show ?thesis by (metis option.distinct(1))
  next
    case NoRoute
    from chi_router.unknown [OF assms this] wrong show ?thesis by metis
  qed
  then show "snd (new_server d handlers files uuid path r) = Replied 405 BEmpty"
    using wrong by (simp add: new_server_def serve_value)
next
  show "snd (new_server d handlers files uuid path r) \<noteq> Panicked"
    by (simp add: new_server_def serve_value split: outcome.split)
qed (auto simp: new_server_def serve_value chi_router.unknown_route [OF assms] dashboard_def
      split: routed.split outcome.split)

lemma routes_correct_witness:
  "first_route farm_routes ''POST'' ''/api/v1/sessions/ab12/gps'' = Found ''devH.SetGPS'' [(''id'', ''ab12'')] \<and>
   snd (new_server (first_route farm_routes) (\<lambda>h ps r hs. (hs, Panicked)) (\<lambda>p. Replied 200 (BFile ''text/html'' p)) ''0'' ''/wd/hub/sessionz''
     \<lparr>hr_method = ''POST'', hr_request_id = []\<rparr>) = Replied 200 (BFile ''text/html'' ''/'')"
proof
  let ?r = "\<lparr>hr_method = ''POST'', hr_request_id = []\<rparr>"
  note use = routes_correct [OF farm_router.chi_router_axioms, of _ ?r]
  have gps: "(''POST'', ''/api/v1/sessions/{id}/gps'', ''devH.SetGPS'') \<in> set farm_routes"
    by (simp add: farm_routes_def mounted_def simulation_routes_def)
  have "plain_path ''/api/v1/sessions/ab12/gps''"
    "route_binds (''POST'', ''/api/v1/sessions/{id}/gps'', ''devH.SetGPS'') ''/api/v1/sessions/ab12/gps'' = Some [(''id'', ''ab12'')]"
    "fits ''POST'' (''POST'', ''/api/v1/sessions/{id}/gps'', ''devH.SetGPS'')"
    by code_simp+
  with use gps show "first_route farm_routes ''POST'' ''/api/v1/sessions/ab12/gps'' = Found ''devH.SetGPS'' [(''id'', ''ab12'')]"
    by fastforce
  have "plain_path ''/wd/hub/sessionz''" "\<forall>route \<in> set farm_routes. route_binds route ''/wd/hub/sessionz'' = None"
    "\<not> has_prefix ''/wd/hub/sessionz'' ''/api/''" "\<not> has_prefix ''/wd/hub/sessionz'' ''/ws/''" "\<not> contains_str ''/wd/hub/sessionz'' ''.''"
    by code_simp+
  with use show "snd (new_server (first_route farm_routes) (\<lambda>h ps r hs. (hs, Panicked)) (\<lambda>p. Replied 200 (BFile ''text/html'' p)) ''0'' ''/wd/hub/sessionz'' ?r) =
      Replied 200 (BFile ''text/html'' ''/'')"
    by simp
qed

end
