(* ===== verification/Daemon.thy ===== *)
theory Daemon
  imports Sdk Registry
begin

text \<open>
  The daemon as a process: its PID file (\<^verbatim>\<open>daemon/daemon.go\<close>), starting it (\<^verbatim>\<open>cmd/start.go\<close>), stopping it
  (\<^verbatim>\<open>cmd/stop.go\<close>) and its launchd service (\<^verbatim>\<open>daemon/launchd.go\<close>, \<^verbatim>\<open>cmd/daemon.go\<close>). What other processes do,
  what the tools print and which calls of the operating system fail are arguments. What is printed on the
  terminal is left out.
\<close>

subsection \<open>The PID file\<close>

datatype pid_file = Absent | NotReadable | PidText string

datatype pid_error = PidUnread | PidUnparsed | NoPid | SignalFailed

definition pid_path :: "string \<Rightarrow> string" where "pid_path dir = path_join [dir, ''drizz-farm.pid'']"

definition pid_write :: "int \<Rightarrow> pid_file" where "pid_write pid = PidText (itoa pid)"

definition pid_read :: "pid_file \<Rightarrow> pid_error + int" where
  "pid_read f = (case f of
      Absent \<Rightarrow> Inr 0
    | NotReadable \<Rightarrow> Inl PidUnread
    | PidText t \<Rightarrow> (case atoi (trim_space t) of None \<Rightarrow> Inl PidUnparsed | Some n \<Rightarrow> Inr n))"

text \<open>\<open>alive n\<close>: the signal 0 can be sent to process \<open>n\<close>.\<close>

definition pid_running :: "(int \<Rightarrow> bool) \<Rightarrow> pid_file \<Rightarrow> bool" where
  "pid_running alive f = (case pid_read f of Inl e \<Rightarrow> False | Inr n \<Rightarrow> n \<noteq> 0 \<and> alive n)"

subsection \<open>Several daemons\<close>

text \<open>All starts of the daemon on one data directory: a start looks at the PID file, and later writes it; a
  daemon removes the file when it ends, and leaves it when it is killed. \<open>others\<close> are the processes of other
  programs; \<open>alone\<close> says that no start looks while another is between its look and its write.\<close>

record hosted =
  ho_file :: pid_file
  ho_looked :: "int set"
  ho_daemons :: "int set"

definition no_daemon :: hosted where "no_daemon = \<lparr>ho_file = Absent, ho_looked = {}, ho_daemons = {}\<rparr>"

inductive daemon_run :: "int set \<Rightarrow> bool \<Rightarrow> hosted \<Rightarrow> bool" for others alone where
  quiet: "daemon_run others alone no_daemon"
| looked: "daemon_run others alone h \<Longrightarrow> 0 < pid \<Longrightarrow> pid < 2 ^ 31 \<Longrightarrow> pid \<notin> others \<union> ho_looked h \<union> ho_daemons h \<Longrightarrow>
    \<not> pid_running (\<lambda>n. n \<in> others \<union> ho_looked h \<union> ho_daemons h) (ho_file h) \<Longrightarrow> (alone \<longrightarrow> ho_looked h = {}) \<Longrightarrow>
    daemon_run others alone (h\<lparr>ho_looked := insert pid (ho_looked h)\<rparr>)"
| wrote: "daemon_run others alone h \<Longrightarrow> pid \<in> ho_looked h \<Longrightarrow>
    daemon_run others alone (h\<lparr>ho_file := pid_write pid, ho_looked := ho_looked h - {pid},
      ho_daemons := insert pid (ho_daemons h)\<rparr>)"
| unwritten: "daemon_run others alone h \<Longrightarrow> pid \<in> ho_looked h \<Longrightarrow>
    daemon_run others alone (h\<lparr>ho_looked := ho_looked h - {pid}\<rparr>)"
| ended: "daemon_run others alone h \<Longrightarrow> pid \<in> ho_daemons h \<Longrightarrow>
    daemon_run others alone (h\<lparr>ho_file := Absent, ho_daemons := ho_daemons h - {pid}\<rparr>)"
| killed: "daemon_run others alone h \<Longrightarrow> pid \<in> ho_daemons h \<Longrightarrow>
    daemon_run others alone (h\<lparr>ho_daemons := ho_daemons h - {pid}\<rparr>)"

subsection \<open>Stopping the daemon\<close>

text \<open>\<open>tw_output\<close>: what a tool prints, and whether it ends well. The history holds the tools and the signals,
  the probe with signal 0 too. \<open>tw_polls\<close>: how often the deadline is found not yet passed.\<close>

record task_world =
  tw_file :: "cmd list \<Rightarrow> pid_file"
  tw_alive :: "cmd list \<Rightarrow> int \<Rightarrow> bool"
  tw_signal :: "cmd list \<Rightarrow> int \<Rightarrow> string \<Rightarrow> bool"
  tw_output :: "cmd list \<Rightarrow> cmd \<Rightarrow> string \<times> bool"
  tw_polls :: nat
  tw_uid :: int

definition tool :: "task_world \<Rightarrow> cmd \<Rightarrow> (string \<times> bool) io" where
  "tool w cmd = State (\<lambda>h. (tw_output w h cmd, h @ [cmd]))"

definition ask_running :: "task_world \<Rightarrow> bool io" where
  "ask_running w = State (\<lambda>h. case pid_read (tw_file w h) of
      Inl e \<Rightarrow> (False, h)
    | Inr n \<Rightarrow> if n = 0 then (False, h) else (tw_alive w h n, h @ [[''kill'', ''0'', itoa n]]))"

definition read_pid :: "task_world \<Rightarrow> (pid_error + int) io" where
  "read_pid w = State (\<lambda>h. (pid_read (tw_file w h), h))"

definition pid_signal :: "task_world \<Rightarrow> string \<Rightarrow> pid_error option io" where
  "pid_signal w sig = State (\<lambda>h. case pid_read (tw_file w h) of
      Inl e \<Rightarrow> (Some e, h)
    | Inr n \<Rightarrow> if n = 0 then (Some NoPid, h)
        else (if tw_signal w h n sig then None else Some SignalFailed, h @ [[''kill'', sig, itoa n]]))"

definition sweep_names :: "string list" where
  "sweep_names = [''qemu-system-aarch64'', ''qemu-system-x86_64'', ''crashpad_handler'', ''scrcpy'']"

text \<open>Look for processes by name and kill what is found: 1 when the kill ends well.\<close>

definition sweep_one :: "task_world \<Rightarrow> string list \<Rightarrow> nat io" where
  "sweep_one w which = do {
     found \<leftarrow> tool w (''pgrep'' # which);
     if fst found = [] then State_Monad.return 0
     else do {
       done \<leftarrow> tool w (''pkill'' # ''-9'' # which);
       State_Monad.return (if snd done then 1 else 0) } }"

fun sweep_each :: "task_world \<Rightarrow> string list list \<Rightarrow> nat io" where
  "sweep_each w [] = State_Monad.return 0"
| "sweep_each w (x # xs) = do { n \<leftarrow> sweep_one w x; m \<leftarrow> sweep_each w xs; State_Monad.return (n + m) }"

definition sweep_emulator :: "task_world \<Rightarrow> string list" where
  "sweep_emulator w = [''-U'', itoa (tw_uid w), ''-x'', ''emulator'']"

text \<open>The sweep of the stop command, and the one of the daemon when it ends.\<close>

definition sweep_orphans :: "task_world \<Rightarrow> nat io" where
  "sweep_orphans w = sweep_each w (map (\<lambda>n. [''-f'', n]) sweep_names @ [sweep_emulator w])"

definition sweep_daemon_orphans :: "task_world \<Rightarrow> nat io" where
  "sweep_daemon_orphans w =
     sweep_each w (map (\<lambda>n. [''-U'', itoa (tw_uid w), ''-f'', n]) sweep_names @ [sweep_emulator w])"

datatype stop_outcome = PidLost pid_error | TermFailed pid_error | Swept nat

definition kill_and_sweep :: "task_world \<Rightarrow> stop_outcome io" where
  "kill_and_sweep w = do { e \<leftarrow> pid_signal w ''SIGKILL''; n \<leftarrow> sweep_orphans w; State_Monad.return (Swept n) }"

fun stop_poll :: "task_world \<Rightarrow> nat \<Rightarrow> stop_outcome io" where
  "stop_poll w 0 = kill_and_sweep w"
| "stop_poll w (Suc k) = do {
     running \<leftarrow> ask_running w;
     if \<not> running then do { n \<leftarrow> sweep_orphans w; State_Monad.return (Swept n) } else stop_poll w k }"

definition run_stop :: "task_world \<Rightarrow> bool \<Rightarrow> stop_outcome io" where
  "run_stop w force = do {
     running \<leftarrow> ask_running w;
     if \<not> running then do { n \<leftarrow> sweep_orphans w; State_Monad.return (Swept n) }
     else do {
       pid \<leftarrow> read_pid w;
       case pid of
         Inl e \<Rightarrow> State_Monad.return (PidLost e)
       | Inr n \<Rightarrow>
           if force then kill_and_sweep w
           else do {
             failed \<leftarrow> pid_signal w ''SIGTERM'';
             case failed of Some e \<Rightarrow> State_Monad.return (TermFailed e) | None \<Rightarrow> stop_poll w (tw_polls w) } } }"

subsection \<open>One daemon at a time\<close>

lemma pid_read_write: "0 < p \<Longrightarrow> p < 2 ^ 31 \<Longrightarrow> pid_read (pid_write p) = Inr p"
proof -
  assume p: "0 < p" "p < 2 ^ 31"
  have "\<not> is_space (hd (itoa p))" "\<not> is_space (last (itoa p))"
    using p(1) itoa_nat_hd [of "nat p"] itoa_nat_last [of "nat p"] by (auto simp: itoa_def)
  then have "trim_space (itoa p) = itoa p" by (intro trim_space_id) auto
  with p show ?thesis by (simp add: pid_read_def pid_write_def atoi_itoa)
qed

definition one_daemon :: "hosted \<Rightarrow> bool" where
  "one_daemon h \<longleftrightarrow> (\<forall>p \<in> ho_looked h \<union> ho_daemons h. \<forall>q \<in> ho_looked h \<union> ho_daemons h. p = q) \<and>
     (\<forall>p \<in> ho_looked h \<union> ho_daemons h. 0 < p \<and> p < 2 ^ 31) \<and> ho_looked h \<inter> ho_daemons h = {} \<and>
     (\<forall>p \<in> ho_daemons h. ho_file h = pid_write p)"

lemma daemon_run_one: "daemon_run others True h \<Longrightarrow> one_daemon h"
proof (induction rule: daemon_run.induct)
  case quiet
  show ?case by (simp add: one_daemon_def no_daemon_def)
next
  case (looked h pid)
  have "ho_daemons h = {}"
  proof (rule ccontr)
    assume "ho_daemons h \<noteq> {}"
    then obtain d where d: "d \<in> ho_daemons h" by blast
    with looked have "ho_file h = pid_write d" "0 < d" "d < 2 ^ 31" by (auto simp: one_daemon_def)
    with d looked show False by (simp add: pid_running_def pid_read_write)
  qed
  with looked show ?case by (auto simp: one_daemon_def)
next
  case (wrote h pid)
  then have p: "0 < pid \<and> pid < 2 ^ 31" and u: "ho_looked h \<union> ho_daemons h \<subseteq> {pid}" and
    d: "pid \<notin> ho_daemons h"
    unfolding one_daemon_def by blast+
  from u d have "ho_daemons h = {}" "ho_looked h - {pid} = {}" by blast+
  with p show ?case by (simp add: one_daemon_def) blast
qed (auto simp: one_daemon_def)

lemma daemon_run_two: "daemon_run {} False \<lparr>ho_file = Absent, ho_looked = {}, ho_daemons = {1}\<rparr>"
proof -
  let ?h = "\<lambda>f l d. \<lparr>ho_file = f, ho_looked = l, ho_daemons = d\<rparr>"
  have absent: "\<not> pid_running a Absent" for a by (simp add: pid_running_def pid_read_def)
  from daemon_run.looked [OF daemon_run.quiet, of 1 "{}" False]
  have "daemon_run {} False (?h Absent {1} {})" by (simp add: no_daemon_def absent)
  from daemon_run.looked [OF this, of 2] have "daemon_run {} False (?h Absent {2, 1} {})" by (simp add: absent)
  from daemon_run.wrote [OF this, of 1] have "daemon_run {} False (?h (pid_write 1) {2} {1})"
    by (simp add: insert_Diff_if)
  from daemon_run.wrote [OF this, of 2] have "daemon_run {} False (?h (pid_write 2) {} {2, 1})" by simp
  from daemon_run.ended [OF this, of 2] show ?thesis by (simp add: insert_Diff_if)
qed

text \<open>C34: the PID file admits one daemon. As long as no two starts overlap, whatever daemons end or are killed
  and whatever other processes there are, at most one daemon runs, and the file names it, so that the next
  start and the stop command find it. The look and the write are two steps, though: of two starts at the
  same time both go ahead, and when one of the two daemons ends it takes the file away, while the other
  goes on running and counts as stopped.\<close>

theorem one_daemon_at_a_time:
  assumes "daemon_run others True h"
  shows "(\<forall>p \<in> ho_daemons h. ho_daemons h = {p} \<and> pid_read (ho_file h) = Inr p \<and>
      pid_running (\<lambda>n. n \<in> ho_daemons h) (ho_file h)) \<and>
    (\<exists>h2. daemon_run {} False h2 \<and> ho_daemons h2 \<noteq> {} \<and> (\<forall>alive. \<not> pid_running alive (ho_file h2)))"
proof
  from daemon_run_one [OF assms]
  show "\<forall>p \<in> ho_daemons h. ho_daemons h = {p} \<and> pid_read (ho_file h) = Inr p \<and>
      pid_running (\<lambda>n. n \<in> ho_daemons h) (ho_file h)"
    by (auto simp: one_daemon_def pid_read_write pid_running_def)
  show "\<exists>h2. daemon_run {} False h2 \<and> ho_daemons h2 \<noteq> {} \<and> (\<forall>alive. \<not> pid_running alive (ho_file h2))"
    by (intro exI [of _ "\<lparr>ho_file = Absent, ho_looked = {}, ho_daemons = {1}\<rparr>"] conjI daemon_run_two)
      (simp_all add: pid_running_def pid_read_def)
qed

lemma daemon_run_started: "daemon_run {} True \<lparr>ho_file = pid_write 7, ho_looked = {}, ho_daemons = {7}\<rparr>"
proof -
  from daemon_run.looked [OF daemon_run.quiet, of 7 "{}" True]
  have "daemon_run {} True \<lparr>ho_file = Absent, ho_looked = {7}, ho_daemons = {}\<rparr>"
    by (simp add: no_daemon_def pid_running_def pid_read_def)
  from daemon_run.wrote [OF this, of 7] show ?thesis by simp
qed

theorem one_daemon_at_a_time_witness: "pid_read (pid_write 7) = Inr 7"
  using one_daemon_at_a_time [OF daemon_run_started] by simp

subsection \<open>What a stop does\<close>

definition sweeping :: "cmd list \<Rightarrow> bool" where
  "sweeping cs \<longleftrightarrow> list_all (\<lambda>c. hd c = ''pgrep'' \<or> take 2 c = [''pkill'', ''-9'']) cs"

definition signalling :: "cmd list \<Rightarrow> bool" where
  "signalling cs \<longleftrightarrow> list_all (\<lambda>c. hd c = ''kill'') cs"

lemma sweep_each_run:
  "\<exists>cs. snd (run_state (sweep_each w xs) h) = h @ cs \<and> sweeping cs \<and>
     filter (\<lambda>c. hd c = ''pgrep'') cs = map (\<lambda>x. ''pgrep'' # x) xs \<and>
     (\<forall>c \<in> set cs. hd c = ''pkill'' \<longrightarrow> (\<exists>x \<in> set xs. c = ''pkill'' # ''-9'' # x))"
proof (induction xs arbitrary: h)
  case Nil
  show ?case by (simp add: sweeping_def)
next
  case (Cons x xs)
  obtain ds where ds: "snd (run_state (sweep_one w x) h) = h @ (''pgrep'' # x) # ds"
      "ds = [] \<or> ds = [''pkill'' # ''-9'' # x]"
    by (cases "fst (tw_output w h (''pgrep'' # x)) = []") (simp_all add: sweep_one_def tool_def split_beta)
  from Cons [of "h @ (''pgrep'' # x) # ds"] obtain cs where
    cs: "snd (run_state (sweep_each w xs) (h @ (''pgrep'' # x) # ds)) = (h @ (''pgrep'' # x) # ds) @ cs" "sweeping cs"
      "filter (\<lambda>c. hd c = ''pgrep'') cs = map (\<lambda>x. ''pgrep'' # x) xs"
      "\<forall>c \<in> set cs. hd c = ''pkill'' \<longrightarrow> (\<exists>x \<in> set xs. c = ''pkill'' # ''-9'' # x)" by blast
  have "snd (run_state (sweep_each w (x # xs)) h) = h @ ((''pgrep'' # x) # ds) @ cs"
    using ds(1) cs(1) by (simp add: split_beta)
  with ds(2) cs(2-) show ?case
    by (intro exI [of _ "((''pgrep'' # x) # ds) @ cs"]) (auto simp: sweeping_def)
qed

definition swept :: "task_world \<Rightarrow> cmd list \<Rightarrow> bool" where
  "swept w cs \<longleftrightarrow> sweeping cs \<and> filter (\<lambda>c. hd c = ''pgrep'') cs =
     map (\<lambda>x. ''pgrep'' # x) (map (\<lambda>n. [''-f'', n]) sweep_names @ [sweep_emulator w])"

definition probes :: "cmd list \<Rightarrow> cmd list" where "probes = filter (\<lambda>c. take 2 c = [''kill'', ''0''])"
definition kills :: "cmd list \<Rightarrow> cmd list" where "kills = filter (\<lambda>c. take 2 c = [''kill'', ''SIGKILL''])"
definition terms :: "cmd list \<Rightarrow> cmd list" where "terms = filter (\<lambda>c. take 2 c = [''kill'', ''SIGTERM''])"

lemmas signal_lists = probes_def kills_def terms_def signalling_def

lemma sweep_orphans_run: "\<exists>n sw. run_state (sweep_orphans w) h = (n, h @ sw) \<and> swept w sw"
  using sweep_each_run [of w "map (\<lambda>n. [''-f'', n]) sweep_names @ [sweep_emulator w]" h]
  unfolding sweep_orphans_def swept_def by (metis prod.collapse)

lemma ask_running_run:
  "\<exists>b cs. run_state (ask_running w) h = (b, h @ cs) \<and> signalling cs \<and> kills cs = [] \<and> terms cs = [] \<and>
     (b \<longrightarrow> length (probes cs) = 1)"
  by (auto simp: ask_running_def signal_lists split: sum.split)

lemma pid_signal_run:
  "sig \<in> {''SIGKILL'', ''SIGTERM''} \<Longrightarrow> \<exists>e cs. run_state (pid_signal w sig) h = (e, h @ cs) \<and> signalling cs \<and> probes cs = [] \<and>
     (sig = ''SIGKILL'' \<longrightarrow> terms cs = []) \<and> (sig = ''SIGTERM'' \<longrightarrow> kills cs = [])"
  by (auto simp: pid_signal_def signal_lists split: sum.split)

lemma kill_and_sweep_run:
  "\<exists>n pre sw. run_state (kill_and_sweep w) h = (Swept n, h @ pre @ sw) \<and> signalling pre \<and> probes pre = [] \<and>
     terms pre = [] \<and> swept w sw"
proof -
  obtain e pre where pre: "run_state (pid_signal w ''SIGKILL'') h = (e, h @ pre)" "signalling pre" "probes pre = []" "terms pre = []"
    using pid_signal_run [of "''SIGKILL''" w h] by blast
  obtain n sw where sw: "run_state (sweep_orphans w) (h @ pre) = (n, (h @ pre) @ sw)" "swept w sw"
    using sweep_orphans_run by blast
  have "run_state (kill_and_sweep w) h = (Swept n, h @ pre @ sw)" using pre(1) sw(1) by (simp add: kill_and_sweep_def)
  with pre sw show ?thesis by blast
qed

lemma signal_lists_append:
  "signalling (a @ b) = (signalling a \<and> signalling b)" "probes (a @ b) = probes a @ probes b"
  "kills (a @ b) = kills a @ kills b" "terms (a @ b) = terms a @ terms b"
  by (simp_all add: signal_lists)

lemma stop_poll_run:
  "\<exists>n pre sw. run_state (stop_poll w k) h = (Swept n, h @ pre @ sw) \<and> signalling pre \<and> terms pre = [] \<and>
     (kills pre \<noteq> [] \<longrightarrow> length (probes pre) = k) \<and> swept w sw"
proof (induction k arbitrary: h)
  case 0
  show ?case using kill_and_sweep_run [of w h] by fastforce
next
  case (Suc k)
  obtain b cs where b: "run_state (ask_running w) h = (b, h @ cs)" "signalling cs" "kills cs = []" "terms cs = []"
      "b \<longrightarrow> length (probes cs) = 1"
    using ask_running_run by blast
  show ?case
  proof (cases b)
    case False
    obtain n sw where "run_state (sweep_orphans w) (h @ cs) = (n, (h @ cs) @ sw)" "swept w sw"
      using sweep_orphans_run by blast
    with b False show ?thesis by (intro exI [of _ n] exI [of _ cs] exI [of _ sw]) simp
  next
    case True
    from Suc [of "h @ cs"] obtain n pre sw where
      "run_state (stop_poll w k) (h @ cs) = (Swept n, (h @ cs) @ pre @ sw)" "signalling pre" "terms pre = []"
      "kills pre \<noteq> [] \<longrightarrow> length (probes pre) = k" "swept w sw" by blast
    with b True show ?thesis
      by (intro exI [of _ n] exI [of _ "cs @ pre"] exI [of _ sw]) (simp add: signal_lists_append)
  qed
qed

lemma run_stop_idle:
  "run_state (ask_running w) h = (False, h @ cs) \<Longrightarrow>
   \<exists>n sw. run_state (run_stop w force) h = (Swept n, h @ cs @ sw) \<and> swept w sw"
  using sweep_orphans_run [of w "h @ cs"] by (auto simp: run_stop_def)

lemma run_stop_forced:
  "run_state (ask_running w) h = (True, h @ cs) \<Longrightarrow> pid_read (tw_file w (h @ cs)) = Inr m \<Longrightarrow>
   \<exists>n pre sw. run_state (run_stop w True) h = (Swept n, h @ (cs @ pre) @ sw) \<and> signalling pre \<and> probes pre = [] \<and>
     terms pre = [] \<and> swept w sw"
  using kill_and_sweep_run [of w "h @ cs"] by (auto simp: run_stop_def read_pid_def)

lemma run_stop_graceful:
  assumes "run_state (ask_running w) h = (True, h @ cs)" and "pid_read (tw_file w (h @ cs)) = Inr m"
  shows "\<exists>out pre sw. run_state (run_stop w False) h = (out, h @ (cs @ pre) @ sw) \<and> signalling pre \<and>
     (kills pre \<noteq> [] \<longrightarrow> length (probes pre) = tw_polls w) \<and>
     (case out of Swept n \<Rightarrow> swept w sw | PidLost e \<Rightarrow> sw = [] | TermFailed e \<Rightarrow> sw = [])"
proof -
  obtain e ts where t: "run_state (pid_signal w ''SIGTERM'') (h @ cs) = (e, (h @ cs) @ ts)" "signalling ts"
      "probes ts = []" "kills ts = []"
    using pid_signal_run [of "''SIGTERM''" w "h @ cs"] by auto
  show ?thesis
  proof (cases e)
    case None
    obtain n pre sw where p: "run_state (stop_poll w (tw_polls w)) (h @ cs @ ts) = (Swept n, (h @ cs @ ts) @ pre @ sw)"
        "signalling pre" "kills pre \<noteq> [] \<longrightarrow> length (probes pre) = tw_polls w" "swept w sw"
      using stop_poll_run [of w "tw_polls w" "h @ cs @ ts"] by auto
    with assms t(1) None have "run_state (run_stop w False) h = (Swept n, h @ (cs @ ts @ pre) @ sw)"
      by (simp add: run_stop_def read_pid_def)
    with t p show ?thesis
      by (intro exI [of _ "Swept n"] exI [of _ "ts @ pre"] exI [of _ sw]) (simp add: signal_lists_append)
  next
    case (Some e1)
    with assms t(1) have "run_state (run_stop w False) h = (TermFailed e1, h @ (cs @ ts) @ [])"
      by (simp add: run_stop_def read_pid_def)
    with t show ?thesis by (intro exI [of _ "TermFailed e1"] exI [of _ ts] exI [of _ "[]"]) simp
  qed
qed


definition idle_world :: task_world where
  "idle_world = \<lparr>tw_file = \<lambda>h. PidText ''7'', tw_alive = \<lambda>h n. False, tw_signal = \<lambda>h n sig. True,
     tw_output = \<lambda>h cmd. (if hd cmd = ''pgrep'' then ''41'' else [], True), tw_polls = 40, tw_uid = 501\<rparr>"


end
