(* ===== verification/Start.thy ===== *)
theory Start
  imports Daemon PoolProps
begin

text \<open>
  Starting the daemon (\<^verbatim>\<open>cmd/start.go\<close>) and running it as a launchd service (\<^verbatim>\<open>daemon/launchd.go\<close>,
  \<^verbatim>\<open>cmd/daemon.go\<close>). The components are started and stopped through effects, in the order of the code; the
  deferred functions are the effects at the end of every way out. What the terminal shows is left out.
\<close>

subsection \<open>The configuration the daemon runs with\<close>

definition live_path :: "sdk_host \<Rightarrow> string \<Rightarrow> string" where
  "live_path x p = (if p \<noteq> [] \<and> \<not> sx_stat x p then [] else p)"

text \<open>Paths of the configuration that no longer exist are dropped, and then detected again.\<close>

definition start_paths :: "sdk_host \<Rightarrow> sdk_paths \<Rightarrow> resolved_paths" where
  "start_paths x s = set_resolved_paths (live_path x (sdk_adb s)) (live_path x (sdk_avdmanager s))
     (live_path x (sdk_emulator s)) (live_path x (sdk_sdkmanager s))"

definition with_sdk :: "sdk_host \<Rightarrow> string \<Rightarrow> config \<Rightarrow> config" where
  "with_sdk x root c =
     (let rv = start_paths x (cfg_sdk c)
      in c\<lparr>cfg_sdk := (cfg_sdk c)\<lparr>sdk_root := root, sdk_adb := adb_tool x rv root, sdk_emulator := emulator_tool x rv root,
             sdk_avdmanager := avdmanager_tool x rv root, sdk_sdkmanager := sdkmanager_tool x rv root\<rparr>\<rparr>)"

text \<open>The flags: \<open>headless\<close> is off and \<open>visible\<close> on unless given.\<close>

record start_flags =
  sf_headless :: bool
  sf_visible :: bool

definition no_flags :: start_flags where "no_flags = \<lparr>sf_headless = False, sf_visible = True\<rparr>"

definition with_windows :: "start_flags \<Rightarrow> config \<Rightarrow> config" where
  "with_windows f c =
     (if sf_headless f then c\<lparr>cfg_pool := (cfg_pool c)\<lparr>visible_emulators := False\<rparr>\<rparr>
      else if sf_visible f then c\<lparr>cfg_pool := (cfg_pool c)\<lparr>visible_emulators := True\<rparr>\<rparr>
      else c)"

definition java_home_of :: "config \<Rightarrow> string option" where
  "java_home_of c = (if sdk_java (cfg_sdk c) = [] then None else Some (path_dir (path_dir (sdk_java (cfg_sdk c)))))"

text \<open>The address shown in the banner; \<open>None\<close> is an error. An address: its text, loopback, IPv4.\<close>

definition lan_ip :: "(string \<times> bool \<times> bool) list option \<Rightarrow> string" where
  "lan_ip addrs =
     (case addrs of
        None \<Rightarrow> ''127.0.0.1''
      | Some as \<Rightarrow> (case List.find (\<lambda>(ip, loopback, v4). \<not> loopback \<and> v4) as of Some (ip, r) \<Rightarrow> ip | None \<Rightarrow> ''127.0.0.1''))"

subsection \<open>Start and shutdown\<close>

datatype effect =
    PidWritten | PidRemoved | StoreOpened | StoreClosed | PoolStarted config | PoolStopped
  | ReservationsApplied "(string \<times> string) list" | SweeperStarted | BrokerStarted | BrokerStopped
  | HealthStarted | HealthStopped | HeartbeatStarted | ServerStarted | ServerStopped | OrphansSwept

datatype start_error =
    PrereqsMissing | NoConfig | BadConfig | NoDataDir | AlreadyRunning | PidUnwritable | SdkMissing
  | SdkIncomplete "string list" | PoolUnstartable

datatype start_outcome = NotStarted start_error | Crashed | Stopped

text \<open>\<open>st_raw\<close>: what unmarshalling the configuration gives, \<open>None\<close> when it fails; \<open>st_registry\<close> and
  \<open>st_retry\<close>: what the two attempts to read the group file find; \<open>st_install\<close>: the install id can be had,
  \<open>st_silent\<close>: heartbeats are switched off. A daemon that is up ends by a signal or because its server failed: the code goes
  on in the same way and reports success for both.\<close>

record start_env =
  st_host :: host_env
  st_sdk :: sdk_host
  st_prereqs :: bool
  st_raw :: "config option"
  st_config_exists :: bool
  st_mkdir :: bool
  st_pid :: pid_file
  st_alive :: "int \<Rightarrow> bool"
  st_pid_writable :: bool
  st_store :: bool
  st_reservations :: "(string \<times> string) list option"
  st_pool :: bool
  st_registry :: disk_read
  st_retry :: disk_read
  st_install :: bool
  st_silent :: bool

text \<open>The start with the store open (or not) and the pool running, until the daemon ends. A group file that
  cannot be read leaves no registry, and the banner asks that registry for its group.\<close>

definition start_registry :: "start_env \<Rightarrow> config \<Rightarrow> registry option" where
  "start_registry e c =
     (let path = path_join [data_dir (st_host e) c, ''nodes.yaml'']
      in case new_registry path (st_registry e) of
           Inr r \<Rightarrow> Some r
         | Inl err \<Rightarrow> (case new_registry path (st_retry e) of Inr r \<Rightarrow> Some r | Inl err \<Rightarrow> None))"

definition bring_up :: "start_env \<Rightarrow> effect list" where
  "bring_up e =
     (case st_reservations e of Some rs \<Rightarrow> (if st_store e \<and> rs \<noteq> [] then [ReservationsApplied rs] else []) | None \<Rightarrow> []) @
     [SweeperStarted, BrokerStarted, HealthStarted] @
     (if st_install e \<and> \<not> st_silent e then [HeartbeatStarted] else []) @ [ServerStarted]"

definition tear_down :: "effect list" where
  "tear_down = [ServerStopped, BrokerStopped, HealthStopped, PoolStopped, OrphansSwept]"

definition serve :: "start_env \<Rightarrow> config \<Rightarrow> start_outcome \<times> effect list" where
  "serve e c =
     (case start_registry e c of
        None \<Rightarrow> (Crashed, PoolStarted c # bring_up e)
      | Some r \<Rightarrow> (Stopped, PoolStarted c # bring_up e @ tear_down))"

definition with_store :: "start_env \<Rightarrow> start_outcome \<times> effect list \<Rightarrow> start_outcome \<times> effect list" where
  "with_store e r = (if st_store e then (fst r, StoreOpened # snd r @ [StoreClosed]) else r)"

definition with_pid :: "start_outcome \<times> effect list \<Rightarrow> start_outcome \<times> effect list" where
  "with_pid r = (fst r, PidWritten # snd r @ [PidRemoved])"

definition start_config :: "start_env \<Rightarrow> start_error + config" where
  "start_config e =
     (let failed = Inl (if st_config_exists e then BadConfig else NoConfig)
      in case st_raw e of
           None \<Rightarrow> failed
         | Some raw \<Rightarrow> (case load_config (st_host e) raw of Inl err \<Rightarrow> failed | Inr c \<Rightarrow> Inr c))"

definition run_start :: "start_env \<Rightarrow> start_flags \<Rightarrow> start_outcome \<times> effect list" where
  "run_start e f =
     (if \<not> st_prereqs e then (NotStarted PrereqsMissing, [])
      else (case start_config e of
          Inl err \<Rightarrow> (NotStarted err, [])
        | Inr c \<Rightarrow>
            if \<not> st_mkdir e then (NotStarted NoDataDir, [])
            else if pid_running (st_alive e) (st_pid e) then (NotStarted AlreadyRunning, [])
            else if \<not> st_pid_writable e then (NotStarted PidUnwritable, [])
            else with_pid (case detect_sdk (st_sdk e) of
                None \<Rightarrow> (NotStarted SdkMissing, [])
              | Some root \<Rightarrow>
                  (let missing = missing_tools (st_sdk e) (start_paths (st_sdk e) (cfg_sdk c)) root;
                       c1 = with_windows f (with_sdk (st_sdk e) root c)
                   in if missing \<noteq> [] then (NotStarted (SdkIncomplete missing), [])
                      else with_store e (if \<not> st_pool e then (NotStarted PoolUnstartable, []) else serve e c1)))))"

subsection \<open>The launchd service\<close>

record launchd_config =
  lc_binary :: string
  lc_config :: string
  lc_data :: string
  lc_log :: string

definition plist_path :: "string \<Rightarrow> string" where
  "plist_path home = path_join [home, ''Library'', ''LaunchAgents'', ''dev.drizz.farm.plist'']"

definition plist_lines :: "launchd_config \<Rightarrow> string list" where
  "plist_lines c =
     [''<?xml version=\"1.0\" encoding=\"UTF-8\"?>'',
      ''<!DOCTYPE plist PUBLIC \"-//Apple//DTD PLIST 1.0//EN\" \"http://www.apple.com/DTDs/PropertyList-1.0.dtd\">'',
      ''<plist version=\"1.0\">'', ''<dict>'', ''    <key>Label</key>'', ''    <string>dev.drizz.farm</string>'',
      ''    <key>ProgramArguments</key>'', ''    <array>'', ''        <string>'' @ lc_binary c @ ''</string>'',
      ''        <string>start</string>'', ''        <string>--config</string>'',
      ''        <string>'' @ lc_config c @ ''</string>'', ''    </array>'', ''    <key>RunAtLoad</key>'', ''    <true/>'',
      ''    <key>KeepAlive</key>'', ''    <true/>'', ''    <key>StandardOutPath</key>'',
      ''    <string>'' @ lc_log c @ ''/drizz-farm.log</string>'', ''    <key>StandardErrorPath</key>'',
      ''    <string>'' @ lc_log c @ ''/drizz-farm.err</string>'', ''    <key>WorkingDirectory</key>'',
      ''    <string>'' @ lc_data c @ ''</string>'', ''</dict>'', ''</plist>'', '''']"

definition plist_text :: "launchd_config \<Rightarrow> string" where
  "plist_text c = join_with [nl] (plist_lines c)"

text \<open>The plist on disk, and the commands run; a plist that cannot be written whole counts as empty. The answers of the operating system: the log directory, creating
  the file, writing it; \<open>ld_run\<close>: a command ends well.\<close>

record launchd_env =
  ld_home :: string
  ld_mkdir :: bool
  ld_create :: bool
  ld_write :: bool
  ld_remove :: bool
  ld_run :: "cmd \<Rightarrow> bool"

record launchd =
  ls_plist :: "string option"
  ls_ran :: "cmd list"

datatype launchd_error = NoLogDir | PlistUncreated | PlistUnwritten | NotLoaded | NotRemoved | NoBinary | NoConfigFound

definition launchctl :: "launchd_env \<Rightarrow> string \<Rightarrow> cmd" where
  "launchctl e verb = [''launchctl'', verb, plist_path (ld_home e)]"

definition install_launchd :: "launchd_env \<Rightarrow> launchd_config \<Rightarrow> launchd \<Rightarrow> launchd_error option \<times> launchd" where
  "install_launchd e c s =
     (let c1 = (if lc_log c = [] then c\<lparr>lc_log := lc_data c\<rparr> else c)
      in if \<not> ld_mkdir e then (Some NoLogDir, s)
         else if \<not> ld_create e then (Some PlistUncreated, s)
         else if \<not> ld_write e then (Some PlistUnwritten, s\<lparr>ls_plist := Some []\<rparr>)
         else (let s1 = s\<lparr>ls_plist := Some (plist_text c1), ls_ran := ls_ran s @ [launchctl e ''load'']\<rparr>
               in (if ld_run e (launchctl e ''load'') then None else Some NotLoaded, s1)))"

definition uninstall_launchd :: "launchd_env \<Rightarrow> launchd \<Rightarrow> launchd_error option \<times> launchd" where
  "uninstall_launchd e s =
     (let s1 = s\<lparr>ls_ran := ls_ran s @ [launchctl e ''unload'']\<rparr>
      in if ld_remove e \<and> ls_plist s \<noteq> None then (None, s1\<lparr>ls_plist := None\<rparr>) else (Some NotRemoved, s1))"

definition is_launchd_installed :: "launchd \<Rightarrow> bool" where
  "is_launchd_installed s \<longleftrightarrow> ls_plist s \<noteq> None"

text \<open>\<^verbatim>\<open>drizz-farm daemon install\<close>, \<^verbatim>\<open>uninstall\<close> and \<^verbatim>\<open>status\<close>; \<open>binary\<close> is where this program is.\<close>

definition service_config :: "launchd_env \<Rightarrow> string \<Rightarrow> launchd_config" where
  "service_config e binary =
     (let dir = path_join [ld_home e, ''.drizz-farm'']
      in \<lparr>lc_binary = binary, lc_config = path_join [dir, ''config.yaml''], lc_data = dir, lc_log = dir\<rparr>)"

definition reinstall :: "launchd_env \<Rightarrow> string \<Rightarrow> launchd \<Rightarrow> launchd_error option \<times> launchd" where
  "reinstall e binary s =
     install_launchd e (service_config e binary) (if is_launchd_installed s then snd (uninstall_launchd e s) else s)"

definition daemon_install :: "launchd_env \<Rightarrow> string option \<Rightarrow> bool \<Rightarrow> launchd \<Rightarrow> launchd_error option \<times> launchd" where
  "daemon_install e binary configured s =
     (case binary of
        None \<Rightarrow> (Some NoBinary, s)
      | Some b \<Rightarrow> if \<not> configured then (Some NoConfigFound, s) else reinstall e b s)"

definition daemon_uninstall :: "launchd_env \<Rightarrow> launchd \<Rightarrow> launchd_error option \<times> launchd" where
  "daemon_uninstall e s = (if \<not> is_launchd_installed s then (None, s) else uninstall_launchd e s)"

definition daemon_status :: "launchd \<Rightarrow> launchd" where
  "daemon_status s =
     (if \<not> is_launchd_installed s then s
      else s\<lparr>ls_ran := ls_ran s @ [[''launchctl'', ''list'', ''dev.drizz.farm'']]\<rparr>)"

subsection \<open>What a start does\<close>

definition stops :: "effect \<Rightarrow> bool" where
  "stops x \<longleftrightarrow> x \<in> {ServerStopped, BrokerStopped, HealthStopped, PoolStopped, OrphansSwept, StoreClosed, PidRemoved}"

definition starts :: "effect \<Rightarrow> bool" where
  "starts x \<longleftrightarrow> x \<in> {PidWritten, StoreOpened, BrokerStarted, HealthStarted, ServerStarted} \<union> range PoolStarted"

lemmas effect_lists = stops_def starts_def bring_up_def tear_down_def with_pid_def with_store_def serve_def

lemma with_windows_pool:
  "visible_emulators (cfg_pool (with_windows f c)) =
     (if sf_headless f then False else sf_visible f \<or> visible_emulators (cfg_pool c))"
  by (simp add: with_windows_def)

text \<open>Every start is one of five: refused, without the SDK, without the pool, crashed, or run to its end.\<close>

lemma run_start_cases:
  obtains (refused) err where "run_start e f = (NotStarted err, [])"
  | (no_sdk) err where "run_start e f = with_pid (NotStarted err, [])" "\<not> pid_running (st_alive e) (st_pid e)"
  | (no_pool) "run_start e f = with_pid (with_store e (NotStarted PoolUnstartable, []))"
      "\<not> pid_running (st_alive e) (st_pid e)"
  | (served) c where "run_start e f = with_pid (with_store e (serve e (with_windows f c)))"
      "\<not> pid_running (st_alive e) (st_pid e)"
proof (cases "start_config e")
  case (Inl err)
  then show ?thesis
    using refused by (cases "st_prereqs e") (simp_all add: run_start_def)
next
  case (Inr c)
  show ?thesis
  proof (cases "st_prereqs e \<and> st_mkdir e \<and> \<not> pid_running (st_alive e) (st_pid e) \<and> st_pid_writable e")
    case False
    with Inr have "\<exists>err. run_start e f = (NotStarted err, [])" by (auto simp: run_start_def)
    then show ?thesis using refused by blast
  next
    case True
    note start = this Inr
    show ?thesis
    proof (cases "detect_sdk (st_sdk e)")
      case None
      with start show ?thesis by (intro no_sdk) (simp_all add: run_start_def)
    next
      case (Some root)
      with start show ?thesis
        using no_sdk no_pool served [of "with_sdk (st_sdk e) root c"]
        by (cases "st_pool e"; cases "missing_tools (st_sdk e) (start_paths (st_sdk e) (cfg_sdk c)) root = []")
          (simp_all add: run_start_def Let_def)
    qed
  qed
qed

lemma filter_bring_up: "filter stops (bring_up e) = []"
    "filter starts (bring_up e) = [BrokerStarted, HealthStarted, ServerStarted]"
    "PoolStarted c \<notin> set (bring_up e)"
  by (auto simp: effect_lists split: option.split)

lemma filter_tear_down:
  "filter stops tear_down = [ServerStopped, BrokerStopped, HealthStopped, PoolStopped, OrphansSwept]"
  "filter starts tear_down = []" "PoolStarted c \<notin> set tear_down"
  by (auto simp: effect_lists)

lemma filter_marks: "stops StoreClosed" "stops PidRemoved" "\<not> stops PidWritten" "\<not> stops StoreOpened" "\<not> stops (PoolStarted c)"
  "starts PidWritten" "starts StoreOpened" "starts (PoolStarted c)" "\<not> starts StoreClosed" "\<not> starts PidRemoved"
  by (auto simp: stops_def starts_def)

lemmas start_marks = filter_bring_up filter_tear_down filter_marks


definition sample_start :: start_env where
  "sample_start =
     \<lparr>st_host = \<lparr>os_hostname = None, os_home = ''/h'', os_darwin = True\<rparr>,
      st_sdk = \<lparr>sx_env = \<lambda>v. ''/sdk'', sx_stat = \<lambda>p. True, sx_look = \<lambda>n. None, sx_home = ''/h'', sx_darwin = True\<rparr>,
      st_prereqs = True, st_raw = Some small_config, st_config_exists = True, st_mkdir = True, st_pid = PidText ''7'',
      st_alive = \<lambda>n. False, st_pid_writable = True, st_store = True, st_reservations = None, st_pool = True,
      st_registry = NoFile, st_retry = NoFile, st_install = True, st_silent = False\<rparr>"

lemma sample_start_stops: "fst (run_start sample_start no_flags) = Stopped"
proof -
  let ?h = "\<lparr>os_hostname = None, os_home = ''/h'', os_darwin = True\<rparr>"
  have "\<exists>c. load_config ?h small_config = Inr c"
    using load_config_correct [of ?h small_config] by (simp add: small_config_def or_int_def)
  then obtain c where "load_config ?h small_config = Inr c" by blast
  then have c: "start_config sample_start = Inr c" by (simp add: start_config_def sample_start_def)
  have "\<not> pid_running (\<lambda>n. False) f" for f by (simp add: pid_running_def split: sum.split)
  moreover have "missing_tools (st_sdk sample_start) rv ''/sdk'' = []" for rv
    by (simp add: missing_tools_def adb_tool_def emulator_tool_def tool_path_def sample_start_def path_join_def path_clean_def Let_def)
  moreover have "start_registry sample_start c1 \<noteq> None" for c1
    by (simp add: start_registry_def new_registry_def sample_start_def)
  ultimately show ?thesis using c
    by (auto simp: run_start_def with_pid_def with_store_def serve_def sample_start_def detect_sdk_def split: option.split)
qed


subsection \<open>The service\<close>

lemma in_join_with: "w \<in> set ws \<Longrightarrow> \<exists>xs ys. join_with sep ws = xs @ w @ ys"
proof (induction ws)
  case (Cons v ws)
  show ?case
  proof (cases ws)
    case Nil
    with Cons.prems show ?thesis by (intro exI [of _ "[]"]) simp
  next
    case (Cons u us)
    have j: "join_with sep (v # ws) = v @ sep @ join_with sep ws" by (simp add: Cons)
    show ?thesis
    proof (cases "w = v")
      case True
      with j show ?thesis by (metis append_Nil)
    next
      case False
      with Cons.prems Cons.IH obtain xs ys where "join_with sep ws = xs @ w @ ys" by auto
      with j have "join_with sep (v # ws) = (v @ sep @ xs) @ w @ ys" by simp
      then show ?thesis by blast
    qed
  qed
qed simp

lemma install_launchd_ok:
  "install_launchd e c s = (None, s') \<longleftrightarrow> ld_mkdir e \<and> ld_create e \<and> ld_write e \<and> ld_run e (launchctl e ''load'') \<and>
     s' = \<lparr>ls_plist = Some (plist_text (if lc_log c = [] then c\<lparr>lc_log := lc_data c\<rparr> else c)),
           ls_ran = ls_ran s @ [launchctl e ''load'']\<rparr>"
  by (auto simp: install_launchd_def Let_def)

text \<open>Installing the service: when it succeeds, the plist is the one for this program and configuration, whatever
  was installed before, and the service was unloaded first when there was one, then loaded; installing
  again gives the same plist. Removing it then unloads it and leaves no plist. Without a program or a
  configuration nothing is done. The path of the program stands in the plist as it is: the text is XML, but
  a path with an ampersand or a bracket is not escaped.\<close>

theorem daemon_service_correct:
  assumes "daemon_install e (Some b) True s = (None, s1)"
  shows "ls_plist s1 = Some (plist_text (service_config e b)) \<and>
    ls_ran s1 = ls_ran s @ (if ls_plist s = None then [] else [launchctl e ''unload'']) @ [launchctl e ''load''] \<and>
    ls_plist (snd (daemon_install e (Some b) True s1)) = ls_plist s1 \<and>
    (ld_remove e \<longrightarrow> daemon_uninstall e s1 = (None, \<lparr>ls_plist = None, ls_ran = ls_ran s1 @ [launchctl e ''unload'']\<rparr>)) \<and>
    snd (daemon_install e None ready s) = s \<and> snd (daemon_install e (Some b) False s) = s \<and>
    (\<exists>xs ys. plist_text (service_config e b) = xs @ ''<string>'' @ b @ ''</string>'' @ ys)"
proof -
  have dir: "lc_log (service_config e b) \<noteq> []"
    by (simp add: service_config_def path_join_def path_clean_def Let_def)
  from assms dir have ok: "ld_mkdir e" "ld_create e" "ld_write e" "ld_run e (launchctl e ''load'')" and
    s1: "s1 = \<lparr>ls_plist = Some (plist_text (service_config e b)),
      ls_ran = ls_ran s @ (if ls_plist s = None then [] else [launchctl e ''unload'']) @ [launchctl e ''load'']\<rparr>"
    by (auto simp: daemon_install_def reinstall_def install_launchd_ok is_launchd_installed_def uninstall_launchd_def Let_def)
  have "''        <string>'' @ b @ ''</string>'' \<in> set (plist_lines (service_config e b))"
    by (simp add: plist_lines_def service_config_def Let_def)
  then obtain xs ys where "plist_text (service_config e b) = xs @ (''        <string>'' @ b @ ''</string>'') @ ys"
    using in_join_with unfolding plist_text_def by blast
  then have "plist_text (service_config e b) = (xs @ ''        '') @ ''<string>'' @ b @ ''</string>'' @ ys" by simp
  then have path: "\<exists>xs ys. plist_text (service_config e b) = xs @ ''<string>'' @ b @ ''</string>'' @ ys" by blast
  have "ls_plist s1 = Some (plist_text (service_config e b)) \<and>
    ls_ran s1 = ls_ran s @ (if ls_plist s = None then [] else [launchctl e ''unload'']) @ [launchctl e ''load''] \<and>
    ls_plist (snd (daemon_install e (Some b) True s1)) = ls_plist s1"
    using ok s1 dir
    by (simp add: daemon_install_def reinstall_def install_launchd_def is_launchd_installed_def uninstall_launchd_def Let_def)
  moreover have "ld_remove e \<longrightarrow> daemon_uninstall e s1 = (None, \<lparr>ls_plist = None, ls_ran = ls_ran s1 @ [launchctl e ''unload'']\<rparr>)"
    using s1 by (simp add: is_launchd_installed_def uninstall_launchd_def daemon_uninstall_def Let_def)
  moreover have "snd (daemon_install e None ready s) = s" "snd (daemon_install e (Some b) False s) = s"
    by (simp_all add: daemon_install_def)
  ultimately show ?thesis using path by (intro conjI) blast+
qed

end
