(* ===== verification/Beacon.thy ===== *)
theory Beacon
  imports DeviceApi Registry License
begin

text \<open>
  What a node tells the world: the mDNS announcement and its browser (\<^verbatim>\<open>discovery/announce.go\<close>,
  \<^verbatim>\<open>discovery/browse.go\<close>), the webhooks (\<^verbatim>\<open>webhook/webhook.go\<close>), the telemetry (\<^verbatim>\<open>telemetry\<close>) and the commands
  \<^verbatim>\<open>join\<close> and \<^verbatim>\<open>activate\<close>. The mDNS library hands over what was registered; HTTP requests are values.
\<close>

subsection \<open>Announcing and browsing\<close>

record announce_config =
  ac_node :: string
  ac_port :: int
  ac_version :: string
  ac_tier :: string
  ac_mesh_id :: string
  ac_mesh_name :: string
  ac_android :: int
  ac_ios :: int
  ac_capacity :: int

definition txt_records :: "announce_config \<Rightarrow> string list" where
  "txt_records c =
     [''version='' @ ac_version c, ''node='' @ ac_node c, ''mesh_id='' @ ac_mesh_id c, ''mesh='' @ ac_mesh_name c,
      ''tier='' @ ac_tier c, ''android_available='' @ itoa (ac_android c), ''ios_available='' @ itoa (ac_ios c),
      ''total_capacity='' @ itoa (ac_capacity c)]"

text \<open>An entry as the library finds it; addresses are texts.\<close>

record service_entry =
  en_instance :: string
  en_port :: int
  en_v4 :: "string list"
  en_v6 :: "string list"
  en_text :: "string list"

definition announce :: "announce_config \<Rightarrow> string list \<Rightarrow> string list \<Rightarrow> service_entry" where
  "announce c v4 v6 = \<lparr>en_instance = ac_node c, en_port = ac_port c, en_v4 = v4, en_v6 = v6, en_text = txt_records c\<rparr>"

record found_node =
  fn_name :: string
  fn_host :: string
  fn_port :: int
  fn_mesh_id :: string
  fn_mesh_name :: string
  fn_version :: string
  fn_tier :: string
  fn_capacity :: int
  fn_android :: int
  fn_ios :: int

definition scan_or :: "string \<Rightarrow> int \<Rightarrow> int" where
  "scan_or v old = (case scan_int v of Some n \<Rightarrow> n | None \<Rightarrow> old)"

definition parse_txt :: "string \<Rightarrow> found_node \<Rightarrow> found_node" where
  "parse_txt t n =
     (if CHR ''='' \<notin> set t then n
      else (let key = takeWhile (\<lambda>ch. ch \<noteq> CHR ''='') t; val = tl (dropWhile (\<lambda>ch. ch \<noteq> CHR ''='') t)
            in if key = ''version'' then n\<lparr>fn_version := val\<rparr>
               else if key = ''mesh_id'' then n\<lparr>fn_mesh_id := val\<rparr>
               else if key = ''mesh'' then n\<lparr>fn_mesh_name := val\<rparr>
               else if key = ''tier'' then n\<lparr>fn_tier := val\<rparr>
               else if key = ''total_capacity'' then n\<lparr>fn_capacity := scan_or val (fn_capacity n)\<rparr>
               else if key = ''android_available'' then n\<lparr>fn_android := scan_or val (fn_android n)\<rparr>
               else if key = ''ios_available'' then n\<lparr>fn_ios := scan_or val (fn_ios n)\<rparr>
               else if key = ''node'' then (if fn_name n = [] then n\<lparr>fn_name := val\<rparr> else n)
               else n))"

definition entry_host :: "service_entry \<Rightarrow> string" where
  "entry_host e =
     (let v4 = (case en_v4 e of [] \<Rightarrow> [] | a # as \<Rightarrow> a)
      in if v4 = [] then (case en_v6 e of [] \<Rightarrow> [] | a # as \<Rightarrow> a) else v4)"

definition entry_node :: "service_entry \<Rightarrow> found_node" where
  "entry_node e = fold parse_txt (en_text e)
     \<lparr>fn_name = en_instance e, fn_host = entry_host e, fn_port = en_port e, fn_mesh_id = [], fn_mesh_name = [],
      fn_version = [], fn_tier = [], fn_capacity = 0, fn_android = 0, fn_ios = 0\<rparr>"

definition in_mesh :: "string \<Rightarrow> found_node \<Rightarrow> bool" where
  "in_mesh mesh n \<longleftrightarrow> mesh = [] \<or> fn_mesh_id n = mesh \<or> fn_mesh_name n = mesh"

text \<open>The entries that arrive before the deadline.\<close>

definition browse_mesh :: "string \<Rightarrow> service_entry list \<Rightarrow> found_node list" where
  "browse_mesh mesh es = filter (in_mesh mesh) (map entry_node es)"

definition browse :: "service_entry list \<Rightarrow> found_node list" where
  "browse es = browse_mesh ''default'' es"

subsection \<open>Webhooks\<close>

record hook_event =
  he_type :: string
  he_session :: string
  he_instance :: string
  he_profile :: string
  he_serial :: string
  he_duration :: string
  he_timestamp :: string
  he_node :: string

text \<open>The broker's sender takes the URLs of every entry of the configuration; what is posted where.\<close>

definition hook_urls :: "config \<Rightarrow> string list" where
  "hook_urls c = concat (map wh_urls (cfg_webhooks c))"

definition hook_send :: "string \<Rightarrow> string list \<Rightarrow> hook_event \<Rightarrow> (string \<times> hook_event) list" where
  "hook_send stamp urls ev =
     (if urls = [] then [] else map (\<lambda>u. (u, ev\<lparr>he_timestamp := stamp\<rparr>)) urls)"

subsection \<open>Telemetry\<close>

text \<open>The environment variables.\<close>

definition heartbeat_disabled :: "(string \<Rightarrow> string) \<Rightarrow> bool" where
  "heartbeat_disabled env \<longleftrightarrow> lower_ascii (env ''DRIZZ_TELEMETRY'') \<in> {''off'', ''0'', ''false'', ''no''}"

definition telemetry_url :: "(string \<Rightarrow> string) \<Rightarrow> string" where
  "telemetry_url env = (if env ''DRIZZ_API_URL'' \<noteq> [] then env ''DRIZZ_API_URL'' else ''https://api.drizz.ai/v1'')"

record signup_request =
  su_install :: string
  su_email :: string
  su_org :: string
  su_hostname :: string
  su_os :: string
  su_arch :: string
  su_version :: string

record heartbeat_request =
  hb_install :: string
  hb_version :: string
  hb_os :: string
  hb_arch :: string
  hb_nodes :: int
  hb_sessions :: int
  hb_emulators :: int
  hb_uptime :: int

datatype beacon = SignupPost string signup_request | HeartbeatPost string heartbeat_request

definition signup :: "(string \<Rightarrow> string) \<Rightarrow> signup_request \<Rightarrow> beacon list" where
  "signup env r = [SignupPost (telemetry_url env @ ''/signup'') r]"

definition heartbeat :: "(string \<Rightarrow> string) \<Rightarrow> heartbeat_request \<Rightarrow> beacon list" where
  "heartbeat env r = (if heartbeat_disabled env then [] else [HeartbeatPost (telemetry_url env @ ''/heartbeat'') r])"

text \<open>What the collector of the daemon says: the nodes of the registry and the sessions since a day ago, which
  stand for the emulators too. \<open>None\<close>: no store, or its query fails.\<close>

definition collect_counts :: "registry \<Rightarrow> int option \<Rightarrow> int \<times> int \<times> int" where
  "collect_counts r sessions =
     (let nodes = int (length (registry_nodes r)); s = (case sessions of Some n \<Rightarrow> n | None \<Rightarrow> 0)
      in (if nodes < 1 then 1 else nodes, s, s))"

text \<open>The first beat five minutes after the start, the next ones every day; \<open>up\<close>: how long the daemon runs, and
  \<open>counts\<close> what the collector says at a time.\<close>

definition beat_times :: "duration \<Rightarrow> duration list" where
  "beat_times up = map (\<lambda>i. 5 * minute_ns + int i * (24 * hour_ns))
     [0..<nat ((up - 5 * minute_ns) div (24 * hour_ns) + 1)]"

definition heartbeat_loop ::
  "(string \<Rightarrow> string) \<Rightarrow> string \<Rightarrow> string \<Rightarrow> string \<Rightarrow> string \<Rightarrow> (duration \<Rightarrow> int \<times> int \<times> int) \<Rightarrow> duration \<Rightarrow> beacon list" where
  "heartbeat_loop env os arch ident version counts up =
     (if heartbeat_disabled env then []
      else concat (map (\<lambda>t. case counts t of (nodes, sessions, emulators) \<Rightarrow>
        heartbeat env \<lparr>hb_install = ident, hb_version = version, hb_os = os, hb_arch = arch, hb_nodes = nodes,
          hb_sessions = sessions, hb_emulators = emulators, hb_uptime = t div second_ns\<rparr>) (beat_times up)))"

text \<open>The install id: the content of its file, \<open>None\<close> when there is none.\<close>

definition get_install_id :: "string \<Rightarrow> bool \<Rightarrow> bool \<Rightarrow> string option \<Rightarrow> string option \<times> string option" where
  "get_install_id uuid made written file =
     (let old = (case file of Some t \<Rightarrow> trim_space t | None \<Rightarrow> [])
      in if old \<noteq> [] then (Some old, file)
         else if \<not> made \<or> \<not> written then (None, file)
         else (Some uuid, Some uuid))"

text \<open>The pattern for an email address: one at-sign, and a dot inside what follows it.\<close>

definition email_char :: "char \<Rightarrow> bool" where
  "email_char ch \<longleftrightarrow> ch \<notin> set [CHR '' '', CHR 0x09, CHR 0x0A, CHR 0x0C, CHR 0x0D, CHR ''@'']"

definition validate_email :: "string \<Rightarrow> bool" where
  "validate_email s =
     (case split_on (CHR ''@'') (trim_space s) of
        [a, b] \<Rightarrow> a \<noteq> [] \<and> list_all email_char (a @ b) \<and> CHR ''.'' \<in> set (butlast (tl b))
      | _ \<Rightarrow> False)"

subsection \<open>The commands that join a group and activate a licence\<close>

text \<open>What this machine calls itself: the name and the URL of the configuration, or what the host name gives.
  \<open>None\<close> in \<open>jn_raw\<close> is a configuration that cannot be read.\<close>

definition local_name :: "string \<Rightarrow> string" where
  "local_name h = (if has_suffix h ''.local'' then h else h @ ''.local'')"

definition join_name :: "host_env \<Rightarrow> config \<Rightarrow> string" where
  "join_name host c =
     (if node_cname (cfg_node c) \<noteq> [] then node_cname (cfg_node c) else (case os_hostname host of Some h \<Rightarrow> h | None \<Rightarrow> []))"

definition join_url :: "host_env \<Rightarrow> config \<Rightarrow> string" where
  "join_url host c =
     (if external_url (cfg_node c) \<noteq> [] then external_url (cfg_node c)
      else ''http://'' @ local_name (case os_hostname host of Some h \<Rightarrow> h | None \<Rightarrow> []) @ '':'' @ itoa (api_port (cfg_api c)))"

datatype join_outcome = Aborted | JoinUnconfigured | JoinNoRegistry | JoinFailed registry_error | Joined string

record join_env =
  jn_host :: host_env
  jn_raw :: "config option"
  jn_disk :: disk_read
  jn_writable :: bool
  jn_now :: time
  jn_answer :: "peer_answer option"

text \<open>\<open>yes\<close> is the flag, \<open>typed\<close> the line at the prompt; with the outcome come the requests to the peer and the
  registry as it is left, if it was opened.\<close>

definition run_join ::
  "join_env \<Rightarrow> bool \<Rightarrow> string \<Rightarrow> string \<Rightarrow> string \<Rightarrow> join_outcome \<times> peer_call list \<times> registry option" where
  "run_join e yes typed peer key =
     (if \<not> yes \<and> lower_ascii (trim_space typed) \<notin> {''y'', ''yes''} then (Aborted, [], None)
      else (case jn_raw e of
          None \<Rightarrow> (JoinUnconfigured, [], None)
        | Some raw \<Rightarrow> (case load_config (jn_host e) raw of
              Inl err \<Rightarrow> (JoinUnconfigured, [], None)
            | Inr c \<Rightarrow> (case new_registry (path_join [data_dir (jn_host e) c, ''nodes.yaml'']) (jn_disk e) of
                  Inl err \<Rightarrow> (JoinNoRegistry, [], None)
                | Inr r \<Rightarrow> (case join_group (jn_writable e) (jn_now e) (jn_answer e) (trim_right_slash peer) key
                      (join_name (jn_host e) c) (join_url (jn_host e) c) r of
                      (Inl err, calls, r1) \<Rightarrow> (JoinFailed err, calls, Some r1)
                    | (Inr name, calls, r1) \<Rightarrow> (Joined name, calls, Some r1))))))"

text \<open>Activation checks the key, which every key passes, and puts it into a file of its own.\<close>

definition run_activate :: "time \<Rightarrow> string \<Rightarrow> bool \<Rightarrow> string \<Rightarrow> (license \<times> (string \<times> string)) option" where
  "run_activate now home written key =
     (let lic = fst (license_validate now key new_validator)
      in if written then Some (lic, (path_join [home, ''.drizz-farm'', ''license.key''], key)) else None)"

subsection \<open>What is announced is found\<close>

lemma itoa_nat_all_digits: "ch \<in> set (itoa_nat n) \<Longrightarrow> digit_val ch \<noteq> None"
  using itoa_nat_digits by fastforce

lemma scan_int_itoa: "- (2 ^ 63) \<le> i \<Longrightarrow> i < 2 ^ 63 \<Longrightarrow> scan_int (itoa i) = Some i"
proof -
  assume i: "- (2 ^ 63) \<le> i" "i < 2 ^ 63"
  have ds: "takeWhile (\<lambda>ch. \<exists>y. digit_val ch = Some y) (itoa_nat n) = itoa_nat n" for n
    using itoa_nat_all_digits by (simp add: takeWhile_eq_all_conv)
  show ?thesis
  proof (cases "i < 0")
    case True
    then have "itoa i = CHR ''-'' # itoa_nat (nat (- i))" by (simp add: itoa_def)
    then show ?thesis using atoi_itoa [OF i] by (simp add: scan_int_def is_space_def ds)
  next
    case False
    then have t: "itoa i = itoa_nat (nat i)" by (simp add: itoa_def)
    have "digit_val (hd (itoa i)) \<noteq> None" using itoa_nat_all_digits [of "hd (itoa i)" "nat i"] by (simp add: t)
    moreover have "hd (itoa i) \<noteq> CHR ''-''" "hd (itoa i) \<noteq> CHR ''+''" "\<not> is_space (hd (itoa i))"
      using calculation by (auto simp: digit_val_def is_space_def)
    moreover have "dropWhile is_space (itoa i) = itoa i" using calculation itoa_nonempty [of i] by (cases "itoa i") auto
    ultimately show ?thesis using atoi_itoa [OF i] by (simp add: scan_int_def Let_def t ds)
  qed
qed

lemma parse_txt_key:
  assumes "CHR ''='' \<notin> set k"
  shows "takeWhile (\<lambda>ch. ch \<noteq> CHR ''='') (k @ CHR ''='' # v) = k" "tl (dropWhile (\<lambda>ch. ch \<noteq> CHR ''='') (k @ CHR ''='' # v)) = v"
  using assms by (induction k) auto


definition sample_announce :: announce_config where
  "sample_announce = \<lparr>ac_node = ''mini'', ac_port = 9401, ac_version = ''1=2'', ac_tier = ''pro'', ac_mesh_id = [],
     ac_mesh_name = ''lab'', ac_android = 3, ac_ios = 0, ac_capacity = 4\<rparr>"


subsection \<open>Telemetry\<close>

lemma split_on_two:
  assumes "split_on ch s = [a, b]"
  shows "s = a @ ch # b \<and> ch \<notin> set a \<and> ch \<notin> set b"
proof (cases "ch \<in> set s")
  case False
  with assms show ?thesis by (simp add: split_on_none)
next
  case True
  then obtain u v where u: "s = u @ ch # v" "ch \<notin> set u" by (meson split_list_first)
  with assms have v: "u = a" "split_on ch v = [b]" by (simp_all add: split_on_append)
  show ?thesis
  proof (cases "ch \<in> set v")
    case False
    with u v show ?thesis by (simp add: split_on_none)
  next
    case True
    then obtain w z where "v = w @ ch # z" "ch \<notin> set w" by (meson split_list_first)
    with v(2) show ?thesis by (simp add: split_on_append)
  qed
qed

text \<open>The check of an email address accepts exactly the pattern: after the surrounding blanks, something, an
  at-sign, something, a dot, something, without a blank or another at-sign anywhere.\<close>

theorem email_pattern:
  "validate_email s \<longleftrightarrow> (\<exists>a b c. trim_space s = a @ ''@'' @ b @ ''.'' @ c \<and> a \<noteq> [] \<and> b \<noteq> [] \<and> c \<noteq> [] \<and>
     list_all email_char (a @ b @ c))"
proof
  assume "validate_email s"
  then obtain a d where p: "split_on (CHR ''@'') (trim_space s) = [a, d]" "a \<noteq> []" "list_all email_char (a @ d)"
    "CHR ''.'' \<in> set (butlast (tl d))"
    by (auto simp: validate_email_def split: list.splits)
  from p(4) have "tl d \<noteq> []" by auto
  then obtain x ds where d: "d = x # ds" "ds \<noteq> []" by (cases d) auto
  then have "ds = butlast ds @ [last ds]" by simp
  moreover from p(4) d obtain q w where "butlast ds = q @ CHR ''.'' # w" by (auto simp: in_set_conv_decomp)
  ultimately have "d = (x # q) @ ''.'' @ (w @ [last ds])" using d(1) by simp
  moreover have "trim_space s = a @ ''@'' @ d" using split_on_two [OF p(1)] by simp
  ultimately show "\<exists>a b c. trim_space s = a @ ''@'' @ b @ ''.'' @ c \<and> a \<noteq> [] \<and> b \<noteq> [] \<and> c \<noteq> [] \<and>
      list_all email_char (a @ b @ c)"
    using p(2,3) by (intro exI [of _ a] exI [of _ "x # q"] exI [of _ "w @ [last ds]"]) auto
next
  assume "\<exists>a b c. trim_space s = a @ ''@'' @ b @ ''.'' @ c \<and> a \<noteq> [] \<and> b \<noteq> [] \<and> c \<noteq> [] \<and> list_all email_char (a @ b @ c)"
  then obtain a b c where t: "trim_space s = a @ CHR ''@'' # b @ CHR ''.'' # c" "a \<noteq> []" "b \<noteq> []" "c \<noteq> []"
    "list_all email_char (a @ b @ c)" by auto
  then have "CHR ''@'' \<notin> set a" "CHR ''@'' \<notin> set (b @ CHR ''.'' # c)"
    by (auto simp: list_all_iff email_char_def)
  then have "split_on (CHR ''@'') (trim_space s) = [a, b @ CHR ''.'' # c]"
    unfolding t(1) by (simp add: split_on_append split_on_none)
  moreover obtain x q where "b = x # q" using t(3) by (cases b) auto
  ultimately show "validate_email s"
    using t(2,4,5) by (simp add: validate_email_def butlast_append email_char_def)
qed

text \<open>The install id stays: once it could be stored, every later run reads the same one, whatever new one is at hand.\<close>

theorem install_id_stays:
  assumes "get_install_id uuid made written file = (Some i, file1)" and "trim_space uuid = uuid" and "uuid \<noteq> []"
  shows "get_install_id uuid1 made1 written1 file1 = (Some i, file1) \<and> i \<noteq> []"
  using assms by (auto simp: get_install_id_def Let_def split: if_splits option.splits)

text \<open>The beats: none when switched off or in the first five minutes, then one more for every whole day, and none
  later than now.\<close>

lemma beats_bounded:
  "t \<in> set (beat_times up) \<Longrightarrow> 5 * minute_ns \<le> t \<and> t \<le> up"
  "up < 5 * minute_ns \<Longrightarrow> beat_times up = []"
proof -
  have day: "24 * hour_ns > (0::int)" by (simp add: hour_ns_def)
  have k: "(up - 5 * minute_ns) div (24 * hour_ns) * (24 * hour_ns) \<le> up - 5 * minute_ns"
    using day by (simp add: minus_mod_eq_div_mult [symmetric])
  show "5 * minute_ns \<le> t \<and> t \<le> up" if "t \<in> set (beat_times up)"
  proof -
    from that have "t \<in> (\<lambda>i. 5 * minute_ns + int i * (24 * hour_ns)) `
        {0..<nat ((up - 5 * minute_ns) div (24 * hour_ns) + 1)}" by (simp add: beat_times_def)
    then obtain i where "t = 5 * minute_ns + int i * (24 * hour_ns)"
      "i < nat ((up - 5 * minute_ns) div (24 * hour_ns) + 1)" by (elim imageE) (simp only: atLeastLessThan_iff)
    then have i: "t = 5 * minute_ns + int i * (24 * hour_ns)" "int i \<le> (up - 5 * minute_ns) div (24 * hour_ns)"
      by linarith+
    from mult_right_mono [OF i(2), of "24 * hour_ns"] day k i(1) show ?thesis by (simp add: hour_ns_def)
  qed
  show "beat_times up = []" if "up < 5 * minute_ns"
    using div_neg_pos_less0 [of "up - 5 * minute_ns" "24 * hour_ns"] that day by (simp add: beat_times_def)
qed

end
