(* ===== verification/Setup.thy ===== *)
theory Setup
  imports Start Beacon "HOL-Library.Sublist"
begin

text \<open>
  The tools on the host, as \<^verbatim>\<open>cmd/setup.go\<close> looks for them and \<^verbatim>\<open>cmd/prereqs.go\<close> installs them. The world says,
  for the commands run so far, which files there are, what the search path gives and what a command prints;
  so an installation can change it. \<^verbatim>\<open>JAVA_HOME\<close> is set by the process itself. The details that are only printed
  are left out, and so is the mesh wizard, which nothing calls.
\<close>

subsection \<open>The world\<close>

datatype tool_result = Printed string | Broken string | TimedOut

record setup_state =
  ss_ran :: "cmd list"
  ss_java :: "string option"

type_synonym 'a probing = "(setup_state, 'a) state"

record setup_world =
  sw_os :: string
  sw_home :: string
  sw_env :: "string \<Rightarrow> string option"
  sw_stat :: "setup_state \<Rightarrow> string \<Rightarrow> bool"
  sw_look :: "setup_state \<Rightarrow> string \<Rightarrow> string option"
  sw_dirs :: "setup_state \<Rightarrow> string \<Rightarrow> string list"
  sw_glob :: "setup_state \<Rightarrow> string \<Rightarrow> string list"
  sw_run :: "setup_state \<Rightarrow> cmd \<Rightarrow> tool_result"

definition observe :: "(setup_state \<Rightarrow> 'a) \<Rightarrow> 'a probing" where "observe f = State (\<lambda>s. (f s, s))"

definition probe :: "setup_world \<Rightarrow> cmd \<Rightarrow> tool_result probing" where
  "probe w cmd = State (\<lambda>s. (sw_run w s cmd, s\<lparr>ss_ran := ss_ran s @ [cmd]\<rparr>))"

definition set_java_home :: "string \<Rightarrow> unit probing" where
  "set_java_home j = State (\<lambda>s. ((), s\<lparr>ss_java := Some j\<rparr>))"

definition env_of :: "setup_world \<Rightarrow> setup_state \<Rightarrow> string \<Rightarrow> string option" where
  "env_of w s v = (if v = ''JAVA_HOME'' \<and> ss_java s \<noteq> None then ss_java s else sw_env w v)"

definition get_env :: "setup_world \<Rightarrow> setup_state \<Rightarrow> string \<Rightarrow> string" where
  "get_env w s v = (case env_of w s v of Some x \<Rightarrow> x | None \<Rightarrow> [])"

definition worked :: "tool_result \<Rightarrow> bool" where
  "worked r = (case r of Printed t \<Rightarrow> True | _ \<Rightarrow> False)"

definition printed :: "tool_result \<Rightarrow> string" where
  "printed r = (case r of Printed t \<Rightarrow> t | Broken t \<Rightarrow> t | TimedOut \<Rightarrow> [])"

text \<open>The first of a list that passes a test.\<close>

fun first_that :: "('a \<Rightarrow> bool probing) \<Rightarrow> 'a list \<Rightarrow> 'a option probing" where
  "first_that t [] = State_Monad.return None"
| "first_that t (x # xs) = do { b \<leftarrow> t x; if b then State_Monad.return (Some x) else first_that t xs }"

subsection \<open>Where a program is\<close>

definition is_java :: "string \<Rightarrow> bool" where "is_java name \<longleftrightarrow> name = ''java'' \<or> name = ''javac''"

definition env_for_binary :: "string \<Rightarrow> string option" where
  "env_for_binary name =
     (if name \<in> {''adb'', ''emulator'', ''avdmanager'', ''sdkmanager''} then Some ''ANDROID_HOME''
      else if is_java name then Some ''JAVA_HOME'' else None)"

definition binary_paths :: "setup_world \<Rightarrow> string \<Rightarrow> string \<Rightarrow> setup_state \<Rightarrow> string list" where
  "binary_paths w root name s =
     [path_join [root, ''bin'', name], path_join [root, ''platform-tools'', name], path_join [root, ''emulator'', name],
      path_join [root, ''cmdline-tools'', ''latest'', ''bin'', name]] @
     map (\<lambda>d. path_join [root, ''cmdline-tools'', d, ''bin'', name]) (sw_dirs w s (path_join [root, ''cmdline-tools'']))"

definition brew_bins :: "string list" where "brew_bins = [''/opt/homebrew/bin/brew'', ''/usr/local/bin/brew'']"
definition jdk_formulas :: "string list" where "jdk_formulas = [''openjdk@17'', ''openjdk@21'', ''openjdk'']"

definition installed_brew :: "setup_world \<Rightarrow> setup_state \<Rightarrow> string option" where
  "installed_brew w s = List.find (sw_stat w s) brew_bins"

text \<open>What brew says about where a formula is; \<open>None\<close> on an error or an empty answer.\<close>

definition brew_prefix :: "setup_world \<Rightarrow> string \<Rightarrow> string \<Rightarrow> string option probing" where
  "brew_prefix w brew formula = do {
     r \<leftarrow> probe w [brew, ''--prefix'', formula];
     State_Monad.return (if worked r \<and> trim_space (printed r) \<noteq> [] then Some (trim_space (printed r)) else None) }"

fun brew_paths :: "setup_world \<Rightarrow> string \<Rightarrow> string \<Rightarrow> string list \<Rightarrow> string list probing" where
  "brew_paths w brew name [] = State_Monad.return []"
| "brew_paths w brew name (f # fs) = do {
     p \<leftarrow> brew_prefix w brew f;
     rest \<leftarrow> brew_paths w brew name fs;
     State_Monad.return ((case p of None \<Rightarrow> []
       | Some keg \<Rightarrow> [path_join [keg, ''bin'', name],
                         path_join [keg, ''libexec'', ''openjdk.jdk'', ''Contents'', ''Home'', ''bin'', name]]) @ rest) }"

definition fixed_paths :: "setup_world \<Rightarrow> string \<Rightarrow> setup_state \<Rightarrow> string list" where
  "fixed_paths w name s =
     concat (map (\<lambda>root. binary_paths w root name s)
       [path_join [sw_home w, ''Library'', ''Android'', ''sdk''], ''/Library/Android/sdk'', ''/opt/android-sdk'']) @
     map (\<lambda>d. path_join [d, name])
       [''/opt/homebrew/bin'', ''/usr/local/bin'',
        ''/opt/homebrew/share/android-commandlinetools/cmdline-tools/latest/bin'',
        ''/opt/homebrew/Caskroom/android-commandlinetools/latest/cmdline-tools/latest/bin'']"

definition java_paths :: "string \<Rightarrow> string list" where
  "java_paths name = map (\<lambda>d. path_join [d, name])
     [''/opt/homebrew/opt/openjdk@17/bin'', ''/opt/homebrew/opt/openjdk@21/bin'', ''/opt/homebrew/opt/openjdk/bin'',
      ''/usr/local/opt/openjdk@17/bin'', ''/usr/local/opt/openjdk@21/bin'', ''/usr/local/opt/openjdk/bin'',
      ''/Library/Java/JavaVirtualMachines/openjdk.jdk/Contents/Home/bin'']"

definition jvm_paths :: "setup_world \<Rightarrow> string \<Rightarrow> setup_state \<Rightarrow> string list" where
  "jvm_paths w name s =
     (let jvms = ''/Library/Java/JavaVirtualMachines''
      in map (\<lambda>d. path_join [jvms, d, ''Contents'', ''Home'', ''bin'', name]) (sw_dirs w s jvms)) @
     concat (map (\<lambda>cellar. concat (map (\<lambda>f.
         sw_glob w s (path_join [cellar, f, ''*'', ''bin'', name]) @
         sw_glob w s (path_join [cellar, f, ''*'', ''libexec'', ''openjdk.jdk'', ''Contents'', ''Home'', ''bin'', name]))
       jdk_formulas)) [''/opt/homebrew/Cellar'', ''/usr/local/Cellar''])"

definition common_search_paths :: "setup_world \<Rightarrow> string \<Rightarrow> string list probing" where
  "common_search_paths w name = do {
     fixed \<leftarrow> observe (fixed_paths w name);
     if \<not> is_java name then State_Monad.return fixed
     else do {
       brew \<leftarrow> observe (installed_brew w);
       kegs \<leftarrow> (case brew of None \<Rightarrow> State_Monad.return [] | Some b \<Rightarrow> brew_paths w b name jdk_formulas);
       jvms \<leftarrow> observe (jvm_paths w name);
       State_Monad.return (fixed @ java_paths name @ kegs @ jvms) } }"

definition verify_binary_works :: "setup_world \<Rightarrow> string \<Rightarrow> bool probing" where
  "verify_binary_works w p =
     (if \<not> is_java (path_base p) then State_Monad.return True
      else do {
        r \<leftarrow> probe w [p, ''-version''];
        if worked r then State_Monad.return True
        else do { r2 \<leftarrow> probe w [p, ''--version'']; State_Monad.return (worked r2) } })"

definition there_and_works :: "setup_world \<Rightarrow> string \<Rightarrow> bool probing" where
  "there_and_works w p = do {
     there \<leftarrow> observe (\<lambda>s. sw_stat w s p);
     if there then verify_binary_works w p else State_Monad.return False }"

definition search_common :: "setup_world \<Rightarrow> string \<Rightarrow> string option probing" where
  "search_common w name = do { ps \<leftarrow> common_search_paths w name; first_that (there_and_works w) ps }"

definition search_path_var :: "setup_world \<Rightarrow> string \<Rightarrow> string option probing" where
  "search_path_var w name = do {
     p \<leftarrow> observe (\<lambda>s. sw_look w s name);
     case p of
       None \<Rightarrow> State_Monad.return None
     | Some q \<Rightarrow> do { b \<leftarrow> verify_binary_works w q; State_Monad.return (if b then Some q else None) } }"

definition search_env :: "setup_world \<Rightarrow> string \<Rightarrow> setup_state \<Rightarrow> string option" where
  "search_env w name s =
     (case env_for_binary name of
        None \<Rightarrow> None
      | Some v \<Rightarrow> if get_env w s v = [] then None else List.find (sw_stat w s) (binary_paths w (get_env w s v) name s))"

text \<open>One way after the other; the empty text when none finds it.\<close>

fun or_else :: "string option probing list \<Rightarrow> string probing" where
  "or_else [] = State_Monad.return []"
| "or_else (m # ms) = do { r \<leftarrow> m; case r of Some p \<Rightarrow> State_Monad.return p | None \<Rightarrow> or_else ms }"

definition find_binary :: "setup_world \<Rightarrow> string \<Rightarrow> string probing" where
  "find_binary w name = or_else
     ([observe (search_env w name)] @ (if is_java name then [search_common w name] else []) @
      [search_path_var w name, search_common w name])"

text \<open>The search that installs and verifies nothing, but tries java.\<close>

definition try_java :: "setup_world \<Rightarrow> string \<Rightarrow> string \<Rightarrow> bool probing" where
  "try_java w name p =
     (if \<not> is_java name then State_Monad.return True
      else do { r \<leftarrow> probe w [p, ''-version'']; State_Monad.return (worked r) })"

definition there_and_tried :: "setup_world \<Rightarrow> string \<Rightarrow> string \<Rightarrow> bool probing" where
  "there_and_tried w name p = do {
     there \<leftarrow> observe (\<lambda>s. sw_stat w s p);
     if there then try_java w name p else State_Monad.return False }"

definition look_up :: "setup_world \<Rightarrow> string \<Rightarrow> string option probing" where
  "look_up w name = do {
     p \<leftarrow> observe (\<lambda>s. sw_look w s name);
     case p of
       None \<Rightarrow> State_Monad.return None
     | Some q \<Rightarrow> do { b \<leftarrow> try_java w name q; State_Monad.return (if b then Some q else None) } }"

definition try_common :: "setup_world \<Rightarrow> string \<Rightarrow> string option probing" where
  "try_common w name = do { ps \<leftarrow> common_search_paths w name; first_that (there_and_tried w name) ps }"

definition find_binary_no_install :: "setup_world \<Rightarrow> string \<Rightarrow> string probing" where
  "find_binary_no_install w name = or_else
     (if is_java name then [try_common w name, look_up w name] else [look_up w name, try_common w name])"

text \<open>The environment of a child: what is put in front of its command line is added to it.\<close>

definition java_env :: "string option \<Rightarrow> string list" where
  "java_env home = (case home of None \<Rightarrow> [] | Some j \<Rightarrow> [''JAVA_HOME='' @ j])"

definition append_java_home :: "setup_world \<Rightarrow> string option probing" where
  "append_java_home w = do {
     set \<leftarrow> observe (\<lambda>s. env_of w s ''JAVA_HOME'');
     if set \<noteq> None then State_Monad.return None
     else do {
       java \<leftarrow> find_binary_no_install w ''java'';
       State_Monad.return (if java = [] then None else Some (path_dir (path_dir java))) } }"

definition find_and_verify :: "setup_world \<Rightarrow> string \<Rightarrow> string probing" where
  "find_and_verify w name = do {
     p \<leftarrow> find_binary_no_install w name;
     if p = [] then find_binary w name
     else do {
       e1 \<leftarrow> append_java_home w;
       r1 \<leftarrow> probe w (java_env e1 @ [p, ''--version'']);
       if worked r1 then State_Monad.return p
       else do {
         e2 \<leftarrow> append_java_home w;
         r2 \<leftarrow> probe w (java_env e2 @ [p, ''-version'']);
         if worked r2 then State_Monad.return p else find_binary w name } } }"

text \<open>\<^verbatim>\<open>findAndroidSDK\<close> searches as the daemon does when it detects the SDK.\<close>

definition host_of :: "setup_world \<Rightarrow> setup_state \<Rightarrow> sdk_host" where
  "host_of w s = \<lparr>sx_env = get_env w s, sx_stat = sw_stat w s, sx_look = sw_look w s, sx_home = sw_home w,
     sx_darwin = (sw_os w = ''darwin'')\<rparr>"

definition find_android_sdk :: "setup_world \<Rightarrow> string probing" where
  "find_android_sdk w = observe (\<lambda>s. case detect_sdk (host_of w s) of Some r \<Rightarrow> r | None \<Rightarrow> [])"

subsection \<open>The checks\<close>

text \<open>A check: whether it passes, where the tool is, and the command that would install it, empty for none.\<close>

record check =
  ck_ok :: bool
  ck_path :: string
  ck_fix :: string

definition passed :: "string \<Rightarrow> check" where "passed p = \<lparr>ck_ok = True, ck_path = p, ck_fix = []\<rparr>"
definition missing :: "string \<Rightarrow> check" where "missing fix_cmd = \<lparr>ck_ok = False, ck_path = [], ck_fix = fix_cmd\<rparr>"

definition brew_installer :: string where
  "brew_installer =
     ''/bin/bash -c \"$(curl -fsSL https://raw.githubusercontent.com/Homebrew/install/HEAD/install.sh)\"''"

definition check_brew :: "setup_world \<Rightarrow> check probing" where
  "check_brew w = observe (\<lambda>s. case sw_look w s ''brew'' of
      Some p \<Rightarrow> passed p
    | None \<Rightarrow> (case installed_brew w s of Some p \<Rightarrow> passed p | None \<Rightarrow> missing brew_installer))"

definition check_pkg_mgr :: "setup_world \<Rightarrow> check probing" where
  "check_pkg_mgr w =
     (if sw_os w = ''darwin'' then check_brew w
      else if sw_os w = ''linux'' then observe (\<lambda>s.
        case List.map_filter (sw_look w s) [''apt-get'', ''dnf'', ''yum'', ''pacman''] of p # ps \<Rightarrow> passed p | [] \<Rightarrow> missing [])
      else State_Monad.return (missing []))"

text \<open>A tool that is found and answers; \<open>fix_cmd\<close> when it is not found, \<open>slow\<close> when it does not answer in time.\<close>

definition check_tool ::
  "setup_world \<Rightarrow> string \<Rightarrow> string list \<Rightarrow> string \<Rightarrow> string \<Rightarrow> (string \<Rightarrow> string \<Rightarrow> check) \<Rightarrow> check probing" where
  "check_tool w name args fix_cmd slow judge = do {
     p \<leftarrow> find_binary w name;
     if p = [] then State_Monad.return (missing fix_cmd)
     else do {
       r \<leftarrow> probe w (p # args);
       State_Monad.return (case r of Printed t \<Rightarrow> judge p t | Broken t \<Rightarrow> missing [] | TimedOut \<Rightarrow> missing slow) } }"

definition check_jdk :: "setup_world \<Rightarrow> check probing" where
  "check_jdk w = check_tool w ''javac'' [''-version''] ''brew install openjdk@17'' ''brew install openjdk@17'' (\<lambda>p t. passed p)"

definition check_android_sdk :: "setup_world \<Rightarrow> check probing" where
  "check_android_sdk w = do {
     root \<leftarrow> find_android_sdk w;
     State_Monad.return (if root = [] then missing ''brew install --cask android-commandlinetools'' else passed root) }"

definition check_android_cmdline_tools :: "setup_world \<Rightarrow> check probing" where
  "check_android_cmdline_tools w = do {
     p \<leftarrow> find_binary w ''avdmanager'';
     State_Monad.return (if p = [] then missing [] else passed p) }"

text \<open>The two tools that sdkmanager can install; their version is only printed.\<close>

definition check_sdk_tool :: "setup_world \<Rightarrow> string \<Rightarrow> string \<Rightarrow> string \<Rightarrow> string \<Rightarrow> check probing" where
  "check_sdk_tool w name arg package fallback = do {
     p \<leftarrow> find_binary w name;
     if p = [] then do {
       m \<leftarrow> find_binary w ''sdkmanager'';
       State_Monad.return (missing (if m \<noteq> [] then m @ '' --install '' @ in_quotes package else fallback)) }
     else do { r \<leftarrow> probe w [p, arg]; State_Monad.return (passed p) } }"

definition check_android_platform_tools :: "setup_world \<Rightarrow> check probing" where
  "check_android_platform_tools w =
     check_sdk_tool w ''adb'' ''version'' ''platform-tools'' ''brew install --cask android-platform-tools''"

definition check_android_emulator :: "setup_world \<Rightarrow> check probing" where
  "check_android_emulator w = check_sdk_tool w ''emulator'' ''-version'' ''emulator''
     (''brew install --cask android-commandlinetools && sdkmanager --install '' @ in_quotes ''emulator'')"

text \<open>\<^verbatim>\<open>fmt.Sscanf(ver, "%d.%d", &major, &minor)\<close>: what is not read stays 0.\<close>

definition scan_version :: "string \<Rightarrow> int \<times> int" where
  "scan_version v =
     (let t = dropWhile is_space v;
          sgn = (if t \<noteq> [] \<and> (hd t = CHR ''-'' \<or> hd t = CHR ''+'') then 1 else 0);
          rest = dropWhile (\<lambda>ch. digit_val ch \<noteq> None) (drop sgn t)
      in case scan_int v of
           None \<Rightarrow> (0, 0)
         | Some major \<Rightarrow> (major, if has_prefix rest ''.'' then scan_or (tl rest) 0 else 0))"

definition node_supported :: "int \<Rightarrow> int \<Rightarrow> bool" where
  "node_supported major minor \<longleftrightarrow> (major = 20 \<and> 19 \<le> minor) \<or> (major = 22 \<and> 12 \<le> minor) \<or> 24 \<le> major"

definition check_node :: "setup_world \<Rightarrow> check probing" where
  "check_node w = check_tool w ''node'' [''--version''] ''brew install node@22'' [] (\<lambda>p t.
     case scan_version (trim_space (trim_prefix t ''v'')) of (major, minor) \<Rightarrow>
       if node_supported major minor then passed p
       else missing ''brew install node@22 && brew unlink node && brew link --overwrite --force node@22'')"

definition check_appium :: "setup_world \<Rightarrow> check probing" where
  "check_appium w = check_tool w ''appium'' [''--version''] ''npm install -g appium'' [] (\<lambda>p t. passed p)"

definition check_appium_driver :: "setup_world \<Rightarrow> check probing" where
  "check_appium_driver w = check_tool w ''appium'' [''driver'', ''list'', ''--installed''] [] [] (\<lambda>p t.
     if contains_str (lower_ascii t) ''uiautomator2'' then passed [] else missing ''appium driver install uiautomator2'')"

definition check_mitmproxy :: "setup_world \<Rightarrow> check probing" where
  "check_mitmproxy w = check_tool w ''mitmdump'' [''--version''] ''brew install mitmproxy'' [] (\<lambda>p t. passed p)"

definition check_system_images :: "setup_world \<Rightarrow> check probing" where
  "check_system_images w = do {
     root \<leftarrow> find_android_sdk w;
     if root = [] then State_Monad.return (missing [])
     else do {
       m \<leftarrow> find_binary_no_install w ''sdkmanager'';
       if m = [] then State_Monad.return (missing [])
       else do {
         env \<leftarrow> append_java_home w;
         r \<leftarrow> probe w (java_env env @ [m, ''--sdk_root='' @ root, ''--list_installed'']);
         State_Monad.return (case r of
             Printed t \<Rightarrow>
               (if List.map_filter package_path (split_on nl t) = []
                then missing (''yes | '' @ m @ '' --sdk_root='' @ root @ '' --install '' @
                       in_quotes ''system-images;android-35;google_apis;arm64-v8a'')
                else passed [])
           | _ \<Rightarrow> missing []) } } }"

definition check_xcode_cli :: "setup_world \<Rightarrow> check probing" where
  "check_xcode_cli w = do {
     r \<leftarrow> probe w [''xcode-select'', ''-p''];
     State_Monad.return (if worked r then passed (trim_space (printed r)) else missing ''xcode-select --install'') }"

subsection \<open>Checking and installing\<close>

fun java_home_from :: "setup_world \<Rightarrow> string \<Rightarrow> string list \<Rightarrow> unit probing" where
  "java_home_from w brew [] = State_Monad.return ()"
| "java_home_from w brew (f # fs) = do {
     p \<leftarrow> brew_prefix w brew f;
     case p of
       None \<Rightarrow> java_home_from w brew fs
     | Some keg \<Rightarrow> do {
         there \<leftarrow> observe (\<lambda>s. sw_stat w s (path_join [keg, ''bin'', ''javac'']));
         if there then set_java_home keg else java_home_from w brew fs } }"

definition export_java_home :: "setup_world \<Rightarrow> unit probing" where
  "export_java_home w = do {
     brew \<leftarrow> observe (installed_brew w);
     case brew of None \<Rightarrow> State_Monad.return () | Some b \<Rightarrow> java_home_from w b jdk_formulas }"

definition absolute_fix :: "setup_world \<Rightarrow> string \<Rightarrow> setup_state \<Rightarrow> string" where
  "absolute_fix w fix_cmd s =
     (if has_prefix fix_cmd ''brew '' then (case installed_brew w s of Some b \<Rightarrow> b @ trim_prefix fix_cmd ''brew'' | None \<Rightarrow> fix_cmd)
      else fix_cmd)"

text \<open>\<open>jdk\<close>: this is the check for Java.\<close>

definition ensure :: "setup_world \<Rightarrow> bool \<Rightarrow> bool \<Rightarrow> check probing \<Rightarrow> check probing" where
  "ensure w auto jdk test = do {
     c \<leftarrow> test;
     if ck_ok c \<or> \<not> auto \<or> ck_fix c = [] then State_Monad.return c
     else do {
       fix_cmd \<leftarrow> observe (absolute_fix w (ck_fix c));
       r \<leftarrow> probe w [''sh'', ''-c'', fix_cmd];
       if \<not> worked r then State_Monad.return c
       else do {
         u \<leftarrow> (if jdk then export_java_home w else State_Monad.return ());
         test } } }"

definition ensure_appium :: "setup_world \<Rightarrow> bool \<Rightarrow> bool probing" where
  "ensure_appium w auto = do {
     appium \<leftarrow> ensure w auto False (check_appium w);
     if ck_ok appium then do { d \<leftarrow> ensure w auto False (check_appium_driver w); State_Monad.return True }
     else State_Monad.return False }"

definition ensure_prereqs :: "setup_world \<Rightarrow> bool \<Rightarrow> bool probing" where
  "ensure_prereqs w auto = do {
     brew \<leftarrow> ensure w auto False (check_pkg_mgr w);
     jdk \<leftarrow> ensure w auto True (check_jdk w);
     u \<leftarrow> (if ck_ok jdk then export_java_home w else State_Monad.return ());
     sdk \<leftarrow> ensure w auto False (check_android_sdk w);
     cmdline \<leftarrow> ensure w auto False (check_android_cmdline_tools w);
     adb \<leftarrow> ensure w auto False (check_android_platform_tools w);
     emu \<leftarrow> ensure w auto False (check_android_emulator w);
     images \<leftarrow> (if ck_ok jdk then ensure w auto False (check_system_images w) else State_Monad.return (missing []));
     xcode \<leftarrow> (if sw_os w = ''darwin'' then ensure w auto False (check_xcode_cli w) else State_Monad.return (missing []));
     node \<leftarrow> ensure w auto False (check_node w);
     appium \<leftarrow> (if ck_ok node then ensure_appium w auto else State_Monad.return False);
     mitm \<leftarrow> ensure w auto False (check_mitmproxy w);
     State_Monad.return (list_all ck_ok [brew, jdk, sdk, cmdline, adb, emu, node] \<and> (ck_ok node \<longrightarrow> appium)) }"

subsection \<open>What is installed\<close>

definition is_install :: "cmd \<Rightarrow> bool" where "is_install c \<longleftrightarrow> take 2 c = [''sh'', ''-c'']"

text \<open>\<open>installs n m\<close>: in every world, \<open>m\<close> runs at most \<open>n\<close> installations.\<close>

definition installs :: "nat \<Rightarrow> 'a probing \<Rightarrow> bool" where
  "installs n m \<longleftrightarrow> (\<forall>s. \<exists>cs. ss_ran (snd (run_state m s)) = ss_ran s @ cs \<and> length (filter is_install cs) \<le> n)"

named_theorems installs_intros "rules that count installations"

lemma installs_return [installs_intros]: "installs n (State_Monad.return x)"
  by (simp add: installs_def)

lemma installs_observe [installs_intros]: "installs n (observe f)"
  by (simp add: installs_def observe_def)

lemma installs_java_home [installs_intros]: "installs n (set_java_home j)"
  by (simp add: installs_def set_java_home_def)

lemma installs_probe [installs_intros]: "\<not> is_install cmd \<Longrightarrow> installs n (probe w cmd)"
  by (simp add: installs_def probe_def)

lemma installs_plus:
  assumes "installs a m" and "\<And>x. installs b (f x)"
  shows "installs (a + b) (State_Monad.bind m f)"
  unfolding installs_def
proof
  fix s
  obtain x s1 where m: "run_state m s = (x, s1)" by (cases "run_state m s") auto
  from assms(1) m obtain cs where cs: "ss_ran s1 = ss_ran s @ cs" "length (filter is_install cs) \<le> a"
    unfolding installs_def by (metis snd_conv)
  from assms(2) obtain ds where ds: "ss_ran (snd (run_state (f x) s1)) = ss_ran s1 @ ds" "length (filter is_install ds) \<le> b"
    unfolding installs_def by blast
  with cs m show "\<exists>cs. ss_ran (snd (run_state (State_Monad.bind m f) s)) = ss_ran s @ cs \<and> length (filter is_install cs) \<le> a + b"
    by (intro exI [of _ "cs @ ds"]) simp
qed

lemma installs_bind [installs_intros]: "installs 0 m \<Longrightarrow> (\<And>x. installs n (f x)) \<Longrightarrow> installs n (State_Monad.bind m f)"
  using installs_plus [of 0 m n f] by simp

lemma installs_one: "installs 1 m \<Longrightarrow> (\<And>x. installs n (f x)) \<Longrightarrow> installs (Suc n) (State_Monad.bind m f)"
  using installs_plus [of 1 m n f] by simp

lemma installs_if [installs_intros]: "(b \<Longrightarrow> installs n m) \<Longrightarrow> (\<not> b \<Longrightarrow> installs n m') \<Longrightarrow> installs n (if b then m else m')"
  by simp

lemma installs_option [installs_intros]:
  "installs n m \<Longrightarrow> (\<And>y. installs n (f y)) \<Longrightarrow> installs n (case x of None \<Rightarrow> m | Some y \<Rightarrow> f y)"
  by (cases x) simp_all

lemma installs_mono: "installs n m \<Longrightarrow> n \<le> k \<Longrightarrow> installs k m"
  unfolding installs_def by (meson order.trans)

lemma installs_first_that [installs_intros]: "(\<And>x. installs 0 (t x)) \<Longrightarrow> installs 0 (first_that t xs)"
  by (induction xs) (auto intro!: installs_intros)

lemma installs_or_else [installs_intros]: "list_all (installs 0) ms \<Longrightarrow> installs 0 (or_else ms)"
  by (induction ms) (auto intro!: installs_intros)

lemma installs_brew_paths [installs_intros]: "installs 0 (brew_paths w b name fs)"
  by (induction fs) (auto simp: brew_prefix_def is_install_def intro!: installs_intros)

lemma installs_common [installs_intros]: "installs 0 (common_search_paths w name)"
  unfolding common_search_paths_def by (intro installs_intros)

lemma installs_verify [installs_intros]: "installs 0 (verify_binary_works w p)" "installs 0 (try_java w name p)"
  unfolding verify_binary_works_def try_java_def by (intro installs_intros; simp add: is_install_def)+

lemma installs_find [installs_intros]: "installs 0 (find_binary w name)" "installs 0 (find_binary_no_install w name)"
  unfolding find_binary_def find_binary_no_install_def search_common_def search_path_var_def there_and_works_def
    try_common_def look_up_def there_and_tried_def
  by (intro installs_intros; auto intro!: installs_intros)+

lemma installs_append_java_home [installs_intros]: "installs 0 (append_java_home w)"
  unfolding append_java_home_def by (intro installs_intros)

lemma installs_export [installs_intros]: "installs 0 (export_java_home w)"
proof -
  have "installs 0 (java_home_from w b fs)" for b fs
    by (induction fs) (auto simp: brew_prefix_def is_install_def intro!: installs_intros)
  then show ?thesis unfolding export_java_home_def by (intro installs_intros)
qed

lemma installs_check_tool:
  "hd args \<noteq> ''-c'' \<Longrightarrow> installs 0 (check_tool w name args fix_cmd slow judge)"
  unfolding check_tool_def by (intro installs_intros) (cases args; auto simp: is_install_def)

lemmas tool_checks = check_jdk_def check_node_def check_appium_def check_appium_driver_def check_mitmproxy_def

lemma not_install_java_env: "\<not> is_install (java_env e @ p # a # as)" if "a \<noteq> ''-c''"
  using that by (auto simp: is_install_def java_env_def split: option.splits)

lemma installs_checks [installs_intros]:
  "installs 0 (check_pkg_mgr w)" "installs 0 (check_jdk w)" "installs 0 (check_android_sdk w)"
  "installs 0 (check_android_cmdline_tools w)" "installs 0 (check_android_platform_tools w)"
  "installs 0 (check_android_emulator w)" "installs 0 (check_node w)" "installs 0 (check_appium w)"
  "installs 0 (check_appium_driver w)" "installs 0 (check_mitmproxy w)" "installs 0 (check_xcode_cli w)"
proof -
  show "installs 0 (check_pkg_mgr w)" unfolding check_pkg_mgr_def check_brew_def by (intro installs_intros)
  show "installs 0 (check_android_sdk w)" unfolding check_android_sdk_def find_android_sdk_def by (intro installs_intros)
  show "installs 0 (check_android_cmdline_tools w)" unfolding check_android_cmdline_tools_def by (intro installs_intros)
  have "installs 0 (check_sdk_tool w name arg package fallback)" if "arg \<noteq> ''-c''" for name arg package fallback
    using that unfolding check_sdk_tool_def by (intro installs_intros) (simp add: is_install_def)
  then show "installs 0 (check_android_platform_tools w)" "installs 0 (check_android_emulator w)"
    unfolding check_android_platform_tools_def check_android_emulator_def by simp_all
  show "installs 0 (check_xcode_cli w)" unfolding check_xcode_cli_def by (intro installs_intros) (simp add: is_install_def)
qed (simp_all add: tool_checks installs_check_tool)

lemma installs_images [installs_intros]: "installs 0 (check_system_images w)"
  unfolding check_system_images_def find_android_sdk_def
  by (intro installs_intros) (rule not_install_java_env, simp)

lemma installs_ensure:
  assumes "installs 0 test"
  shows "installs 1 (ensure w auto jdk test)" "installs 0 (ensure w False jdk test)"
proof -
  have sh: "installs 1 (probe w [''sh'', ''-c'', f])" for f by (simp add: installs_def probe_def)
  have "installs 0 (if \<not> worked r then State_Monad.return c
       else do { u \<leftarrow> (if jdk then export_java_home w else State_Monad.return ()); test })" for r c
    by (intro installs_intros assms)
  from installs_plus [OF sh this] have "installs 1 (do { r \<leftarrow> probe w [''sh'', ''-c'', f];
       if \<not> worked r then State_Monad.return c
       else do { u \<leftarrow> (if jdk then export_java_home w else State_Monad.return ()); test } })" for f c
    by simp
  then show "installs 1 (ensure w auto jdk test)" unfolding ensure_def
    by (intro installs_bind [OF assms] installs_if installs_return installs_bind [OF installs_observe])
  show "installs 0 (ensure w False jdk test)" unfolding ensure_def by (intro installs_intros assms) simp_all
qed

lemmas installs_steps = installs_plus installs_if installs_return [where n = 0] installs_return installs_ensure(1)
  installs_checks installs_images installs_export

lemma installs_appium: "installs 2 (ensure_appium w auto)" "installs 0 (ensure_appium w False)"
proof -
  show "installs 2 (ensure_appium w auto)"
    unfolding ensure_appium_def by (rule installs_mono, (rule installs_steps)+, simp)
  show "installs 0 (ensure_appium w False)"
    unfolding ensure_appium_def by (intro installs_intros installs_ensure(2))
qed

lemma installs_prereqs: "installs 12 (ensure_prereqs w auto)" "installs 0 (ensure_prereqs w False)"
proof -
  show "installs 12 (ensure_prereqs w auto)"
    unfolding ensure_prereqs_def by (rule installs_mono, (rule installs_appium(1) installs_steps)+, simp)
  show "installs 0 (ensure_prereqs w False)"
    unfolding ensure_prereqs_def by (intro installs_intros installs_ensure(2) installs_appium(2))
qed

text \<open>A check that passes is not installed, and what passes after all passed a check.\<close>

definition passes :: "check probing \<Rightarrow> bool" where "passes t \<longleftrightarrow> (\<forall>s. ck_ok (fst (run_state t s)))"

lemma bind_cong_values: "(\<And>s. f (fst (run_state m s)) = g (fst (run_state m s))) \<Longrightarrow> State_Monad.bind m f = State_Monad.bind m g"
  by (rule State_Monad.state.expand) (simp add: State_Monad.bind_def fun_eq_iff split_beta)

lemma ensure_passing: "passes t \<Longrightarrow> ensure w auto jdk t = t"
proof -
  assume p: "passes t"
  have "ensure w auto jdk t = State_Monad.bind t State_Monad.return"
    unfolding ensure_def by (rule bind_cong_values) (use p in \<open>simp add: passes_def\<close>)
  then show ?thesis by simp
qed

text \<open>\<open>saw t s s'\<close>: between these two states, the check \<open>t\<close> passes. \<open>sees m F\<close>: a result \<open>x\<close> of \<open>m\<close> is only
  given when all checks in \<open>F x\<close> passed on the way.\<close>

definition saw :: "check probing \<Rightarrow> setup_state \<Rightarrow> setup_state \<Rightarrow> bool" where
  "saw t s s' \<longleftrightarrow> (\<exists>s0. prefix (ss_ran s) (ss_ran s0) \<and> prefix (ss_ran s0) (ss_ran s') \<and> ck_ok (fst (run_state t s0)))"

definition sees :: "'a probing \<Rightarrow> ('a \<Rightarrow> check probing set) \<Rightarrow> bool" where
  "sees m F \<longleftrightarrow> (\<forall>s. case run_state m s of (x, s') \<Rightarrow> prefix (ss_ran s) (ss_ran s') \<and> (\<forall>t \<in> F x. saw t s s'))"

lemma installs_grows: "installs n m \<Longrightarrow> run_state m s = (x, s') \<Longrightarrow> prefix (ss_ran s) (ss_ran s')"
  unfolding installs_def prefix_def by (metis snd_conv)

lemma sees_nothing: "installs n m \<Longrightarrow> sees m (\<lambda>x. {})"
  by (auto simp: sees_def split: prod.split intro: installs_grows)

lemma sees_return: "F x = {} \<Longrightarrow> sees (State_Monad.return x) F"
  by (simp add: sees_def)

lemma saw_wider: "saw t s s' \<Longrightarrow> prefix (ss_ran a) (ss_ran s) \<Longrightarrow> prefix (ss_ran s') (ss_ran b) \<Longrightarrow> saw t a b"
  unfolding saw_def by (meson prefix_order.order_trans)

lemma sees_bind:
  assumes "sees m F" and "\<And>x. sees (f x) (\<lambda>y. H y - F x)"
  shows "sees (State_Monad.bind m f) H"
  unfolding sees_def
proof
  fix s
  obtain x s1 where m: "run_state m s = (x, s1)" by (cases "run_state m s") auto
  obtain y s2 where f: "run_state (f x) s1 = (y, s2)" by (cases "run_state (f x) s1") auto
  from assms(1) m have 1: "prefix (ss_ran s) (ss_ran s1)" "\<forall>t \<in> F x. saw t s s1" by (auto simp: sees_def split: prod.splits)
  from assms(2) f have 2: "prefix (ss_ran s1) (ss_ran s2)" "\<forall>t \<in> H y - F x. saw t s1 s2"
    by (fastforce simp: sees_def split: prod.splits)+
  have "saw t s s2" if "t \<in> H y" for t
    using that 1 2 saw_wider [of t s s1 s s2] saw_wider [of t s1 s2 s s2] by (cases "t \<in> F x") auto
  with m f 1(1) 2(1) show "case run_state (State_Monad.bind m f) s of
      (x, s') \<Rightarrow> prefix (ss_ran s) (ss_ran s') \<and> (\<forall>t \<in> H x. saw t s s')"
    by (auto intro: prefix_order.order_trans)
qed

definition if_ok :: "check probing \<Rightarrow> check \<Rightarrow> check probing set" where "if_ok t c = (if ck_ok c then {t} else {})"

lemma sees_test: "installs 0 t \<Longrightarrow> sees t (if_ok t)"
  by (auto simp: sees_def saw_def if_ok_def split: prod.split intro: installs_grows)

lemma sees_if: "(b \<Longrightarrow> sees m F) \<Longrightarrow> (\<not> b \<Longrightarrow> sees m' F) \<Longrightarrow> sees (if b then m else m') F"
  by simp

lemma sees_mono: "sees m F \<Longrightarrow> (\<And>x. G x \<subseteq> F x) \<Longrightarrow> sees m G"
  unfolding sees_def by (fastforce split: prod.splits)

lemma sees_after: "installs n m \<Longrightarrow> (\<And>x. sees (f x) H) \<Longrightarrow> sees (State_Monad.bind m f) H"
  by (rule sees_bind [OF sees_nothing]) simp_all

lemma sees_ensure:
  assumes "installs 0 t"
  shows "sees (ensure w auto jdk t) (if_ok t)"
proof -
  have again: "sees (do { u \<leftarrow> (if jdk then export_java_home w else State_Monad.return ()); t }) (\<lambda>y. if_ok t y - if_ok t c)" for c
  proof (rule sees_after [where n = 0])
    show "installs 0 (if jdk then export_java_home w else State_Monad.return ())" by (intro installs_intros)
    show "sees t (\<lambda>y. if_ok t y - if_ok t c)" for u :: unit by (rule sees_mono [OF sees_test [OF assms]]) blast
  qed
  have "installs 1 (probe w [''sh'', ''-c'', f])" for f by (simp add: installs_def probe_def)
  note sh = sees_after [OF this]
  show ?thesis unfolding ensure_def
    by (rule sees_bind [OF sees_test [OF assms]])
      (intro sees_if sees_return sees_after [OF installs_observe] sh again; simp)
qed

text \<open>What a run that reports success has seen.\<close>

definition required :: "setup_world \<Rightarrow> check probing list" where
  "required w = [check_pkg_mgr w, check_jdk w, check_android_sdk w, check_android_cmdline_tools w,
     check_android_platform_tools w, check_android_emulator w, check_node w]"

definition optional_checks :: "setup_world \<Rightarrow> check probing list" where
  "optional_checks w = [check_appium_driver w, check_system_images w, check_xcode_cli w, check_mitmproxy w]"

definition seen_by :: "setup_world \<Rightarrow> bool \<Rightarrow> check probing set" where
  "seen_by w b = (if b then set (check_appium w # required w) else {})"

lemma sees_appium: "sees (ensure_appium w auto) (\<lambda>b. if b then {check_appium w} else {})"
proof -
  have "sees (do { d \<leftarrow> ensure w auto False (check_appium_driver w); State_Monad.return True }) (\<lambda>y. (if y then {check_appium w} else {}) - if_ok (check_appium w) c)"
    if "ck_ok c" for c
    by (rule sees_after [OF installs_ensure(1) [OF installs_checks(9)]]) (rule sees_return, simp add: if_ok_def that)
  then show ?thesis unfolding ensure_appium_def
    by (intro sees_bind [OF sees_ensure [OF installs_checks(8)]] sees_if sees_return) simp_all
qed

lemma sees_prereqs: "sees (ensure_prereqs w auto) (seen_by w)"
proof -
  have o: "installs 1 (if b then ensure w auto False t else State_Monad.return (missing []))" if "installs 0 t" for b t
    using that by (intro installs_if installs_ensure(1) installs_return)
  have e: "installs 0 (if b then export_java_home w else State_Monad.return ())" for b by (intro installs_intros)
  have a: "sees (if b then ensure_appium w auto else State_Monad.return False) (\<lambda>b. if b then {check_appium w} else {})" for b
    by (intro sees_if sees_appium sees_return) simp
  note f = sees_bind [OF sees_ensure]
  show ?thesis unfolding ensure_prereqs_def
    apply (rule f [OF installs_checks(1)] f [OF installs_checks(2)] sees_after [OF e])+
    apply (rule f [OF installs_checks(3)])
    apply (rule f [OF installs_checks(4)])
    apply (rule f [OF installs_checks(5)])
    apply (rule f [OF installs_checks(6)])
    apply (rule sees_after [OF o [OF installs_images]])
    apply (rule sees_after [OF o [OF installs_checks(11)]])
    apply (rule f [OF installs_checks(7)])
    apply (rule sees_bind [OF a])
    apply (rule sees_after [OF installs_ensure(1) [OF installs_checks(10)]])
    apply (rule sees_return)
    apply (auto simp: seen_by_def required_def if_ok_def split: if_splits)
    done
qed

lemma prereqs_passing:
  assumes "list_all passes (check_appium w # required w @ optional_checks w)"
  shows "ensure_prereqs w auto = ensure_prereqs w False" "fst (run_state (ensure_prereqs w auto) s)"
proof -
  have e: "ensure w auto jdk t = t" if "t \<in> set (check_appium w # required w @ optional_checks w)" for auto jdk t
    using assms that by (intro ensure_passing) (auto simp: list_all_iff)
  have p: "ck_ok (fst (run_state t s))" if "t \<in> set (check_appium w # required w @ optional_checks w)" for t s
    using assms that by (auto simp: list_all_iff passes_def)
  note parts = e p required_def optional_checks_def ensure_prereqs_def ensure_appium_def
  show "ensure_prereqs w auto = ensure_prereqs w False" by (simp add: parts cong: if_cong)
  show "fst (run_state (ensure_prereqs w auto) s)" by (simp add: parts split_beta cong: if_cong)
qed

text \<open>A host where every program is found and prints \<open>answer\<close>.\<close>

definition tool_host :: "string \<Rightarrow> setup_world" where
  "tool_host answer = \<lparr>sw_os = ''linux'', sw_home = ''/h'', sw_env = (\<lambda>v. Some ''/x''), sw_stat = (\<lambda>s p. True),
     sw_look = (\<lambda>s n. Some n), sw_dirs = (\<lambda>s d. []), sw_glob = (\<lambda>s g. []), sw_run = (\<lambda>s c. Printed answer)\<rparr>"

definition fresh_run :: setup_state where "fresh_run = \<lparr>ss_ran = [], ss_java = None\<rparr>"

lemma no_driver: "fst (run_state (ensure_prereqs (tool_host ''24.0'') False) fresh_run)"
  by code_simp

lemma path_join_some: "d \<noteq> [] \<Longrightarrow> path_join (d # ds) \<noteq> []"
  by (simp add: path_join_def path_clean_def Let_def)

lemma or_else_some:
  "\<forall>m \<in> set ms. \<forall>s. fst (run_state m s) \<noteq> Some [] \<Longrightarrow> \<exists>m \<in> set ms. \<forall>s. fst (run_state m s) \<noteq> None \<Longrightarrow>
   fst (run_state (or_else ms) s) \<noteq> []"
proof (induction ms arbitrary: s)
  case (Cons m ms)
  obtain r s1 where r: "run_state m s = (r, s1)" by (cases "run_state m s") auto
  show ?case
  proof (cases r)
    case None
    with r have "\<exists>m \<in> set ms. \<forall>s. fst (run_state m s) \<noteq> None" using Cons.prems(2) by (metis fst_conv set_ConsD)
    with Cons.IH Cons.prems(1) r None show ?thesis by simp
  next
    case (Some p)
    moreover from r have "r \<noteq> Some []" using Cons.prems(1) by (metis fst_conv list.set_intros(1))
    ultimately show ?thesis using r by simp
  qed
qed simp

lemma tool_host_finds:
  assumes "name \<noteq> []"
  shows "fst (run_state (find_binary (tool_host a) name) s) \<noteq> []"
proof -
  let ?w = "tool_host a"
  have env: "search_env ?w name s \<noteq> Some []" for s
    by (auto simp: search_env_def binary_paths_def tool_host_def path_join_some split: option.splits)
  have works: "fst (run_state (there_and_works ?w p) s)" for p s
    by (simp add: there_and_works_def verify_binary_works_def observe_def probe_def tool_host_def worked_def)
  have "\<exists>p ps. fst (run_state (common_search_paths ?w name) s) = p # ps \<and> p \<noteq> []" for s
    by (auto simp: common_search_paths_def fixed_paths_def binary_paths_def observe_def tool_host_def path_join_some split_beta)
  note head = this
  have first: "fst (run_state (first_that (there_and_works ?w) (p # ps)) s) = Some p" for p ps s
    using works [of p s] by (simp add: split_beta)
  have "fst (run_state (search_common ?w name) s) \<notin> {None, Some []}" for s
  proof -
    obtain qs s1 where q: "run_state (common_search_paths ?w name) s = (qs, s1)" by (cases "run_state (common_search_paths ?w name) s") auto
    with head [of s] obtain p ps where "qs = p # ps" "p \<noteq> []" by auto
    with q first [of p ps s1] show ?thesis by (simp add: search_common_def del: first_that.simps)
  qed
  then have common: "fst (run_state (search_common ?w name) s) \<noteq> None" "fst (run_state (search_common ?w name) s) \<noteq> Some []" for s
    by (metis insertCI)+
  have "fst (run_state (search_path_var ?w name) s) \<noteq> Some []" for s
    using assms by (auto simp: search_path_var_def observe_def tool_host_def split_beta)
  with env common show ?thesis
    unfolding find_binary_def by (intro or_else_some) (auto simp: observe_def)
qed

definition full_answer :: string where "full_answer = ''24.0 uiautomator2'' @ [nl] @ ''system-images;android-35''"
definition full_host :: setup_world where "full_host = tool_host full_answer"

lemma full_host_simps:
  "sw_run full_host s c = Printed full_answer" "sw_os full_host = ''linux''" "sw_look full_host s name = Some name"
  "sw_env full_host v = Some ''/x''" "sw_stat full_host s p"
  by (simp_all add: full_host_def tool_host_def)

lemma full_answer_read:
  "List.map_filter package_path (split_on nl full_answer) \<noteq> []"
  "scan_version (trim_space (trim_prefix full_answer ''v'')) = (24, 0)" "node_supported 24 0"
  "contains_str (lower_ascii full_answer) ''uiautomator2''"
  by code_simp+

lemma full_host_tool: "fst (run_state (find_binary full_host name) s) \<noteq> []" if "name \<noteq> []"
  using tool_host_finds [OF that] by (simp add: full_host_def)

lemma check_tool_found:
  assumes "name \<noteq> []" and "\<And>p. ck_ok (judge p full_answer)"
  shows "passes (check_tool full_host name args f slow judge)"
  using full_host_tool [OF assms(1)] assms(2)
  by (simp add: passes_def check_tool_def probe_def split_beta full_host_simps)

lemma full_host_sdk: "find_android_sdk full_host = State_Monad.return ''/x''"
  by (simp add: find_android_sdk_def observe_def detect_sdk_def host_of_def full_host_simps get_env_def env_of_def
      State_Monad.return_def)

lemma full_host_images: "passes (check_system_images full_host)"
proof -
  have "fst (run_state (find_binary_no_install full_host ''sdkmanager'') s) = ''sdkmanager''" for s
    by (simp add: find_binary_no_install_def is_java_def look_up_def try_java_def observe_def full_host_simps)
  then show ?thesis
    by (simp add: passes_def check_system_images_def full_host_sdk split_beta probe_def full_host_simps full_answer_read passed_def)
qed

lemma full_host_passes: "list_all passes (check_appium full_host # required full_host @ optional_checks full_host)"
proof -
  have "passes (check_sdk_tool full_host name arg package fallback)" if "name \<noteq> []" for name arg package fallback
    using full_host_tool [OF that] by (simp add: passes_def check_sdk_tool_def probe_def split_beta passed_def)
  moreover have "passes (check_xcode_cli full_host)" "passes (check_pkg_mgr full_host)"
    by (simp_all add: passes_def check_xcode_cli_def check_pkg_mgr_def probe_def observe_def full_host_simps
        worked_def passed_def List.map_filter_simps)
  moreover have "passes (check_android_sdk full_host)" "passes (check_android_cmdline_tools full_host)"
    by (simp_all add: passes_def check_android_sdk_def check_android_cmdline_tools_def full_host_sdk full_host_tool passed_def split_beta)
  ultimately show ?thesis
    by (simp add: required_def optional_checks_def check_android_platform_tools_def check_android_emulator_def tool_checks
        check_tool_found passed_def full_answer_read full_host_images)
qed

text \<open>C37: Checking the prerequisites installs nothing unless it is told to, and then runs at most twelve installations.
  It reports success only when every required check and the one for Appium passed during the run, so a tool that was
  installed has been checked again. When all checks pass it reports success and installs nothing. It also reports
  success without the Appium driver that the checks call required.\<close>

theorem prereqs_correct:
  "installs (if auto then 12 else 0) (ensure_prereqs w auto) \<and>
   sees (ensure_prereqs w auto) (\<lambda>b. if b then set (check_appium w # required w) else {}) \<and>
   (list_all passes (check_appium w # required w @ optional_checks w) \<longrightarrow>
      fst (run_state (ensure_prereqs w auto) s) \<and> installs 0 (ensure_prereqs w auto)) \<and>
   (\<exists>v s0. fst (run_state (ensure_prereqs v False) s0) \<and> \<not> ck_ok (fst (run_state (check_appium_driver v) s0)))"
proof (intro conjI impI)
  show "installs (if auto then 12 else 0) (ensure_prereqs w auto)" using installs_prereqs by simp
  show "sees (ensure_prereqs w auto) (\<lambda>b. if b then set (check_appium w # required w) else {})"
    by (rule sees_mono [OF sees_prereqs]) (simp add: seen_by_def)
  have "\<not> ck_ok (fst (run_state (check_appium_driver (tool_host ''24.0'')) fresh_run))" by code_simp
  with no_driver show "\<exists>v s0. fst (run_state (ensure_prereqs v False) s0) \<and> \<not> ck_ok (fst (run_state (check_appium_driver v) s0))"
    by blast
next
  assume all: "list_all passes (check_appium w # required w @ optional_checks w)"
  show "fst (run_state (ensure_prereqs w auto) s)" by (rule prereqs_passing(2) [OF all])
  show "installs 0 (ensure_prereqs w auto)" using prereqs_passing(1) [OF all, of auto] installs_prereqs(2) by simp
qed

lemma prereqs_correct_witness:
  "fst (run_state (ensure_prereqs full_host True) fresh_run) \<and> installs 0 (ensure_prereqs full_host True)"
  using prereqs_correct [of True full_host fresh_run] full_host_passes by blast

end
