(* ===== verification/Wizard.thy ===== *)
theory Wizard
  imports Setup
begin

text \<open>
  \<^verbatim>\<open>drizz-farm setup\<close> as a whole (\<^verbatim>\<open>cmd/setup.go\<close>): the recommendation for this hardware, the questions it asks,
  the configuration it saves, the registration and the launchd service. The answers are the lines of the
  standard input; after the last one every read gives the empty line at once, because its error is dropped.
\<close>

subsection \<open>The hardware\<close>

record hardware =
  hw_ram :: int
  hw_cpus :: int
  hw_disk :: int
  hw_by_ram :: int
  hw_by_cpu :: int
  hw_recommended :: int

definition size_hardware :: "int \<Rightarrow> int \<Rightarrow> int \<Rightarrow> hardware" where
  "size_hardware ram cpus disk =
     (let usable = (if ram - 4 < 0 then 0 else ram - 4);
          by_ram = usable * 1000 div 2500;
          by_cpu = (if cpus div 2 < 1 then 1 else cpus div 2);
          r1 = (if by_cpu < by_ram then by_cpu else by_ram);
          r2 = (if r1 < 1 then 1 else r1);
          r3 = (if 12 < r2 then 12 else r2)
      in \<lparr>hw_ram = ram, hw_cpus = cpus, hw_disk = disk, hw_by_ram = by_ram, hw_by_cpu = by_cpu, hw_recommended = r3\<rparr>)"

definition ram_gb :: "tool_result \<Rightarrow> int" where
  "ram_gb r = (if worked r then go_div (scan_or (trim_space (printed r)) 0) (1024 * 1024 * 1024) else 0)"

definition free_disk_gb :: "tool_result \<Rightarrow> int" where
  "free_disk_gb r =
     (let lines = split_on nl (printed r); fields = str_fields (lines ! 1)
      in if worked r \<and> 1 < length lines \<and> 3 < length fields then scan_or (fields ! 3) 0 else 0)"

definition compute_hardware :: "setup_world \<Rightarrow> int \<Rightarrow> hardware probing" where
  "compute_hardware w cpus =
     (if sw_os w = ''darwin'' then do {
        m \<leftarrow> probe w [''sysctl'', ''-n'', ''hw.memsize''];
        d \<leftarrow> probe w [''df'', ''-g'', ''/''];
        State_Monad.return (size_hardware (ram_gb m) cpus (free_disk_gb d)) }
      else State_Monad.return (size_hardware 0 cpus 0))"

subsection \<open>The questions\<close>

text \<open>The number of emulators: an empty answer, and the end of the input, is the recommendation.\<close>

fun prompt_max_concurrent :: "int \<Rightarrow> string list \<Rightarrow> int \<times> string list" where
  "prompt_max_concurrent recommended [] = (recommended, [])"
| "prompt_max_concurrent recommended (l # ls) =
     (if trim_space l = [] then (recommended, ls)
      else case scan_int (trim_space l) of
             Some n \<Rightarrow> if 1 \<le> n \<and> n \<le> 64 then (n, ls) else prompt_max_concurrent recommended ls
           | None \<Rightarrow> prompt_max_concurrent recommended ls)"

definition next_line :: "string list \<Rightarrow> string" where "next_line ls = (case ls of [] \<Rightarrow> [] | l # r \<Rightarrow> trim_space l)"

text \<open>The email address: asked for until one is valid. \<open>None\<close>: it asks for ever.\<close>

partial_function (option) ask_email :: "string list \<Rightarrow> (string \<times> string list) option" where
  "ask_email ls = (if validate_email (next_line ls) then Some (next_line ls, tl ls) else ask_email (tl ls))"

subsection \<open>The configuration\<close>

definition find_java :: "setup_world \<Rightarrow> string probing" where
  "find_java w = do {
     javac \<leftarrow> find_binary w ''javac'';
     if javac = [] then find_binary w ''java''
     else do {
       there \<leftarrow> observe (\<lambda>s. sw_stat w s (path_join [path_dir javac, ''java'']));
       if there then State_Monad.return (path_join [path_dir javac, ''java'']) else find_binary w ''java'' } }"

definition setup_paths :: "setup_world \<Rightarrow> sdk_paths probing" where
  "setup_paths w = do {
     java \<leftarrow> find_java w;
     u \<leftarrow> (if java \<noteq> [] then set_java_home (path_dir (path_dir java)) else State_Monad.return ());
     root \<leftarrow> find_android_sdk w;
     adb \<leftarrow> find_binary w ''adb'';
     emu \<leftarrow> find_binary w ''emulator'';
     avd \<leftarrow> (if java \<noteq> [] then find_and_verify w ''avdmanager'' else find_binary_no_install w ''avdmanager'');
     sdk \<leftarrow> (if java \<noteq> [] then find_and_verify w ''sdkmanager'' else find_binary_no_install w ''sdkmanager'');
     State_Monad.return \<lparr>sdk_root = root, sdk_adb = adb, sdk_avdmanager = avd, sdk_sdkmanager = sdk, sdk_emulator = emu,
       sdk_java = java\<rparr> }"

definition starter_profile :: android_profile where
  "starter_profile = \<lparr>prof_device = [], prof_system_image = [], ram_mb = 2048, heap_mb = 512, disk_size_mb = 4096,
     gpu = ''host'', prof_snapshot = True, boot_timeout_seconds = 120\<rparr>"

text \<open>What is filled into the old configuration; \<open>no_map\<close>: it has no map of Android profiles, not even an empty one.\<close>

definition fill_config :: "host_env \<Rightarrow> string \<Rightarrow> string \<Rightarrow> sdk_paths \<Rightarrow> int \<Rightarrow> bool \<Rightarrow> config \<Rightarrow> config" where
  "fill_config h name key paths n no_map c =
     apply_defaults h (c\<lparr>cfg_mesh := (cfg_mesh c)\<lparr>mesh_name := name, mesh_key := key\<rparr>,
       cfg_sdk := paths,
       cfg_pool := (cfg_pool c)\<lparr>max_concurrent := n, profiles := (profiles (cfg_pool c))\<lparr>
         android_profiles := (if no_map then [(''default'', starter_profile)]
           else android_profiles (profiles (cfg_pool c)))\<rparr>\<rparr>,
       cfg_api := (cfg_api c)\<lparr>api_port := or_int (api_port (cfg_api c)) 9401,
         api_host := or_str (api_host (cfg_api c)) ''0.0.0.0''\<rparr>\<rparr>)"

definition zero_config :: config where
  "zero_config = \<lparr>
     cfg_node = \<lparr>node_cname = [], external_url = [], data_dir_field = [], log_level = [], metrics_port = 0\<rparr>,
     cfg_mesh = \<lparr>mesh_id = [], mesh_name = [], mesh_key = []\<rparr>,
     cfg_sdk = \<lparr>sdk_root = [], sdk_adb = [], sdk_avdmanager = [], sdk_sdkmanager = [], sdk_emulator = [], sdk_java = []\<rparr>,
     cfg_pool = \<lparr>visible_emulators = False, max_concurrent = 0, session_timeout_minutes = 0, session_max_minutes = 0,
       queue_max_size = 0, queue_timeout_seconds = 0, port_range_min = 0, port_range_max = 0,
       artifact_retention_hours = 0, warmup = [], profiles = \<lparr>android_profiles = [], ios_profiles = []\<rparr>\<rparr>,
     cfg_api = \<lparr>api_host = [], api_port = 0, grpc_port = 0\<rparr>,
     cfg_network = \<lparr>allowed_cidrs = [], mdns = \<lparr>mdns_enabled = False, service_type = [], mdns_hostname = False\<rparr>\<rparr>,
     cfg_health = \<lparr>interval_seconds = 0, unhealthy_threshold = 0\<rparr>,
     cfg_cleanup = \<lparr>on_session_end = [], orphan_check_interval_secs = 0, disk_cleanup_threshold_gb = 0,
       idle_timeout_minutes = 0\<rparr>,
     cfg_artifacts = \<lparr>storage_path = [], video_recording = False, screenshot_on_fail = False, logcat_capture = False,
       network_har_capture = False, retention_days = 0\<rparr>,
     cfg_webhooks = [],
     cfg_license = \<lparr>Config.license_config.lic_key = [], validation_endpoint = [], grace_period_hours = 0\<rparr>\<rparr>"

text \<open>\<open>old\<close>: what unmarshalling the file leaves in the zero configuration, whether it fails or not.\<close>

definition save_setup_config ::
  "setup_world \<Rightarrow> host_env \<Rightarrow> int \<Rightarrow> string \<Rightarrow> string \<Rightarrow> int \<Rightarrow> config \<times> bool \<Rightarrow> bool \<Rightarrow> config option probing" where
  "save_setup_config w h cpus name key wanted old writable = do {
     paths \<leftarrow> setup_paths w;
     n \<leftarrow> (if 0 < wanted then State_Monad.return wanted
           else if max_concurrent (cfg_pool (fst old)) = 0
             then do { hw \<leftarrow> compute_hardware w cpus; State_Monad.return (hw_recommended hw) }
           else State_Monad.return (max_concurrent (cfg_pool (fst old))));
     State_Monad.return (if writable then Some (fill_config h name key paths n (snd old) (fst old)) else None) }"

subsection \<open>The registration\<close>

record install_files =
  if_marker :: "string option"
  if_id :: "string option"

record signup_env =
  se_vars :: "string \<Rightarrow> string"
  se_uuid :: string
  se_dir_made :: bool
  se_id_written :: bool
  se_marker_written :: bool
  se_hostname :: "string option"
  se_os :: string
  se_arch :: string
  se_version :: string

definition signup_of :: "signup_env \<Rightarrow> string \<Rightarrow> string \<Rightarrow> string \<Rightarrow> signup_request" where
  "signup_of e i email org = \<lparr>su_install = i, su_email = email, su_org = org,
     su_hostname = (case se_hostname e of Some n \<Rightarrow> n | None \<Rightarrow> []), su_os = se_os e, su_arch = se_arch e,
     su_version = se_version e\<rparr>"

text \<open>The files afterwards and what is sent; \<open>None\<close>: it does not return.\<close>

definition register_install :: "signup_env \<Rightarrow> string list \<Rightarrow> install_files \<Rightarrow> install_files \<times> beacon list option" where
  "register_install e ls fs =
     (if if_marker fs \<noteq> None then (fs, Some [])
      else (case get_install_id (se_uuid e) (se_dir_made e) (se_id_written e) (if_id fs) of
          (None, f) \<Rightarrow> (fs\<lparr>if_id := f\<rparr>, Some [])
        | (Some i, f) \<Rightarrow>
            (case ask_email ls of
               None \<Rightarrow> (fs\<lparr>if_id := f\<rparr>, None)
             | Some (email, rest) \<Rightarrow>
                 (\<lparr>if_marker = (if se_marker_written e then Some (email @ [nl]) else None), if_id = f\<rparr>,
                  Some (signup (se_vars e) (signup_of e i email (next_line rest)))))))"

subsection \<open>The command\<close>

record wizard_env =
  wz_world :: setup_world
  wz_host :: host_env
  wz_cpus :: int
  wz_old :: "config \<times> bool"
  wz_writable :: bool
  wz_signup :: signup_env
  wz_launchd :: launchd_env
  wz_binary :: "string option"

record wizard_files =
  wf_config :: "config option"
  wf_install :: install_files
  wf_launchd :: launchd

datatype setup_outcome = AsksForEver | SaveFailed | SetUp "beacon list" "launchd_error option"

definition finish_setup :: "wizard_env \<Rightarrow> string list \<Rightarrow> wizard_files \<Rightarrow> config option \<Rightarrow> setup_outcome \<times> wizard_files" where
  "finish_setup e ls fs saved =
     (case saved of
        None \<Rightarrow> (SaveFailed, fs)
      | Some c \<Rightarrow>
          (case register_install (wz_signup e) ls (wf_install fs) of
             (inst, None) \<Rightarrow> (AsksForEver, fs\<lparr>wf_config := Some c, wf_install := inst\<rparr>)
           | (inst, Some sent) \<Rightarrow>
               (case daemon_install (wz_launchd e) (wz_binary e) True (wf_launchd fs) of
                  (err, ld) \<Rightarrow> (SetUp sent err, \<lparr>wf_config = Some c, wf_install = inst, wf_launchd = ld\<rparr>))))"

definition run_setup :: "wizard_env \<Rightarrow> string list \<Rightarrow> wizard_files \<Rightarrow> (setup_outcome \<times> wizard_files) probing" where
  "run_setup e ls fs = do {
     hw \<leftarrow> compute_hardware (wz_world e) (wz_cpus e);
     shown \<leftarrow> compute_hardware (wz_world e) (wz_cpus e);
     ok \<leftarrow> ensure_prereqs (wz_world e) True;
     (case prompt_max_concurrent (hw_recommended hw) ls of (n, rest) \<Rightarrow> do {
        saved \<leftarrow> save_setup_config (wz_world e) (wz_host e) (wz_cpus e) [] [] n (wz_old e) (wz_writable e);
        State_Monad.return (finish_setup e rest fs saved) }) }"

subsection \<open>Properties\<close>

text \<open>The recommendation is between 1 and 12; more than one only when the memory beyond 4 GB and the processors carry
  that many, and then the most they carry up to 12. Off macOS, where the memory is not measured, it is always 1.\<close>

lemma sized_to_fit:
  fixes ram cpus disk :: int
  defines "r \<equiv> hw_recommended (size_hardware ram cpus disk)"
  shows "1 \<le> r" "r \<le> 12" "1 < r \<Longrightarrow> r * 2500 \<le> (ram - 4) * 1000 \<and> 2 * r \<le> cpus"
    "r < n \<Longrightarrow> n \<le> 12 \<Longrightarrow> (ram - 4) * 1000 < n * 2500 \<or> cpus < 2 * n"
  by (auto simp: r_def size_hardware_def Let_def split: if_splits)

lemma compute_is_sized:
  "\<exists>ram disk. fst (run_state (compute_hardware w cpus) s) = size_hardware ram cpus disk \<and> (sw_os w \<noteq> ''darwin'' \<longrightarrow> ram = 0)"
  by (auto simp: compute_hardware_def split_beta)

lemma size_hardware_fields: "hw_ram (size_hardware ram cpus disk) = ram" "hw_cpus (size_hardware ram cpus disk) = cpus"
  by (simp_all add: size_hardware_def Let_def)

text \<open>The email prompt returns exactly when some line is a valid address.\<close>

lemma next_line_simps: "\<not> validate_email []" "next_line [] = []" "next_line (l # ls) = trim_space l"
  by (simp_all add: next_line_def validate_email_def trim_space_def)

lemma asked_in_vain:
  assumes "ask_email ls = Some r"
  shows "\<exists>l \<in> set ls. validate_email (trim_space l)"
proof (rule ask_email.raw_induct [OF _ assms])
  fix f ls and r :: "string \<times> string list"
  assume "\<And>ls r. f ls = Some r \<Longrightarrow> \<exists>l \<in> set ls. validate_email (trim_space l)"
    and "(if validate_email (next_line ls) then Some (next_line ls, tl ls) else f (tl ls)) = Some r"
  then show "\<exists>l \<in> set ls. validate_email (trim_space l)"
    by (cases ls) (fastforce simp: next_line_simps split: if_splits)+
qed

lemma ask_email_first:
  "ask_email ls = (case dropWhile (\<lambda>l. \<not> validate_email (trim_space l)) ls of [] \<Rightarrow> None | l # r \<Rightarrow> Some (trim_space l, r))"
proof (cases "\<exists>l \<in> set ls. validate_email (trim_space l)")
  case True
  then show ?thesis
    by (induction ls) (auto simp: ask_email.simps [of "_ # _"] next_line_simps)
next
  case False
  then have "ask_email ls = None" using asked_in_vain by (cases "ask_email ls") blast+
  with False show ?thesis by (simp add: dropWhile_eq_Nil_conv [THEN iffD2])
qed

lemma prompt_rest: "snd (prompt_max_concurrent a ls) = snd (prompt_max_concurrent b ls)"
  by (induction ls) (auto split: option.split)

lemma prompt_bounds: "1 \<le> r \<Longrightarrow> r \<le> 64 \<Longrightarrow> fst (prompt_max_concurrent r ls) \<in> {1..64}"
  by (induction ls) (auto split: option.split)

text \<open>What the command does once the questions about the host are answered.\<close>

lemma save_setup_value:
  assumes "0 < n"
  obtains paths where "fst (run_state (save_setup_config w h cpus name key n old writable) s) =
    (if writable then Some (fill_config h name key paths n (snd old) (fst old)) else None)"
  using assms by (auto simp: save_setup_config_def split_beta)

lemma run_setup_value:
  assumes "run_state (run_setup e ls fs) s = (res, s1)"
  obtains r paths where "1 \<le> r" "r \<le> 12"
    "res = finish_setup e (snd (prompt_max_concurrent 1 ls)) fs (if wz_writable e
       then Some (fill_config (wz_host e) [] [] paths (fst (prompt_max_concurrent r ls)) (snd (wz_old e)) (fst (wz_old e))) else None)"
proof -
  define hw where "hw = fst (run_state (compute_hardware (wz_world e) (wz_cpus e)) s)"
  define r where "r = hw_recommended hw"
  have r: "1 \<le> r" "r \<le> 12"
    using compute_is_sized [of "wz_world e" "wz_cpus e" s] sized_to_fit(1,2) unfolding r_def hw_def by metis+
  define n where "n = fst (prompt_max_concurrent r ls)"
  have n: "0 < n" using prompt_bounds [of r ls] r unfolding n_def by simp
  define rest where "rest = snd (prompt_max_concurrent r ls)"
  have p: "prompt_max_concurrent r ls = (n, rest)" by (simp add: n_def rest_def)
  have "\<exists>s2. res = finish_setup e rest fs (fst (run_state (save_setup_config (wz_world e) (wz_host e) (wz_cpus e) [] [] n
      (wz_old e) (wz_writable e)) s2))"
    using assms p by (auto simp: run_setup_def split_beta r_def hw_def)
  then obtain s2 where res: "res = finish_setup e rest fs (fst (run_state (save_setup_config (wz_world e) (wz_host e) (wz_cpus e)
      [] [] n (wz_old e) (wz_writable e)) s2))" by blast
  obtain paths where "fst (run_state (save_setup_config (wz_world e) (wz_host e) (wz_cpus e) [] [] n (wz_old e) (wz_writable e)) s2) =
    (if wz_writable e then Some (fill_config (wz_host e) [] [] paths n (snd (wz_old e)) (fst (wz_old e))) else None)"
    by (rule save_setup_value [OF n])
  with res have "res = finish_setup e (snd (prompt_max_concurrent 1 ls)) fs (if wz_writable e
      then Some (fill_config (wz_host e) [] [] paths (fst (prompt_max_concurrent r ls)) (snd (wz_old e)) (fst (wz_old e))) else None)"
    using prompt_rest [of r ls 1] by (simp add: rest_def n_def)
  with r that show thesis by blast
qed

text \<open>When a start accepts what was saved.\<close>

definition startable :: "config \<times> bool \<Rightarrow> bool" where
  "startable old \<longleftrightarrow>
     (let c = fst old
      in 0 \<le> api_port (cfg_api c) \<and> api_port (cfg_api c) \<le> 65535 \<and>
         or_int (port_range_min (cfg_pool c)) 5554 < or_int (port_range_max (cfg_pool c)) 5700 \<and>
         (snd old \<or> android_profiles (profiles (cfg_pool c)) \<noteq> [] \<or> ios_profiles (profiles (cfg_pool c)) \<noteq> []))"

lemma fill_config_loads:
  assumes "1 \<le> n"
  shows "load_config h (fill_config h name key paths n (snd old) (fst old)) = Inr (fill_config h name key paths n (snd old) (fst old))
    \<longleftrightarrow> startable old"
proof -
  have "validate_config (fill_config h name key paths n (snd old) (fst old)) = None \<longleftrightarrow> startable old"
    using assms unfolding validate_none_iff
    by (auto simp: fill_config_def startable_def apply_defaults_def default_api_def default_pool_def or_int_def Let_def)
  moreover have "apply_defaults h (fill_config h name key paths n (snd old) (fst old)) = fill_config h name key paths n (snd old) (fst old)"
    unfolding fill_config_def by (rule apply_defaults_idempotent)
  ultimately show ?thesis by (simp add: load_config_cases)
qed

lemma fill_config_fields:
  "mesh_name (cfg_mesh (fill_config h name key paths n nomap c)) = name"
  "mesh_key (cfg_mesh (fill_config h name key paths n nomap c)) = key"
  "cfg_sdk (fill_config h name key paths n nomap c) = paths"
  "max_concurrent (cfg_pool (fill_config h name key paths n nomap c)) = or_int n (recommended_max_emulators h)"
  by (simp_all add: fill_config_def apply_defaults_def default_pool_def Let_def)

lemma register_spins:
  "snd (register_install e ls fs) = None \<longleftrightarrow>
     if_marker fs = None \<and> fst (get_install_id (se_uuid e) (se_dir_made e) (se_id_written e) (if_id fs)) \<noteq> None \<and>
     (\<forall>l \<in> set ls. \<not> validate_email (trim_space l))"
proof -
  have "ask_email ls = None \<longleftrightarrow> dropWhile (\<lambda>l. \<not> validate_email (trim_space l)) ls = []"
    by (simp add: ask_email_first split: list.split del: dropWhile_eq_Nil_conv)
  then show ?thesis by (auto simp: register_install_def dropWhile_eq_Nil_conv split: option.splits prod.splits)
qed

lemma ask_email_valid: "ask_email ls = Some (email, rest) \<Longrightarrow> validate_email email"
  by (auto simp: ask_email_first dropWhile_eq_Cons_conv split: list.splits)

lemma register_sends:
  assumes "register_install e ls fs = (fs1, Some sent)"
  shows "sent = [] \<and> if_marker fs1 = if_marker fs \<or>
    (\<exists>req. if_marker fs = None \<and> validate_email (su_email req) \<and> sent = signup (se_vars e) req \<and>
       if_marker fs1 = (if se_marker_written e then Some (su_email req @ [nl]) else None))"
proof -
  have "su_email (signup_of e i email org) = email" for i email org by (simp add: signup_of_def)
  with assms show ?thesis
    by (auto simp: register_install_def split: option.splits prod.splits if_splits) (metis ask_email_valid)+
qed

text \<open>C38: Setting a host up. When the configuration can be written it is a standalone one with between 1 and 64
  emulators, and a start accepts it exactly when the ports and profiles of the old one are usable, so always when there
  was none. The command returns unless it has to ask for an email address and no line of the remaining input is one:
  then it asks for ever, as with a closed input. Otherwise it signs up at most once, with a valid address, and not
  again when it is marked as registered. When the configuration cannot be written nothing is changed.\<close>

theorem setup_correct:
  assumes "run_state (run_setup e ls fs) s = ((out, fs1), s1)"
  shows "if \<not> wz_writable e then out = SaveFailed \<and> fs1 = fs
    else (\<exists>c. wf_config fs1 = Some c \<and> max_concurrent (cfg_pool c) \<in> {1..64} \<and> mesh_name (cfg_mesh c) = [] \<and>
            mesh_key (cfg_mesh c) = [] \<and> (load_config (wz_host e) c = Inr c \<longleftrightarrow> startable (wz_old e))) \<and>
         (out = AsksForEver \<longleftrightarrow> if_marker (wf_install fs) = None \<and>
            fst (get_install_id (se_uuid (wz_signup e)) (se_dir_made (wz_signup e)) (se_id_written (wz_signup e)) (if_id (wf_install fs))) \<noteq> None \<and>
            (\<forall>l \<in> set (snd (prompt_max_concurrent 1 ls)). \<not> validate_email (trim_space l))) \<and>
         (\<forall>sent err. out = SetUp sent err \<longrightarrow> sent = [] \<and> if_marker (wf_install fs1) = if_marker (wf_install fs) \<or>
            (\<exists>req. if_marker (wf_install fs) = None \<and> validate_email (su_email req) \<and> sent = signup (se_vars (wz_signup e)) req \<and>
               if_marker (wf_install fs1) = (if se_marker_written (wz_signup e) then Some (su_email req @ [nl]) else None)))"
proof -
  define rest where "rest = snd (prompt_max_concurrent 1 ls)"
  obtain r paths where r: "1 \<le> r" "r \<le> 12" and v: "(out, fs1) = finish_setup e rest fs (if wz_writable e
       then Some (fill_config (wz_host e) [] [] paths (fst (prompt_max_concurrent r ls)) (snd (wz_old e)) (fst (wz_old e))) else None)"
    unfolding rest_def using run_setup_value [OF assms] by metis
  define n where "n = fst (prompt_max_concurrent r ls)"
  have n: "n \<in> {1..64}" unfolding n_def by (rule prompt_bounds) (use r in simp_all)
  define c where "c = fill_config (wz_host e) [] [] paths n (snd (wz_old e)) (fst (wz_old e))"
  have c: "max_concurrent (cfg_pool c) \<in> {1..64}" "mesh_name (cfg_mesh c) = []" "mesh_key (cfg_mesh c) = []"
    "load_config (wz_host e) c = Inr c \<longleftrightarrow> startable (wz_old e)"
    using n fill_config_loads [of n "wz_host e" "[]" "[]" paths "wz_old e"] by (simp_all add: c_def fill_config_fields)
  show ?thesis
  proof (cases "wz_writable e")
    case False
    with v show ?thesis by (simp add: finish_setup_def)
  next
    case True
    obtain inst answer where reg: "register_install (wz_signup e) rest (wf_install fs) = (inst, answer)"
      by (cases "register_install (wz_signup e) rest (wf_install fs)") auto
    have out: "wf_config fs1 = Some c" "wf_install fs1 = inst" "out = AsksForEver \<longleftrightarrow> answer = None"
      "\<And>sent err. out = SetUp sent err \<Longrightarrow> answer = Some sent"
      using v True reg by (auto simp: finish_setup_def c_def n_def split: option.splits prod.splits)
    show ?thesis
      using True c out register_spins [of "wz_signup e" rest "wf_install fs"] register_sends [of "wz_signup e" rest "wf_install fs" inst] reg
      by (simp add: rest_def)
  qed
qed

definition new_host :: wizard_env where
  "new_host = \<lparr>wz_world = tool_host ''24.0'', wz_host = \<lparr>os_hostname = None, os_home = ''/h'', os_darwin = False\<rparr>,
     wz_cpus = 8, wz_old = (zero_config, True), wz_writable = True,
     wz_signup = \<lparr>se_vars = (\<lambda>v. []), se_uuid = ''u'', se_dir_made = True, se_id_written = True, se_marker_written = True,
       se_hostname = None, se_os = ''linux'', se_arch = ''arm64'', se_version = ''dev''\<rparr>,
     wz_launchd = \<lparr>ld_home = ''/h'', ld_mkdir = True, ld_create = True, ld_write = True, ld_remove = True, ld_run = (\<lambda>c. True)\<rparr>,
     wz_binary = None\<rparr>"

definition no_files :: wizard_files where
  "no_files = \<lparr>wf_config = None, wf_install = \<lparr>if_marker = None, if_id = None\<rparr>, wf_launchd = \<lparr>ls_plist = None, ls_ran = []\<rparr>\<rparr>"

lemma setup_correct_witness:
  "fst (fst (run_state (run_setup new_host [] no_files) fresh_run)) = AsksForEver \<and>
   (\<exists>c. wf_config (snd (fst (run_state (run_setup new_host [] no_files) fresh_run))) = Some c \<and> load_config (wz_host new_host) c = Inr c)"
proof -
  obtain out fs1 s1 where r: "run_state (run_setup new_host [] no_files) fresh_run = ((out, fs1), s1)"
    by (metis prod.collapse)
  have "startable (zero_config, True)" by code_simp
  moreover have "wz_writable new_host" "wz_old new_host = (zero_config, True)" "if_marker (wf_install no_files) = None"
    "fst (get_install_id (se_uuid (wz_signup new_host)) (se_dir_made (wz_signup new_host))
       (se_id_written (wz_signup new_host)) (if_id (wf_install no_files))) \<noteq> None"
    by (simp_all add: new_host_def no_files_def get_install_id_def)
  ultimately show ?thesis using setup_correct [OF r] by (auto simp: r)
qed

text \<open>The recommended number of emulators is between 1 and 12. More than one is recommended only when the memory
  beyond 4 GB holds that many at 2.5 GB each and there are two processors for each, and no larger number up to 12
  would fit. Off macOS the memory is taken as 0, so one is recommended on every machine.\<close>

theorem recommendation_fits:
  fixes w s cpus
  defines "hw \<equiv> fst (run_state (compute_hardware w cpus) s)"
  shows "hw_recommended hw \<in> {1..12} \<and>
    (1 < hw_recommended hw \<longrightarrow> hw_recommended hw * 2500 \<le> (hw_ram hw - 4) * 1000 \<and> 2 * hw_recommended hw \<le> cpus) \<and>
    (\<forall>n. hw_recommended hw < n \<and> n \<le> 12 \<longrightarrow> (hw_ram hw - 4) * 1000 < n * 2500 \<or> cpus < 2 * n) \<and>
    (sw_os w \<noteq> ''darwin'' \<longrightarrow> hw_recommended hw = 1)"
proof -
  obtain ram disk where h: "hw = size_hardware ram cpus disk" and off: "sw_os w \<noteq> ''darwin'' \<longrightarrow> ram = 0"
    unfolding hw_def using compute_is_sized by blast
  have "hw_recommended (size_hardware 0 cpus disk) = 1" by (simp add: size_hardware_def Let_def)
  then show ?thesis unfolding h size_hardware_fields using sized_to_fit [of ram cpus disk] off by auto
qed

text \<open>A Mac with 16 GB and eight processors.\<close>

definition mac_host :: setup_world where
  "mac_host = (tool_host ''17179869184'')\<lparr>sw_os := ''darwin''\<rparr>"

lemma mac_host_ram: "ram_gb (Printed ''17179869184'') = 16"
proof -
  have "digit_val CHR ''0'' = Some 0" "digit_val CHR ''1'' = Some 1" "digit_val CHR ''4'' = Some 4" "digit_val CHR ''6'' = Some 6"
    "digit_val CHR ''7'' = Some 7" "digit_val CHR ''8'' = Some 8" "digit_val CHR ''9'' = Some 9" by code_simp+
  moreover have "\<not> is_space CHR ''1''" "trim_space ''17179869184'' = ''17179869184''" by code_simp+
  ultimately show ?thesis by (simp add: ram_gb_def worked_def printed_def scan_or_def scan_int_def atoi_def go_div_def)
qed

lemma recommendation_fits_witness:
  "hw_recommended (fst (run_state (compute_hardware mac_host 8) fresh_run)) = 4 \<and>
   4 * 2500 \<le> (hw_ram (fst (run_state (compute_hardware mac_host 8) fresh_run)) - 4) * 1000"
proof -
  have "hw_recommended (fst (run_state (compute_hardware mac_host 8) fresh_run)) = 4"
    by (simp add: compute_hardware_def probe_def mac_host_def tool_host_def mac_host_ram size_hardware_def Let_def)
  with recommendation_fits [of mac_host 8 fresh_run] show ?thesis by simp
qed

end
