(* ===== verification/Cli.thy ===== *)
theory Cli
  imports Routes Wizard RegistryApi
begin

text \<open>
  The commands that ask the daemon of this machine (\<^verbatim>\<open>cmd/session.go\<close>, \<^verbatim>\<open>cmd/status.go\<close>) and list the network
  (\<^verbatim>\<open>cmd/discover.go\<close>). A command goes through the router of the server to the handler and reads the answer. The
  columns are cells, without the blanks that align them; the symbols of \<^verbatim>\<open>status\<close> are a datatype.
\<close>

subsection \<open>Asking the daemon\<close>

text \<open>\<open>cl_daemon\<close>: the configuration of the daemon, when one runs; \<open>cl_elapsed\<close>: how long it takes to answer;
  \<open>cl_rest\<close>: the handlers that are not those of the sessions. The clock texts belong to the library.\<close>

record cli_env =
  cl_dispatch :: "string \<Rightarrow> string \<Rightarrow> routed"
  cl_daemon :: "config option"
  cl_elapsed :: duration
  cl_broker :: broker_env
  cl_rest :: "string \<Rightarrow> params \<Rightarrow> broker \<Rightarrow> reply option \<times> broker"
  cl_rfc :: "time \<Rightarrow> string"
  cl_clock :: "time \<Rightarrow> string"

definition url_param :: "string \<Rightarrow> params \<Rightarrow> string" where
  "url_param x ps = (case map_of ps x of Some v \<Rightarrow> v | None \<Rightarrow> [])"

text \<open>The commands know one address, port 9401 of this machine, whatever the configuration says.\<close>

definition reaches_daemon :: "config option \<Rightarrow> bool" where
  "reaches_daemon d = (case d of None \<Rightarrow> False | Some c \<Rightarrow> api_port (cfg_api c) = 9401)"

definition handle_session :: "cli_env \<Rightarrow> create_request \<Rightarrow> string \<Rightarrow> params \<Rightarrow> broker \<Rightarrow> reply option \<times> broker" where
  "handle_session e body h ps b =
     (if h = ''sessH.Create'' then post_session (cl_broker e) (Some body) b
      else if h = ''sessH.List'' then (Some (list_sessions b), b)
      else if h = ''sessH.Get'' then (Some (get_session_reply (url_param ''id'' ps) b), b)
      else if h = ''sessH.Release'' then (case delete_session (cl_broker e) (url_param ''id'' ps) b of (r, b1) \<Rightarrow> (Some r, b1))
      else cl_rest e h ps b)"

text \<open>The answer that arrives, \<open>None\<close> when the connection fails.\<close>

definition ask_daemon :: "cli_env \<Rightarrow> string \<Rightarrow> string \<Rightarrow> create_request \<Rightarrow> broker \<Rightarrow> reply option \<times> broker" where
  "ask_daemon e method path body b =
     (if \<not> reaches_daemon (cl_daemon e) then (None, b)
      else (case (case cl_dispatch e method path of
                    Found h ps \<Rightarrow> handle_session e body h ps b
                  | WrongMethod \<Rightarrow> (Some (answer 405 BEmpty), b)
                  | NoRoute \<Rightarrow> (Some (answer 404 BEmpty), b)) of
              (r, b1) \<Rightarrow> (delivered (cl_elapsed e) r, b1)))"

subsection \<open>Sessions\<close>

datatype cli_result =
    Unreachable | Refused int api_body | Unreadable | Verbatim api_body | Shown "string list list" | NilRequest

text \<open>The flags: \<open>--profile\<close>, \<open>--platform\<close>, \<open>--timeout\<close>, \<open>--json\<close>.\<close>

record session_flags =
  fl_profile :: string
  fl_platform :: string
  fl_timeout :: int
  fl_json :: bool

definition cli_request :: "session_flags \<Rightarrow> create_request" where
  "cli_request f = \<lparr>rq_platform = fl_platform f, rq_profile = fl_profile f, rq_client_id = [], rq_client_name = [],
     rq_source = ''cli'', rq_labels = [], rq_timeout_min = fl_timeout f, rq_device_id = [], rq_avd_name = [], rq_caps = None\<rparr>"

definition host_port :: "string \<Rightarrow> int \<Rightarrow> string" where "host_port h p = h @ '':'' @ itoa p"

definition created_lines :: "cli_env \<Rightarrow> session \<Rightarrow> string list list" where
  "created_lines e s =
     (let c = sess_conn s in
      [[''Session created!''], [''ID:'', sess_id s], [''Node:'', sess_node s], [''Profile:'', sess_profile s],
       [''Serial:'', conn_serial c], [''ADB:'', host_port (conn_host c) (conn_adb_port c)],
       [''Console:'', host_port (conn_host c) (conn_console_port c)], [''Expires:'', cl_rfc e (sess_expires s)],
       [''Connect with:''], [''adb connect'', host_port (conn_host c) (conn_adb_port c)],
       [''Release when done:''], [''drizz-farm session release --id'', sess_id s]])"

definition session_create :: "cli_env \<Rightarrow> session_flags \<Rightarrow> broker \<Rightarrow> cli_result \<times> broker" where
  "session_create e f b =
     (case ask_daemon e ''POST'' ''/api/v1/sessions'' (cli_request f) b of
        (None, b1) \<Rightarrow> (Unreachable, b1)
      | (Some r, b1) \<Rightarrow>
          (if rp_status r \<noteq> 201 then Refused (rp_status r) (rp_body r)
           else if fl_json f then Verbatim (rp_body r)
           else case rp_body r of BSession s \<Rightarrow> Shown (created_lines e s) | _ \<Rightarrow> Unreadable, b1))"

definition session_row_cells :: "cli_env \<Rightarrow> session \<Rightarrow> string list" where
  "session_row_cells e s =
     [sess_id s, sess_node s, sess_profile s, session_state_name (sess_state s), conn_serial (sess_conn s),
      host_port (conn_host (sess_conn s)) (conn_adb_port (sess_conn s)), cl_clock e (sess_created s), cl_clock e (sess_expires s)]"

definition session_table :: "cli_env \<Rightarrow> session list \<Rightarrow> nat \<Rightarrow> nat \<Rightarrow> string list list" where
  "session_table e ss active queued =
     [''Sessions (active: '' @ itoa (int active) @ '', queued: '' @ itoa (int queued) @ '')''] #
     (if ss = [] then [[''No sessions.'']]
      else [''ID'', ''NODE'', ''PROFILE'', ''STATE'', ''SERIAL'', ''ADB'', ''CREATED'', ''EXPIRES''] # map (session_row_cells e) ss)"

text \<open>The status is not looked at: an error body has none of the fields and reads as an empty list.\<close>

definition session_list :: "cli_env \<Rightarrow> bool \<Rightarrow> broker \<Rightarrow> cli_result \<times> broker" where
  "session_list e as_json b =
     (case ask_daemon e ''GET'' ''/api/v1/sessions'' (cli_request \<lparr>fl_profile = [], fl_platform = [], fl_timeout = 0, fl_json = False\<rparr>) b of
        (None, b1) \<Rightarrow> (Unreachable, b1)
      | (Some r, b1) \<Rightarrow>
          (if as_json then Verbatim (rp_body r)
           else case rp_body r of
               BSessions ss n active queued \<Rightarrow> Shown (session_table e ss active queued)
             | BError code \<Rightarrow> Shown (session_table e [] 0 0)
             | _ \<Rightarrow> Unreadable, b1))"

text \<open>The id is put into the URL as it is. A URL that does not parse gives no request, and the client gets a nil one.\<close>

fun escapes_ok :: "string \<Rightarrow> bool" where
  "escapes_ok [] = True"
| "escapes_ok (ch # cs) =
     (if ch = CHR ''%'' then (case cs of a # b # r \<Rightarrow> hex_val a \<noteq> None \<and> hex_val b \<noteq> None \<and> escapes_ok r | _ \<Rightarrow> False)
      else escapes_ok cs)"

definition control_char :: "char \<Rightarrow> bool" where
  "control_char ch \<longleftrightarrow> (let n = (of_char ch :: nat) in n < 32 \<or> n = 127)"

definition url_path :: "string \<Rightarrow> string" where "url_path u = takeWhile (\<lambda>ch. ch \<noteq> CHR ''?'' \<and> ch \<noteq> CHR ''#'') u"
definition url_fragment :: "string \<Rightarrow> string" where "url_fragment u = tl (dropWhile (\<lambda>ch. ch \<noteq> CHR ''#'') u)"

definition url_parses :: "string \<Rightarrow> bool" where
  "url_parses u \<longleftrightarrow> list_all (\<lambda>ch. \<not> control_char ch) u \<and> escapes_ok (url_path u) \<and> escapes_ok (url_fragment u)"

definition session_release :: "cli_env \<Rightarrow> string \<Rightarrow> broker \<Rightarrow> cli_result \<times> broker" where
  "session_release e sid b =
     (if \<not> url_parses sid then (NilRequest, b)
      else (case ask_daemon e ''DELETE'' (url_path (''/api/v1/sessions/'' @ sid))
               (cli_request \<lparr>fl_profile = [], fl_platform = [], fl_timeout = 0, fl_json = False\<rparr>) b of
          (None, b1) \<Rightarrow> (Unreachable, b1)
        | (Some r, b1) \<Rightarrow>
            (if rp_status r \<noteq> 200 then Refused (rp_status r) (rp_body r)
             else Shown [[''Session '' @ sid @ '' released.'']], b1)))"

subsection \<open>Status\<close>

fun to_display_state :: "device_state \<Rightarrow> string" where
  "to_display_state StateCreating = ''CREATING''"
| "to_display_state StateBooting = ''BOOTING''"
| "to_display_state StateWarm = ''ONLINE''"
| "to_display_state StateAllocated = ''ALLOCATED''"
| "to_display_state StateResetting = ''RESETTING''"
| "to_display_state StateDestroying = ''SHUTTING DOWN''"
| "to_display_state StateError = ''ERROR''"

datatype icon = Full | Half | Turning | Cross | Empty

definition state_icon :: "string \<Rightarrow> icon" where
  "state_icon d =
     (if d = ''ONLINE'' \<or> d = ''ALLOCATED'' then Full
      else if d = ''CREATING'' \<or> d = ''BOOTING'' then Half
      else if d = ''RESETTING'' \<or> d = ''SHUTTING DOWN'' then Turning
      else if d = ''ERROR'' then Cross else Empty)"

record avd_line =
  al_icon :: icon
  al_name :: string
  al_state :: string
  al_detail :: string

text \<open>Of several instances of one name the last counts.\<close>

definition pool_by_avd :: "instance_snapshot list \<Rightarrow> string \<Rightarrow> instance_snapshot option" where
  "pool_by_avd is = map_of (rev (map (\<lambda>i. (snap_device_name i, i)) is))"

definition online_detail :: "instance_snapshot \<Rightarrow> string" where
  "online_detail i =
     ''  '' @ (if snap_node i \<noteq> [] then snap_node i @ '':'' else []) @ snap_serial i @ ''  port:'' @
     itoa (case snap_connection i of None \<Rightarrow> 0 | Some c \<Rightarrow> ci_adb_port c) @
     (if snap_session i \<noteq> [] then ''  session:'' @ snap_session i else [])"

definition avd_line_of :: "instance_snapshot list \<Rightarrow> string \<Rightarrow> avd_line" where
  "avd_line_of is name =
     (case pool_by_avd is name of
        None \<Rightarrow> \<lparr>al_icon = Empty, al_name = name, al_state = ''OFFLINE'', al_detail = []\<rparr>
      | Some i \<Rightarrow>
          (let d = to_display_state (snap_state i)
           in \<lparr>al_icon = state_icon d, al_name = name, al_state = d,
                al_detail = (if d = ''ONLINE'' then online_detail i else [])\<rparr>))"

text \<open>The report. \<open>ss_pool\<close>, \<open>ss_sessions\<close> and \<open>ss_uptime\<close>: what the daemon answers, \<open>None\<close> when it cannot be asked or
  read; \<open>ss_memory\<close>: what sysctl prints.\<close>

record status_env =
  ss_pid :: pid_file
  ss_alive :: "int \<Rightarrow> bool"
  ss_configured :: bool
  ss_sdk :: sdk_host
  ss_avds :: "avd_info list option"
  ss_darwin :: bool
  ss_memory :: tool_result
  ss_pool :: "pool_status option"
  ss_sessions :: "(int \<times> int) option"
  ss_uptime :: "string option"

record status_report =
  rs_daemon :: "int option"
  rs_configured :: bool
  rs_sdk :: "string option"
  rs_avds :: "string list"
  rs_lines :: "avd_line list"
  rs_ram :: "int option"
  rs_summary :: "(nat \<times> nat \<times> nat \<times> nat \<times> int) option"
  rs_counts :: "(int \<times> int) option"
  rs_uptime :: "string option"

definition run_status :: "status_env \<Rightarrow> status_report" where
  "run_status e =
     (let up = pid_running (ss_alive e) (ss_pid e);
          sdk = detect_sdk (ss_sdk e);
          names = (case (sdk, ss_avds e) of (Some r, Some as) \<Rightarrow> map avd_name as | _ \<Rightarrow> []);
          pool = (if up then ss_pool e else None)
      in \<lparr>rs_daemon = (if up then Some (case pid_read (ss_pid e) of Inr pid \<Rightarrow> pid | Inl err \<Rightarrow> 0) else None),
           rs_configured = ss_configured e, rs_sdk = sdk, rs_avds = names,
           rs_lines = map (avd_line_of (case pool of None \<Rightarrow> [] | Some p \<Rightarrow> st_instances p)) names,
           rs_ram = (if ss_darwin e \<and> worked (ss_memory e) then Some (ram_gb (ss_memory e)) else None),
           rs_summary = map_option (\<lambda>p. (st_warm p, st_allocated p, st_booting p, st_error p, st_capacity p)) pool,
           rs_counts = (if up then ss_sessions e else None),
           rs_uptime = (if up then ss_uptime e else None)\<rparr>)"

subsection \<open>Listing the network\<close>

definition discover_table :: "found_node list \<Rightarrow> string list list" where
  "discover_table ns =
     (if ns = [] then [[''No drizz-farm nodes found on the network.''], [''Start a node with: drizz-farm start'']]
      else [''Found '' @ itoa (int (length ns)) @ '' node(s):''] #
        [''NAME'', ''HOST'', ''PORT'', ''CAPACITY'', ''ANDROID'', ''iOS'', ''VERSION'', ''TIER''] #
        map (\<lambda>n. [fn_name n, fn_host n, itoa (fn_port n), itoa (fn_capacity n), itoa (fn_android n), itoa (fn_ios n),
          fn_version n, fn_tier n]) ns)"

text \<open>\<open>None\<close> is an error of the browser.\<close>

definition run_discover :: "found_node list option \<Rightarrow> string list list option" where
  "run_discover found = map_option discover_table found"

subsection \<open>From the command to the device and back\<close>

definition plain_id :: "string \<Rightarrow> bool" where
  "plain_id sid \<longleftrightarrow> sid \<noteq> [] \<and> list_all (\<lambda>ch. ch \<notin> {slash, CHR ''?'', CHR ''#'', CHR ''%''} \<and> \<not> control_char ch) sid"

lemma escapes_ok_none: "CHR ''%'' \<notin> set s \<Longrightarrow> escapes_ok s"
  by (induction s) auto

lemma plain_id_url:
  assumes "plain_id sid"
  shows "url_parses sid" "url_path (''/api/v1/sessions/'' @ sid) = ''/api/v1/sessions/'' @ sid"
proof -
  have "\<forall>ch \<in> set sid. ch \<noteq> CHR ''?'' \<and> ch \<noteq> CHR ''#''" "CHR ''%'' \<notin> set sid" "list_all (\<lambda>ch. \<not> control_char ch) sid"
    using assms by (auto simp: plain_id_def list_all_iff)
  then show "url_parses sid" "url_path (''/api/v1/sessions/'' @ sid) = ''/api/v1/sessions/'' @ sid"
    by (auto simp: url_parses_def url_path_def url_fragment_def takeWhile_eq_all_conv [THEN iffD2] dropWhile_eq_Nil_conv [THEN iffD2]
        intro: escapes_ok_none)
qed

lemma session_paths:
  assumes "chi_router farm_routes d"
  shows "d ''POST'' ''/api/v1/sessions'' = Found ''sessH.Create'' []" "d ''GET'' ''/api/v1/sessions'' = Found ''sessH.List'' []"
    "plain_id sid \<Longrightarrow> d ''DELETE'' (''/api/v1/sessions/'' @ sid) = Found ''sessH.Release'' [(''id'', sid)]"
proof -
  have in_routes: "(m, ''/api/v1'' @ p, h) \<in> set farm_routes" if "(m, p, h) \<in> set session_routes" for m p h
  proof -
    have "(m, base @ p, h) \<in> set (mounted base rows)" if "(m, p, h) \<in> set rows" for base rows
      using that unfolding mounted_def set_map by (rule rev_image_eqI) simp
    then show ?thesis unfolding farm_routes_def set_append by (rule UnI2) (use that in simp)
  qed
  have routes: "(''POST'', ''/sessions'', ''sessH.Create'') \<in> set session_routes" "(''GET'', ''/sessions'', ''sessH.List'') \<in> set session_routes"
    "(''DELETE'', ''/sessions/{id}'', ''sessH.Release'') \<in> set session_routes"
    by (simp_all add: session_routes_def)
  note reached = route_reached [OF assms _ in_routes]
  have p: "plain_path ''/api/v1/sessions''" "fits ''POST'' (''POST'', ''/api/v1'' @ ''/sessions'', ''sessH.Create'')"
    "fits ''GET'' (''GET'', ''/api/v1'' @ ''/sessions'', ''sessH.List'')"
    "route_binds (''POST'', ''/api/v1'' @ ''/sessions'', ''sessH.Create'') ''/api/v1/sessions'' = Some []"
    "route_binds (''GET'', ''/api/v1'' @ ''/sessions'', ''sessH.List'') ''/api/v1/sessions'' = Some []"
    by code_simp+
  show "d ''POST'' ''/api/v1/sessions'' = Found ''sessH.Create'' []"
    using reached [OF p(1) routes(1) p(2,4)] by (simp add: proxy_route_def)
  show "d ''GET'' ''/api/v1/sessions'' = Found ''sessH.List'' []"
    using reached [OF p(1) routes(2) p(3,5)] by (simp add: proxy_route_def)
  assume sid: "plain_id sid"
  then have "slash \<notin> set sid" by (auto simp: plain_id_def list_all_iff)
  then have "split_on (CHR ''/'') sid = [sid]" using split_on_none [of slash sid] by (simp add: slash_def)
  then have seg: "segments (''/api/v1/sessions/'' @ sid) = [''api'', ''v1'', ''sessions'', sid]"
    by (simp add: segments_def slash_def)
  have pat: "pattern (''/api/v1'' @ ''/sessions/{id}'') = [Lit ''api'', Lit ''v1'', Lit ''sessions'', Param ''id'']" by code_simp
  have "plain_path (''/api/v1/sessions/'' @ sid)" using sid seg
    by (auto simp: plain_path_def has_prefix_def slash_def plain_id_def)
  moreover have "route_binds (''DELETE'', ''/api/v1'' @ ''/sessions/{id}'', ''sessH.Release'') (''/api/v1/sessions/'' @ sid) = Some [(''id'', sid)]"
    using sid unfolding route_binds_def fst_conv snd_conv pat seg by (simp add: plain_id_def)
  moreover have "fits ''DELETE'' (''DELETE'', ''/api/v1'' @ ''/sessions/{id}'', ''sessH.Release'')" by (simp add: fits_def)
  ultimately show "d ''DELETE'' (''/api/v1/sessions/'' @ sid) = Found ''sessH.Release'' [(''id'', sid)]"
    using reached [OF _ routes(3)] by (simp add: proxy_route_def)
qed

text \<open>What the three commands do once the daemon is reached.\<close>

lemma create_asks:
  assumes "chi_router farm_routes (cl_dispatch e)" "reaches_daemon (cl_daemon e)"
  shows "ask_daemon e ''POST'' ''/api/v1/sessions'' body b =
    (delivered (cl_elapsed e) (fst (post_session (cl_broker e) (Some body) b)), snd (post_session (cl_broker e) (Some body) b))"
  using assms(2) by (simp add: ask_daemon_def session_paths [OF assms(1)] handle_session_def split_beta)

lemma release_asks:
  assumes "chi_router farm_routes (cl_dispatch e)" "reaches_daemon (cl_daemon e)" "plain_id sid"
  shows "session_release e sid b =
    (case delivered (cl_elapsed e) (Some (fst (delete_session (cl_broker e) sid b))) of
       None \<Rightarrow> Unreachable
     | Some r \<Rightarrow> if rp_status r \<noteq> 200 then Refused (rp_status r) (rp_body r) else Shown [[''Session '' @ sid @ '' released.'']],
     snd (delete_session (cl_broker e) sid b))"
  using assms(2) plain_id_url [OF assms(3)] session_paths(3) [OF assms(1,3)]
  by (simp add: session_release_def ask_daemon_def handle_session_def url_param_def split_beta split: option.split del: append_Cons)

lemma create_shown:
  assumes "chi_router farm_routes (cl_dispatch e)" and "session_create e f b = (Shown ls, b1)"
  obtains s req where "broker_create (cl_broker e) req b = (Created s, b1)" "ls = created_lines e s"
proof -
  obtain r b2 where r: "post_session (cl_broker e) (Some (cli_request f)) b = (r, b2)" by fastforce
  have up: "reaches_daemon (cl_daemon e)"
    using assms(2) by (rule_tac ccontr) (simp add: session_create_def ask_daemon_def)
  have "r \<noteq> None" using assms(2) r by (cases r) (auto simp: session_create_def create_asks [OF assms(1) up] delivered_def split: if_splits)
  then obtain a where a: "r = Some a" by blast
  with assms(2) r have "rp_status a = 201" "b2 = b1" and ls: "\<And>s. rp_body a = BSession s \<Longrightarrow> ls = created_lines e s"
    by (auto simp: session_create_def create_asks [OF assms(1) up] delivered_def split: if_splits)
  with post_session_created [of "cl_broker e" "cli_request f" b a b1] r a that ls show thesis
    by (auto simp: answer_def)
qed

lemma error_not_200: "rp_status (pool_error_reply e) \<noteq> 200"
  by (cases e) (simp_all add: pool_error_reply_def fail_with_def answer_def)

text \<open>Releasing the session \<open>s\<close>, from any terminal that reaches the daemon in time.\<close>

definition released_by_command :: "(string \<Rightarrow> string \<Rightarrow> routed) \<Rightarrow> session \<Rightarrow> broker \<Rightarrow> bool" where
  "released_by_command d s b1 \<longleftrightarrow>
     (\<forall>e1 e2 res b2. cl_dispatch e1 = d \<and> cl_dispatch e2 = d \<and> reaches_daemon (cl_daemon e1) \<and>
        reaches_daemon (cl_daemon e2) \<and> cl_elapsed e1 < write_timeout \<and> cl_elapsed e2 < write_timeout \<and>
        session_release e1 (sess_id s) b1 = (res, b2) \<longrightarrow>
          get_session (sess_id s) b2 = Some (end_session SessionReleased (be_now (cl_broker e1)) s) \<and>
          (res = Shown [[''Session '' @ sess_id s @ '' released.'']] \<longleftrightarrow>
             fst (pool_release (be_pool (cl_broker e1)) (sess_instance s) (b_pool b1)) = None) \<and>
          session_release e2 (sess_id s) b2 = (Refused 409 (BError ''session_not_active''), b2))"

lemma created_then_released:
  assumes "chi_router farm_routes (cl_dispatch e1)" "reaches_daemon (cl_daemon e1)" "cl_elapsed e1 < write_timeout"
    and "chi_router farm_routes (cl_dispatch e2)" "reaches_daemon (cl_daemon e2)" "cl_elapsed e2 < write_timeout"
    and "plain_id (sess_id s)" "get_session (sess_id s) b1 = Some s" "session_is_active s"
    and "session_release e1 (sess_id s) b1 = (res, b2)"
  shows "get_session (sess_id s) b2 = Some (end_session SessionReleased (be_now (cl_broker e1)) s)"
    "res = Shown [[''Session '' @ sess_id s @ '' released.'']] \<longleftrightarrow>
       fst (pool_release (be_pool (cl_broker e1)) (sess_instance s) (b_pool b1)) = None"
    "session_release e2 (sess_id s) b2 = (Refused 409 (BError ''session_not_active''), b2)"
proof -
  obtain r b3 where "delete_session (cl_broker e1) (sess_id s) b1 = (r, b3)" by fastforce
  moreover from this have "b3 = b2" using assms(10) release_asks [OF assms(1,2,7), of b1] by simp
  ultimately have r: "delete_session (cl_broker e1) (sess_id s) b1 = (r, b2)" by simp
  note twice = delete_session_twice [OF assms(8,9) r]
  show "get_session (sess_id s) b2 = Some (end_session SessionReleased (be_now (cl_broker e1)) s)"
    using twice(1) by (auto simp: get_session_reply_def answer_def error_reply_def fail_with_def split: option.splits)
  have res: "res = (if rp_status r \<noteq> 200 then Refused (rp_status r) (rp_body r) else Shown [[''Session '' @ sess_id s @ '' released.'']])"
    using assms(10) release_asks [OF assms(1,2,7), of b1] r assms(3) by (simp add: delivered_def)
  show "res = Shown [[''Session '' @ sess_id s @ '' released.'']] \<longleftrightarrow>
       fst (pool_release (be_pool (cl_broker e1)) (sess_instance s) (b_pool b1)) = None"
    unfolding res twice(3) by (simp add: error_not_200 answer_def split: option.split)
  show "session_release e2 (sess_id s) b2 = (Refused 409 (BError ''session_not_active''), b2)"
    using release_asks [OF assms(4,5,7), of b2] twice(2) assms(6) by (simp add: delivered_def fail_with_def answer_def)
qed

lemma released:
  assumes "chi_router farm_routes d" "plain_id (sess_id s)" "get_session (sess_id s) b1 = Some s" "session_is_active s"
  shows "released_by_command d s b1"
  unfolding released_by_command_def
proof (intro allI impI)
  fix e1 e2 :: cli_env and res b2
  assume h: "cl_dispatch e1 = d \<and> cl_dispatch e2 = d \<and> reaches_daemon (cl_daemon e1) \<and> reaches_daemon (cl_daemon e2) \<and>
     cl_elapsed e1 < write_timeout \<and> cl_elapsed e2 < write_timeout \<and> session_release e1 (sess_id s) b1 = (res, b2)"
  with assms(1) have "chi_router farm_routes (cl_dispatch e1)" "chi_router farm_routes (cl_dispatch e2)" by simp_all
  with h show "get_session (sess_id s) b2 = Some (end_session SessionReleased (be_now (cl_broker e1)) s) \<and>
      (res = Shown [[''Session '' @ sess_id s @ '' released.'']] \<longleftrightarrow>
        fst (pool_release (be_pool (cl_broker e1)) (sess_instance s) (b_pool b1)) = None) \<and>
      session_release e2 (sess_id s) b2 = (Refused 409 (BError ''session_not_active''), b2)"
    using created_then_released [of e1 e2 s b1 res b2] assms(2-4) by (intro conjI) simp_all
qed

text \<open>C40: The session commands, through the router to the broker. A session that \<open>session create\<close> shows is active under the
  shown id. Releasing that id ends it, whatever comes back from the pool: released is printed exactly when the pool took
  the device, and a second release is refused with 409 and changes nothing. A daemon on another port is not
  reached; and when the answer takes a minute or longer the command reports that the daemon cannot be
  reached although the broker has acted on the request.\<close>

theorem cli_sessions_correct:
  assumes "chi_router farm_routes d" and "farm_run u b" and "cl_dispatch e = d"
  shows "(\<forall>f ls b1. session_create e f b = (Shown ls, b1) \<longrightarrow>
      (\<exists>s. [''ID:'', sess_id s] \<in> set ls \<and> get_session (sess_id s) b1 = Some s \<and> session_is_active s \<and>
        (plain_id (sess_id s) \<longrightarrow> released_by_command d s b1))) \<and>
    (\<not> reaches_daemon (cl_daemon e) \<longrightarrow> session_create e f b = (Unreachable, b)) \<and>
    (reaches_daemon (cl_daemon e) \<and> write_timeout \<le> cl_elapsed e \<longrightarrow>
       session_create e f b = (Unreachable, snd (post_session (cl_broker e) (Some (cli_request f)) b)))"
proof (intro conjI allI impI)
  fix f ls b1
  assume c: "session_create e f b = (Shown ls, b1)"
  have router: "chi_router farm_routes (cl_dispatch e)" using assms(1,3) by simp
  obtain s req where s: "broker_create (cl_broker e) req b = (Created s, b1)" "ls = created_lines e s"
    by (rule create_shown [OF router c])
  note g = broker_create_registers [OF s(1) farm_run_pool [OF assms(2)]]
  have "[''ID:'', sess_id s] \<in> set ls" by (simp add: s(2) created_lines_def Let_def)
  then show "\<exists>s. [''ID:'', sess_id s] \<in> set ls \<and> get_session (sess_id s) b1 = Some s \<and> session_is_active s \<and>
        (plain_id (sess_id s) \<longrightarrow> released_by_command d s b1)"
    using g released [OF assms(1)] by blast
next
  assume "\<not> reaches_daemon (cl_daemon e)"
  then show "session_create e f b = (Unreachable, b)" by (simp add: session_create_def ask_daemon_def)
next
  assume "reaches_daemon (cl_daemon e) \<and> write_timeout \<le> cl_elapsed e"
  then show "session_create e f b = (Unreachable, snd (post_session (cl_broker e) (Some (cli_request f)) b))"
    using create_asks [of e "cli_request f" b] assms(1,3) by (simp add: session_create_def delivered_def)
qed

text \<open>The lines of \<^verbatim>\<open>status\<close>: offline is exactly a device the pool does not have; the last instance of a name counts; and
  only an idle device gets its details, so a session is never shown with the device it is on.\<close>

lemma status_line:
  "al_state (avd_line_of is n) = ''OFFLINE'' \<longleftrightarrow> n \<notin> snap_device_name ` set is"
  "al_state (avd_line_of (is @ [i]) (snap_device_name i)) = to_display_state (snap_state i)"
  "snap_state i = StateAllocated \<Longrightarrow> al_detail (avd_line_of (is @ [i]) (snap_device_name i)) = []"
proof -
  have named: "to_display_state d \<noteq> ''OFFLINE''" for d by (cases d) simp_all
  have "pool_by_avd is n = None \<longleftrightarrow> n \<notin> snap_device_name ` set is"
    by (auto simp: pool_by_avd_def map_of_eq_None_iff image_image)
  then show "al_state (avd_line_of is n) = ''OFFLINE'' \<longleftrightarrow> n \<notin> snap_device_name ` set is"
    using named by (auto simp: avd_line_of_def Let_def split: option.split)
  have "pool_by_avd (is @ [i]) (snap_device_name i) = Some i" by (simp add: pool_by_avd_def)
  then show "al_state (avd_line_of (is @ [i]) (snap_device_name i)) = to_display_state (snap_state i)"
    "snap_state i = StateAllocated \<Longrightarrow> al_detail (avd_line_of (is @ [i]) (snap_device_name i)) = []"
    by (simp_all add: avd_line_of_def Let_def)
qed

text \<open>A farm with one device, asked from a terminal.\<close>

definition terminal :: cli_env where
  "terminal = \<lparr>cl_dispatch = first_route farm_routes, cl_daemon = Some (zero_config\<lparr>cfg_api := default_api (cfg_api zero_config)\<rparr>),
     cl_elapsed = 0, cl_broker = small_benv, cl_rest = (\<lambda>h ps b. (None, b)), cl_rfc = (\<lambda>t. []), cl_clock = (\<lambda>t. [])\<rparr>"

definition px_flags :: session_flags where
  "px_flags = \<lparr>fl_profile = ''px'', fl_platform = ''android'', fl_timeout = 0, fl_json = False\<rparr>"

lemma plain_decimal: "plain_id (take 12 (itoa_nat n))"
proof -
  have "\<forall>d \<in> set [0..<10]. digit_char d \<notin> {slash, CHR ''?'', CHR ''#'', CHR ''%''} \<and> \<not> control_char (digit_char d)" by code_simp
  then have "c \<notin> {slash, CHR ''?'', CHR ''#'', CHR ''%''} \<and> \<not> control_char c" if "c \<in> set (take 12 (itoa_nat n))" for c
    using itoa_nat_digits [of c n] in_set_takeD [OF that] by auto
  moreover have "take 12 (itoa_nat n) \<noteq> []" by simp
  ultimately show ?thesis unfolding plain_id_def list_all_iff by blast
qed

lemma terminal_creation:
  defines "b0 \<equiv> new_broker small_config (new_pool small_config) True ''127.0.0.1''"
  shows "\<exists>s b1. session_create terminal px_flags b0 = (Shown (created_lines terminal s), b1) \<and>
    get_session (sess_id s) b1 = Some s \<and> plain_id (sess_id s)"
proof -
  obtain q where a: "allocate_any small_env ''px'' False (new_pool small_config) = (Got ''0'', q)"
    using small_allocation by (metis prod.collapse)
  have g: "got_device False (Got ''0'', q) (new_pool small_config)"
    using allocate_any_got [OF pool_ok_new [of small_config], of False small_env "''px''"] a by simp
  then obtain i where i: "get_instance ''0'' q = Some i" by (auto simp: got_device_def)
  obtain s b1 where c: "create_session_from_instance small_benv i (cli_request px_flags) (b0\<lparr>b_pool := q\<rparr>) = (s, b1)" by fastforce
  have "broker_create small_benv (cli_request px_flags) b0 = (Created s, b1)"
    using a i c by (simp add: broker_create_def cli_request_def px_flags_def Let_def allocate_def manual_caller_def
        small_benv_def b0_def new_broker_def with_allocation_def)
  then have "post_session small_benv (Some (cli_request px_flags)) b0 = (Some (answer 201 (BSession s)), b1)"
    by (simp add: post_session_def cli_request_def)
  moreover have "reaches_daemon (cl_daemon terminal)" by (simp add: reaches_daemon_def terminal_def default_api_def or_int_def zero_config_def)
  moreover have "chi_router farm_routes (cl_dispatch terminal)"
    using farm_router.chi_router_axioms by (simp add: terminal_def)
  ultimately have "session_create terminal px_flags b0 = (Shown (created_lines terminal s), b1)"
    using create_asks [of terminal "cli_request px_flags" b0]
    by (simp add: session_create_def delivered_def write_timeout_def second_ns_def terminal_def answer_def px_flags_def)
  moreover have "plain_id (sess_id s)"
    unfolding create_session_result(10) [OF c] by (simp add: small_benv_def plain_decimal)
  moreover have "get_session (sess_id s) b1 = Some s" using create_session_result(1) [OF c] by simp
  ultimately show ?thesis by blast
qed

lemma cli_sessions_correct_witness:
  "\<exists>ls sid b1 b2 res. session_create terminal px_flags (new_broker small_config (new_pool small_config) True ''127.0.0.1'') = (Shown ls, b1) \<and>
     session_release terminal sid b1 = (res, b2) \<and> get_session sid b1 \<noteq> None \<and>
     session_release terminal sid b2 = (Refused 409 (BError ''session_not_active''), b2)"
proof -
  obtain s b1 where c: "session_create terminal px_flags (new_broker small_config (new_pool small_config) True ''127.0.0.1'') =
      (Shown (created_lines terminal s), b1)" and s: "get_session (sess_id s) b1 = Some s" "plain_id (sess_id s)"
    using terminal_creation by blast
  have t: "cl_dispatch terminal = first_route farm_routes" "reaches_daemon (cl_daemon terminal)" "cl_elapsed terminal < write_timeout"
    by (simp_all add: terminal_def reaches_daemon_def default_api_def or_int_def zero_config_def write_timeout_def second_ns_def)
  note now = cli_sessions_correct [OF farm_router.chi_router_axioms farm_run.fresh [where u = itoa_nat] t(1), THEN conjunct1]
  from now [rule_format, OF c] obtain s1 where "[''ID:'', sess_id s1] \<in> set (created_lines terminal s) \<and>
      get_session (sess_id s1) b1 = Some s1 \<and> session_is_active s1 \<and>
      (plain_id (sess_id s1) \<longrightarrow> released_by_command (first_route farm_routes) s1 b1)" by (rule exE)
  then have s1: "[''ID:'', sess_id s1] \<in> set (created_lines terminal s)" "get_session (sess_id s1) b1 = Some s1"
    "plain_id (sess_id s1) \<longrightarrow> released_by_command (first_route farm_routes) s1 b1" by simp_all
  have "sess_id s1 = sess_id s" using s1(1) by (simp add: created_lines_def Let_def)
  with s s1 have "s1 = s" by (metis option.inject)
  with s(2) s1(3) have r: "released_by_command (first_route farm_routes) s b1" by metis
  obtain res b2 where d: "session_release terminal (sess_id s) b1 = (res, b2)" by fastforce
  with r t have "session_release terminal (sess_id s) b2 = (Refused 409 (BError ''session_not_active''), b2)"
    unfolding released_by_command_def by blast
  with c d s(1) show ?thesis by blast
qed

end
